(* ===== verification/DL_Prelude.thy ===== *)
theory DL_Prelude
  imports Main "HOL-Library.Word" "HOL-Library.FSet" "HOL-Library.Char_ord"
    "HOL-Library.List_Lexorder"
begin

text \<open>
  Shared vocabulary of the development: the machine integer \<open>idx\<close> (\<^verbatim>\<open>idx_t\<close>, 64 bits,
  wrapping), C++ exceptions as values of a sum type, the loops that stop at the first exception,
  decimal printing (\<^verbatim>\<open>std::to_string\<close>), and the interface of the DuckDB string utilities the
  program calls. DuckDB itself is a git submodule whose sources are not part of the repository,
  so its functions are fields of a record \<open>duckdb_string\<close> that every definition using them takes
  as an argument; what the program relies on is the locale \<open>duckdb_strings\<close>, and
  \<open>duckdb_ref\<close> is a concrete record satisfying it. The contract \<open>codec\<close> is shared by every
  encoder/decoder pair of the program.
\<close>

section \<open>Collections of facts\<close>

named_theorems dl_defs \<open>definitions unfolded when a model function is evaluated\<close>
named_theorems res_simps \<open>rewriting of computations that may throw\<close>

section \<open>Machine integers and exceptions\<close>

type_synonym idx = "64 word"

abbreviation INVALID_INDEX :: idx where
  "INVALID_INDEX \<equiv> - 1"

text \<open>
  The exceptions of the program, and \<open>OutOfBoundsAccess\<close>: not an exception but the mark of a memory
  access outside its allocation, which the language leaves undefined.
\<close>

datatype error =
    InvalidInputException string
  | InternalException string
  | TransactionException string
  | NotImplementedException string
  | PermissionException string
  | InvalidConfigurationException string
  | BinderException string
  | CatalogException string
  | ConversionException string
  | MetadataError string
  | OutOfBoundsAccess string

fun error_message :: "error \<Rightarrow> string" where
  "error_message (InvalidInputException m) = m"
| "error_message (InternalException m) = m"
| "error_message (TransactionException m) = m"
| "error_message (NotImplementedException m) = m"
| "error_message (PermissionException m) = m"
| "error_message (InvalidConfigurationException m) = m"
| "error_message (BinderException m) = m"
| "error_message (CatalogException m) = m"
| "error_message (ConversionException m) = m"
| "error_message (MetadataError m) = m"
| "error_message (OutOfBoundsAccess m) = m"

type_synonym 'a res = "error + 'a"

definition bind_res :: "'a res \<Rightarrow> ('a \<Rightarrow> 'b res) \<Rightarrow> 'b res" where
  "bind_res m f = (case m of Inl e \<Rightarrow> Inl e | Inr x \<Rightarrow> f x)"

definition is_ok :: "'a res \<Rightarrow> bool" where
  "is_ok m \<longleftrightarrow> (\<exists>x. m = Inr x)"

lemma bind_res_simps [simp, res_simps]:
  "bind_res (Inl e) f = Inl e"
  "bind_res (Inr x) f = f x"
  by (simp_all add: bind_res_def)

lemma bind_res_cong [fundef_cong]:
  "m = m' \<Longrightarrow> (\<And>x. m' = Inr x \<Longrightarrow> f x = f' x) \<Longrightarrow> bind_res m f = bind_res m' f'"
  by (cases m') (auto simp: bind_res_def)

lemma bind_res_Inr_iff [res_simps]:
  "bind_res m f = Inr y \<longleftrightarrow> (\<exists>x. m = Inr x \<and> f x = Inr y)"
  by (cases m) auto

lemma bind_res_Inl_iff:
  "bind_res m f = Inl e \<longleftrightarrow> m = Inl e \<or> (\<exists>x. m = Inr x \<and> f x = Inl e)"
  by (cases m) auto

lemma is_ok_simps [simp, res_simps]:
  "is_ok (Inr x)"
  "\<not> is_ok (Inl e)"
  by (simp_all add: is_ok_def)

lemma is_ok_code [code]:
  "is_ok m = (case m of Inl _ \<Rightarrow> False | Inr _ \<Rightarrow> True)"
  by (cases m) auto

lemma is_ok_bind [res_simps]:
  "is_ok (bind_res m f) \<longleftrightarrow> (\<exists>x. m = Inr x \<and> is_ok (f x))"
  by (cases m) auto

lemma is_ok_bind_unit [simp, res_simps]:
  "is_ok (bind_res (m :: unit res) f) \<longleftrightarrow> is_ok m \<and> is_ok (f ())"
  by (cases m) auto

lemma is_ok_if [res_simps]: "is_ok (if b then x else y) \<longleftrightarrow> (if b then is_ok x else is_ok y)"
  by simp

lemma is_ok_case_prod [res_simps]: "is_ok (case p of (a, b) \<Rightarrow> f a b) \<longleftrightarrow> (case p of (a, b) \<Rightarrow> is_ok (f a b))"
  by (cases p) simp

text \<open>A loop whose body may throw, and its special case of a body that only checks.\<close>

fun fold_res :: "('a \<Rightarrow> 's \<Rightarrow> 's res) \<Rightarrow> 'a list \<Rightarrow> 's \<Rightarrow> 's res" where
  "fold_res f [] s = Inr s"
| "fold_res f (x # xs) s = bind_res (f x s) (fold_res f xs)"

definition for_each :: "'a list \<Rightarrow> ('a \<Rightarrow> unit res) \<Rightarrow> unit res" where
  "for_each xs f = fold_res (\<lambda>x _. f x) xs ()"

fun map_res :: "('a \<Rightarrow> 'b res) \<Rightarrow> 'a list \<Rightarrow> 'b list res" where
  "map_res f [] = Inr []"
| "map_res f (x # xs) =
     bind_res (f x) (\<lambda>y. bind_res (map_res f xs) (\<lambda>ys. Inr (y # ys)))"

lemma map_res_cong [fundef_cong]:
  "xs = ys \<Longrightarrow> (\<And>x. x \<in> set ys \<Longrightarrow> f x = g x) \<Longrightarrow> map_res f xs = map_res g ys"
  by (induction ys arbitrary: xs) auto

lemma map_res_Inr_iff: "map_res f xs = Inr ys \<longleftrightarrow> list_all2 (\<lambda>x y. f x = Inr y) xs ys"
  by (induction xs arbitrary: ys) (auto simp: bind_res_Inr_iff list_all2_Cons1)

lemma for_each_simps [simp, code]:
  "for_each [] f = Inr ()"
  "for_each (x # xs) f = bind_res (f x) (\<lambda>_. for_each xs f)"
  by (simp_all add: for_each_def)

lemma is_ok_for_each [simp, res_simps]:
  "is_ok (for_each xs f) \<longleftrightarrow> (\<forall>x \<in> set xs. is_ok (f x))"
  by (induction xs) auto

text \<open>DuckDB's \<^verbatim>\<open>vector::operator[]\<close> checks its index.\<close>

definition vector_at :: "'a list \<Rightarrow> nat \<Rightarrow> 'a res" where
  "vector_at xs i = (if i < length xs then Inr (xs ! i) else Inl (InternalException ''Attempted to access index within vector''))"

lemma vector_at_Inr: "vector_at xs i = Inr x \<longleftrightarrow> i < length xs \<and> x = xs ! i"
  by (auto simp: vector_at_def)

lemma fold_res_append:
  "fold_res f (xs @ ys) s = bind_res (fold_res f xs s) (fold_res f ys)"
  by (induction xs arbitrary: s) (auto simp: bind_res_def split: sum.splits)

text \<open>
  The invariant rule of a throwing loop: what the body keeps, the loop keeps.
\<close>

lemma fold_res_invariant:
  assumes "fold_res f xs s = Inr t" and "P s"
    and "\<And>x s t. x \<in> set xs \<Longrightarrow> P s \<Longrightarrow> f x s = Inr t \<Longrightarrow> P t"
  shows "P t"
  using assms
proof (induction xs arbitrary: s)
  case Nil
  then show ?case by simp
next
  case (Cons x xs)
  from Cons.prems(1) obtain u where u: "f x s = Inr u" and rest: "fold_res f xs u = Inr t"
    by (auto simp: bind_res_Inr_iff)
  have "P u" using Cons.prems(2,3) u by auto
  with rest show ?case using Cons.IH Cons.prems(3) by auto
qed

lemma fold_res_total:
  assumes "\<And>x s. x \<in> set xs \<Longrightarrow> \<exists>t. f x s = Inr t"
  shows "\<exists>t. fold_res f xs s = Inr t"
  using assms
proof (induction xs arbitrary: s)
  case (Cons x xs)
  obtain u where "f x s = Inr u" using Cons.prems [of x s] by auto
  with Cons show ?case by auto
qed simp

lemma fold_res_map: "fold_res f (map g xs) s = fold_res (\<lambda>x. f (g x)) xs s"
proof (induction xs arbitrary: s)
  case (Cons x xs)
  then have "fold_res f (map g xs) = fold_res (\<lambda>x. f (g x)) xs" by (intro ext)
  then show ?case by simp
qed simp

text \<open>What a loop collects: if every step adds to a property \<open>Q\<close> what \<open>P\<close> says of its element.\<close>

lemma fold_res_collects:
  assumes "fold_res f xs s = Inr t"
    and "\<And>x s t. x \<in> set xs \<Longrightarrow> f x s = Inr t \<Longrightarrow> Q t \<longleftrightarrow> Q s \<or> P x"
  shows "Q t \<longleftrightarrow> Q s \<or> list_ex P xs"
  using assms
proof (induction xs arbitrary: s)
  case (Cons x xs)
  then obtain u where "f x s = Inr u" and "fold_res f xs u = Inr t" by (auto simp: bind_res_Inr_iff)
  then show ?case using Cons.IH [of u] Cons.prems(2) [of x s u] Cons.prems(2) by simp
qed simp

lemma fold_res_keeps:
  assumes "fold_res f xs c = Inr c'" and "\<And>x c c'. f x c = Inr c' \<Longrightarrow> sel c' = sel c"
  shows "sel c' = sel c"
  by (rule fold_res_invariant [OF assms(1), where P = "\<lambda>c'. sel c' = sel c"]) (auto dest: assms(2))

section \<open>Strings\<close>

text \<open>\<^verbatim>\<open>std::to_string\<close> of an unsigned integer.\<close>

definition digit_char :: "nat \<Rightarrow> char" where
  "digit_char d = char_of (48 + d)"

fun dec_string :: "nat \<Rightarrow> string" where
  "dec_string n = (if n < 10 then [digit_char n]
                   else dec_string (n div 10) @ [digit_char (n mod 10)])"

declare dec_string.simps [simp del]

definition to_string :: "idx \<Rightarrow> string" where
  "to_string n = dec_string (unat n)"

definition is_digit :: "char \<Rightarrow> bool" where
  "is_digit c \<longleftrightarrow> 48 \<le> (of_char c :: nat) \<and> (of_char c :: nat) \<le> 57"

lemma digit_char_simps [simp]:
  "digit_char 0 = CHR ''0''" "digit_char 1 = CHR ''1''" "digit_char 2 = CHR ''2''"
  "digit_char 3 = CHR ''3''" "digit_char 4 = CHR ''4''" "digit_char 5 = CHR ''5''"
  "digit_char 6 = CHR ''6''" "digit_char 7 = CHR ''7''" "digit_char 8 = CHR ''8''"
  "digit_char 9 = CHR ''9''" "digit_char (Suc 0) = CHR ''1''"
  by code_simp+

lemma is_digit_digit_char: "d < 10 \<Longrightarrow> is_digit (digit_char d)"
  by (simp add: is_digit_def digit_char_def)

lemma dec_string_digits: "\<forall>c \<in> set (dec_string n). is_digit c"
proof (induction n rule: dec_string.induct)
  case (1 n)
  then show ?case
    by (cases "n < 10") (auto simp: dec_string.simps [of n] is_digit_digit_char)
qed

lemma dec_string_nonempty [simp]: "dec_string n \<noteq> []"
  by (subst dec_string.simps) simp

lemma to_string_nonempty [simp]: "to_string n \<noteq> []"
  by (simp add: to_string_def)

lemma to_string_digits: "c \<in> set (to_string n) \<Longrightarrow> is_digit c"
  using dec_string_digits by (auto simp: to_string_def)

lemma not_digit [simp]:
  "\<not> is_digit CHR '',''" "\<not> is_digit CHR '':''" "\<not> is_digit CHR 0x22" "\<not> is_digit CHR ''.''"
  by (simp_all add: is_digit_def)

text \<open>The decimal value of a digit string, and the inverse law for \<open>dec_string\<close>.\<close>

definition dec_value :: "string \<Rightarrow> nat" where
  "dec_value s = foldl (\<lambda>n c. 10 * n + (of_char c - 48)) 0 s"

lemma dec_value_snoc: "dec_value (s @ [c]) = 10 * dec_value s + (of_char c - 48)"
  by (simp add: dec_value_def)

lemma dec_value_dec_string [simp]: "dec_value (dec_string n) = n"
proof (induction n rule: dec_string.induct)
  case (1 n)
  show ?case
  proof (cases "n < 10")
    case True
    then show ?thesis
      by (simp add: dec_string.simps [of n] dec_value_def digit_char_def)
  next
    case False
    with 1 have IH: "dec_value (dec_string (n div 10)) = n div 10" by simp
    have "dec_value (dec_string n) = 10 * (n div 10) + n mod 10"
      using False IH by (subst dec_string.simps) (simp add: dec_value_snoc digit_char_def)
    then show ?thesis by simp
  qed
qed

lemma to_string_inject [simp]: "to_string a = to_string b \<longleftrightarrow> a = b"
proof
  assume "to_string a = to_string b"
  then have "dec_value (to_string a) = dec_value (to_string b)" by simp
  then have "unat a = unat b" by (simp add: to_string_def)
  then show "a = b" by (simp only: word_unat_eq_iff)
qed simp

text \<open>ASCII case folding, the comparison \<^verbatim>\<open>StringUtil::CIEquals\<close> is documented to use.\<close>

definition char_lower :: "char \<Rightarrow> char" where
  "char_lower c = (let n = (of_char c :: nat) in if 65 \<le> n \<and> n \<le> 90 then char_of (n + 32) else c)"

definition char_upper :: "char \<Rightarrow> char" where
  "char_upper c = (let n = (of_char c :: nat) in if 97 \<le> n \<and> n \<le> 122 then char_of (n - 32) else c)"

definition is_space :: "char \<Rightarrow> bool" where
  "is_space c \<longleftrightarrow> c = CHR '' '' \<or> (9 \<le> (of_char c :: nat) \<and> (of_char c :: nat) \<le> 13)"

definition ascii_lower :: "string \<Rightarrow> string" where
  "ascii_lower s = map char_lower s"

definition ascii_upper :: "string \<Rightarrow> string" where
  "ascii_upper s = map char_upper s"

fun join_strings :: "string list \<Rightarrow> string \<Rightarrow> string" where
  "join_strings [] sep = []"
| "join_strings [x] sep = x"
| "join_strings (x # y # ys) sep = x @ sep @ join_strings (y # ys) sep"

fun split_string :: "string \<Rightarrow> char \<Rightarrow> string list" where
  "split_string [] d = [[]]"
| "split_string (c # cs) d =
     (if c = d then [] # split_string cs d
      else (case split_string cs d of [] \<Rightarrow> [[c]] | w # ws \<Rightarrow> (c # w) # ws))"

text \<open>
  \<^verbatim>\<open>std::getline\<close> with a delimiter, until the stream is exhausted: a last part that is empty is not
  delivered.
\<close>

definition getline_split :: "string \<Rightarrow> char \<Rightarrow> string list" where
  "getline_split s d = (let parts = split_string s d in
     if last parts = [] then butlast parts else parts)"

definition trim_string :: "string \<Rightarrow> string" where
  "trim_string s = rev (dropWhile is_space (rev (dropWhile is_space s)))"

fun escape_quotes :: "char \<Rightarrow> string \<Rightarrow> string" where
  "escape_quotes q [] = []"
| "escape_quotes q (c # cs) = (if c = q then [q, q] else [c]) @ escape_quotes q cs"

fun contains_sub :: "string \<Rightarrow> string \<Rightarrow> bool" where
  "contains_sub [] p = (p = [])"
| "contains_sub (c # cs) p = (take (length p) (c # cs) = p \<or> contains_sub cs p)"

definition starts_with :: "string \<Rightarrow> string \<Rightarrow> bool" where
  "starts_with s p \<longleftrightarrow> take (length p) s = p"

section \<open>The DuckDB string utilities\<close>

text \<open>
  The functions of \<^verbatim>\<open>duckdb/common/string_util.hpp\<close>, \<^verbatim>\<open>duckdb/common/sql_identifier.hpp\<close> and
  \<^verbatim>\<open>SQLString\<close> that the modelled code calls.
\<close>

record duckdb_string =
  StringUtil_CIEquals :: "string \<Rightarrow> string \<Rightarrow> bool"
  StringUtil_Lower :: "string \<Rightarrow> string"
  StringUtil_Upper :: "string \<Rightarrow> string"
  StringUtil_Trim :: "string \<Rightarrow> string"
  StringUtil_Contains :: "string \<Rightarrow> string \<Rightarrow> bool"
  StringUtil_Join :: "string list \<Rightarrow> string \<Rightarrow> string"
  StringUtil_Split :: "string \<Rightarrow> char \<Rightarrow> string list"
  StringUtil_ToUnsigned :: "string \<Rightarrow> idx res"
  SQLQuotedIdentifier_ToString :: "string \<Rightarrow> string"
  SQLString_ToString :: "string \<Rightarrow> string"

locale duckdb_strings =
  fixes D :: duckdb_string
  assumes CIEquals: "StringUtil_CIEquals D a b \<longleftrightarrow> ascii_lower a = ascii_lower b"
    and Lower: "StringUtil_Lower D s = ascii_lower s"
    and Upper: "StringUtil_Upper D s = ascii_upper s"
    and Trim: "StringUtil_Trim D s = trim_string s"
    and Contains: "StringUtil_Contains D s p \<longleftrightarrow> contains_sub s p"
    and Join: "StringUtil_Join D xs sep = join_strings xs sep"
    and Split: "s \<noteq> [] \<Longrightarrow> last s \<noteq> d \<Longrightarrow> StringUtil_Split D s d = split_string s d"
    and ToUnsigned: "StringUtil_ToUnsigned D (to_string n) = Inr n"
    and QuotedIdentifier: "SQLQuotedIdentifier_ToString D s = CHR 0x22 # escape_quotes CHR 0x22 s @ [CHR 0x22]"
    and QuotedString: "SQLString_ToString D s = CHR 0x27 # escape_quotes CHR 0x27 s @ [CHR 0x27]"
begin

lemma CIEquals_refl [simp]: "StringUtil_CIEquals D a a"
  by (simp add: CIEquals)

lemma CIEquals_sym: "StringUtil_CIEquals D a b \<longleftrightarrow> StringUtil_CIEquals D b a"
  by (auto simp: CIEquals)

lemma CIEquals_trans:
  "StringUtil_CIEquals D a b \<Longrightarrow> StringUtil_CIEquals D b c \<Longrightarrow> StringUtil_CIEquals D a c"
  by (simp add: CIEquals)

lemmas string_laws = CIEquals Lower Upper Trim Contains Join Split ToUnsigned
  QuotedIdentifier QuotedString

end

text \<open>A concrete record with the documented behaviour, used wherever a model is evaluated.\<close>

definition parse_unsigned :: "string \<Rightarrow> idx res" where
  "parse_unsigned s =
     (if s \<noteq> [] \<and> list_all is_digit s \<and> dec_value s < 2 ^ 64 then Inr (of_nat (dec_value s))
      else Inl (ConversionException s))"

definition duckdb_ref :: duckdb_string where
  "duckdb_ref =
     \<lparr>StringUtil_CIEquals = (\<lambda>a b. ascii_lower a = ascii_lower b),
      StringUtil_Lower = ascii_lower,
      StringUtil_Upper = ascii_upper,
      StringUtil_Trim = trim_string,
      StringUtil_Contains = contains_sub,
      StringUtil_Join = join_strings,
      StringUtil_Split = getline_split,
      StringUtil_ToUnsigned = parse_unsigned,
      SQLQuotedIdentifier_ToString = (\<lambda>s. CHR 0x22 # escape_quotes CHR 0x22 s @ [CHR 0x22]),
      SQLString_ToString = (\<lambda>s. CHR 0x27 # escape_quotes CHR 0x27 s @ [CHR 0x27])\<rparr>"

lemma parse_unsigned_to_string [simp]: "parse_unsigned (to_string n) = Inr n"
proof -
  have "list_all is_digit (to_string n)"
    by (auto simp: list_all_iff to_string_digits)
  moreover have "dec_value (to_string n) = unat n"
    by (simp add: to_string_def)
  moreover have "unat n < 2 ^ 64"
    using unsigned_less [of n, where 'a = nat] by simp
  ultimately show ?thesis
    by (simp add: parse_unsigned_def)
qed

lemma split_string_nonempty [simp]: "split_string s d \<noteq> []"
  by (induction s) (auto split: list.splits)

lemma split_string_one_empty: "split_string s d = [[]] \<longleftrightarrow> s = []"
  by (cases s) (auto split: list.splits)

lemma split_string_last:
  "last (split_string s d) = [] \<longleftrightarrow> s = [] \<or> last s = d"
proof (induction s)
  case (Cons c s)
  obtain w ws where "split_string s d = w # ws" by (cases "split_string s d") auto
  with Cons show ?case
    using split_string_one_empty [of s d] by (cases "s = []") (auto split: if_splits)
qed simp

lemma getline_split_eq: "s \<noteq> [] \<Longrightarrow> last s \<noteq> d \<Longrightarrow> getline_split s d = split_string s d"
  by (simp add: getline_split_def split_string_last)

interpretation ref: duckdb_strings duckdb_ref
  by unfold_locales (simp_all add: duckdb_ref_def getline_split_eq)

text \<open>Splitting a joined list at the separator gives the list back.\<close>

lemma split_string_no_delimiter: "d \<notin> set s \<Longrightarrow> split_string s d = [s]"
  by (induction s) auto

lemma split_string_append:
  "d \<notin> set s \<Longrightarrow> split_string (s @ d # t) d = s # split_string t d"
  by (induction s) auto

lemma split_string_join:
  "xs \<noteq> [] \<Longrightarrow> \<forall>x \<in> set xs. d \<notin> set x \<Longrightarrow> split_string (join_strings xs [d]) d = xs"
proof (induction xs "[d]" rule: join_strings.induct)
  case (2 x)
  then show ?case by (simp add: split_string_no_delimiter)
next
  case (3 x y ys)
  then show ?case by (simp add: split_string_append)
qed simp

lemma join_strings_last:
  "xs \<noteq> [] \<Longrightarrow> last xs \<noteq> [] \<Longrightarrow> join_strings xs sep \<noteq> [] \<and> last (join_strings xs sep) = last (last xs)"
  by (induction xs sep rule: join_strings.induct) (auto split: if_splits)

section \<open>Containers with case-insensitive keys\<close>

text \<open>
  \<^verbatim>\<open>case_insensitive_set_t\<close> and \<^verbatim>\<open>case_insensitive_map_t\<close>: hash containers whose equality is
  \<^verbatim>\<open>StringUtil::CIEquals\<close>. They are lists in iteration order; inserting a key that is already
  there (up to case) leaves the container unchanged, as \<^verbatim>\<open>std::unordered_map::insert\<close> does.
\<close>

type_synonym ci_set = "string list"
type_synonym 'v ci_map = "(string \<times> 'v) list"

definition ci_find :: "duckdb_string \<Rightarrow> ci_set \<Rightarrow> string \<Rightarrow> string option" where
  "ci_find D s k = find (\<lambda>x. StringUtil_CIEquals D x k) s"

definition ci_member :: "duckdb_string \<Rightarrow> ci_set \<Rightarrow> string \<Rightarrow> bool" where
  "ci_member D s k \<longleftrightarrow> list_ex (\<lambda>x. StringUtil_CIEquals D x k) s"

definition ci_insert :: "duckdb_string \<Rightarrow> string \<Rightarrow> ci_set \<Rightarrow> ci_set" where
  "ci_insert D k s = (if ci_member D s k then s else s @ [k])"

fun ci_lookup :: "duckdb_string \<Rightarrow> 'v ci_map \<Rightarrow> string \<Rightarrow> 'v option" where
  "ci_lookup D [] k = None"
| "ci_lookup D ((k', v) # m) k = (if StringUtil_CIEquals D k' k then Some v else ci_lookup D m k)"

text \<open>\<^verbatim>\<open>m[k]\<close> followed by an update of the value: a missing key is created with a default value.\<close>

fun ci_update :: "duckdb_string \<Rightarrow> string \<Rightarrow> 'v \<Rightarrow> ('v \<Rightarrow> 'v) \<Rightarrow> 'v ci_map \<Rightarrow> 'v ci_map" where
  "ci_update D k d f [] = [(k, f d)]"
| "ci_update D k d f ((k', v) # m) =
     (if StringUtil_CIEquals D k' k then (k', f v) # m else (k', v) # ci_update D k d f m)"

definition ci_map_insert :: "duckdb_string \<Rightarrow> string \<Rightarrow> 'v \<Rightarrow> 'v ci_map \<Rightarrow> 'v ci_map" where
  "ci_map_insert D k v m = (case ci_lookup D m k of None \<Rightarrow> m @ [(k, v)] | Some _ \<Rightarrow> m)"

lemma ci_find_None: "ci_find D s k = None \<longleftrightarrow> \<not> ci_member D s k"
  by (auto simp: ci_find_def ci_member_def find_None_iff list_ex_iff)

lemma ci_lookup_append:
  "ci_lookup D (m @ m') k = (case ci_lookup D m k of None \<Rightarrow> ci_lookup D m' k | Some v \<Rightarrow> Some v)"
  by (induction m) auto

context duckdb_strings
begin

lemma ci_member_iff: "ci_member D s k \<longleftrightarrow> ascii_lower k \<in> ascii_lower ` set s"
  by (auto simp: ci_member_def list_ex_iff CIEquals image_iff) metis

lemma ci_member_insert [simp]:
  "ci_member D (ci_insert D k s) k' \<longleftrightarrow> StringUtil_CIEquals D k k' \<or> ci_member D s k'"
  by (auto simp: ci_insert_def ci_member_iff CIEquals)

lemma ci_lookup_update:
  "ci_lookup D (ci_update D k d f m) k' =
     (if StringUtil_CIEquals D k k'
      then Some (f (case ci_lookup D m k of None \<Rightarrow> d | Some v \<Rightarrow> v))
      else ci_lookup D m k')"
  by (induction m) (auto simp: CIEquals)

lemma ci_lookup_map_insert:
  "ci_lookup D (ci_map_insert D k v m) k' =
     (case ci_lookup D m k' of Some w \<Rightarrow> Some w
      | None \<Rightarrow> if StringUtil_CIEquals D k k' then Some v else None)"
proof -
  have cong: "ascii_lower k = ascii_lower k' \<Longrightarrow> ci_lookup D m k = ci_lookup D m k'"
    by (induction m) (auto simp: CIEquals)
  then show ?thesis
    by (auto simp: ci_map_insert_def ci_lookup_append CIEquals split: option.splits)
qed

end

section \<open>Ordered maps\<close>

text \<open>
  \<^verbatim>\<open>std::map\<close>: an association list kept in ascending key order, which is its iteration order.
\<close>

type_synonym ('k, 'v) omap = "('k \<times> 'v) list"

definition omap_ok :: "('k::linorder, 'v) omap \<Rightarrow> bool" where
  "omap_ok m \<longleftrightarrow> sorted_wrt (<) (map fst m)"

fun omap_insert :: "'k::linorder \<Rightarrow> 'v \<Rightarrow> ('k, 'v) omap \<Rightarrow> ('k, 'v) omap" where
  "omap_insert k v [] = [(k, v)]"
| "omap_insert k v ((k', v') # m) =
     (if k = k' then (k, v) # m
      else if k < k' then (k, v) # (k', v') # m
      else (k', v') # omap_insert k v m)"

definition omap_erase :: "'k::linorder \<Rightarrow> ('k, 'v) omap \<Rightarrow> ('k, 'v) omap" where
  "omap_erase k m = filter (\<lambda>e. fst e \<noteq> k) m"

text \<open>\<^verbatim>\<open>m[k]\<close>: the value of a key, or the default value when it is absent.\<close>

definition omap_get :: "'v \<Rightarrow> ('k, 'v) omap \<Rightarrow> 'k \<Rightarrow> 'v" where
  "omap_get d m k = (case map_of m k of Some v \<Rightarrow> v | None \<Rightarrow> d)"

lemma map_of_omap_insert [simp]: "map_of (omap_insert k v m) = (map_of m)(k \<mapsto> v)"
  by (induction m) auto

lemma map_of_omap_erase [simp]: "map_of (omap_erase k m) = (map_of m)(k := None)"
  by (induction m) (auto simp: omap_erase_def)

lemma set_omap_insert_keys [simp]: "fst ` set (omap_insert k v m) = insert k (fst ` set m)"
proof (induction m)
  case (Cons e m)
  then show ?case by (cases e) (simp add: insert_commute)
qed simp

lemma omap_insert_key: "(x, y) \<in> set (omap_insert k v m) \<Longrightarrow> x = k \<or> x \<in> fst ` set m"
  by (metis fst_conv image_eqI insert_iff set_omap_insert_keys)

lemma omap_ok_insert [simp]: "omap_ok m \<Longrightarrow> omap_ok (omap_insert k v m)"
proof (induction m)
  case (Cons e m)
  obtain k' v' where e: "e = (k', v')" by (cases e)
  from Cons.prems have tail: "omap_ok m" and below: "\<forall>x \<in> fst ` set m. k' < x"
    by (auto simp: omap_ok_def e)
  show ?case
    using Cons.IH [OF tail] tail below
    by (auto simp: omap_ok_def e dest!: omap_insert_key)
qed (simp add: omap_ok_def)

lemma omap_ok_erase [simp]: "omap_ok m \<Longrightarrow> omap_ok (omap_erase k m)"
  by (induction m) (auto simp: omap_ok_def omap_erase_def)

text \<open>A search by key finds the entry with that key.\<close>

lemma find_distinct_key:
  "distinct (map f xs) \<Longrightarrow> x \<in> set xs \<Longrightarrow> find (\<lambda>y. f x = f y) xs = Some x"
  by (induction xs) (auto simp: image_iff)

section \<open>The encoder/decoder contract\<close>

text \<open>
  Every textual or binary encoding of the program promises the same thing: decoding what was
  encoded gives the value back. The contract's consequences are proved once here.
\<close>

locale codec =
  fixes encode :: "'a \<Rightarrow> 'e res" and decode :: "'e \<Rightarrow> 'a res" and valid :: "'a \<Rightarrow> bool"
  assumes round_trip: "valid x \<Longrightarrow> \<exists>e. encode x = Inr e \<and> decode e = Inr x"
begin

lemma encode_total: "valid x \<Longrightarrow> is_ok (encode x)"
  using round_trip by (auto simp: is_ok_def)

lemma encode_injective:
  assumes "valid x" and "valid y" and "encode x = encode y"
  shows "x = y"
  using assms round_trip [of x] round_trip [of y] by auto

lemma decode_complete: "valid x \<Longrightarrow> \<exists>e. decode e = Inr x"
  using round_trip by blast

end

end
