(* ===== verification/DL_Index.thy ===== *)
theory DL_Index
  imports DL_Prelude
begin

text \<open>
  \<^verbatim>\<open>src/src/include/common/index.hpp\<close>: the typed wrappers around \<^verbatim>\<open>idx_t\<close>, their default (invalid)
  value, their order (that of the wrapped index, which is what \<^verbatim>\<open>std::set\<close> and \<^verbatim>\<open>std::map\<close>
  iterate by) and the reserved range of transaction-local identifiers. \<^verbatim>\<open>TableIndex\<close> is DuckDB's
  own wrapper; it is represented by the bare index. An \<^verbatim>\<open>optional_idx\<close> is an \<open>idx option\<close>.
\<close>

type_synonym TableIndex = idx

definition TRANSACTION_LOCAL_ID_START :: idx where
  "TRANSACTION_LOCAL_ID_START = 9223372036854775808"

definition TRANSACTION_LOCAL_ROW_ID_START :: idx where
  "TRANSACTION_LOCAL_ROW_ID_START = 1000000000000000000"

definition IsTransactionLocalRowId :: "64 word \<Rightarrow> bool" where
  "IsTransactionLocalRowId rid \<longleftrightarrow> 0 \<le> sint rid \<and> TRANSACTION_LOCAL_ROW_ID_START \<le> rid"

definition IsTransactionLocal :: "TableIndex \<Rightarrow> bool" where
  "IsTransactionLocal i \<longleftrightarrow> TRANSACTION_LOCAL_ID_START \<le> i"

datatype SchemaIndex = SchemaIndex (schema_index: idx)

datatype MacroIndex = MacroIndex (macro_index: idx)

datatype ProcedureIndex = ProcedureIndex (procedure_index: idx)

datatype FieldIndex = FieldIndex (field_index: idx)

datatype DataFileIndex = DataFileIndex (data_file_index: idx)

datatype MappingIndex = MappingIndex (mapping_index: idx)

text \<open>An option and the schema or table it is set for (\<^verbatim>\<open>src/src/include/storage/ducklake_metadata_info.hpp\<close>).\<close>

record DuckLakeConfigOption =
  opt_key :: string
  opt_value :: string
  opt_schema_id :: SchemaIndex
  opt_table_id :: TableIndex

instantiation SchemaIndex :: linorder
begin

definition less_eq_SchemaIndex :: "SchemaIndex \<Rightarrow> SchemaIndex \<Rightarrow> bool" where
  "less_eq_SchemaIndex a b \<longleftrightarrow> schema_index a \<le> schema_index b"

definition less_SchemaIndex :: "SchemaIndex \<Rightarrow> SchemaIndex \<Rightarrow> bool" where
  "less_SchemaIndex a b \<longleftrightarrow> schema_index a < schema_index b"

instance
  by standard (auto simp: less_eq_SchemaIndex_def less_SchemaIndex_def intro: SchemaIndex.expand)

end

instantiation MacroIndex :: linorder
begin

definition less_eq_MacroIndex :: "MacroIndex \<Rightarrow> MacroIndex \<Rightarrow> bool" where
  "less_eq_MacroIndex a b \<longleftrightarrow> macro_index a \<le> macro_index b"

definition less_MacroIndex :: "MacroIndex \<Rightarrow> MacroIndex \<Rightarrow> bool" where
  "less_MacroIndex a b \<longleftrightarrow> macro_index a < macro_index b"

instance
  by standard (auto simp: less_eq_MacroIndex_def less_MacroIndex_def intro: MacroIndex.expand)

end

instantiation ProcedureIndex :: linorder
begin

definition less_eq_ProcedureIndex :: "ProcedureIndex \<Rightarrow> ProcedureIndex \<Rightarrow> bool" where
  "less_eq_ProcedureIndex a b \<longleftrightarrow> procedure_index a \<le> procedure_index b"

definition less_ProcedureIndex :: "ProcedureIndex \<Rightarrow> ProcedureIndex \<Rightarrow> bool" where
  "less_ProcedureIndex a b \<longleftrightarrow> procedure_index a < procedure_index b"

instance
  by standard (auto simp: less_eq_ProcedureIndex_def less_ProcedureIndex_def intro: ProcedureIndex.expand)

end

instantiation FieldIndex :: linorder
begin

definition less_eq_FieldIndex :: "FieldIndex \<Rightarrow> FieldIndex \<Rightarrow> bool" where
  "less_eq_FieldIndex a b \<longleftrightarrow> field_index a \<le> field_index b"

definition less_FieldIndex :: "FieldIndex \<Rightarrow> FieldIndex \<Rightarrow> bool" where
  "less_FieldIndex a b \<longleftrightarrow> field_index a < field_index b"

instance
  by standard (auto simp: less_eq_FieldIndex_def less_FieldIndex_def intro: FieldIndex.expand)

end

instantiation DataFileIndex :: linorder
begin

definition less_eq_DataFileIndex :: "DataFileIndex \<Rightarrow> DataFileIndex \<Rightarrow> bool" where
  "less_eq_DataFileIndex a b \<longleftrightarrow> data_file_index a \<le> data_file_index b"

definition less_DataFileIndex :: "DataFileIndex \<Rightarrow> DataFileIndex \<Rightarrow> bool" where
  "less_DataFileIndex a b \<longleftrightarrow> data_file_index a < data_file_index b"

instance
  by standard (auto simp: less_eq_DataFileIndex_def less_DataFileIndex_def intro: DataFileIndex.expand)

end

instantiation MappingIndex :: linorder
begin

definition less_eq_MappingIndex :: "MappingIndex \<Rightarrow> MappingIndex \<Rightarrow> bool" where
  "less_eq_MappingIndex a b \<longleftrightarrow> mapping_index a \<le> mapping_index b"

definition less_MappingIndex :: "MappingIndex \<Rightarrow> MappingIndex \<Rightarrow> bool" where
  "less_MappingIndex a b \<longleftrightarrow> mapping_index a < mapping_index b"

instance
  by standard (auto simp: less_eq_MappingIndex_def less_MappingIndex_def intro: MappingIndex.expand)

end

definition SchemaIndex_default :: SchemaIndex where
  "SchemaIndex_default = SchemaIndex INVALID_INDEX"

definition SchemaIndex_IsValid :: "SchemaIndex \<Rightarrow> bool" where
  "SchemaIndex_IsValid i \<longleftrightarrow> schema_index i \<noteq> INVALID_INDEX"

definition SchemaIndex_IsTransactionLocal :: "SchemaIndex \<Rightarrow> bool" where
  "SchemaIndex_IsTransactionLocal i \<longleftrightarrow> TRANSACTION_LOCAL_ID_START \<le> schema_index i"

definition MacroIndex_default :: MacroIndex where
  "MacroIndex_default = MacroIndex INVALID_INDEX"

definition MacroIndex_IsValid :: "MacroIndex \<Rightarrow> bool" where
  "MacroIndex_IsValid i \<longleftrightarrow> macro_index i \<noteq> INVALID_INDEX"

definition MacroIndex_IsTransactionLocal :: "MacroIndex \<Rightarrow> bool" where
  "MacroIndex_IsTransactionLocal i \<longleftrightarrow> TRANSACTION_LOCAL_ID_START \<le> macro_index i"

definition ProcedureIndex_default :: ProcedureIndex where
  "ProcedureIndex_default = ProcedureIndex INVALID_INDEX"

definition ProcedureIndex_IsValid :: "ProcedureIndex \<Rightarrow> bool" where
  "ProcedureIndex_IsValid i \<longleftrightarrow> procedure_index i \<noteq> INVALID_INDEX"

definition ProcedureIndex_IsTransactionLocal :: "ProcedureIndex \<Rightarrow> bool" where
  "ProcedureIndex_IsTransactionLocal i \<longleftrightarrow> TRANSACTION_LOCAL_ID_START \<le> procedure_index i"

definition FieldIndex_default :: FieldIndex where
  "FieldIndex_default = FieldIndex INVALID_INDEX"

definition FieldIndex_IsValid :: "FieldIndex \<Rightarrow> bool" where
  "FieldIndex_IsValid i \<longleftrightarrow> field_index i \<noteq> INVALID_INDEX"

definition DataFileIndex_default :: DataFileIndex where
  "DataFileIndex_default = DataFileIndex INVALID_INDEX"

definition DataFileIndex_IsValid :: "DataFileIndex \<Rightarrow> bool" where
  "DataFileIndex_IsValid i \<longleftrightarrow> data_file_index i \<noteq> INVALID_INDEX"

definition MappingIndex_default :: MappingIndex where
  "MappingIndex_default = MappingIndex INVALID_INDEX"

definition MappingIndex_IsValid :: "MappingIndex \<Rightarrow> bool" where
  "MappingIndex_IsValid i \<longleftrightarrow> mapping_index i \<noteq> INVALID_INDEX"

lemmas index_defs [dl_defs] = IsTransactionLocal_def SchemaIndex_IsTransactionLocal_def
  MacroIndex_IsTransactionLocal_def ProcedureIndex_IsTransactionLocal_def
  TRANSACTION_LOCAL_ID_START_def

section \<open>Identifier ranges\<close>

text \<open>The reserved range is the upper half of the index space.\<close>

lemma IsTransactionLocal_iff_unat: "IsTransactionLocal i \<longleftrightarrow> 2 ^ 63 \<le> unat i"
  by (simp add: index_defs word_le_nat_alt)

text \<open>
  An invalid index is itself in the transaction-local range, so a test for a local identifier
  without a validity test (the assertion of the source is a debug check) accepts it.
\<close>

lemma invalid_index_is_local:
  "IsTransactionLocal INVALID_INDEX" "\<not> SchemaIndex_IsValid SchemaIndex_default"
  by (simp_all add: index_defs SchemaIndex_IsValid_def SchemaIndex_default_def)

text \<open>
  Row identifiers: the two markers are disjoint, a row id read as a signed value is local
  exactly in \<open>[10^18, 2^63)\<close>.
\<close>

lemma sint_nonneg_iff: "0 \<le> sint w \<longleftrightarrow> unat w < 2 ^ 63" for w :: "64 word"
proof -
  have lt: "uint w < 2 ^ 64"
    using unsigned_less [of w, where 'a = int] by simp
  have "0 \<le> sint w \<longleftrightarrow> even (uint w div 2 ^ 63)"
    by (simp add: sint_uint bit_iff_odd)
  also have "\<dots> \<longleftrightarrow> uint w < 2 ^ 63"
  proof
    assume ev: "even (uint w div 2 ^ 63)"
    have "uint w div 2 ^ 63 < 2" using lt by simp
    moreover have "0 \<le> uint w div 2 ^ 63" by (simp add: pos_imp_zdiv_nonneg_iff)
    ultimately have "uint w div 2 ^ 63 = 0 \<or> uint w div 2 ^ 63 = 1" by linarith
    with ev have "uint w div 2 ^ 63 = 0" by (elim disjE) simp_all
    then show "uint w < 2 ^ 63" by (simp add: div_eq_0_iff)
  qed simp
  also have "\<dots> \<longleftrightarrow> unat w < 2 ^ 63"
  proof -
    have "uint w = int (unat w)" by simp
    then show ?thesis by (simp only: of_nat_less_numeral_power_cancel_iff)
  qed
  finally show ?thesis .
qed

lemma sint_of_nonneg: "0 \<le> sint w \<Longrightarrow> sint w = int (unat w)" for w :: "64 word"
proof -
  have eq: "uint w = int (unat w)" by simp
  assume "0 \<le> sint w"
  then have "int (unat w) < 2 ^ 63" by (simp only: sint_nonneg_iff of_nat_less_numeral_power_cancel_iff)
  then have "uint w < 2 ^ 63" by (simp only: eq)
  moreover have "- (2 ^ 63) \<le> uint w" by (rule order_trans [OF _ unsigned_greater_eq]) simp
  ultimately have "sint w = uint w" using signed_take_bit_int_eq_self [of 63 "uint w"] by (simp add: sint_uint)
  then show ?thesis by (simp only: eq)
qed

lemma IsTransactionLocalRowId_iff:
  "IsTransactionLocalRowId rid \<longleftrightarrow> 10 ^ 18 \<le> unat rid \<and> unat rid < 2 ^ 63"
  by (simp add: IsTransactionLocalRowId_def TRANSACTION_LOCAL_ROW_ID_START_def word_le_nat_alt sint_nonneg_iff) blast

end
