(* ===== verification/DL_Quoting.thy ===== *)
theory DL_Quoting
  imports DL_Index
begin

text \<open>
  The quoting layer of \<^verbatim>\<open>src/src/common/ducklake_util.cpp\<close> (quoted values, quoted lists, catalog
  entry names, SQL literals of statistics and of VARCHAR values) and the path key of a schema
  (\<^verbatim>\<open>src/src/storage/ducklake_schema_entry.cpp\<close>), which is the same quoted list built incrementally.

  The source scans a string \<open>input\<close> with an index \<open>pos\<close> that only grows; the model passes the
  suffix of \<open>input\<close> from \<open>pos\<close> on, and returns the suffix at the new position. The main results
  are the round trips: a quoted list parses back to the list it was printed from, and a catalog
  entry to its schema path and name.
\<close>

section \<open>Definitions\<close>

abbreviation dquote :: char where "dquote \<equiv> CHR 0x22"
abbreviation squote :: char where "squote \<equiv> CHR 0x27"

text \<open>The loop of \<^verbatim>\<open>ParseQuotedValue\<close> after the opening quote, with the result so far.\<close>

fun ParseQuotedValue_loop :: "string \<Rightarrow> string \<Rightarrow> (string \<times> string) res" where
  "ParseQuotedValue_loop result [] =
     Inl (InvalidInputException ''Failed to parse quoted value - unterminated quote'')"
| "ParseQuotedValue_loop result (c # cs) =
     (if c = dquote
      then (case cs of
              [] \<Rightarrow> Inr (result, [])
            | d # ds \<Rightarrow> if d = dquote then ParseQuotedValue_loop (result @ [dquote]) ds
                       else Inr (result, d # ds))
      else ParseQuotedValue_loop (result @ [c]) cs)"

definition ParseQuotedValue :: "string \<Rightarrow> (string \<times> string) res" where
  "ParseQuotedValue input =
     (case input of
        [] \<Rightarrow> Inl (InvalidInputException ''Failed to parse quoted value - expected a quote'')
      | c # cs \<Rightarrow> if c \<noteq> dquote
                 then Inl (InvalidInputException ''Failed to parse quoted value - expected a quote'')
                 else ParseQuotedValue_loop [] cs)"

definition ToQuotedList :: "duckdb_string \<Rightarrow> string list \<Rightarrow> char \<Rightarrow> string" where
  "ToQuotedList D input list_separator =
     StringUtil_Join D (map (SQLQuotedIdentifier_ToString D) input) [list_separator]"

lemma ParseQuotedValue_loop_shorter:
  "ParseQuotedValue_loop r s = Inr (v, rest) \<Longrightarrow> length rest < length s"
proof (induction r s rule: ParseQuotedValue_loop.induct)
  case (2 r c cs)
  then show ?case
    by (auto split: if_splits list.splits intro: less_SucI dest: less_Suc_eq [THEN iffD2])
qed simp

lemma ParseQuotedValue_shorter:
  "ParseQuotedValue s = Inr (v, rest) \<Longrightarrow> length rest < length s"
  by (auto simp: ParseQuotedValue_def split: list.splits if_splits
      dest!: ParseQuotedValue_loop_shorter)

text \<open>The \<^verbatim>\<open>while (true)\<close> loop of \<^verbatim>\<open>ParseQuotedList\<close>: every round consumes a quoted value.\<close>

function ParseQuotedList_loop :: "char \<Rightarrow> string list \<Rightarrow> string \<Rightarrow> string list res" where
  "ParseQuotedList_loop list_separator result input =
     bind_res (ParseQuotedValue input) (\<lambda>(value, rest).
       case rest of
         [] \<Rightarrow> Inr (result @ [value])
       | c # cs \<Rightarrow>
           if c \<noteq> list_separator
           then Inl (InvalidInputException (''Failed to parse list - expected a '' @ [list_separator]))
           else ParseQuotedList_loop list_separator (result @ [value]) cs)"
  by pat_completeness auto
termination
  by (relation "measure (\<lambda>(sep, result, input). length input)")
    (auto dest: ParseQuotedValue_shorter)

declare ParseQuotedList_loop.simps [simp del]

definition ParseQuotedList :: "string \<Rightarrow> char \<Rightarrow> string list res" where
  "ParseQuotedList input list_separator =
     (if input = [] then Inr [] else ParseQuotedList_loop list_separator [] input)"

record ParsedCatalogEntry =
  schema_path :: "string list"
  entry_name :: string

definition SchemaKey :: "duckdb_string \<Rightarrow> ParsedCatalogEntry \<Rightarrow> string" where
  "SchemaKey D e = ToQuotedList D (schema_path e) CHR ''.''"

definition ParseCatalogEntry :: "string \<Rightarrow> ParsedCatalogEntry res" where
  "ParseCatalogEntry input =
     bind_res (ParseQuotedList input CHR ''.'') (\<lambda>parts.
       if length parts < 2
       then Inl (InvalidInputException ''Failed to parse catalog entry - expected a schema and a name'')
       else Inr \<lparr>schema_path = butlast parts, entry_name = last parts\<rparr>)"

definition SQLIdentifierToString :: "duckdb_string \<Rightarrow> string \<Rightarrow> string" where
  "SQLIdentifierToString D text = SQLQuotedIdentifier_ToString D text"

definition SQLLiteralToString :: "duckdb_string \<Rightarrow> string \<Rightarrow> string" where
  "SQLLiteralToString D text = SQLString_ToString D text"

definition StatsToString :: "duckdb_string \<Rightarrow> string \<Rightarrow> string" where
  "StatsToString D text =
     (if list_ex (\<lambda>c. c = CHR 0x00) text then ''NULL'' else SQLLiteralToString D text)"

text \<open>\<^verbatim>\<open>EscapeVarcharForSQL\<close>: the loop keeps the text so far and whether a NUL byte was seen.\<close>

fun EscapeVarcharForSQL_loop :: "string \<Rightarrow> string \<Rightarrow> bool \<Rightarrow> string \<times> bool" where
  "EscapeVarcharForSQL_loop [] ret has_nul = (ret, has_nul)"
| "EscapeVarcharForSQL_loop (c # cs) ret has_nul =
     (if c = CHR 0x00
      then EscapeVarcharForSQL_loop cs (ret @ [squote] @ '', chr(0), '' @ [squote]) True
      else if c = squote then EscapeVarcharForSQL_loop cs (ret @ [squote, squote]) has_nul
      else EscapeVarcharForSQL_loop cs (ret @ [c]) has_nul)"

definition EscapeVarcharForSQL :: "string \<Rightarrow> string" where
  "EscapeVarcharForSQL str_val =
     (let (ret, has_nul) = EscapeVarcharForSQL_loop str_val [] False
      in if has_nul then ''CONCAT('' @ [squote] @ ret @ [squote] @ '')''
         else [squote] @ ret @ [squote])"

definition OptionalIdxOrNull :: "idx option \<Rightarrow> string" where
  "OptionalIdxOrNull v = (case v of Some i \<Rightarrow> to_string i | None \<Rightarrow> ''NULL'')"

definition MappingIdOrNull :: "MappingIndex \<Rightarrow> string" where
  "MappingIdOrNull m = (if MappingIndex_IsValid m then to_string (mapping_index m) else ''NULL'')"

definition BoolLiteral :: "bool \<Rightarrow> string" where
  "BoolLiteral v = (if v then ''true'' else ''false'')"

text \<open>
  A schema entry knows its parent; \<^verbatim>\<open>RefreshPathKey\<close> recomputes its path key and depth from it.
\<close>

datatype schema_entry =
  DuckLakeSchemaEntry (schema_id: SchemaIndex) (schema_name: string)
    (schema_uuid: string) (data_path: string) (parent_schema: "schema_entry option")

fun PathKey :: "duckdb_string \<Rightarrow> schema_entry \<Rightarrow> string" where
  "PathKey D (DuckLakeSchemaEntry i n u dp parent) =
     (case parent of
        None \<Rightarrow> SQLQuotedIdentifier_ToString D n
      | Some p \<Rightarrow> PathKey D p @ ''.'' @ SQLQuotedIdentifier_ToString D n)"

fun SchemaDepth :: "schema_entry \<Rightarrow> nat" where
  "SchemaDepth (DuckLakeSchemaEntry i n u dp parent) =
     (case parent of None \<Rightarrow> 1 | Some p \<Rightarrow> SchemaDepth p + 1)"

definition ChildPathKey :: "duckdb_string \<Rightarrow> schema_entry option \<Rightarrow> string \<Rightarrow> string" where
  "ChildPathKey D parent name =
     (let key = SQLQuotedIdentifier_ToString D name
      in case parent of None \<Rightarrow> key | Some p \<Rightarrow> PathKey D p @ ''.'' @ key)"

text \<open>The names from the root to the entry.\<close>

fun schema_names :: "schema_entry \<Rightarrow> string list" where
  "schema_names (DuckLakeSchemaEntry i n u dp parent) =
     (case parent of None \<Rightarrow> [] | Some p \<Rightarrow> schema_names p) @ [n]"

section \<open>Parsing inverts printing\<close>

lemma ParseQuotedValue_loop_escaped:
  assumes "rest = [] \<or> hd rest \<noteq> dquote"
  shows "ParseQuotedValue_loop r (escape_quotes dquote s @ dquote # rest) = Inr (r @ s, rest)"
  using assms by (induction s arbitrary: r) (auto split: list.splits)

context duckdb_strings
begin

lemma ParseQuotedValue_quoted:
  assumes "rest = [] \<or> hd rest \<noteq> dquote"
  shows "ParseQuotedValue (SQLQuotedIdentifier_ToString D s @ rest) = Inr (s, rest)"
  using ParseQuotedValue_loop_escaped [OF assms, of "[]" s]
  by (simp add: ParseQuotedValue_def QuotedIdentifier)

lemma ParseQuotedList_loop_quoted:
  assumes "sep \<noteq> dquote" and "xs \<noteq> []"
  shows "ParseQuotedList_loop sep r (ToQuotedList D xs sep) = Inr (r @ xs)"
  using assms(2)
proof (induction xs arbitrary: r)
  case (Cons x xs)
  show ?case
  proof (cases xs)
    case Nil
    then show ?thesis
      using ParseQuotedValue_quoted [of "[]" x]
      by (simp add: ParseQuotedList_loop.simps [of sep r] ToQuotedList_def Join)
  next
    case (Cons y ys)
    let ?rest = "sep # ToQuotedList D xs sep"
    have str: "ToQuotedList D (x # xs) sep = SQLQuotedIdentifier_ToString D x @ ?rest"
      using Cons by (simp add: ToQuotedList_def Join)
    have "ParseQuotedValue (ToQuotedList D (x # xs) sep) = Inr (x, ?rest)"
      unfolding str by (rule ParseQuotedValue_quoted) (simp add: assms)
    then show ?thesis
      using Cons.IH [of "r @ [x]"] Cons
      by (simp add: ParseQuotedList_loop.simps [of sep r])
  qed
qed simp

lemma ToQuotedList_empty_iff [simp]: "ToQuotedList D xs sep = [] \<longleftrightarrow> xs = []"
  by (cases xs; cases "tl xs") (auto simp: ToQuotedList_def Join QuotedIdentifier)

lemma ParseQuotedList_ToQuotedList:
  "sep \<noteq> dquote \<Longrightarrow> ParseQuotedList (ToQuotedList D xs sep) sep = Inr xs"
  using ParseQuotedList_loop_quoted [of sep xs "[]"] by (auto simp: ParseQuotedList_def)

lemma join_strings_snoc:
  "xs \<noteq> [] \<Longrightarrow> join_strings (xs @ [y]) sep = join_strings xs sep @ sep @ y"
  by (induction xs sep rule: join_strings.induct) auto

lemma ToQuotedList_snoc:
  "ToQuotedList D (xs @ [y]) sep =
     (if xs = [] then SQLQuotedIdentifier_ToString D y
      else ToQuotedList D xs sep @ [sep] @ SQLQuotedIdentifier_ToString D y)"
  by (simp add: ToQuotedList_def Join join_strings_snoc)

lemma PathKey_eq: "PathKey D s = ToQuotedList D (schema_names s) CHR ''.''"
proof (induction s)
  case (DuckLakeSchemaEntry i n u dp parent)
  have "schema_names p \<noteq> []" for p by (cases p) simp
  with DuckLakeSchemaEntry show ?case
    by (cases parent) (simp_all add: ToQuotedList_def Join join_strings_snoc)
qed

lemma ChildPathKey_eq:
  "ChildPathKey D parent name = PathKey D (DuckLakeSchemaEntry i name u dp parent)"
  by (simp add: ChildPathKey_def split: option.splits)

lemma ParseCatalogEntry_quoted:
  assumes "path \<noteq> []"
  shows "ParseCatalogEntry (ToQuotedList D path CHR ''.'' @ ''.'' @ SQLIdentifierToString D nm)
         = Inr \<lparr>schema_path = path, entry_name = nm\<rparr>"
proof -
  have "ToQuotedList D path CHR ''.'' @ ''.'' @ SQLIdentifierToString D nm
        = ToQuotedList D (path @ [nm]) CHR ''.''"
    using assms by (simp add: ToQuotedList_snoc SQLIdentifierToString_def)
  moreover have "\<not> length (path @ [nm]) < 2"
    using assms by (cases path) auto
  ultimately show ?thesis
    by (simp add: ParseCatalogEntry_def ParseQuotedList_ToQuotedList)
qed

end

interpretation quoted_list_codec: codec
  "\<lambda>xs. Inr (ToQuotedList duckdb_ref xs CHR ''.'')" "\<lambda>s. ParseQuotedList s CHR ''.''" "\<lambda>xs. True"
  by unfold_locales (simp add: ref.ParseQuotedList_ToQuotedList)

section \<open>Properties\<close>

end
