(* ===== verification/DL_Changes.thy ===== *)
theory DL_Changes
  imports DL_Quoting
begin

text \<open>
  \<^verbatim>\<open>src/src/storage/ducklake_transaction_changes.cpp\<close> and its header: the two summaries of what a
  transaction changed. \<open>TransactionChangeInformation\<close> is what the running transaction knows of
  itself, with references to its catalog entries; \<open>SnapshotChangeInformation\<close> is what it reads
  back from the \<^verbatim>\<open>changes_made\<close> text other transactions stored with their snapshots. The text is a
  comma-separated list of \<^verbatim>\<open>type:value\<close> entries in which commas may occur inside quoted names.

  As in the quoting layer, a position in the text is the suffix from that position on.
\<close>

section \<open>Data\<close>

datatype ChangeType =
    CREATED_TABLE | CREATED_VIEW | CREATED_SCHEMA | DROPPED_SCHEMA | DROPPED_TABLE | DROPPED_VIEW
  | INSERTED_INTO_TABLE | DELETED_FROM_TABLE | INSERTED_INTO_TABLE_INLINED
  | DELETED_FROM_TABLE_INLINED | FLUSHED_INLINE_DATA_FOR_TABLE | ALTERED_TABLE | ALTERED_VIEW
  | COMPACTED_TABLE | MERGE_ADJACENT | REWRITE_DELETE | CREATED_SCALAR_MACRO | CREATED_TABLE_MACRO
  | SET_NOT_NULL | CREATED_PROCEDURE | DROPPED_SCALAR_MACRO | DROPPED_TABLE_MACRO
  | DROPPED_PROCEDURE

record ParsedChange =
  change_type :: ChangeType
  change_value :: string

datatype CatalogType =
  TABLE_ENTRY | VIEW_ENTRY | MACRO_ENTRY | TABLE_MACRO_ENTRY | PROCEDURE_ENTRY | SCHEMA_ENTRY

record catalog_entry =
  ce_type :: CatalogType
  ce_name :: string
  ce_ParentSchema :: schema_entry

record TransactionChangeInformation =
  tc_created_schemas :: "schema_entry ci_map"
  tc_dropped_schemas :: "(SchemaIndex \<times> schema_entry) list"
  tc_created_tables :: "catalog_entry list ci_map"
  tc_created_scalar_macros :: "catalog_entry list ci_map"
  tc_created_table_macros :: "catalog_entry list ci_map"
  tc_created_procedures :: "catalog_entry list ci_map"
  tc_altered_tables :: "TableIndex fset"
  tc_altered_tables_with_schema_version_changes :: "TableIndex fset"
  tc_altered_views :: "TableIndex fset"
  tc_dropped_tables :: "TableIndex fset"
  tc_dropped_views :: "TableIndex fset"
  tc_dropped_scalar_macros :: "MacroIndex fset"
  tc_dropped_table_macros :: "MacroIndex fset"
  tc_dropped_procedures :: "ProcedureIndex fset"
  tc_tables_inserted_into :: "TableIndex fset"
  tc_tables_deleted_from :: "TableIndex fset"
  tc_tables_set_not_null :: "TableIndex fset"
  tc_tables_delete_attempted :: "TableIndex fset"
  tc_tables_inserted_inlined :: "TableIndex fset"
  tc_tables_deleted_inlined :: "TableIndex fset"
  tc_tables_flushed_inlined :: "TableIndex fset"
  tc_tables_compacted :: "TableIndex fset"
  tc_tables_merge_adjacent :: "TableIndex fset"
  tc_tables_rewrite_delete :: "TableIndex fset"

definition TransactionChangeInformation_empty :: TransactionChangeInformation where
  "TransactionChangeInformation_empty =
     \<lparr>tc_created_schemas = [], tc_dropped_schemas = [], tc_created_tables = [],
      tc_created_scalar_macros = [], tc_created_table_macros = [], tc_created_procedures = [],
      tc_altered_tables = {||}, tc_altered_tables_with_schema_version_changes = {||},
      tc_altered_views = {||}, tc_dropped_tables = {||}, tc_dropped_views = {||},
      tc_dropped_scalar_macros = {||}, tc_dropped_table_macros = {||},
      tc_dropped_procedures = {||}, tc_tables_inserted_into = {||}, tc_tables_deleted_from = {||},
      tc_tables_set_not_null = {||}, tc_tables_delete_attempted = {||},
      tc_tables_inserted_inlined = {||}, tc_tables_deleted_inlined = {||},
      tc_tables_flushed_inlined = {||}, tc_tables_compacted = {||},
      tc_tables_merge_adjacent = {||}, tc_tables_rewrite_delete = {||}\<rparr>"

record SnapshotChangeInformation =
  sc_created_schemas :: ci_set
  sc_dropped_schemas :: "SchemaIndex fset"
  sc_created_tables :: "string ci_map ci_map"
  sc_created_scalar_macros :: "string ci_map ci_map"
  sc_created_table_macros :: "string ci_map ci_map"
  sc_created_procedures :: "string ci_map ci_map"
  sc_altered_tables :: "TableIndex fset"
  sc_altered_views :: "TableIndex fset"
  sc_dropped_tables :: "TableIndex fset"
  sc_dropped_views :: "TableIndex fset"
  sc_dropped_scalar_macros :: "MacroIndex fset"
  sc_dropped_table_macros :: "MacroIndex fset"
  sc_dropped_procedures :: "ProcedureIndex fset"
  sc_inserted_tables :: "TableIndex fset"
  sc_tables_set_not_null :: "TableIndex fset"
  sc_tables_deleted_from :: "TableIndex fset"
  sc_tables_compacted :: "TableIndex fset"
  sc_tables_merge_adjacent :: "TableIndex fset"
  sc_tables_rewrite_delete :: "TableIndex fset"
  sc_tables_inserted_inlined :: "TableIndex fset"
  sc_tables_deleted_inlined :: "TableIndex fset"
  sc_tables_flushed_inlined :: "TableIndex fset"

definition SnapshotChangeInformation_empty :: SnapshotChangeInformation where
  "SnapshotChangeInformation_empty =
     \<lparr>sc_created_schemas = [], sc_dropped_schemas = {||}, sc_created_tables = [],
      sc_created_scalar_macros = [], sc_created_table_macros = [], sc_created_procedures = [],
      sc_altered_tables = {||}, sc_altered_views = {||}, sc_dropped_tables = {||},
      sc_dropped_views = {||}, sc_dropped_scalar_macros = {||}, sc_dropped_table_macros = {||},
      sc_dropped_procedures = {||}, sc_inserted_tables = {||}, sc_tables_set_not_null = {||},
      sc_tables_deleted_from = {||}, sc_tables_compacted = {||}, sc_tables_merge_adjacent = {||},
      sc_tables_rewrite_delete = {||}, sc_tables_inserted_inlined = {||},
      sc_tables_deleted_inlined = {||}, sc_tables_flushed_inlined = {||}\<rparr>"

section \<open>The parser\<close>

text \<open>The chain of case-insensitive comparisons of \<^verbatim>\<open>ParseChangeType\<close>, in its order.\<close>

definition change_type_names :: "(string \<times> ChangeType) list" where
  "change_type_names =
     [(''created_table'', CREATED_TABLE), (''created_view'', CREATED_VIEW),
      (''created_scalar_macro'', CREATED_SCALAR_MACRO),
      (''created_table_macro'', CREATED_TABLE_MACRO),
      (''created_procedure'', CREATED_PROCEDURE), (''created_schema'', CREATED_SCHEMA),
      (''dropped_schema'', DROPPED_SCHEMA), (''dropped_table'', DROPPED_TABLE),
      (''dropped_view'', DROPPED_VIEW), (''inserted_into_table'', INSERTED_INTO_TABLE),
      (''dropped_scalar_macro'', DROPPED_SCALAR_MACRO),
      (''dropped_table_macro'', DROPPED_TABLE_MACRO),
      (''dropped_procedure'', DROPPED_PROCEDURE), (''altered_table'', ALTERED_TABLE),
      (''altered_view'', ALTERED_VIEW), (''deleted_from_table'', DELETED_FROM_TABLE),
      (''compacted_table'', COMPACTED_TABLE), (''merge_adjacent'', MERGE_ADJACENT),
      (''rewrite_delete'', REWRITE_DELETE), (''set_not_null'', SET_NOT_NULL),
      (''inlined_insert'', INSERTED_INTO_TABLE_INLINED),
      (''inlined_delete'', DELETED_FROM_TABLE_INLINED),
      (''flushed_inlined'', FLUSHED_INLINE_DATA_FOR_TABLE),
      (''inline_flush'', FLUSHED_INLINE_DATA_FOR_TABLE)]"

fun lookup_change_type :: "duckdb_string \<Rightarrow> (string \<times> ChangeType) list \<Rightarrow> string \<Rightarrow> ChangeType res" where
  "lookup_change_type D [] s = Inl (InvalidInputException (''Unsupported change type '' @ s))"
| "lookup_change_type D ((n, t) # ns) s =
     (if StringUtil_CIEquals D s n then Inr t else lookup_change_type D ns s)"

definition ParseChangeType :: "duckdb_string \<Rightarrow> string \<Rightarrow> (ChangeType \<times> string) res" where
  "ParseChangeType D s =
     (let change_type_str = takeWhile (\<lambda>c. c \<noteq> CHR '':'') s;
          rest = dropWhile (\<lambda>c. c \<noteq> CHR '':'') s
      in bind_res (lookup_change_type D change_type_names change_type_str)
           (\<lambda>t. Inr (t, rest)))"

text \<open>\<^verbatim>\<open>ParseChangeValue\<close>: parse until an unquoted comma.\<close>

fun ParseChangeValue_loop :: "bool \<Rightarrow> string \<Rightarrow> string \<Rightarrow> string \<times> string" where
  "ParseChangeValue_loop in_quotes value [] = (value, [])"
| "ParseChangeValue_loop in_quotes value (c # cs) =
     (if \<not> in_quotes \<and> c = CHR '','' then (value, c # cs)
      else ParseChangeValue_loop (if c = dquote then \<not> in_quotes else in_quotes) (value @ [c]) cs)"

definition ParseChangeValue :: "string \<Rightarrow> string \<times> string" where
  "ParseChangeValue s = ParseChangeValue_loop False [] s"

definition ParseChangeEntry :: "duckdb_string \<Rightarrow> string \<Rightarrow> (ParsedChange \<times> string) res" where
  "ParseChangeEntry D s =
     bind_res (ParseChangeType D s) (\<lambda>(t, rest).
       case rest of
         [] \<Rightarrow> Inl (InvalidInputException ''Expected a colon after the change type'')
       | c # cs \<Rightarrow>
           if c \<noteq> CHR '':''
           then Inl (InvalidInputException ''Expected a colon after the change type'')
           else (let (value, rest') = ParseChangeValue cs
                 in Inr (\<lparr>change_type = t, change_value = value\<rparr>, rest')))"

lemma ParseChangeValue_loop_length:
  "length (snd (ParseChangeValue_loop q v s)) \<le> length s"
  by (induction q v s rule: ParseChangeValue_loop.induct) auto

lemma ParseChangeEntry_shorter:
  assumes "ParseChangeEntry D s = Inr (e, rest)"
  shows "length rest < length s"
proof -
  let ?t = "dropWhile (\<lambda>c. c \<noteq> CHR '':'') s"
  obtain cs where cs: "?t = CHR '':'' # cs" and rest: "rest = snd (ParseChangeValue cs)"
    using assms
    by (cases ?t; cases "ParseChangeValue (tl ?t)")
      (auto simp: ParseChangeEntry_def ParseChangeType_def Let_def bind_res_Inr_iff
        split: if_splits)
  have "length (CHR '':'' # cs) \<le> length s"
    using length_dropWhile_le [of "\<lambda>c. c \<noteq> CHR '':''" s] by (simp add: cs)
  moreover have "length rest \<le> length cs"
    using ParseChangeValue_loop_length rest by (simp add: ParseChangeValue_def)
  ultimately show ?thesis by simp
qed

text \<open>The \<^verbatim>\<open>while\<close> loop of \<^verbatim>\<open>ParseChangesList\<close>; each entry consumes at least its colon.\<close>

function ParseChangesList_loop ::
  "duckdb_string \<Rightarrow> ParsedChange list \<Rightarrow> string \<Rightarrow> ParsedChange list res" where
  "ParseChangesList_loop D result s =
     (if s = [] then Inr result
      else bind_res (ParseChangeEntry D s) (\<lambda>(e, rest).
        case rest of
          [] \<Rightarrow> Inr (result @ [e])
        | c # cs \<Rightarrow>
            if c \<noteq> CHR '',''
            then Inl (InvalidInputException ''Expected a comma separating the change entry'')
            else ParseChangesList_loop D (result @ [e]) cs))"
  by pat_completeness auto
termination
  by (relation "measure (\<lambda>(D, result, s). length s)") (auto dest: ParseChangeEntry_shorter)

declare ParseChangesList_loop.simps [simp del]

definition ParseChangesList :: "duckdb_string \<Rightarrow> string \<Rightarrow> ParsedChange list res" where
  "ParseChangesList D changes_made = ParseChangesList_loop D [] changes_made"

text \<open>
  The body of the loop of \<^verbatim>\<open>ParseChangesMade\<close>: one case of its \<^verbatim>\<open>switch\<close> per change type.
  \<open>with_entry\<close> parses a catalog entry, \<open>with_index\<close> an identifier.
\<close>

definition with_entry ::
  "duckdb_string \<Rightarrow> string \<Rightarrow> string \<Rightarrow> string ci_map ci_map \<Rightarrow> string ci_map ci_map res" where
  "with_entry D value kind m =
     bind_res (ParseCatalogEntry value) (\<lambda>e.
       Inr (ci_update D (SchemaKey D e) [] (ci_map_insert D (entry_name e) kind) m))"

definition with_index :: "duckdb_string \<Rightarrow> string \<Rightarrow> (idx \<Rightarrow> 'i) \<Rightarrow> 'i fset \<Rightarrow> 'i fset res" where
  "with_index D value mk s =
     bind_res (StringUtil_ToUnsigned D value) (\<lambda>i. Inr (finsert (mk i) s))"

definition ParseChangesMade_step ::
  "duckdb_string \<Rightarrow> ParsedChange \<Rightarrow> SnapshotChangeInformation \<Rightarrow> SnapshotChangeInformation res" where
  "ParseChangesMade_step D e r =
     (let v = change_value e in
      case change_type e of
        CREATED_TABLE \<Rightarrow> bind_res (with_entry D v ''table'' (sc_created_tables r))
          (\<lambda>x. Inr (r\<lparr>sc_created_tables := x\<rparr>))
      | CREATED_SCALAR_MACRO \<Rightarrow> bind_res (with_entry D v ''scalar_macro'' (sc_created_scalar_macros r))
          (\<lambda>x. Inr (r\<lparr>sc_created_scalar_macros := x\<rparr>))
      | CREATED_TABLE_MACRO \<Rightarrow> bind_res (with_entry D v ''table_macro'' (sc_created_table_macros r))
          (\<lambda>x. Inr (r\<lparr>sc_created_table_macros := x\<rparr>))
      | CREATED_PROCEDURE \<Rightarrow> bind_res (with_entry D v ''procedure'' (sc_created_procedures r))
          (\<lambda>x. Inr (r\<lparr>sc_created_procedures := x\<rparr>))
      | CREATED_VIEW \<Rightarrow> bind_res (with_entry D v ''view'' (sc_created_tables r))
          (\<lambda>x. Inr (r\<lparr>sc_created_tables := x\<rparr>))
      | CREATED_SCHEMA \<Rightarrow> bind_res (ParseQuotedList v CHR ''.'')
          (\<lambda>p. Inr (r\<lparr>sc_created_schemas := ci_insert D (ToQuotedList D p CHR ''.'') (sc_created_schemas r)\<rparr>))
      | DROPPED_SCHEMA \<Rightarrow> bind_res (with_index D v SchemaIndex (sc_dropped_schemas r))
          (\<lambda>x. Inr (r\<lparr>sc_dropped_schemas := x\<rparr>))
      | DROPPED_TABLE \<Rightarrow> bind_res (with_index D v id (sc_dropped_tables r))
          (\<lambda>x. Inr (r\<lparr>sc_dropped_tables := x\<rparr>))
      | DROPPED_SCALAR_MACRO \<Rightarrow> bind_res (with_index D v MacroIndex (sc_dropped_scalar_macros r))
          (\<lambda>x. Inr (r\<lparr>sc_dropped_scalar_macros := x\<rparr>))
      | DROPPED_TABLE_MACRO \<Rightarrow> bind_res (with_index D v MacroIndex (sc_dropped_table_macros r))
          (\<lambda>x. Inr (r\<lparr>sc_dropped_table_macros := x\<rparr>))
      | DROPPED_PROCEDURE \<Rightarrow> bind_res (with_index D v ProcedureIndex (sc_dropped_procedures r))
          (\<lambda>x. Inr (r\<lparr>sc_dropped_procedures := x\<rparr>))
      | DROPPED_VIEW \<Rightarrow> bind_res (with_index D v id (sc_dropped_views r))
          (\<lambda>x. Inr (r\<lparr>sc_dropped_views := x\<rparr>))
      | INSERTED_INTO_TABLE \<Rightarrow> bind_res (with_index D v id (sc_inserted_tables r))
          (\<lambda>x. Inr (r\<lparr>sc_inserted_tables := x\<rparr>))
      | SET_NOT_NULL \<Rightarrow> bind_res (with_index D v id (sc_tables_set_not_null r))
          (\<lambda>x. Inr (r\<lparr>sc_tables_set_not_null := x\<rparr>))
      | DELETED_FROM_TABLE \<Rightarrow> bind_res (with_index D v id (sc_tables_deleted_from r))
          (\<lambda>x. Inr (r\<lparr>sc_tables_deleted_from := x\<rparr>))
      | ALTERED_TABLE \<Rightarrow> bind_res (with_index D v id (sc_altered_tables r))
          (\<lambda>x. Inr (r\<lparr>sc_altered_tables := x\<rparr>))
      | ALTERED_VIEW \<Rightarrow> bind_res (with_index D v id (sc_altered_views r))
          (\<lambda>x. Inr (r\<lparr>sc_altered_views := x\<rparr>))
      | COMPACTED_TABLE \<Rightarrow> bind_res (with_index D v id (sc_tables_compacted r))
          (\<lambda>x. Inr (r\<lparr>sc_tables_compacted := x\<rparr>))
      | MERGE_ADJACENT \<Rightarrow> bind_res (with_index D v id (sc_tables_merge_adjacent r))
          (\<lambda>x. Inr (r\<lparr>sc_tables_merge_adjacent := x\<rparr>))
      | REWRITE_DELETE \<Rightarrow> bind_res (with_index D v id (sc_tables_rewrite_delete r))
          (\<lambda>x. Inr (r\<lparr>sc_tables_rewrite_delete := x\<rparr>))
      | INSERTED_INTO_TABLE_INLINED \<Rightarrow> bind_res (with_index D v id (sc_tables_inserted_inlined r))
          (\<lambda>x. Inr (r\<lparr>sc_tables_inserted_inlined := x\<rparr>))
      | DELETED_FROM_TABLE_INLINED \<Rightarrow> bind_res (with_index D v id (sc_tables_deleted_inlined r))
          (\<lambda>x. Inr (r\<lparr>sc_tables_deleted_inlined := x\<rparr>))
      | FLUSHED_INLINE_DATA_FOR_TABLE \<Rightarrow> bind_res (with_index D v id (sc_tables_flushed_inlined r))
          (\<lambda>x. Inr (r\<lparr>sc_tables_flushed_inlined := x\<rparr>)))"

definition ParseChangesMade :: "duckdb_string \<Rightarrow> string \<Rightarrow> SnapshotChangeInformation res" where
  "ParseChangesMade D changes_made =
     bind_res (ParseChangesList D changes_made) (\<lambda>change_list.
       fold_res (ParseChangesMade_step D) change_list SnapshotChangeInformation_empty)"

end
