(* ===== verification/DL_Types.thy ===== *)
theory DL_Types
  imports DL_Prelude
begin

text \<open>
  \<^verbatim>\<open>src/src/common/ducklake_version.cpp\<close> (catalog versions and their names) and
  \<^verbatim>\<open>src/src/common/ducklake_types.cpp\<close> (the textual names of the column types stored in the catalog).
  \<^verbatim>\<open>LogicalType\<close> is DuckDB's: a type is its identifier, its alias, its collation, the width and
  scale of a decimal and its children (named for a struct), and what the code asks of it through DuckDB is the record
  \<open>duckdb_types\<close> with the laws of the locale of the same purpose.
\<close>

section \<open>Catalog versions\<close>

datatype DuckLakeVersion =
  UNSET | V0_1 | V0_2 | V0_3_DEV1 | V0_3 | V0_4_DEV1 | V0_4 | V1_0 | V1_1_DEV_1 | V1_1 | V1_2 | V1_3

fun version_number :: "DuckLakeVersion \<Rightarrow> 8 word" where
  "version_number UNSET = 0" | "version_number V0_1 = 1" | "version_number V0_2 = 2"
| "version_number V0_3_DEV1 = 3" | "version_number V0_3 = 4" | "version_number V0_4_DEV1 = 5"
| "version_number V0_4 = 6" | "version_number V1_0 = 7" | "version_number V1_1_DEV_1 = 8"
| "version_number V1_1 = 9" | "version_number V1_2 = 10" | "version_number V1_3 = 11"

lemma version_number_inject: "version_number a = version_number b \<Longrightarrow> a = b"
  by (cases a; cases b) simp_all

text \<open>Versions compare as their underlying \<^verbatim>\<open>uint8_t\<close>.\<close>

instantiation DuckLakeVersion :: linorder
begin

definition less_eq_DuckLakeVersion :: "DuckLakeVersion \<Rightarrow> DuckLakeVersion \<Rightarrow> bool" where
  "less_eq_DuckLakeVersion a b \<longleftrightarrow> version_number a \<le> version_number b"

definition less_DuckLakeVersion :: "DuckLakeVersion \<Rightarrow> DuckLakeVersion \<Rightarrow> bool" where
  "less_DuckLakeVersion a b \<longleftrightarrow> version_number a < version_number b"

instance
  by standard (auto simp: less_eq_DuckLakeVersion_def less_DuckLakeVersion_def
      intro: version_number_inject)

end

definition DUCKLAKE_LATEST_VERSION :: DuckLakeVersion where
  "DUCKLAKE_LATEST_VERSION = V1_3"

definition DuckLakeVersionFromString :: "string \<Rightarrow> DuckLakeVersion res" where
  "DuckLakeVersionFromString version_str =
     (if version_str = ''0.1'' then Inr V0_1
      else if version_str = ''0.2'' then Inr V0_2
      else if version_str = ''0.3-dev1'' then Inr V0_3_DEV1
      else if version_str = ''0.3'' then Inr V0_3
      else if version_str = ''0.4-dev1'' then Inr V0_4_DEV1
      else if version_str = ''0.4'' then Inr V0_4
      else if version_str = ''1.0'' then Inr V1_0
      else if version_str = ''1.1-dev1'' then Inr V1_1_DEV_1
      else if version_str = ''1.1'' then Inr V1_1
      else if version_str = ''1.2'' then Inr V1_2
      else if version_str = ''1.3'' then Inr V1_3
      else Inl (InvalidInputException (''Unsupported ducklake_version '' @ version_str)))"

fun DuckLakeVersionToString :: "DuckLakeVersion \<Rightarrow> string res" where
  "DuckLakeVersionToString V0_1 = Inr ''0.1''"
| "DuckLakeVersionToString V0_2 = Inr ''0.2''"
| "DuckLakeVersionToString V0_3_DEV1 = Inr ''0.3-dev1''"
| "DuckLakeVersionToString V0_3 = Inr ''0.3''"
| "DuckLakeVersionToString V0_4_DEV1 = Inr ''0.4-dev1''"
| "DuckLakeVersionToString V0_4 = Inr ''0.4''"
| "DuckLakeVersionToString V1_0 = Inr ''1.0''"
| "DuckLakeVersionToString V1_1_DEV_1 = Inr ''1.1-dev1''"
| "DuckLakeVersionToString V1_1 = Inr ''1.1''"
| "DuckLakeVersionToString V1_2 = Inr ''1.2''"
| "DuckLakeVersionToString V1_3 = Inr ''1.3''"
| "DuckLakeVersionToString UNSET = Inl (InternalException ''DuckLakeVersionToString: unknown version'')"

definition ThrowUnsupportedByVersion :: "DuckLakeVersion \<Rightarrow> string \<Rightarrow> 'a res" where
  "ThrowUnsupportedByVersion version feature =
     bind_res (DuckLakeVersionToString version) (\<lambda>v.
       Inl (InvalidInputException (''DuckLake '' @ v @ '' does not support '' @ feature @
         '' - attach with AUTOMATIC_MIGRATION set to TRUE to migrate the catalog to a newer version'')))"

section \<open>Types\<close>

datatype LogicalTypeId =
    BOOLEAN | TINYINT | SMALLINT | INTEGER | BIGINT | HUGEINT | UTINYINT | USMALLINT | UINTEGER
  | UBIGINT | UHUGEINT | FLOAT | DOUBLE | DECIMAL | TIME | TIME_NS | DATE | TIMESTAMP
  | TIMESTAMP_MS | TIMESTAMP_NS | TIMESTAMP_SEC | TIMESTAMP_TZ | TIMESTAMP_TZ_NS | TIME_TZ
  | INTERVAL | VARCHAR | BLOB | UUID | STRUCT | TUPLE | MAP | LIST | ARRAY | SQLNULL | UNKNOWN
  | VARIANT | GEOMETRY | ENUM | UNBOUND | INVALID_TYPE

datatype LogicalType =
  LogicalType (type_id: LogicalTypeId) (alias_name: "string option") (type_collation: string)
    (decimal_width: nat) (decimal_scale: nat) (type_children: "(string \<times> LogicalType) list")

definition plain_type :: "LogicalTypeId \<Rightarrow> LogicalType" where
  "plain_type i = LogicalType i None [] 0 0 []"

text \<open>A DuckDB \<^verbatim>\<open>Value\<close> is its type and its text, or NULL.\<close>

datatype Value = Value (value_type: LogicalType) (value_text: "string option")

definition IsNull :: "Value \<Rightarrow> bool" where
  "IsNull v \<longleftrightarrow> value_text v = None"

record duckdb_types =
  IsJSONType :: "LogicalType \<Rightarrow> bool"
  JSON_type :: LogicalType
  DECIMAL_type :: "nat \<Rightarrow> nat \<Rightarrow> LogicalType"
  IsNested :: "LogicalType \<Rightarrow> bool"
  IsNumeric :: "LogicalType \<Rightarrow> bool"
  IsTemporal :: "LogicalType \<Rightarrow> bool"
  IsIntegral :: "LogicalType \<Rightarrow> bool"
  VisitTypes :: "LogicalType \<Rightarrow> LogicalType list"
  SplitWithParentheses :: "string \<Rightarrow> string list"

locale duckdb_type_laws =
  fixes T :: duckdb_types
  assumes JSON_type: "type_id (JSON_type T) = VARCHAR"
    and JSON_is_JSON: "IsJSONType T (JSON_type T)"
    and IsJSONType: "IsJSONType T t \<Longrightarrow> type_id t = VARCHAR"
    and DECIMAL_type: "w \<le> 38 \<Longrightarrow> s \<le> w \<Longrightarrow>
      DECIMAL_type T w s = LogicalType DECIMAL None [] w s []"
    and SplitWithParentheses: "list_all is_digit a \<Longrightarrow> list_all is_digit b \<Longrightarrow> a \<noteq> [] \<Longrightarrow> b \<noteq> [] \<Longrightarrow>
      SplitWithParentheses T (a @ '','' @ b) = [a, b]"
    and VisitTypes: "set (VisitTypes T t) = insert t (\<Union>c \<in> set (type_children t). set (VisitTypes T (snd c)))"

text \<open>\<^verbatim>\<open>std::stoull\<close>: leading white space is skipped, then the longest run of digits is read.\<close>

definition stoull :: "string \<Rightarrow> nat res" where
  "stoull s =
     (let digits = takeWhile is_digit (dropWhile is_space s)
      in if digits = [] then Inl (InvalidInputException ''stoull'')
         else if dec_value digits < 2 ^ 64 then Inr (dec_value digits)
         else Inl (InvalidInputException ''stoull''))"

definition DUCKLAKE_TYPES :: "(string \<times> LogicalTypeId) list" where
  "DUCKLAKE_TYPES =
     [(''boolean'', BOOLEAN), (''int8'', TINYINT), (''int16'', SMALLINT), (''int32'', INTEGER),
      (''int64'', BIGINT), (''int128'', HUGEINT), (''uint8'', UTINYINT), (''uint16'', USMALLINT),
      (''uint32'', UINTEGER), (''uint64'', UBIGINT), (''uint128'', UHUGEINT), (''float32'', FLOAT),
      (''float64'', DOUBLE), (''decimal'', DECIMAL), (''time'', TIME), (''time_ns'', TIME_NS),
      (''date'', DATE), (''timestamp'', TIMESTAMP), (''timestamp_us'', TIMESTAMP),
      (''timestamp_ms'', TIMESTAMP_MS), (''timestamp_ns'', TIMESTAMP_NS),
      (''timestamp_s'', TIMESTAMP_SEC), (''timestamptz'', TIMESTAMP_TZ),
      (''timestamptz_ns'', TIMESTAMP_TZ_NS), (''timetz'', TIME_TZ), (''interval'', INTERVAL),
      (''varchar'', VARCHAR), (''blob'', BLOB), (''uuid'', UUID), (''struct'', STRUCT),
      (''map'', MAP), (''list'', LIST), (''null'', SQLNULL), (''unknown'', UNKNOWN)]"

definition ParseBaseType :: "duckdb_string \<Rightarrow> duckdb_types \<Rightarrow> string \<Rightarrow> LogicalType res" where
  "ParseBaseType D T str =
     (case find (\<lambda>e. StringUtil_CIEquals D str (fst e)) DUCKLAKE_TYPES of
        Some e \<Rightarrow> Inr (plain_type (snd e))
      | None \<Rightarrow>
          if StringUtil_CIEquals D str ''json'' then Inr (JSON_type T)
          else if StringUtil_CIEquals D str ''variant'' then Inr (plain_type VARIANT)
          else if StringUtil_CIEquals D str ''geometry'' then Inr (plain_type GEOMETRY)
          else Inl (InvalidInputException (''Failed to parse DuckLake type - unsupported type '' @ str)))"

definition ToStringBaseType :: "LogicalType \<Rightarrow> string res" where
  "ToStringBaseType t =
     (case find (\<lambda>e. type_id t = snd e) DUCKLAKE_TYPES of
        Some e \<Rightarrow> Inr (fst e)
      | None \<Rightarrow> Inl (InvalidInputException ''Failed to convert DuckDB type to DuckLake - unsupported type''))"

definition IsStringType :: "LogicalType \<Rightarrow> bool" where
  "IsStringType t \<longleftrightarrow> type_id t = VARCHAR \<or> type_id t = BLOB"

definition DuckLakeTypes_IsNested :: "duckdb_types \<Rightarrow> LogicalType \<Rightarrow> bool" where
  "DuckLakeTypes_IsNested T t \<longleftrightarrow> IsNested T t \<and> type_id t \<noteq> VARIANT"

definition RequiresCast :: "LogicalType \<Rightarrow> bool" where
  "RequiresCast t = False"

definition RequiresCast_any :: "LogicalType list \<Rightarrow> bool" where
  "RequiresCast_any types = list_ex RequiresCast types"

definition GetCastedType :: "LogicalType \<Rightarrow> LogicalType" where
  "GetCastedType t = t"

definition FromString :: "duckdb_string \<Rightarrow> duckdb_types \<Rightarrow> string \<Rightarrow> LogicalType res" where
  "FromString D T s =
     (if starts_with s ''decimal('' \<and> s \<noteq> [] \<and> last s = CHR '')''
      then (let members = SplitWithParentheses T (butlast (drop 8 s))
            in if length members \<noteq> 2
               then Inl (NotImplementedException ''Invalid DECIMAL type - expected width and scale'')
               else bind_res (stoull (members ! 0)) (\<lambda>width.
                    bind_res (stoull (members ! 1)) (\<lambda>scale.
                      Inr (DECIMAL_type T width scale))))
      else ParseBaseType D T s)"

definition ToString :: "duckdb_string \<Rightarrow> duckdb_types \<Rightarrow> LogicalType \<Rightarrow> string res" where
  "ToString D T t =
     (case alias_name t of
        Some alias \<Rightarrow>
          if type_id t = STRUCT \<or> type_id t = TUPLE then Inr ''struct''
          else if IsJSONType T t then Inr ''json''
          else if type_id t = UNBOUND \<and> StringUtil_Lower D alias = ''json'' then Inr ''json''
          else Inl (InvalidInputException ''Unsupported user-defined type'')
      | None \<Rightarrow>
          (case type_id t of
             STRUCT \<Rightarrow> if type_children t = []
                       then Inl (InvalidInputException ''Failed to convert DuckDB type to DuckLake - unsupported type'')
                       else Inr ''struct''
           | TUPLE \<Rightarrow> if type_children t = []
                       then Inl (InvalidInputException ''Failed to convert DuckDB type to DuckLake - unsupported type'')
                       else Inr ''struct''
           | VARIANT \<Rightarrow> Inr ''variant''
           | GEOMETRY \<Rightarrow> Inr ''geometry''
           | LIST \<Rightarrow> Inr ''list''
           | MAP \<Rightarrow> Inr ''map''
           | DECIMAL \<Rightarrow> Inr (''decimal('' @ dec_string (decimal_width t) @ '','' @
                              dec_string (decimal_scale t) @ '')'')
           | VARCHAR \<Rightarrow> if type_collation t \<noteq> []
                       then Inl (InvalidInputException ''Collations are not supported in DuckLake storage'')
                       else ToStringBaseType t
           | _ \<Rightarrow> ToStringBaseType t))"

definition CheckSupportedType ::
  "duckdb_string \<Rightarrow> duckdb_types \<Rightarrow> LogicalType \<Rightarrow> DuckLakeVersion \<Rightarrow> unit res" where
  "CheckSupportedType D T t version =
     for_each (VisitTypes T t) (\<lambda>c.
       if type_id c = SQLNULL \<and> version < V1_1_DEV_1
       then ThrowUnsupportedByVersion version ''the NULL type''
       else bind_res (ToString D T c) (\<lambda>_. Inr ()))"

definition CheckSupportedTypes ::
  "duckdb_string \<Rightarrow> duckdb_types \<Rightarrow> LogicalType list \<Rightarrow> DuckLakeVersion \<Rightarrow> unit res" where
  "CheckSupportedTypes D T columns version =
     for_each columns (\<lambda>c. CheckSupportedType D T c version)"

section \<open>Round trips\<close>

lemma version_round_trip:
  "v \<noteq> UNSET \<Longrightarrow> bind_res (DuckLakeVersionToString v) DuckLakeVersionFromString = Inr v"
  by (cases v) (simp_all add: DuckLakeVersionFromString_def)

interpretation version_codec: codec
  DuckLakeVersionToString DuckLakeVersionFromString "\<lambda>v. v \<noteq> UNSET"
  by unfold_locales (auto dest: version_round_trip simp: bind_res_Inr_iff)

lemma takeWhile_digits: "list_all is_digit s \<Longrightarrow> takeWhile is_digit s = s"
  by (induction s) auto

lemma dropWhile_space_digits: "list_all is_digit s \<Longrightarrow> dropWhile is_space s = s"
  by (cases s) (auto simp: is_digit_def is_space_def)

lemma stoull_dec_string: "n < 2 ^ 64 \<Longrightarrow> stoull (dec_string n) = Inr n"
proof -
  assume n: "n < 2 ^ 64"
  have "list_all is_digit (dec_string n)"
    using dec_string_digits by (simp add: list_all_iff)
  with n show ?thesis
    by (simp add: stoull_def Let_def takeWhile_digits dropWhile_space_digits)
qed

section \<open>Concrete DuckDB types\<close>

fun visit_types :: "LogicalType \<Rightarrow> LogicalType list" where
  "visit_types (LogicalType i a c w s cs) =
     concat (map (\<lambda>(n, t). visit_types t) cs) @ [LogicalType i a c w s cs]"

definition duckdb_types_ref :: duckdb_types where
  "duckdb_types_ref =
     \<lparr>IsJSONType = (\<lambda>t. type_id t = VARCHAR \<and> alias_name t = Some ''JSON''),
      JSON_type = LogicalType VARCHAR (Some ''JSON'') [] 0 0 [],
      DECIMAL_type = (\<lambda>w s. LogicalType DECIMAL None [] w s []),
      IsNested = (\<lambda>t. type_id t \<in> {STRUCT, TUPLE, LIST, MAP, ARRAY, VARIANT}),
      IsNumeric = (\<lambda>t. type_id t \<in> {TINYINT, SMALLINT, INTEGER, BIGINT, HUGEINT, UTINYINT, USMALLINT,
         UINTEGER, UBIGINT, UHUGEINT, FLOAT, DOUBLE, DECIMAL}),
      IsTemporal = (\<lambda>t. type_id t \<in> {DATE, TIME, TIME_TZ, TIME_NS, TIMESTAMP, TIMESTAMP_MS,
         TIMESTAMP_NS, TIMESTAMP_SEC, TIMESTAMP_TZ, TIMESTAMP_TZ_NS}),
      IsIntegral = (\<lambda>t. type_id t \<in> {TINYINT, SMALLINT, INTEGER, BIGINT, HUGEINT, UTINYINT, USMALLINT,
         UINTEGER, UBIGINT, UHUGEINT}),
      VisitTypes = visit_types,
      SplitWithParentheses = (\<lambda>s. split_string s CHR '','')\<rparr>"

lemma split_string_digits: "list_all is_digit b \<Longrightarrow> split_string b CHR '','' = [b]"
  by (induction b) auto

lemma split_string_two:
  "list_all is_digit a \<Longrightarrow> list_all is_digit b \<Longrightarrow> split_string (a @ CHR '','' # b) CHR '','' = [a, b]"
  by (induction a) (auto simp: split_string_digits)

interpretation ref_types: duckdb_type_laws duckdb_types_ref
proof
  fix t
  show "set (VisitTypes duckdb_types_ref t)
        = insert t (\<Union>c \<in> set (type_children t). set (VisitTypes duckdb_types_ref (snd c)))"
    by (cases t) (auto simp: duckdb_types_ref_def)
qed (auto simp: duckdb_types_ref_def split_string_two)

section \<open>The type names\<close>

text \<open>
  What a stored type name identifies: tuples are stored as structs, and an unbound JSON alias as
  the JSON type, whose identifier is VARCHAR.
\<close>

fun stored_type_id :: "LogicalTypeId \<Rightarrow> LogicalTypeId" where
  "stored_type_id TUPLE = STRUCT"
| "stored_type_id UNBOUND = VARCHAR"
| "stored_type_id i = i"

definition storable :: "LogicalType \<Rightarrow> bool" where
  "storable t \<longleftrightarrow> type_id t = DECIMAL \<longrightarrow> decimal_width t \<le> 38 \<and> decimal_scale t \<le> decimal_width t"

lemma type_names_lower: "(nm, i) \<in> set DUCKLAKE_TYPES \<Longrightarrow> ascii_lower nm = nm"
  by (auto simp: DUCKLAKE_TYPES_def ascii_lower_def char_lower_def)

lemma type_names_distinct: "distinct (map fst DUCKLAKE_TYPES)"
  by (simp add: DUCKLAKE_TYPES_def)

context duckdb_strings
begin

text \<open>Every name of the table parses back to the identifier it is listed with.\<close>

lemma ParseBaseType_table:
  assumes "(nm, i) \<in> set DUCKLAKE_TYPES"
  shows "ParseBaseType D T nm = Inr (plain_type i)"
proof -
  have "find (\<lambda>e. StringUtil_CIEquals D nm (fst e)) DUCKLAKE_TYPES
        = find (\<lambda>e. fst (nm, i) = fst e) DUCKLAKE_TYPES"
    using type_names_lower assms by (intro find_cong) (auto simp: CIEquals)
  also have "\<dots> = Some (nm, i)"
    using find_distinct_key [OF type_names_distinct assms] .
  finally show ?thesis by (simp add: ParseBaseType_def)
qed

lemma no_decimal_prefix:
  "(nm, i) \<in> set DUCKLAKE_TYPES \<Longrightarrow> \<not> starts_with nm ''decimal(''"
  by (auto simp: DUCKLAKE_TYPES_def starts_with_def)

lemma FromString_table:
  "(nm, i) \<in> set DUCKLAKE_TYPES \<Longrightarrow> FromString D T nm = Inr (plain_type i)"
  by (simp add: FromString_def no_decimal_prefix ParseBaseType_table)

lemma ToStringBaseType_table:
  "ToStringBaseType t = Inr s \<Longrightarrow> (s, type_id t) \<in> set DUCKLAKE_TYPES"
  by (auto simp: ToStringBaseType_def find_Some_iff split: option.splits)

lemma FromString_extra:
  "FromString D T ''json'' = Inr (JSON_type T)"
  "FromString D T ''variant'' = Inr (plain_type VARIANT)"
  "FromString D T ''geometry'' = Inr (plain_type GEOMETRY)"
  by (simp_all add: FromString_def starts_with_def ParseBaseType_def DUCKLAKE_TYPES_def CIEquals
      ascii_lower_def char_lower_def)

lemma FromString_decimal:
  assumes "duckdb_type_laws T" and "w \<le> 38" and "s \<le> w"
  shows "FromString D T (''decimal('' @ dec_string w @ '','' @ dec_string s @ '')'')
         = Inr (LogicalType DECIMAL None [] w s [])"
proof -
  let ?m = "dec_string w @ '','' @ dec_string s"
  have digits: "list_all is_digit (dec_string n)" for n
    using dec_string_digits by (simp add: list_all_iff)
  have str: "''decimal('' @ dec_string w @ '','' @ dec_string s @ '')'' = ''decimal('' @ ?m @ '')''"
    by simp
  have inner: "butlast (drop 8 (''decimal('' @ ?m @ '')'')) = ?m"
    by (simp add: butlast_append)
  have split: "SplitWithParentheses T ?m = [dec_string w, dec_string s]"
    using assms(1) by (intro duckdb_type_laws.SplitWithParentheses) (auto simp: digits)
  show ?thesis
    unfolding str FromString_def inner
    using assms duckdb_type_laws.DECIMAL_type [OF assms(1-3)]
    by (simp add: starts_with_def split [simplified] Let_def stoull_dec_string)
qed

lemma ToString_FromString:
  assumes laws: "duckdb_type_laws T" and "storable t" and out: "ToString D T t = Inr s"
  shows "\<exists>t'. FromString D T s = Inr t' \<and> type_id t' = stored_type_id (type_id t) \<and>
    (type_id t = DECIMAL \<longrightarrow> decimal_width t' = decimal_width t \<and> decimal_scale t' = decimal_scale t)"
proof (cases "alias_name t")
  case (Some a)
  have struct: "FromString D T ''struct'' = Inr (plain_type STRUCT)"
    by (rule FromString_table) (simp add: DUCKLAKE_TYPES_def)
  have json: "\<exists>t'. FromString D T ''json'' = Inr t' \<and> type_id t' = VARCHAR"
    using duckdb_type_laws.JSON_type [OF laws] by (simp add: FromString_extra)
  from out Some have "s = ''struct'' \<and> type_id t \<in> {STRUCT, TUPLE} \<or> s = ''json'' \<and> type_id t \<in> {VARCHAR, UNBOUND}"
    using duckdb_type_laws.IsJSONType [OF laws, of t] by (auto simp: ToString_def split: if_splits)
  with struct json show ?thesis
    by (elim disjE) (auto simp: plain_type_def)
next
  case None
  have base: "?thesis" if "ToStringBaseType t = Inr s" "type_id t \<noteq> DECIMAL"
      "stored_type_id (type_id t) = type_id t"
    using FromString_table [OF ToStringBaseType_table [OF that(1)]] that(2,3)
    by (simp add: plain_type_def)
  have named: "FromString D T ''struct'' = Inr (plain_type STRUCT)"
    "FromString D T ''list'' = Inr (plain_type LIST)" "FromString D T ''map'' = Inr (plain_type MAP)"
    by (rule FromString_table; simp add: DUCKLAKE_TYPES_def)+
  have unbound: "ToStringBaseType t \<noteq> Inr s" if "type_id t = UNBOUND"
    using that by (simp add: ToStringBaseType_def DUCKLAKE_TYPES_def)
  from out None base unbound show ?thesis
    by (cases "type_id t")
      (auto simp: ToString_def named FromString_extra plain_type_def storable_def assms
        FromString_decimal [OF laws, simplified] \<open>storable t\<close>[unfolded storable_def] split: if_splits)
qed

end



end
