(* ===== verification/DL_Stats.thy ===== *)
theory DL_Stats
  imports DL_Index DL_Types
begin

text \<open>
  Column and table statistics: \<^verbatim>\<open>src/src/storage/ducklake_stats.cpp\<close>, the geometry statistics of
  \<^verbatim>\<open>src/src/storage/statistics/ducklake_geo_stats.cpp\<close> and the merge of the variant statistics of
  \<^verbatim>\<open>ducklake_variant_stats.cpp\<close>. Statistics of a column are kept as text (\<^verbatim>\<open>min\<close>, \<^verbatim>\<open>max\<close>) and
  compared as values of the column's type; \<open>MergeStats\<close> combines the statistics of a file with
  those of the table.

  What DuckDB's \<^verbatim>\<open>Value\<close> does (casting text to a type, comparing) is the record \<open>duckdb_value\<close>.
  The soundness theorem reads statistics as a claim about the column's values: a known minimum is
  a lower bound of all non-NULL values, a null count of zero means no NULL, statistics without a
  valid value cover only NULLs.
\<close>

section \<open>DuckDB values\<close>

record 'v duckdb_value =
  Value_DefaultCastAs :: "string \<Rightarrow> LogicalType \<Rightarrow> 'v res"
  Value_less :: "'v \<Rightarrow> 'v \<Rightarrow> bool"
  Value_equal :: "'v \<Rightarrow> 'v \<Rightarrow> bool"
  Value_IsNull :: "'v \<Rightarrow> bool"
  Value_ToString :: "'v \<Rightarrow> string"
  NumericLimits_double_Maximum :: "64 word"
  NumericLimits_double_Minimum :: "64 word"
  MinValue_double :: "64 word \<Rightarrow> 64 word \<Rightarrow> 64 word"
  MaxValue_double :: "64 word \<Rightarrow> 64 word \<Rightarrow> 64 word"

text \<open>
  Values of one type are totally ordered by \<^verbatim>\<open>operator<\<close>, which \<^verbatim>\<open>operator==\<close> agrees with.
\<close>

locale duckdb_values =
  fixes V :: "'v duckdb_value"
  assumes less_irrefl: "\<not> Value_less V x x"
    and less_trans: "Value_less V x y \<Longrightarrow> Value_less V y z \<Longrightarrow> Value_less V x z"
    and less_total: "Value_less V x y \<or> Value_equal V x y \<or> Value_less V y x"
    and equal_iff: "Value_equal V x y \<longleftrightarrow> x = y"
begin

lemma not_less_trans: "\<not> Value_less V x y \<Longrightarrow> \<not> Value_less V y z \<Longrightarrow> \<not> Value_less V x z"
  using less_trans less_total equal_iff by metis

lemma less_imp_not_less: "Value_less V x y \<Longrightarrow> \<not> Value_less V y x"
  using less_trans less_irrefl by blast

end

section \<open>Geometry statistics\<close>

text \<open>Doubles are their 64 bits; the code only selects among them with \<^verbatim>\<open>MinValue\<close> and \<^verbatim>\<open>MaxValue\<close>.\<close>

type_synonym double = "64 word"

record DuckLakeColumnGeoStats =
  xmin :: double
  xmax :: double
  ymin :: double
  ymax :: double
  zmin :: double
  zmax :: double
  mmin :: double
  mmax :: double
  geo_types :: "string fset"

definition DuckLakeColumnGeoStats_new :: "'v duckdb_value \<Rightarrow> DuckLakeColumnGeoStats" where
  "DuckLakeColumnGeoStats_new V =
     (let hi = NumericLimits_double_Maximum V; lo = NumericLimits_double_Minimum V
      in \<lparr>xmin = hi, xmax = lo, ymin = hi, ymax = lo, zmin = hi, zmax = lo, mmin = hi, mmax = lo,
          geo_types = {||}\<rparr>)"

definition GeoStats_Merge ::
  "'v duckdb_value \<Rightarrow> DuckLakeColumnGeoStats \<Rightarrow> DuckLakeColumnGeoStats \<Rightarrow> DuckLakeColumnGeoStats" where
  "GeoStats_Merge V g n =
     \<lparr>xmin = MinValue_double V (xmin g) (xmin n), xmax = MaxValue_double V (xmax g) (xmax n),
      ymin = MinValue_double V (ymin g) (ymin n), ymax = MaxValue_double V (ymax g) (ymax n),
      zmin = MinValue_double V (zmin g) (zmin n), zmax = MaxValue_double V (zmax g) (zmax n),
      mmin = MinValue_double V (mmin g) (mmin n), mmax = MaxValue_double V (mmax g) (mmax n),
      geo_types = geo_types g |\<union>| geo_types n\<rparr>"

section \<open>Column statistics\<close>

text \<open>
  The scalar fields of \<^verbatim>\<open>DuckLakeColumnStats\<close>; the extra statistics of a variant column hold the
  statistics of its shredded fields, so the whole is a recursive type.
\<close>

record column_stats =
  stats_type :: LogicalType
  min_val :: string
  max_val :: string
  null_count :: idx
  num_values :: idx
  column_size_bytes :: idx
  contains_nan :: bool
  has_null_count :: bool
  has_num_values :: bool
  has_min :: bool
  has_max :: bool
  any_valid :: bool
  bounds_unknown :: bool
  has_contains_nan :: bool
  min_is_exact :: bool
  max_is_exact :: bool

datatype DuckLakeColumnStats =
  ColumnStats (scalar: column_stats) (extra_stats: "DuckLakeColumnExtraStats option")
and DuckLakeColumnExtraStats =
    GeoStats DuckLakeColumnGeoStats
  | VariantStats "(string \<times> LogicalType \<times> DuckLakeColumnStats) list"

definition column_stats_default :: "LogicalType \<Rightarrow> column_stats" where
  "column_stats_default t =
     \<lparr>stats_type = t, min_val = [], max_val = [], null_count = 0, num_values = 0,
      column_size_bytes = 0, contains_nan = False, has_null_count = False, has_num_values = False,
      has_min = False, has_max = False, any_valid = True, bounds_unknown = False,
      has_contains_nan = False, min_is_exact = False, max_is_exact = False\<rparr>"

definition DuckLakeColumnStats_new :: "'v duckdb_value \<Rightarrow> LogicalType \<Rightarrow> DuckLakeColumnStats" where
  "DuckLakeColumnStats_new V t =
     ColumnStats (column_stats_default t)
       (if type_id t = VARIANT then Some (VariantStats [])
        else if type_id t = GEOMETRY then Some (GeoStats (DuckLakeColumnGeoStats_new V))
        else None)"

definition RequiresValueComparison :: "duckdb_types \<Rightarrow> LogicalType \<Rightarrow> bool" where
  "RequiresValueComparison T t \<longleftrightarrow> IsNumeric T t \<or> IsTemporal T t \<or> type_id t = BOOLEAN"

definition AnyValid :: "column_stats \<Rightarrow> bool" where
  "AnyValid s \<longleftrightarrow>
     (if has_num_values s \<and> has_null_count s then num_values s > null_count s else any_valid s)"

definition EffectiveMinIsExact :: "duckdb_types \<Rightarrow> column_stats \<Rightarrow> bool" where
  "EffectiveMinIsExact T s \<longleftrightarrow> has_min s \<and> (min_is_exact s \<or> RequiresValueComparison T (stats_type s))"

definition EffectiveMaxIsExact :: "duckdb_types \<Rightarrow> column_stats \<Rightarrow> bool" where
  "EffectiveMaxIsExact T s \<longleftrightarrow> has_max s \<and> (max_is_exact s \<or> RequiresValueComparison T (stats_type s))"

record DuckLakeGlobalColumnStatsInfo =
  gc_column_id :: FieldIndex
  gc_contains_null :: bool
  gc_has_contains_null :: bool
  gc_contains_nan :: bool
  gc_has_contains_nan :: bool
  gc_min_val :: string
  gc_has_min :: bool
  gc_max_val :: string
  gc_has_max :: bool
  gc_extra_stats :: string
  gc_has_extra_stats :: bool
  gc_min_is_exact :: bool
  gc_max_is_exact :: bool

text \<open>
  \<^verbatim>\<open>FromGlobalStats\<close>; \<open>deserialize\<close> is the virtual \<^verbatim>\<open>DuckLakeColumnExtraStats::Deserialize\<close>.
\<close>

definition FromGlobalStats ::
  "'v duckdb_value \<Rightarrow> (DuckLakeColumnExtraStats \<Rightarrow> string \<Rightarrow> DuckLakeColumnExtraStats res) \<Rightarrow>
   LogicalType \<Rightarrow> DuckLakeGlobalColumnStatsInfo \<Rightarrow> bool \<Rightarrow> DuckLakeColumnStats res" where
  "FromGlobalStats V deserialize t col table_has_rows =
     (let fresh = DuckLakeColumnStats_new V t;
          s0 = scalar fresh;
          valid = gc_has_min col \<or> gc_has_max col \<or> gc_has_extra_stats col;
          s = s0\<lparr>has_null_count := gc_has_contains_null col,
                 null_count := (if gc_has_contains_null col
                                then (if gc_contains_null col then 1 else 0) else null_count s0),
                 has_contains_nan := gc_has_contains_nan col,
                 contains_nan := (if gc_has_contains_nan col then gc_contains_nan col else contains_nan s0),
                 has_min := gc_has_min col,
                 min_val := (if gc_has_min col then gc_min_val col else min_val s0),
                 has_max := gc_has_max col,
                 max_val := (if gc_has_max col then gc_max_val col else max_val s0),
                 min_is_exact := gc_min_is_exact col,
                 max_is_exact := gc_max_is_exact col,
                 any_valid := valid,
                 bounds_unknown := \<not> valid \<and> table_has_rows\<rparr>
      in case extra_stats fresh of
           Some x \<Rightarrow>
             if gc_has_extra_stats col
             then bind_res (deserialize x (gc_extra_stats col)) (\<lambda>x'. Inr (ColumnStats s (Some x')))
             else Inr (ColumnStats s (Some x))
         | None \<Rightarrow> Inr (ColumnStats s None))"

definition FromConstant :: "'v duckdb_value \<Rightarrow> LogicalType \<Rightarrow> 'v \<Rightarrow> idx \<Rightarrow> DuckLakeColumnStats" where
  "FromConstant V t value cnt =
     (let fresh = DuckLakeColumnStats_new V t;
          s = (scalar fresh)\<lparr>has_num_values := True, num_values := cnt, has_null_count := True\<rparr>;
          s' = (if Value_IsNull V value then s\<lparr>null_count := cnt, any_valid := False\<rparr>
                else if cnt = 0 then s\<lparr>any_valid := False\<rparr>
                else s\<lparr>min_val := Value_ToString V value, max_val := Value_ToString V value,
                       has_min := True, has_max := True, min_is_exact := True, max_is_exact := True\<rparr>)
      in ColumnStats s' (extra_stats fresh))"

definition ClearBounds :: "column_stats \<Rightarrow> column_stats" where
  "ClearBounds s =
     s\<lparr>min_val := [], max_val := [], has_min := False, has_max := False, min_is_exact := False,
       max_is_exact := False, contains_nan := False, has_contains_nan := False\<rparr>"

definition BoundsSurviveTypePromotion :: "duckdb_types \<Rightarrow> LogicalType \<Rightarrow> LogicalType \<Rightarrow> bool" where
  "BoundsSurviveTypePromotion T source target \<longleftrightarrow>
     (IsIntegral T source \<and> IsIntegral T target) \<or> (type_id source = DECIMAL \<and> type_id target = DECIMAL)"

text \<open>The parts of \<open>MergeStats\<close>, in its order: the counts, then the two bounds.\<close>

definition merge_counts :: "column_stats \<Rightarrow> column_stats \<Rightarrow> column_stats" where
  "merge_counts s n =
     s\<lparr>stats_type := stats_type n,
       has_null_count := has_null_count s \<and> has_null_count n,
       null_count := (if has_null_count n \<and> has_null_count s then null_count s + null_count n
                      else null_count s),
       has_num_values := has_num_values s \<and> has_num_values n,
       num_values := (if has_num_values n \<and> has_num_values s then num_values s + num_values n
                      else num_values s),
       column_size_bytes := column_size_bytes s + column_size_bytes n,
       has_contains_nan := has_contains_nan s \<and> has_contains_nan n,
       contains_nan := (if has_contains_nan n \<and> has_contains_nan s \<and> contains_nan n then True
                        else contains_nan s)\<rparr>"

definition merge_min ::
  "duckdb_types \<Rightarrow> 'v duckdb_value \<Rightarrow> column_stats \<Rightarrow> column_stats \<Rightarrow> column_stats res" where
  "merge_min T V s n =
     (if \<not> has_min n then Inr (s\<lparr>has_min := False\<rparr>)
      else if \<not> has_min s then Inr s
      else if RequiresValueComparison T (stats_type s)
      then bind_res (Value_DefaultCastAs V (min_val s) (stats_type s)) (\<lambda>current_min.
           bind_res (Value_DefaultCastAs V (min_val n) (stats_type s)) (\<lambda>new_min.
             if Value_less V new_min current_min
             then Inr (s\<lparr>min_val := min_val n, min_is_exact := min_is_exact n\<rparr>)
             else if Value_equal V new_min current_min
             then Inr (s\<lparr>min_is_exact := (min_is_exact s \<and> min_is_exact n)\<rparr>)
             else Inr s))
      else if min_val n < min_val s
      then Inr (s\<lparr>min_val := min_val n, min_is_exact := min_is_exact n\<rparr>)
      else if min_val n = min_val s
      then Inr (s\<lparr>min_is_exact := (min_is_exact s \<and> min_is_exact n)\<rparr>)
      else Inr s)"

definition merge_max ::
  "duckdb_types \<Rightarrow> 'v duckdb_value \<Rightarrow> column_stats \<Rightarrow> column_stats \<Rightarrow> column_stats res" where
  "merge_max T V s n =
     (if \<not> has_max n then Inr (s\<lparr>has_max := False\<rparr>)
      else if \<not> has_max s then Inr s
      else if RequiresValueComparison T (stats_type s)
      then bind_res (Value_DefaultCastAs V (max_val s) (stats_type s)) (\<lambda>current_max.
           bind_res (Value_DefaultCastAs V (max_val n) (stats_type s)) (\<lambda>new_max.
             if Value_less V current_max new_max
             then Inr (s\<lparr>max_val := max_val n, max_is_exact := max_is_exact n\<rparr>)
             else if Value_equal V new_max current_max
             then Inr (s\<lparr>max_is_exact := (max_is_exact s \<and> max_is_exact n)\<rparr>)
             else Inr s))
      else if max_val s < max_val n
      then Inr (s\<lparr>max_val := max_val n, max_is_exact := max_is_exact n\<rparr>)
      else if max_val n = max_val s
      then Inr (s\<lparr>max_is_exact := (max_is_exact s \<and> max_is_exact n)\<rparr>)
      else Inr s)"

text \<open>
  The three outcomes after the counts: the merge is complete (an all-NULL side), or the extra
  statistics remain to be merged.
\<close>

datatype merge_outcome = MergeDone column_stats | MergeExtra column_stats

definition merge_scalar ::
  "duckdb_types \<Rightarrow> 'v duckdb_value \<Rightarrow> column_stats \<Rightarrow> column_stats \<Rightarrow> merge_outcome res" where
  "merge_scalar T V s0 n =
     (let types_differ = (stats_type s0 \<noteq> stats_type n);
          bounds_survive = (\<not> types_differ \<or> BoundsSurviveTypePromotion T (stats_type s0) (stats_type n));
          s = merge_counts s0 n;
          unbound = s\<lparr>has_min := False, has_max := False, bounds_unknown := True\<rparr>
      in if \<not> AnyValid n then Inr (MergeDone (if bounds_survive then s else unbound))
         else if \<not> AnyValid s
         then Inr (MergeDone (if bounds_unknown s then s
           else s\<lparr>min_val := min_val n, has_min := has_min n, min_is_exact := min_is_exact n,
                  max_val := max_val n, has_max := has_max n, max_is_exact := max_is_exact n,
                  any_valid := True\<rparr>))
         else if \<not> bounds_survive then Inr (MergeExtra unbound)
         else bind_res (merge_min T V s n) (\<lambda>s1.
              bind_res (merge_max T V s1 n) (\<lambda>s2. Inr (MergeExtra s2))))"

text \<open>
  \<^verbatim>\<open>MergeStats\<close> with the virtual \<^verbatim>\<open>Merge\<close> of the extra statistics; the shredded fields of a variant
  that do not occur on both sides with the same type are erased.
\<close>

fun MergeStats ::
  "duckdb_types \<Rightarrow> 'v duckdb_value \<Rightarrow> DuckLakeColumnStats \<Rightarrow> DuckLakeColumnStats \<Rightarrow> DuckLakeColumnStats res"
and ExtraStats_Merge ::
  "duckdb_types \<Rightarrow> 'v duckdb_value \<Rightarrow> DuckLakeColumnExtraStats \<Rightarrow> DuckLakeColumnExtraStats \<Rightarrow>
   DuckLakeColumnExtraStats res"
and merge_shredded ::
  "duckdb_types \<Rightarrow> 'v duckdb_value \<Rightarrow> (string \<times> LogicalType \<times> DuckLakeColumnStats) list \<Rightarrow>
   (string \<times> LogicalType \<times> DuckLakeColumnStats) list \<Rightarrow>
   (string \<times> LogicalType \<times> DuckLakeColumnStats) list res" where
  "MergeStats T V (ColumnStats s x) n =
     bind_res (merge_scalar T V s (scalar n)) (\<lambda>r.
       case r of
         MergeDone s' \<Rightarrow> Inr (ColumnStats s' x)
       | MergeExtra s' \<Rightarrow>
           (case extra_stats n of
              None \<Rightarrow> Inr (ColumnStats s' x)
            | Some y \<Rightarrow>
                (case x of
                   None \<Rightarrow> Inr (ColumnStats s' (Some y))
                 | Some z \<Rightarrow> bind_res (ExtraStats_Merge T V z y) (\<lambda>z'. Inr (ColumnStats s' (Some z'))))))"
| "ExtraStats_Merge T V (GeoStats g) y =
     (case y of
        GeoStats h \<Rightarrow> Inr (GeoStats (GeoStats_Merge V g h))
      | VariantStats _ \<Rightarrow>
          Inl (InternalException ''Failed to cast DuckLakeColumnExtraStats to type - type mismatch''))"
| "ExtraStats_Merge T V (VariantStats fs) y =
     (if fs = [] then Inr (VariantStats fs)
      else (case y of
              GeoStats _ \<Rightarrow>
                Inl (InternalException ''Failed to cast DuckLakeColumnExtraStats to type - type mismatch'')
            | VariantStats gs \<Rightarrow> bind_res (merge_shredded T V fs gs) (\<lambda>fs'. Inr (VariantStats fs'))))"
| "merge_shredded T V [] gs = Inr []"
| "merge_shredded T V ((f, t, s) # fs) gs =
     (case map_of gs f of
        None \<Rightarrow> merge_shredded T V fs gs
      | Some (t', s') \<Rightarrow>
          if t \<noteq> t' then merge_shredded T V fs gs
          else bind_res (MergeStats T V s s') (\<lambda>m.
               bind_res (merge_shredded T V fs gs) (\<lambda>rest. Inr ((f, t, m) # rest))))"


section \<open>What statistics claim\<close>

text \<open>\<open>text_le T V t a b\<close>: as values of type \<open>t\<close>, \<open>b\<close> is not below \<open>a\<close>.\<close>

definition text_le :: "duckdb_types \<Rightarrow> 'v duckdb_value \<Rightarrow> LogicalType \<Rightarrow> string \<Rightarrow> string \<Rightarrow> bool" where
  "text_le T V t a b \<longleftrightarrow>
     (if RequiresValueComparison T t
      then (case (Value_DefaultCastAs V a t, Value_DefaultCastAs V b t) of
              (Inr x, Inr y) \<Rightarrow> \<not> Value_less V y x
            | _ \<Rightarrow> False)
      else a \<le> b)"

definition readable :: "duckdb_types \<Rightarrow> 'v duckdb_value \<Rightarrow> LogicalType \<Rightarrow> string \<Rightarrow> bool" where
  "readable T V t a \<longleftrightarrow> (RequiresValueComparison T t \<longrightarrow> is_ok (Value_DefaultCastAs V a t))"

definition all_null :: "string option list \<Rightarrow> bool" where
  "all_null vals \<longleftrightarrow> list_all (\<lambda>v. v = None) vals"

definition lower_bound ::
  "duckdb_types \<Rightarrow> 'v duckdb_value \<Rightarrow> LogicalType \<Rightarrow> string \<Rightarrow> string option list \<Rightarrow> bool" where
  "lower_bound T V t b vals \<longleftrightarrow> readable T V t b \<and>
     list_all (\<lambda>v. case v of None \<Rightarrow> True | Some x \<Rightarrow> text_le T V t b x) vals"

definition upper_bound ::
  "duckdb_types \<Rightarrow> 'v duckdb_value \<Rightarrow> LogicalType \<Rightarrow> string \<Rightarrow> string option list \<Rightarrow> bool" where
  "upper_bound T V t b vals \<longleftrightarrow> readable T V t b \<and>
     list_all (\<lambda>v. case v of None \<Rightarrow> True | Some x \<Rightarrow> text_le T V t x b) vals"

text \<open>
  \<open>vals\<close> are the column's values, NULL or the text of the value. Statistics cover them when every
  claim the statistics make is true of them.
\<close>

definition covers ::
  "duckdb_types \<Rightarrow> 'v duckdb_value \<Rightarrow> column_stats \<Rightarrow> string option list \<Rightarrow> bool" where
  "covers T V s vals \<longleftrightarrow>
     (has_min s \<longrightarrow> lower_bound T V (stats_type s) (min_val s) vals) \<and>
     (has_max s \<longrightarrow> upper_bound T V (stats_type s) (max_val s) vals) \<and>
     (has_null_count s \<and> null_count s = 0 \<longrightarrow> list_all (\<lambda>v. v \<noteq> None) vals) \<and>
     (has_num_values s \<and> has_null_count s \<longrightarrow> null_count s \<le> num_values s) \<and>
     (bounds_unknown s \<longrightarrow> \<not> has_min s \<and> \<not> has_max s) \<and>
     (\<not> AnyValid s \<and> \<not> bounds_unknown s \<longrightarrow> all_null vals) \<and>
     (\<not> any_valid s \<and> \<not> bounds_unknown s \<longrightarrow> all_null vals)"

text \<open>The sums of \<open>MergeStats\<close> do not wrap around.\<close>

definition counts_fit :: "column_stats \<Rightarrow> column_stats \<Rightarrow> bool" where
  "counts_fit s n \<longleftrightarrow> unat (null_count s) + unat (null_count n) < 2 ^ 64 \<and>
     unat (num_values s) + unat (num_values n) < 2 ^ 64"

definition counts_known :: "column_stats \<Rightarrow> bool" where
  "counts_known s \<longleftrightarrow> has_num_values s \<and> has_null_count s"

lemma unat_plus_fit: "unat (a :: idx) + unat b < 2 ^ 64 \<Longrightarrow> unat (a + b) = unat a + unat b"
  by (simp add: unat_add_lem [THEN iffD1])

lemma merge_counts_select [simp]:
  "stats_type (merge_counts s n) = stats_type n" "min_val (merge_counts s n) = min_val s"
  "max_val (merge_counts s n) = max_val s" "has_min (merge_counts s n) = has_min s"
  "has_max (merge_counts s n) = has_max s" "any_valid (merge_counts s n) = any_valid s"
  "bounds_unknown (merge_counts s n) = bounds_unknown s"
  "has_null_count (merge_counts s n) \<longleftrightarrow> has_null_count s \<and> has_null_count n"
  "has_num_values (merge_counts s n) \<longleftrightarrow> has_num_values s \<and> has_num_values n"
  by (simp_all add: merge_counts_def)

lemma merge_counts_null:
  "counts_fit s n \<Longrightarrow> has_null_count s \<Longrightarrow> has_null_count n \<Longrightarrow>
   unat (null_count (merge_counts s n)) = unat (null_count s) + unat (null_count n)"
  by (simp add: merge_counts_def counts_fit_def unat_plus_fit)

lemma merge_counts_num:
  "counts_fit s n \<Longrightarrow> has_num_values s \<Longrightarrow> has_num_values n \<Longrightarrow>
   unat (num_values (merge_counts s n)) = unat (num_values s) + unat (num_values n)"
  by (simp add: merge_counts_def counts_fit_def unat_plus_fit)

lemma AnyValid_merge_counts:
  assumes "counts_fit s n" and "counts_known s" and "counts_known n"
    and "null_count s \<le> num_values s" and "null_count n \<le> num_values n"
  shows "AnyValid (merge_counts s n) \<longleftrightarrow> AnyValid s \<or> AnyValid n"
  using assms merge_counts_null [of s n] merge_counts_num [of s n]
  by (auto simp: AnyValid_def counts_known_def word_less_nat_alt word_le_nat_alt)

lemma AnyValid_merge_counts_unknown:
  "\<not> (counts_known s \<and> counts_known n) \<Longrightarrow> AnyValid (merge_counts s n) \<longleftrightarrow> any_valid s"
  by (auto simp: AnyValid_def counts_known_def)

lemma null_count_merge_zero:
  assumes "counts_fit s n" and "has_null_count s" and "has_null_count n"
    and "null_count (merge_counts s n) = 0"
  shows "null_count s = 0" and "null_count n = 0"
  using assms merge_counts_null [of s n] by (simp_all add: unat_eq_0 [symmetric])


lemma all_null_append [simp]: "all_null (xs @ ys) \<longleftrightarrow> all_null xs \<and> all_null ys"
  by (simp add: all_null_def)

lemma bound_append:
  "lower_bound T V t b (xs @ ys) \<longleftrightarrow> lower_bound T V t b xs \<and> lower_bound T V t b ys"
  "upper_bound T V t b (xs @ ys) \<longleftrightarrow> upper_bound T V t b xs \<and> upper_bound T V t b ys"
  by (auto simp: lower_bound_def upper_bound_def)

lemma bound_all_null:
  "all_null vals \<Longrightarrow> lower_bound T V t b vals \<longleftrightarrow> readable T V t b"
  "all_null vals \<Longrightarrow> upper_bound T V t b vals \<longleftrightarrow> readable T V t b"
  by (auto simp: all_null_def lower_bound_def upper_bound_def list_all_iff)

lemma bound_readable:
  "lower_bound T V t b vals \<Longrightarrow> readable T V t b"
  "upper_bound T V t b vals \<Longrightarrow> readable T V t b"
  by (simp_all add: lower_bound_def upper_bound_def)

context duckdb_values
begin

lemma text_le_value:
  "RequiresValueComparison T t \<Longrightarrow> text_le T V t a b \<longleftrightarrow>
     (\<exists>x y. Value_DefaultCastAs V a t = Inr x \<and> Value_DefaultCastAs V b t = Inr y \<and> \<not> Value_less V y x)"
  by (simp add: text_le_def split: sum.split)

lemma text_le_trans:
  assumes "text_le T V t a b" and "text_le T V t b c"
  shows "text_le T V t a c"
proof (cases "RequiresValueComparison T t")
  case True
  with assms obtain x y z where "Value_DefaultCastAs V a t = Inr x" "Value_DefaultCastAs V c t = Inr z"
    and "\<not> Value_less V y x" "\<not> Value_less V z y"
    by (auto simp: text_le_value)
  with True show ?thesis using not_less_trans [of z y x] by (simp add: text_le_value)
qed (use assms in \<open>simp add: text_le_def\<close>)

lemma text_le_refl: "readable T V t a \<Longrightarrow> text_le T V t a a"
  by (auto simp: text_le_def readable_def is_ok_def less_irrefl)

lemma lower_bound_mono:
  "lower_bound T V t b vals \<Longrightarrow> readable T V t a \<Longrightarrow> text_le T V t a b \<Longrightarrow> lower_bound T V t a vals"
  by (auto simp: lower_bound_def list_all_iff split: option.splits intro: text_le_trans)

lemma upper_bound_mono:
  "upper_bound T V t b vals \<Longrightarrow> readable T V t a \<Longrightarrow> text_le T V t b a \<Longrightarrow> upper_bound T V t a vals"
  by (auto simp: upper_bound_def list_all_iff split: option.splits intro: text_le_trans)

text \<open>The chosen minimum is one of the two, and not above either; dually for the maximum.\<close>

lemma update_min_self: "s = s\<lparr>has_min := has_min s, min_val := min_val s, min_is_exact := min_is_exact s\<rparr>"
  by simp

lemma update_max_self: "s = s\<lparr>has_max := has_max s, max_val := max_val s, max_is_exact := max_is_exact s\<rparr>"
  by simp

lemma merge_min_choice:
  assumes "has_min s \<Longrightarrow> readable T V (stats_type s) (min_val s)"
    and "has_min n \<Longrightarrow> readable T V (stats_type s) (min_val n)"
  shows "\<exists>h m e. merge_min T V s n = Inr (s\<lparr>has_min := h, min_val := m, min_is_exact := e\<rparr>) \<and>
    (h \<longrightarrow> has_min s \<and> has_min n \<and> m \<in> {min_val s, min_val n} \<and>
      text_le T V (stats_type s) m (min_val s) \<and> text_le T V (stats_type s) m (min_val n))"
    (is "\<exists>h m e. ?P h m e")
proof (cases "has_min s \<and> has_min n")
  case False
  then have "?P False (min_val s) (min_is_exact s)"
    using update_min_self [of s] by (auto simp: merge_min_def)
  then show ?thesis by blast
next
  case True
  note both = True
  show ?thesis
  proof (cases "RequiresValueComparison T (stats_type s)")
    case True
    with both assms obtain x y where
      x: "Value_DefaultCastAs V (min_val s) (stats_type s) = Inr x" and
      y: "Value_DefaultCastAs V (min_val n) (stats_type s) = Inr y"
      by (auto simp: readable_def is_ok_def)
    have "?P True (if Value_less V y x then min_val n else min_val s)
        (if Value_less V y x then min_is_exact n
         else if Value_equal V y x then min_is_exact s \<and> min_is_exact n else min_is_exact s)"
      using both True x y update_min_self [of s]
      by (simp add: merge_min_def text_le_def less_irrefl less_imp_not_less equal_iff)
    then show ?thesis by blast
  next
    case False
    have "?P True (if min_val n < min_val s then min_val n else min_val s)
        (if min_val n < min_val s then min_is_exact n
         else if min_val n = min_val s then min_is_exact s \<and> min_is_exact n else min_is_exact s)"
      using both False update_min_self [of s]
      by (simp add: merge_min_def text_le_def) (auto simp: not_less)
    then show ?thesis by blast
  qed
qed

lemma merge_max_choice:
  assumes "has_max s \<Longrightarrow> readable T V (stats_type s) (max_val s)"
    and "has_max n \<Longrightarrow> readable T V (stats_type s) (max_val n)"
  shows "\<exists>h m e. merge_max T V s n = Inr (s\<lparr>has_max := h, max_val := m, max_is_exact := e\<rparr>) \<and>
    (h \<longrightarrow> has_max s \<and> has_max n \<and> m \<in> {max_val s, max_val n} \<and>
      text_le T V (stats_type s) (max_val s) m \<and> text_le T V (stats_type s) (max_val n) m)"
    (is "\<exists>h m e. ?P h m e")
proof (cases "has_max s \<and> has_max n")
  case False
  then have "?P False (max_val s) (max_is_exact s)"
    using update_max_self [of s] by (auto simp: merge_max_def)
  then show ?thesis by blast
next
  case True
  note both = True
  show ?thesis
  proof (cases "RequiresValueComparison T (stats_type s)")
    case True
    with both assms obtain x y where
      x: "Value_DefaultCastAs V (max_val s) (stats_type s) = Inr x" and
      y: "Value_DefaultCastAs V (max_val n) (stats_type s) = Inr y"
      by (auto simp: readable_def is_ok_def)
    have "?P True (if Value_less V x y then max_val n else max_val s)
        (if Value_less V x y then max_is_exact n
         else if Value_equal V y x then max_is_exact s \<and> max_is_exact n else max_is_exact s)"
      using both True x y update_max_self [of s]
      by (simp add: merge_max_def text_le_def less_irrefl less_imp_not_less equal_iff)
    then show ?thesis by blast
  next
    case False
    have "?P True (if max_val s < max_val n then max_val n else max_val s)
        (if max_val s < max_val n then max_is_exact n
         else if max_val n = max_val s then max_is_exact s \<and> max_is_exact n else max_is_exact s)"
      using both False update_max_self [of s]
      by (simp add: merge_max_def text_le_def) (auto simp: not_less)
    then show ?thesis by blast
  qed
qed

text \<open>
  The claims that do not concern the bounds survive the addition of the counts, whatever the
  bounds become.
\<close>

lemma merge_counts_covers:
  assumes s: "covers T V s v1" and n: "covers T V n v2" and fit: "counts_fit s n"
  shows "has_null_count s \<and> has_null_count n \<and> null_count (merge_counts s n) = 0
           \<Longrightarrow> list_all (\<lambda>v. v \<noteq> None) (v1 @ v2)"
    and "counts_known s \<and> counts_known n
           \<Longrightarrow> null_count (merge_counts s n) \<le> num_values (merge_counts s n)"
    and "\<not> bounds_unknown s \<Longrightarrow> \<not> AnyValid (merge_counts s n) \<Longrightarrow> all_null v1"
    and "\<not> AnyValid (merge_counts s n) \<Longrightarrow> AnyValid n \<Longrightarrow> \<not> any_valid s \<and> \<not> (counts_known s \<and> counts_known n)"
proof -
  show "has_null_count s \<and> has_null_count n \<and> null_count (merge_counts s n) = 0
        \<Longrightarrow> list_all (\<lambda>v. v \<noteq> None) (v1 @ v2)"
    using s n null_count_merge_zero [OF fit] by (auto simp: covers_def)
  show "counts_known s \<and> counts_known n \<Longrightarrow> null_count (merge_counts s n) \<le> num_values (merge_counts s n)"
    using s n merge_counts_null [OF fit] merge_counts_num [OF fit]
    by (auto simp: covers_def counts_known_def word_le_nat_alt)
  have known: "counts_known s \<Longrightarrow> counts_known n \<Longrightarrow>
      AnyValid (merge_counts s n) \<longleftrightarrow> AnyValid s \<or> AnyValid n"
    using AnyValid_merge_counts [OF fit] s n by (auto simp: covers_def counts_known_def)
  show "\<not> bounds_unknown s \<Longrightarrow> \<not> AnyValid (merge_counts s n) \<Longrightarrow> all_null v1"
    using s known AnyValid_merge_counts_unknown [of s n] by (auto simp: covers_def)
  show "\<not> AnyValid (merge_counts s n) \<Longrightarrow> AnyValid n \<Longrightarrow> \<not> any_valid s \<and> \<not> (counts_known s \<and> counts_known n)"
    using known AnyValid_merge_counts_unknown [of s n] by auto
qed

lemma merge_scalar_covers:
  assumes s: "covers T V s v1" and n: "covers T V n v2" and nu: "\<not> bounds_unknown n"
    and ty: "stats_type s = stats_type n" and fit: "counts_fit s n"
    and flag: "any_valid s \<or> \<not> (counts_known s \<and> counts_known n)"
  shows "\<exists>m. (merge_scalar T V s n = Inr (MergeDone m) \<or> merge_scalar T V s n = Inr (MergeExtra m)) \<and>
           covers T V m (v1 @ v2)"
proof -
  let ?c = "merge_counts s n"
  note counts = merge_counts_covers [OF s n fit]
  consider (null_new) "\<not> AnyValid n" | (copy) "AnyValid n" "\<not> AnyValid ?c"
    | (both) "AnyValid n" "AnyValid ?c" by blast
  then show ?thesis
  proof cases
    case null_new
    then have v2: "all_null v2" using n nu by (auto simp: covers_def)
    have "covers T V ?c (v1 @ v2)"
      using s counts v2
      by (auto simp: covers_def bound_append bound_all_null ty [symmetric] counts_known_def
          intro: bound_readable)
    with null_new show ?thesis by (auto simp: merge_scalar_def ty)
  next
    case copy
    show ?thesis
    proof (cases "bounds_unknown s")
      case True
      then have "covers T V ?c (v1 @ v2)"
        using s counts by (auto simp: covers_def counts_known_def)
      with copy True show ?thesis by (auto simp: merge_scalar_def ty)
    next
      case False
      let ?m = "?c\<lparr>min_val := min_val n, has_min := has_min n, min_is_exact := min_is_exact n,
          max_val := max_val n, has_max := has_max n, max_is_exact := max_is_exact n, any_valid := True\<rparr>"
      have "all_null v1" using counts(3) [OF False copy(2)] .
      moreover have "AnyValid ?m"
        using counts(4) [OF copy(2,1)] by (auto simp: AnyValid_def counts_known_def)
      ultimately have "covers T V ?m (v1 @ v2)"
        using n counts False
        by (auto simp: covers_def bound_append bound_all_null counts_known_def intro: bound_readable)
      with copy False show ?thesis by (auto simp: merge_scalar_def ty)
    qed
  next
    case both
    have bounds: "has_min s \<Longrightarrow> lower_bound T V (stats_type n) (min_val s) v1"
      "has_min n \<Longrightarrow> lower_bound T V (stats_type n) (min_val n) v2"
      "has_max s \<Longrightarrow> upper_bound T V (stats_type n) (max_val s) v1"
      "has_max n \<Longrightarrow> upper_bound T V (stats_type n) (max_val n) v2"
      using s n by (simp_all add: covers_def ty)
    have rd: "has_min s \<Longrightarrow> readable T V (stats_type n) (min_val s)"
      "has_min n \<Longrightarrow> readable T V (stats_type n) (min_val n)"
      "has_max s \<Longrightarrow> readable T V (stats_type n) (max_val s)"
      "has_max n \<Longrightarrow> readable T V (stats_type n) (max_val n)"
      using bounds bound_readable by blast+
    obtain h m e where mn: "merge_min T V ?c n = Inr (?c\<lparr>has_min := h, min_val := m, min_is_exact := e\<rparr>)"
      and h: "h \<longrightarrow> has_min s \<and> has_min n \<and> m \<in> {min_val s, min_val n} \<and>
        text_le T V (stats_type n) m (min_val s) \<and> text_le T V (stats_type n) m (min_val n)"
      using merge_min_choice [of ?c T n] rd by (simp only: merge_counts_select) blast
    let ?c1 = "?c\<lparr>has_min := h, min_val := m, min_is_exact := e\<rparr>"
    obtain h' m' e' where mx: "merge_max T V ?c1 n = Inr (?c1\<lparr>has_max := h', max_val := m', max_is_exact := e'\<rparr>)"
      and h': "h' \<longrightarrow> has_max s \<and> has_max n \<and> m' \<in> {max_val s, max_val n} \<and>
        text_le T V (stats_type n) (max_val s) m' \<and> text_le T V (stats_type n) (max_val n) m'"
      using merge_max_choice [of ?c1 T n] rd by simp blast
    let ?m = "?c1\<lparr>has_max := h', max_val := m', max_is_exact := e'\<rparr>"
    have lower: "lower_bound T V (stats_type n) m (v1 @ v2)" if h
    proof -
      have "readable T V (stats_type n) m"
        using h bounds bound_readable(1) that by blast
      with h that bounds show ?thesis
        unfolding bound_append by (meson lower_bound_mono)
    qed
    have upper: "upper_bound T V (stats_type n) m' (v1 @ v2)" if h'
    proof -
      have "readable T V (stats_type n) m'"
        using h' bounds bound_readable(2) that by blast
      with h' that bounds show ?thesis
        unfolding bound_append by (meson upper_bound_mono)
    qed
    have valid: "AnyValid ?m" and av: "any_valid s"
      using both(2) flag AnyValid_merge_counts_unknown [of s n] by (auto simp: AnyValid_def)
    have "covers T V ?m (v1 @ v2)"
      unfolding covers_def
    proof (intro conjI)
      show "bounds_unknown ?m \<longrightarrow> \<not> has_min ?m \<and> \<not> has_max ?m"
        using s h h' by (auto simp: covers_def)
    qed (use counts(1,2) lower upper valid av in \<open>auto simp: counts_known_def\<close>)
    with both mn mx show ?thesis by (auto simp: merge_scalar_def ty)
  qed
qed

lemma MergeStats_covers:
  assumes "covers T V (scalar s) v1" and "covers T V (scalar n) v2" and "\<not> bounds_unknown (scalar n)"
    and "stats_type (scalar s) = stats_type (scalar n)" and "counts_fit (scalar s) (scalar n)"
    and "any_valid (scalar s) \<or> \<not> (counts_known (scalar s) \<and> counts_known (scalar n))"
    and "extra_stats n = None"
  shows "\<exists>m. MergeStats T V s n = Inr m \<and> covers T V (scalar m) (v1 @ v2) \<and> extra_stats m = extra_stats s"
  using merge_scalar_covers [OF assms(1-6)] assms(7) by (cases s) auto

end

text \<open>A concrete order: texts of digits are natural numbers.\<close>

definition duckdb_value_ref :: "nat duckdb_value" where
  "duckdb_value_ref =
     \<lparr>Value_DefaultCastAs = (\<lambda>s t. if s \<noteq> [] \<and> list_all is_digit s then Inr (dec_value s)
                                   else Inl (ConversionException s)),
      Value_less = (<), Value_equal = (=), Value_IsNull = (\<lambda>v. v = 0), Value_ToString = dec_string,
      NumericLimits_double_Maximum = 0x7FEFFFFFFFFFFFFF, NumericLimits_double_Minimum = 0xFFEFFFFFFFFFFFFF,
      MinValue_double = (\<lambda>a b. if a <s b then a else b), MaxValue_double = (\<lambda>a b. if b <s a then a else b)\<rparr>"

interpretation ref_values: duckdb_values duckdb_value_ref
  by unfold_locales (auto simp: duckdb_value_ref_def)

section \<open>Statistics of a vector\<close>

text \<open>
  \<^verbatim>\<open>TemplatedUpdateStats\<close> of \<^verbatim>\<open>src/src/storage/ducklake_inline_data.cpp\<close>: one pass over the texts of a
  vector (None for an invalid row) that counts NULLs and keeps the smallest and the largest value.
  \<open>SmallerThan\<close> and \<open>GreaterThan\<close> are those of the two operators of the source.
\<close>

definition SmallerThan ::
  "duckdb_types \<Rightarrow> 'v duckdb_value \<Rightarrow> LogicalType \<Rightarrow> string \<Rightarrow> string \<Rightarrow> bool res" where
  "SmallerThan T V t l r =
     (if RequiresValueComparison T t
      then bind_res (Value_DefaultCastAs V l t) (\<lambda>x. bind_res (Value_DefaultCastAs V r t) (\<lambda>y.
             Inr (Value_less V x y)))
      else Inr (l < r))"

definition GreaterThan ::
  "duckdb_types \<Rightarrow> 'v duckdb_value \<Rightarrow> LogicalType \<Rightarrow> string \<Rightarrow> string \<Rightarrow> bool res" where
  "GreaterThan T V t l r =
     (if RequiresValueComparison T t
      then bind_res (Value_DefaultCastAs V l t) (\<lambda>x. bind_res (Value_DefaultCastAs V r t) (\<lambda>y.
             Inr (Value_less V y x)))
      else Inr (r < l))"

record vector_scan =
  vs_null_count :: idx
  vs_min :: "string option"
  vs_max :: "string option"
  vs_any_valid :: bool

definition UpdateStats_step ::
  "duckdb_types \<Rightarrow> 'v duckdb_value \<Rightarrow> LogicalType \<Rightarrow> string option \<Rightarrow> vector_scan \<Rightarrow> vector_scan res" where
  "UpdateStats_step T V t row st =
     (case row of
        None \<Rightarrow> Inr (st\<lparr>vs_null_count := vs_null_count st + 1\<rparr>)
      | Some val \<Rightarrow>
          bind_res (case vs_min st of None \<Rightarrow> Inr True | Some m \<Rightarrow> SmallerThan T V t val m) (\<lambda>lt.
          bind_res (case vs_max st of None \<Rightarrow> Inr True | Some m \<Rightarrow> GreaterThan T V t val m) (\<lambda>gt.
            Inr (st\<lparr>vs_min := (if lt then Some val else vs_min st),
                    vs_max := (if gt then Some val else vs_max st), vs_any_valid := True\<rparr>))))"

definition TemplatedUpdateStats ::
  "duckdb_types \<Rightarrow> 'v duckdb_value \<Rightarrow> LogicalType \<Rightarrow> string option list \<Rightarrow> DuckLakeColumnStats res" where
  "TemplatedUpdateStats T V t rows =
     bind_res (fold_res (UpdateStats_step T V t) rows
       \<lparr>vs_null_count = 0, vs_min = None, vs_max = None, vs_any_valid = False\<rparr>) (\<lambda>st.
       let fresh = DuckLakeColumnStats_new V t;
           s = (scalar fresh)\<lparr>any_valid := vs_any_valid st, has_null_count := True,
                              null_count := vs_null_count st\<rparr>
       in Inr (ColumnStats
            (case (vs_min st, vs_max st) of
               (Some mn, Some mx) \<Rightarrow>
                 s\<lparr>has_min := True, has_max := True, min_val := mn, max_val := mx,
                   min_is_exact := True, max_is_exact := True\<rparr>
             | _ \<Rightarrow> s)
            (extra_stats fresh)))"


definition rows_readable :: "duckdb_types \<Rightarrow> 'v duckdb_value \<Rightarrow> LogicalType \<Rightarrow> string option list \<Rightarrow> bool" where
  "rows_readable T V t rows \<longleftrightarrow> list_all (\<lambda>v. case v of None \<Rightarrow> True | Some x \<Rightarrow> readable T V t x) rows"

definition null_rows :: "string option list \<Rightarrow> nat" where
  "null_rows rows = length (filter (\<lambda>v. v = None) rows)"

text \<open>What the scan knows after the rows seen so far.\<close>

definition scan_inv ::
  "duckdb_types \<Rightarrow> 'v duckdb_value \<Rightarrow> LogicalType \<Rightarrow> vector_scan \<Rightarrow> string option list \<Rightarrow> bool" where
  "scan_inv T V t st rows \<longleftrightarrow>
     vs_null_count st = of_nat (null_rows rows) \<and>
     (case vs_min st of None \<Rightarrow> all_null rows | Some m \<Rightarrow> lower_bound T V t m rows) \<and>
     (case vs_max st of None \<Rightarrow> all_null rows | Some m \<Rightarrow> upper_bound T V t m rows) \<and>
     (vs_min st = None \<longleftrightarrow> vs_max st = None) \<and>
     (vs_any_valid st \<longleftrightarrow> vs_min st \<noteq> None)"

lemma null_rows_append: "null_rows (xs @ ys) = null_rows xs + null_rows ys"
  by (simp add: null_rows_def)

context duckdb_values
begin

lemma bound_single:
  "lower_bound T V t b [Some x] \<longleftrightarrow> readable T V t b \<and> text_le T V t b x"
  "upper_bound T V t b [Some x] \<longleftrightarrow> readable T V t b \<and> text_le T V t x b"
  by (simp_all add: lower_bound_def upper_bound_def)

lemma SmallerThan_le:
  assumes "readable T V t a" and "readable T V t b"
  shows "\<exists>c. SmallerThan T V t a b = Inr c \<and> (if c then text_le T V t a b else text_le T V t b a)"
proof (cases "RequiresValueComparison T t")
  case True
  with assms obtain x y where "Value_DefaultCastAs V a t = Inr x" "Value_DefaultCastAs V b t = Inr y"
    by (auto simp: readable_def is_ok_def)
  with True show ?thesis
    using less_imp_not_less [of x y] less_imp_not_less [of y x]
    by (simp add: SmallerThan_def text_le_value)
qed (auto simp: SmallerThan_def text_le_def not_less)

lemma GreaterThan_le:
  assumes "readable T V t a" and "readable T V t b"
  shows "\<exists>c. GreaterThan T V t a b = Inr c \<and> (if c then text_le T V t b a else text_le T V t a b)"
proof (cases "RequiresValueComparison T t")
  case True
  with assms obtain x y where "Value_DefaultCastAs V a t = Inr x" "Value_DefaultCastAs V b t = Inr y"
    by (auto simp: readable_def is_ok_def)
  with True show ?thesis
    using less_imp_not_less [of x y] less_imp_not_less [of y x]
    by (simp add: GreaterThan_def text_le_value)
qed (auto simp: GreaterThan_def text_le_def not_less)

lemma scan_min:
  assumes "readable T V t x" and "case mn of None \<Rightarrow> all_null seen | Some m \<Rightarrow> lower_bound T V t m seen"
  shows "\<exists>c. (case mn of None \<Rightarrow> Inr True | Some m \<Rightarrow> SmallerThan T V t x m) = Inr c \<and>
    (\<exists>m'. (if c then Some x else mn) = Some m' \<and> lower_bound T V t m' (seen @ [Some x]))"
proof (cases mn)
  case None
  with assms show ?thesis
    by (intro exI [of _ True]) (simp add: bound_append bound_all_null bound_single text_le_refl)
next
  case (Some m)
  with assms have m: "lower_bound T V t m seen" and rm: "readable T V t m"
    by (auto intro: bound_readable)
  obtain c where "SmallerThan T V t x m = Inr c"
    and "if c then text_le T V t x m else text_le T V t m x"
    using SmallerThan_le [OF assms(1) rm] by blast
  with Some m rm assms(1) show ?thesis
    by (cases c) (auto simp: bound_append bound_single text_le_refl intro: lower_bound_mono)
qed

lemma scan_max:
  assumes "readable T V t x" and "case mx of None \<Rightarrow> all_null seen | Some m \<Rightarrow> upper_bound T V t m seen"
  shows "\<exists>c. (case mx of None \<Rightarrow> Inr True | Some m \<Rightarrow> GreaterThan T V t x m) = Inr c \<and>
    (\<exists>m'. (if c then Some x else mx) = Some m' \<and> upper_bound T V t m' (seen @ [Some x]))"
proof (cases mx)
  case None
  with assms show ?thesis
    by (intro exI [of _ True]) (simp add: bound_append bound_all_null bound_single text_le_refl)
next
  case (Some m)
  with assms have m: "upper_bound T V t m seen" and rm: "readable T V t m"
    by (auto intro: bound_readable)
  obtain c where "GreaterThan T V t x m = Inr c"
    and "if c then text_le T V t m x else text_le T V t x m"
    using GreaterThan_le [OF assms(1) rm] by blast
  with Some m rm assms(1) show ?thesis
    by (cases c) (auto simp: bound_append bound_single text_le_refl intro: upper_bound_mono)
qed

lemma scan_step:
  assumes inv: "scan_inv T V t st seen" and row: "rows_readable T V t [v]"
  shows "\<exists>st'. UpdateStats_step T V t v st = Inr st' \<and> scan_inv T V t st' (seen @ [v])"
proof (cases v)
  case None
  with inv show ?thesis
    by (auto simp: UpdateStats_step_def scan_inv_def null_rows_append null_rows_def all_null_def
        lower_bound_def upper_bound_def split: option.splits)
next
  case (Some x)
  with row have x: "readable T V t x" by (simp add: rows_readable_def)
  from inv obtain c m' where c: "(case vs_min st of None \<Rightarrow> Inr True | Some m \<Rightarrow> SmallerThan T V t x m) = Inr c"
    and m': "(if c then Some x else vs_min st) = Some m'" "lower_bound T V t m' (seen @ [Some x])"
    using scan_min [OF x, where mn = "vs_min st" and seen = seen] by (auto simp: scan_inv_def)
  from inv obtain d M' where d: "(case vs_max st of None \<Rightarrow> Inr True | Some m \<Rightarrow> GreaterThan T V t x m) = Inr d"
    and M': "(if d then Some x else vs_max st) = Some M'" "upper_bound T V t M' (seen @ [Some x])"
    using scan_max [OF x, where mx = "vs_max st" and seen = seen] by (auto simp: scan_inv_def)
  show ?thesis
    using inv c d m' M' Some
    by (simp add: UpdateStats_step_def scan_inv_def null_rows_append) (simp add: null_rows_def)
qed

lemma scan_all:
  assumes "scan_inv T V t st seen" and "rows_readable T V t rows"
  shows "\<exists>st'. fold_res (UpdateStats_step T V t) rows st = Inr st' \<and> scan_inv T V t st' (seen @ rows)"
  using assms
proof (induction rows arbitrary: st seen)
  case (Cons v rows)
  then obtain st1 where "UpdateStats_step T V t v st = Inr st1" "scan_inv T V t st1 (seen @ [v])"
    using scan_step [of T t st seen v] by (auto simp: rows_readable_def)
  with Cons.IH [of st1 "seen @ [v]"] Cons.prems(2) show ?case by (simp add: rows_readable_def)
qed auto

lemma TemplatedUpdateStats_covers:
  assumes "rows_readable T V t rows" and len: "length rows < 2 ^ 64"
  shows "\<exists>s. TemplatedUpdateStats T V t rows = Inr s \<and> covers T V (scalar s) rows"
proof -
  let ?st0 = "\<lparr>vs_null_count = 0, vs_min = None, vs_max = None, vs_any_valid = False\<rparr>"
  have "scan_inv T V t ?st0 []" by (simp add: scan_inv_def null_rows_def all_null_def)
  from scan_all [OF this assms(1)] obtain st where
    fold: "fold_res (UpdateStats_step T V t) rows ?st0 = Inr st" and inv: "scan_inv T V t st rows"
    by auto
  have "null_rows rows < 2 ^ 64"
    using len le_less_trans [OF length_filter_le] by (simp add: null_rows_def)
  then have "vs_null_count st = 0 \<Longrightarrow> list_all (\<lambda>v. v \<noteq> None) rows"
    using inv by (auto simp: scan_inv_def null_rows_def word_of_nat_eq_0_iff list_all_iff
        nat_dvd_not_less filter_empty_conv)
  with inv fold show ?thesis
    by (cases "vs_min st"; cases "vs_max st")
      (auto simp: TemplatedUpdateStats_def DuckLakeColumnStats_new_def column_stats_default_def
        covers_def scan_inv_def AnyValid_def)
qed

end

section \<open>Concrete statistics\<close>

definition null_stats :: DuckLakeColumnStats where
  "null_stats = FromConstant duckdb_value_ref (plain_type BIGINT) 0 5"

definition counted_stats :: DuckLakeColumnStats where
  "counted_stats = FromConstant duckdb_value_ref (plain_type BIGINT) 3 1"

definition uncounted_stats :: DuckLakeColumnStats where
  "uncounted_stats = ColumnStats ((column_stats_default (plain_type BIGINT))
     \<lparr>has_min := True, has_max := True, min_val := ''7'', max_val := ''7''\<rparr>) None"

definition int_stats :: "string \<Rightarrow> string \<Rightarrow> DuckLakeColumnStats" where
  "int_stats lo hi = ColumnStats ((column_stats_default (plain_type BIGINT))
     \<lparr>has_min := True, has_max := True, min_val := lo, max_val := hi, has_null_count := True\<rparr>) None"

lemma int_stats_select [simp]:
  "extra_stats (int_stats lo hi) = None" "has_min (scalar (int_stats lo hi))"
  "has_max (scalar (int_stats lo hi))" "min_val (scalar (int_stats lo hi)) = lo"
  "max_val (scalar (int_stats lo hi)) = hi" "stats_type (scalar (int_stats lo hi)) = plain_type BIGINT"
  "any_valid (scalar (int_stats lo hi))" "\<not> bounds_unknown (scalar (int_stats lo hi))"
  "has_null_count (scalar (int_stats lo hi))" "null_count (scalar (int_stats lo hi)) = 0"
  "num_values (scalar (int_stats lo hi)) = 0" "\<not> has_num_values (scalar (int_stats lo hi))"
  by (simp_all add: int_stats_def column_stats_default_def)

lemma covers_int_stats:
  assumes "list_all is_digit lo" "list_all is_digit hi" "lo \<noteq> []" "hi \<noteq> []"
    and "dec_value lo \<le> dec_value hi"
  shows "covers duckdb_types_ref duckdb_value_ref (scalar (int_stats lo hi)) [Some lo, Some hi]"
  using assms
  by (simp add: covers_def AnyValid_def lower_bound_def upper_bound_def readable_def text_le_def
      duckdb_value_ref_def RequiresValueComparison_def duckdb_types_ref_def plain_type_def)

section \<open>Properties\<close>

text \<open>
  C16. Merging column statistics is sound: when the statistics of the table and of a file each
  cover their values, \<^verbatim>\<open>MergeStats\<close> returns (it does not throw) and the merged statistics cover the
  values of both. The hypotheses are that the two sides have the same type, that the added counts do
  not wrap around, that the new side's bounds were not invalidated, that it has no geometry or
  variant statistics, and that the flag \<^verbatim>\<open>any_valid\<close> of the current side is set or the counts are
  not known on both sides.
\<close>

theorem MergeStats_sound:
  fixes V :: "'v duckdb_value"
  assumes "duckdb_values V"
    and "covers T V (scalar s) v1" and "covers T V (scalar n) v2" and "\<not> bounds_unknown (scalar n)"
    and "stats_type (scalar s) = stats_type (scalar n)" and "counts_fit (scalar s) (scalar n)"
    and "any_valid (scalar s) \<or> \<not> (counts_known (scalar s) \<and> counts_known (scalar n))"
    and "extra_stats n = None"
  shows "\<exists>m. MergeStats T V s n = Inr m \<and> covers T V (scalar m) (v1 @ v2) \<and> extra_stats m = extra_stats s"
  using duckdb_values.MergeStats_covers [OF assms] .

theorem MergeStats_sound_witness:
  "\<exists>m. MergeStats duckdb_types_ref duckdb_value_ref (int_stats ''3'' ''9'') (int_stats ''2'' ''10'') = Inr m \<and>
     covers duckdb_types_ref duckdb_value_ref (scalar m) [Some ''3'', Some ''9'', Some ''2'', Some ''10''] \<and>
     extra_stats m = None"
proof -
  have "covers duckdb_types_ref duckdb_value_ref (scalar (int_stats ''3'' ''9'')) [Some ''3'', Some ''9'']"
    and "covers duckdb_types_ref duckdb_value_ref (scalar (int_stats ''2'' ''10'')) [Some ''2'', Some ''10'']"
    by (rule covers_int_stats; simp add: is_digit_def dec_value_def)+
  from MergeStats_sound [OF ref_values.duckdb_values_axioms this] show ?thesis
    by (simp add: counts_fit_def)
qed

text \<open>
  C17. The statistics collected from a vector that is inlined into the catalog are true of it:
  \<^verbatim>\<open>TemplatedUpdateStats\<close> returns for every vector whose values can be read back, and its minimum,
  maximum, null count and validity flag cover the vector's rows.
\<close>

theorem vector_stats_sound:
  fixes V :: "'v duckdb_value"
  assumes "duckdb_values V" and "rows_readable T V t rows" and "length rows < 2 ^ 64"
  shows "\<exists>s. TemplatedUpdateStats T V t rows = Inr s \<and> covers T V (scalar s) rows"
  using duckdb_values.TemplatedUpdateStats_covers [OF assms] .

theorem vector_stats_sound_witness:
  "\<exists>s. TemplatedUpdateStats duckdb_types_ref duckdb_value_ref (plain_type BIGINT)
       [Some ''12'', None, Some ''7''] = Inr s \<and>
     covers duckdb_types_ref duckdb_value_ref (scalar s) [Some ''12'', None, Some ''7'']"
  by (rule vector_stats_sound [OF ref_values.duckdb_values_axioms])
    (simp_all add: rows_readable_def readable_def duckdb_value_ref_def is_digit_def)


end
