(* ===== verification/DL_DataFile.thy ===== *)
theory DL_DataFile
  imports DL_Stats
begin

text \<open>
  Data files, delete files and inlined data: \<^verbatim>\<open>src/src/include/common/ducklake_data_file.hpp\<close> with
  \<^verbatim>\<open>ducklake_data_file.cpp\<close>, the table-wide statistics of \<^verbatim>\<open>ducklake_stats.cpp\<close> that are built from
  data files, \<^verbatim>\<open>ducklake_inlined_data.cpp\<close>, the compaction entries of \<^verbatim>\<open>ducklake_metadata_info.hpp\<close>
  and the snapshot of \<^verbatim>\<open>ducklake_snapshot.hpp\<close>.

  Row identifiers of inlined data are
  \<^verbatim>\<open>int64_t\<close>; they are modelled as unbounded integers, the program keeps them far from the limits of
  the type.
\<close>

section \<open>Snapshots and files\<close>

record DuckLakeSnapshot =
  snapshot_id :: idx
  schema_version :: idx
  next_catalog_id :: idx
  next_file_id :: idx

definition DuckLakeSnapshot_default :: DuckLakeSnapshot where
  "DuckLakeSnapshot_default =
     \<lparr>snapshot_id = INVALID_INDEX, schema_version = INVALID_INDEX, next_catalog_id = INVALID_INDEX,
      next_file_id = INVALID_INDEX\<rparr>"

record DuckLakeFilePartition =
  partition_column_idx :: idx
  partition_value :: Value

datatype DeleteFileFormat = PARQUET | PUFFIN | VORTEX

fun DeleteFileFormatToString :: "DeleteFileFormat \<Rightarrow> string res" where
  "DeleteFileFormatToString PARQUET = Inr ''parquet''"
| "DeleteFileFormatToString PUFFIN = Inr ''puffin''"
| "DeleteFileFormatToString VORTEX = Inr ''vortex''"

definition DeleteFileFormatFromString :: "duckdb_string \<Rightarrow> string \<Rightarrow> DeleteFileFormat res" where
  "DeleteFileFormatFromString D str =
     (if StringUtil_CIEquals D str ''parquet'' then Inr PARQUET
      else if StringUtil_CIEquals D str ''puffin'' then Inr PUFFIN
      else if StringUtil_CIEquals D str ''vortex'' then Inr VORTEX
      else Inl (InvalidInputException (''Unknown delete file format: '' @ str)))"

interpretation delete_format_codec: codec
  DeleteFileFormatToString "DeleteFileFormatFromString duckdb_ref" "\<lambda>f. True"
proof
  fix f :: DeleteFileFormat
  show "\<exists>e. DeleteFileFormatToString f = Inr e \<and> DeleteFileFormatFromString duckdb_ref e = Inr f"
    by (cases f) (simp_all add: DeleteFileFormatFromString_def duckdb_ref_def ascii_lower_def char_lower_def)
qed

datatype DeleteFileSource = REGULAR | FLUSH

record DuckLakeOverwrittenDeleteFile =
  od_delete_file_id :: DataFileIndex
  od_path :: string

record DuckLakeDeleteFile =
  df_data_file_id :: DataFileIndex
  df_data_file_path :: string
  df_file_name :: string
  df_format :: DeleteFileFormat
  df_delete_count :: idx
  df_file_size_bytes :: idx
  df_footer_size :: idx
  df_row_group_count :: "idx option"
  df_encryption_key :: string
  df_overwrites_existing_delete :: bool
  df_overwritten_delete_file :: DuckLakeOverwrittenDeleteFile
  df_begin_snapshot :: "idx option"
  df_max_snapshot :: "idx option"
  df_source :: DeleteFileSource
  df_created_by_ducklake :: bool

record DuckLakeDataFile =
  file_name :: string
  file_format :: string
  row_count :: idx
  file_size_bytes :: idx
  footer_size :: "idx option"
  row_group_count :: "idx option"
  partition_id :: "idx option"
  delete_files :: "DuckLakeDeleteFile list"
  column_stats :: "(FieldIndex, DuckLakeColumnStats) omap"
  partition_values :: "DuckLakeFilePartition list"
  encryption_key :: string
  mapping_id :: MappingIndex
  begin_snapshot :: "idx option"
  max_partial_file_snapshot :: "idx option"
  flush_row_id_start :: "idx option"
  created_by_ducklake :: bool

section \<open>Table statistics\<close>

record DuckLakeTableStats =
  ts_record_count :: idx
  ts_table_size_bytes :: idx
  ts_next_row_id :: idx
  ts_column_stats :: "(FieldIndex, DuckLakeColumnStats) omap"

definition DuckLakeTableStats_default :: DuckLakeTableStats where
  "DuckLakeTableStats_default =
     \<lparr>ts_record_count = 0, ts_table_size_bytes = 0, ts_next_row_id = 0, ts_column_stats = []\<rparr>"

definition TableStats_MergeStats ::
  "duckdb_types \<Rightarrow> 'v duckdb_value \<Rightarrow> FieldIndex \<Rightarrow> DuckLakeColumnStats \<Rightarrow> DuckLakeTableStats \<Rightarrow>
   DuckLakeTableStats res" where
  "TableStats_MergeStats T V col_id file_stats ts =
     (case map_of (ts_column_stats ts) col_id of
        None \<Rightarrow> Inr (ts\<lparr>ts_column_stats := omap_insert col_id file_stats (ts_column_stats ts)\<rparr>)
      | Some current_stats \<Rightarrow>
          bind_res (MergeStats T V current_stats file_stats) (\<lambda>m.
            Inr (ts\<lparr>ts_column_stats := omap_insert col_id m (ts_column_stats ts)\<rparr>)))"

definition MergeFileStats ::
  "duckdb_types \<Rightarrow> 'v duckdb_value \<Rightarrow> DuckLakeDataFile \<Rightarrow> DuckLakeTableStats \<Rightarrow> DuckLakeTableStats res" where
  "MergeFileStats T V file ts =
     (let ts1 = (case max_partial_file_snapshot file of
                   Some _ \<Rightarrow> ts
                 | None \<Rightarrow>
                     let next = ts_next_row_id ts + row_count file
                     in ts\<lparr>ts_record_count := ts_record_count ts + row_count file,
                           ts_next_row_id :=
                             (case flush_row_id_start file of
                                None \<Rightarrow> next
                              | Some start \<Rightarrow> max next (start + row_count file))\<rparr>);
          ts2 = ts1\<lparr>ts_table_size_bytes := ts_table_size_bytes ts1 + file_size_bytes file\<rparr>
      in fold_res (\<lambda>(c, s). TableStats_MergeStats T V c s) (column_stats file) ts2)"

section \<open>Inlined data\<close>

text \<open>\<^verbatim>\<open>ColumnDataCollection\<close>: the column types and the rows, chunk by chunk.\<close>

record ColumnDataCollection =
  cdc_types :: "LogicalType list"
  cdc_chunks :: "Value list list list"

definition cdc_rows :: "ColumnDataCollection \<Rightarrow> Value list list" where
  "cdc_rows d = concat (cdc_chunks d)"

record DuckLakeInlinedData =
  id_data :: "ColumnDataCollection option"
  id_external_row_count :: nat
  id_column_stats :: "(FieldIndex, DuckLakeColumnStats) omap"
  id_row_ids :: "int list"

definition Count :: "DuckLakeInlinedData \<Rightarrow> nat" where
  "Count d = (case id_data d of Some c \<Rightarrow> length (cdc_rows c) | None \<Rightarrow> id_external_row_count d)"

definition HasPreservedRowIds :: "DuckLakeInlinedData \<Rightarrow> bool" where
  "HasPreservedRowIds d \<longleftrightarrow> id_row_ids d \<noteq> []"

abbreviation LOCAL_ROW_ID_START :: int where
  "LOCAL_ROW_ID_START \<equiv> uint TRANSACTION_LOCAL_ROW_ID_START"

text \<open>\<^verbatim>\<open>vector::operator[]\<close> checks its index, \<^verbatim>\<open>NumericCast\<close> the range.\<close>

definition row_id_at :: "DuckLakeInlinedData \<Rightarrow> nat \<Rightarrow> int res" where
  "row_id_at d position =
     (if position < length (id_row_ids d) then Inr (id_row_ids d ! position)
      else Inl (InternalException ''Attempted to access index within vector''))"

definition GetRowId :: "DuckLakeInlinedData \<Rightarrow> nat \<Rightarrow> int res" where
  "GetRowId d position =
     (if HasPreservedRowIds d
      then bind_res (row_id_at d position) (\<lambda>r.
             if r < 0 then Inl (InternalException ''Information loss on integer cast'') else Inr r)
      else Inr (int position))"

definition GetOutputRowId :: "DuckLakeInlinedData \<Rightarrow> nat \<Rightarrow> int res" where
  "GetOutputRowId d position =
     (if HasPreservedRowIds d then row_id_at d position
      else Inr (LOCAL_ROW_ID_START + int position))"

text \<open>
  \<open>d\<close> already holds the appended rows; the last \<open>new_data_count\<close> of them are those of \<open>n\<close>.
  \<open>existing_row_ids\<close> is the first half of \<^verbatim>\<open>MergeRowIds\<close>, \<open>next_row_id_after\<close> the choice of \<^verbatim>\<open>next_id\<close>.
\<close>

definition existing_row_ids :: "DuckLakeInlinedData \<Rightarrow> nat \<Rightarrow> int list" where
  "existing_row_ids d new_data_count =
     (if HasPreservedRowIds d then id_row_ids d
      else map (\<lambda>i. LOCAL_ROW_ID_START + int i) [0..<Count d - new_data_count])"

definition next_row_id_after :: "int list \<Rightarrow> int" where
  "next_row_id_after row_ids =
     (if row_ids \<noteq> [] \<and> fold max row_ids (hd row_ids) \<ge> LOCAL_ROW_ID_START
      then fold max row_ids (hd row_ids) + 1 else LOCAL_ROW_ID_START)"

definition MergeRowIds :: "DuckLakeInlinedData \<Rightarrow> DuckLakeInlinedData \<Rightarrow> nat \<Rightarrow> DuckLakeInlinedData" where
  "MergeRowIds d n new_data_count =
     (if \<not> HasPreservedRowIds n \<and> \<not> HasPreservedRowIds d then d
      else let existing = existing_row_ids d new_data_count
           in if HasPreservedRowIds n then d\<lparr>id_row_ids := existing @ id_row_ids n\<rparr>
              else d\<lparr>id_row_ids := existing @
                     map (\<lambda>i. next_row_id_after existing + int i) [0..<new_data_count]\<rparr>)"

text \<open>Row identifiers, when kept, name every row once.\<close>

definition row_ids_ok :: "DuckLakeInlinedData \<Rightarrow> bool" where
  "row_ids_ok d \<longleftrightarrow> HasPreservedRowIds d \<longrightarrow> length (id_row_ids d) = Count d \<and> distinct (id_row_ids d)"

lemma fold_max_ge: "(m :: int) \<le> fold max xs m" "x \<in> set xs \<Longrightarrow> x \<le> fold max xs m"
proof (induction xs arbitrary: m)
  case (Cons y ys)
  { case 1 show ?case using Cons.IH(1) [of "max y m"] by simp }
  { case 2 then show ?case using Cons.IH(1) [of "max y m"] Cons.IH(2) [of "max y m"] by auto }
qed auto

lemma next_row_id_after_above: "x \<in> set xs \<Longrightarrow> x < next_row_id_after xs"
  using fold_max_ge(2) [of x xs "hd xs"] by (auto simp: next_row_id_after_def)

lemma Count_row_ids [simp]: "Count (d\<lparr>id_row_ids := r\<rparr>) = Count d"
  by (cases "id_data d") (simp_all add: Count_def)

lemma MergeRowIds_ok:
  assumes d: "HasPreservedRowIds d \<Longrightarrow> length (id_row_ids d) + k = Count d \<and> distinct (id_row_ids d)"
    and n: "row_ids_ok n" and k: "Count n = k" "k \<le> Count d"
    and disj: "HasPreservedRowIds n \<Longrightarrow> set (existing_row_ids d k) \<inter> set (id_row_ids n) = {}"
  shows "row_ids_ok (MergeRowIds d n k)"
proof -
  have ex: "length (existing_row_ids d k) + k = Count d" "distinct (existing_row_ids d k)"
    using d k by (auto simp: existing_row_ids_def distinct_map inj_on_def)
  consider "\<not> HasPreservedRowIds n \<and> \<not> HasPreservedRowIds d" | "HasPreservedRowIds n"
    | "\<not> HasPreservedRowIds n" "HasPreservedRowIds d" by blast
  then show ?thesis
  proof cases
    case 1
    then show ?thesis by (simp add: MergeRowIds_def row_ids_ok_def)
  next
    case 2
    then show ?thesis
      using ex n k disj by (auto simp: MergeRowIds_def row_ids_ok_def Let_def)
  next
    case 3
    let ?f = "\<lambda>i. next_row_id_after (existing_row_ids d k) + int i"
    have "x < ?f i" if "x \<in> set (existing_row_ids d k)" for x i
      using next_row_id_after_above [OF that] by simp
    then have "set (existing_row_ids d k) \<inter> set (map ?f [0..<k]) = {}" by fastforce
    then show ?thesis
      using 3 ex k by (auto simp: MergeRowIds_def row_ids_ok_def Let_def distinct_map inj_on_def)
  qed
qed

record DuckLakeInlinedDataDeletes =
  rows :: "idx fset"

record DuckLakeInlinedFileDeletes =
  file_deletes :: "(idx, idx fset) omap"

section \<open>Compactions\<close>

datatype CompactionType = MERGE_ADJACENT_TABLES | REWRITE_DELETES

record DuckLakeFileData =
  fd_path :: string
  fd_file_format :: string
  fd_encryption_key :: string
  fd_file_size_bytes :: idx
  fd_footer_size :: "idx option"
  fd_format :: DeleteFileFormat

record DuckLakeCompactionBaseFileData =
  cb_id :: DataFileIndex
  cb_data :: DuckLakeFileData
  cb_row_count :: idx
  cb_begin_snapshot :: idx
  cb_end_snapshot :: "idx option"
  cb_max_row_count :: "idx option"

record DuckLakeCompactionFileData = DuckLakeCompactionBaseFileData +
  cf_row_id_start :: "idx option"
  cf_mapping_id :: MappingIndex
  cf_partition_id :: "idx option"
  cf_partition_values :: "Value list"

record DuckLakeCompactionDeleteFileData = DuckLakeCompactionBaseFileData +
  cd_delete_file_id :: DataFileIndex
  cd_max_snapshot :: "idx option"

record DuckLakeCompactionFileEntry =
  ce_file :: DuckLakeCompactionFileData
  ce_delete_files :: "DuckLakeCompactionDeleteFileData list"
  ce_max_partial_file_snapshot :: "idx option"
  ce_schema_version :: idx
  ce_partition_snapshot_id :: "idx option"
  ce_partition_schema_version :: "idx option"
  ce_inlined_file_deletions :: "idx fset"
  ce_has_inlined_deletions :: bool
  ce_delete_ratio :: double

record DuckLakeCompactionEntry =
  source_files :: "DuckLakeCompactionFileEntry list"
  written_files :: "DuckLakeDataFile list"
  row_id_start :: "idx option"
  compaction_type :: CompactionType

end
