(* ===== verification/DL_FieldData.thy ===== *)
theory DL_FieldData
  imports DL_Index DL_Types "HOL-Library.Multiset"
begin

text \<open>
  Field identifiers, \<^verbatim>\<open>src/src/storage/ducklake_field_data.cpp\<close>: every column and every field nested
  in a column has an identifier that survives renames and is never given to another field. A
  \<^verbatim>\<open>DuckLakeFieldId\<close> is a tree that follows the column's type; \<^verbatim>\<open>Copy()\<close> is the identity here since
  values are not shared. Paths are passed as the suffix that is still to be followed, which is what
  \<^verbatim>\<open>column_path\<close> and \<^verbatim>\<open>depth\<close> stand for.

  Parsed expressions are DuckDB's; what the code asks of them, and the comparison of identifiers,
  is the record \<open>duckdb_exprs\<close>.
\<close>

section \<open>Expressions\<close>

datatype ParsedExpression =
    ConstantExpression Value
  | CastExpression (cast_try: bool) (cast_target: LogicalType) (cast_child: ParsedExpression)
  | ColumnRefExpression (ref_names: "string list")
  | FunctionExpression string "ParsedExpression list"
  | OtherExpression string "ParsedExpression list"

record duckdb_exprs =
  HasSubquery :: "ParsedExpression \<Rightarrow> bool"
  IsWindow :: "ParsedExpression \<Rightarrow> bool"
  TryDefaultBind :: "LogicalType \<Rightarrow> LogicalType"
  DefaultTryCastAs :: "Value \<Rightarrow> LogicalType \<Rightarrow> Value option"
  DefaultCastAs :: "Value \<Rightarrow> LogicalType \<Rightarrow> Value res"
  Identifier_equal :: "string \<Rightarrow> string \<Rightarrow> bool"

definition TryGetLiteralValue :: "duckdb_exprs \<Rightarrow> ParsedExpression \<Rightarrow> Value option" where
  "TryGetLiteralValue E expr =
     (case expr of
        ConstantExpression v \<Rightarrow> Some v
      | CastExpression is_try target child \<Rightarrow>
          if is_try then None
          else (case child of
                  ConstantExpression v \<Rightarrow>
                    (let target_type = TryDefaultBind E target
                     in if type_id target_type = INVALID_TYPE \<or> type_id target_type = UNBOUND then None
                        else DefaultTryCastAs E v target_type)
                | _ \<Rightarrow> None)
      | _ \<Rightarrow> None)"

definition TryGetMacroDefaultLiteral ::
  "duckdb_types \<Rightarrow> duckdb_exprs \<Rightarrow> ParsedExpression \<Rightarrow> Value option" where
  "TryGetMacroDefaultLiteral T E expr =
     (case TryGetLiteralValue E expr of
        None \<Rightarrow> None
      | Some v \<Rightarrow> if \<not> IsNested T (value_type v) \<and> \<not> (IsNull v \<and> IsStringType (value_type v))
                 then Some v else None)"

section \<open>Field trees\<close>

record DuckLakeColumnData =
  cd_id :: FieldIndex
  cd_initial_default :: Value
  cd_default_value :: "ParsedExpression option"

datatype DuckLakeFieldId =
  FieldId (field_column_data: DuckLakeColumnData) (field_name: string) (field_type: LogicalType)
    (field_children: "DuckLakeFieldId list")

abbreviation GetFieldIndex :: "DuckLakeFieldId \<Rightarrow> FieldIndex" where
  "GetFieldIndex f \<equiv> cd_id (field_column_data f)"

text \<open>The constructor with children: the case-insensitive \<^verbatim>\<open>child_map\<close> refuses duplicate names.\<close>

fun check_child_names :: "duckdb_string \<Rightarrow> string \<Rightarrow> ci_set \<Rightarrow> DuckLakeFieldId list \<Rightarrow> unit res" where
  "check_child_names D nm seen [] = Inr ()"
| "check_child_names D nm seen (c # cs) =
     (if ci_member D seen (field_name c)
      then Inl (InvalidInputException (''Duplicate child name '' @ field_name c @ '' found in column '' @ nm))
      else check_child_names D nm (seen @ [field_name c]) cs)"

definition DuckLakeFieldId_new ::
  "duckdb_string \<Rightarrow> DuckLakeColumnData \<Rightarrow> string \<Rightarrow> LogicalType \<Rightarrow> DuckLakeFieldId list \<Rightarrow>
   DuckLakeFieldId res" where
  "DuckLakeFieldId_new D column_data nm t children =
     bind_res (check_child_names D nm [] children) (\<lambda>_. Inr (FieldId column_data nm t children))"

definition GetChildByName :: "duckdb_string \<Rightarrow> DuckLakeFieldId \<Rightarrow> string \<Rightarrow> DuckLakeFieldId option" where
  "GetChildByName D f child_name =
     find (\<lambda>c. StringUtil_CIEquals D (field_name c) child_name) (field_children f)"

definition ExtractDefaultExpression ::
  "duckdb_exprs \<Rightarrow> ParsedExpression option \<Rightarrow> LogicalType \<Rightarrow> ParsedExpression res" where
  "ExtractDefaultExpression E default_expr t =
     (case default_expr of
        None \<Rightarrow> Inr (ConstantExpression (Value t None))
      | Some e \<Rightarrow>
          if HasSubquery E e
          then Inl (NotImplementedException ''Expressions with subqueries are not yet supported as default expressions'')
          else if IsWindow E e
          then Inl (NotImplementedException ''Expressions with window functions are not yet supported as default expressions'')
          else Inr e)"

definition ExtractInitialValue ::
  "duckdb_exprs \<Rightarrow> ParsedExpression option \<Rightarrow> LogicalType \<Rightarrow> bool \<Rightarrow> Value res" where
  "ExtractInitialValue E initial_expr t add_column =
     (case initial_expr of
        None \<Rightarrow> Inr (Value t None)
      | Some e \<Rightarrow>
          (case TryGetLiteralValue E e of
             Some literal_value \<Rightarrow> DefaultCastAs E literal_value t
           | None \<Rightarrow>
               if \<not> add_column then Inr (Value t None)
               else Inl (NotImplementedException ''We cannot add a column with a non-literal default value'')))"

text \<open>The fields a type nests, with the names the \<^verbatim>\<open>switch\<close> of \<^verbatim>\<open>FieldIdFromType\<close> gives them.\<close>

definition nested_fields :: "LogicalType \<Rightarrow> (string \<times> LogicalType) list res" where
  "nested_fields t =
     (case type_id t of
        STRUCT \<Rightarrow> Inr (type_children t)
      | LIST \<Rightarrow> (case type_children t of
                   (_, e) # _ \<Rightarrow> Inr [(''element'', e)]
                 | [] \<Rightarrow> Inl (InternalException ''list type without a child''))
      | ARRAY \<Rightarrow> (case type_children t of
                   (_, e) # _ \<Rightarrow> Inr [(''element'', e)]
                 | [] \<Rightarrow> Inl (InternalException ''array type without a child''))
      | MAP \<Rightarrow> (case type_children t of
                   (_, k) # (_, v) # _ \<Rightarrow> Inr [(''key'', k), (''value'', v)]
                 | _ \<Rightarrow> Inl (InternalException ''map type without key and value''))
      | _ \<Rightarrow> Inr [])"

definition default_refusal :: "LogicalType \<Rightarrow> string option" where
  "default_refusal t =
     (case type_id t of
        STRUCT \<Rightarrow> Some ''Default value for STRUCT type not supported''
      | LIST \<Rightarrow> Some ''Default value for LIST type not supported''
      | ARRAY \<Rightarrow> Some ''Default value for LIST type not supported''
      | MAP \<Rightarrow> Some ''Default value for MAP type not supported''
      | _ \<Rightarrow> None)"

definition check_default :: "LogicalType \<Rightarrow> ParsedExpression option \<Rightarrow> unit res" where
  "check_default t default_expr =
     (case (default_expr, default_refusal t) of
        (Some _, Some msg) \<Rightarrow> Inl (NotImplementedException msg)
      | _ \<Rightarrow> Inr ())"

lemma nested_fields_smaller:
  "nested_fields t = Inr cs \<Longrightarrow> size_list (size_prod (\<lambda>_. 0) size) cs < size t"
  by (cases t)
    (auto simp: nested_fields_def split: LogicalTypeId.splits list.splits)

text \<open>\<^verbatim>\<open>FieldIdFromType\<close> takes the next identifier for the field, then numbers the nested fields.\<close>

function (sequential)
  FieldIdFromType :: "duckdb_string \<Rightarrow> duckdb_exprs \<Rightarrow> string \<Rightarrow> LogicalType \<Rightarrow> ParsedExpression option \<Rightarrow>
    idx \<Rightarrow> bool \<Rightarrow> (DuckLakeFieldId \<times> idx) res"
and FieldIdFromTypes :: "duckdb_string \<Rightarrow> duckdb_exprs \<Rightarrow> (string \<times> LogicalType) list \<Rightarrow>
    idx \<Rightarrow> bool \<Rightarrow> (DuckLakeFieldId list \<times> idx) res" where
  "FieldIdFromType D E nm t default_expr column_id add_column =
     bind_res (check_default t default_expr) (\<lambda>_.
     bind_res (nested_fields t) (\<lambda>cs.
     bind_res (FieldIdFromTypes D E cs (column_id + 1) add_column) (\<lambda>(children, next_id).
     bind_res (ExtractInitialValue E default_expr t add_column) (\<lambda>init.
     bind_res (DuckLakeFieldId_new D
         \<lparr>cd_id = FieldIndex column_id, cd_initial_default = init, cd_default_value = default_expr\<rparr>
         nm t children) (\<lambda>f. Inr (f, next_id))))))"
| "FieldIdFromTypes D E [] column_id add_column = Inr ([], column_id)"
| "FieldIdFromTypes D E ((nm, t) # cs) column_id add_column =
     bind_res (FieldIdFromType D E nm t None column_id add_column) (\<lambda>(f, next_id).
     bind_res (FieldIdFromTypes D E cs next_id add_column) (\<lambda>(fs, last_id). Inr (f # fs, last_id)))"
  by pat_completeness auto
termination
  by (relation "measure (\<lambda>x. case x of
        Inl (D, E, nm, t, d, i, a) \<Rightarrow> 2 * size t
      | Inr (D, E, cs, i, a) \<Rightarrow> 2 * size_list (size_prod (\<lambda>_. 0) size) cs + 1)")
    (auto dest: nested_fields_smaller)

declare FieldIdFromType.simps [simp del]

definition GetDefault :: "DuckLakeFieldId \<Rightarrow> ParsedExpression option" where
  "GetDefault f = cd_default_value (field_column_data f)"

record ColumnDefinition =
  col_name :: string
  col_type :: LogicalType
  col_default :: "ParsedExpression option"
  col_generated :: bool
  col_compression_auto :: bool
  col_comment :: "string option"

definition FieldIdFromColumn ::
  "duckdb_string \<Rightarrow> duckdb_exprs \<Rightarrow> ColumnDefinition \<Rightarrow> idx \<Rightarrow> bool \<Rightarrow> (DuckLakeFieldId \<times> idx) res" where
  "FieldIdFromColumn D E col column_id add_column =
     FieldIdFromType D E (col_name col) (col_type col) (col_default col) column_id add_column"

section \<open>Field data\<close>

text \<open>\<open>subfields\<close> is the breadth-first worklist of \<^verbatim>\<open>DuckLakeFieldData::Add\<close>.\<close>

fun field_size :: "DuckLakeFieldId \<Rightarrow> nat" where
  "field_size (FieldId c n t cs) = Suc (sum_list (map field_size cs))"

lemma sum_field_size_pos: "0 < field_size f"
  by (cases f) simp

function subfields :: "DuckLakeFieldId list \<Rightarrow> DuckLakeFieldId list" where
  "subfields [] = []"
| "subfields (f # active) = f # subfields (active @ field_children f)"
  by pat_completeness auto
termination
proof (relation "measure (\<lambda>fs. sum_list (map field_size fs))")
  fix f :: DuckLakeFieldId and active
  show "(active @ field_children f, f # active) \<in> measure (\<lambda>fs. sum_list (map field_size fs))"
    by (cases f) simp
qed simp

record DuckLakeFieldData =
  fd_field_ids :: "DuckLakeFieldId list"
  fd_field_references :: "(FieldIndex, DuckLakeFieldId) omap"

definition DuckLakeFieldData_default :: DuckLakeFieldData where
  "DuckLakeFieldData_default = \<lparr>fd_field_ids = [], fd_field_references = []\<rparr>"

text \<open>\<^verbatim>\<open>std::map::insert\<close> keeps an existing entry.\<close>

definition omap_insert_new :: "'k::linorder \<Rightarrow> 'v \<Rightarrow> ('k, 'v) omap \<Rightarrow> ('k, 'v) omap" where
  "omap_insert_new k v m = (case map_of m k of None \<Rightarrow> omap_insert k v m | Some _ \<Rightarrow> m)"

definition FieldData_Add :: "DuckLakeFieldId \<Rightarrow> DuckLakeFieldData \<Rightarrow> DuckLakeFieldData" where
  "FieldData_Add field_info d =
     d\<lparr>fd_field_references :=
         fold (\<lambda>f m. omap_insert_new (GetFieldIndex f) f m) (subfields [field_info]) (fd_field_references d),
       fd_field_ids := fd_field_ids d @ [field_info]\<rparr>"

definition FieldData_of :: "DuckLakeFieldId list \<Rightarrow> DuckLakeFieldData" where
  "FieldData_of fs = fold FieldData_Add fs DuckLakeFieldData_default"

fun FromColumns_loop ::
  "duckdb_string \<Rightarrow> duckdb_exprs \<Rightarrow> ColumnDefinition list \<Rightarrow> DuckLakeFieldData \<Rightarrow> idx \<Rightarrow>
   (DuckLakeFieldData \<times> idx) res" where
  "FromColumns_loop D E [] field_data column_id = Inr (field_data, column_id)"
| "FromColumns_loop D E (col # cols) field_data column_id =
     bind_res (FieldIdFromColumn D E col column_id False) (\<lambda>(f, next_id).
       FromColumns_loop D E cols (FieldData_Add f field_data) next_id)"

definition FromColumns ::
  "duckdb_string \<Rightarrow> duckdb_exprs \<Rightarrow> ColumnDefinition list \<Rightarrow> idx \<Rightarrow> (DuckLakeFieldData \<times> idx) res" where
  "FromColumns D E columns column_id = FromColumns_loop D E columns DuckLakeFieldData_default column_id"

definition FromColumns_default ::
  "duckdb_string \<Rightarrow> duckdb_exprs \<Rightarrow> ColumnDefinition list \<Rightarrow> DuckLakeFieldData res" where
  "FromColumns_default D E columns = bind_res (FromColumns D E columns 1) (\<lambda>(d, _). Inr d)"

definition GetByRootIndex :: "DuckLakeFieldData \<Rightarrow> nat \<Rightarrow> DuckLakeFieldId res" where
  "GetByRootIndex d i =
     (if i < length (fd_field_ids d) then Inr (fd_field_ids d ! i)
      else Inl (InternalException ''Attempted to access index within vector''))"

definition GetByFieldIndex :: "DuckLakeFieldData \<Rightarrow> FieldIndex \<Rightarrow> DuckLakeFieldId option" where
  "GetByFieldIndex d i = map_of (fd_field_references d) i"

text \<open>
  \<^verbatim>\<open>GetByNames\<close>: \<open>i\<close> is the loop's index, \<open>rest\<close> the names from \<open>i\<close> on; the result carries the
  \<^verbatim>\<open>name_offset\<close> that is reported for a path that ends inside a variant.
\<close>

fun GetByNames_loop ::
  "duckdb_string \<Rightarrow> bool \<Rightarrow> nat \<Rightarrow> string list \<Rightarrow> DuckLakeFieldId \<Rightarrow> (DuckLakeFieldId option \<times> nat option) res" where
  "GetByNames_loop D has_offset i rest f =
     (if type_id (field_type f) = VARIANT
      then (if has_offset then Inr (Some f, Some i)
            else Inl (InvalidInputException ''Column path points to child of variant column - but no name_offset is provided''))
      else (case rest of
              [] \<Rightarrow> Inr (Some f, None)
            | nm # names \<Rightarrow>
                (case GetChildByName D f nm of
                   None \<Rightarrow> Inr (None, None)
                 | Some c \<Rightarrow> GetByNames_loop D has_offset (Suc i) names c)))"

definition GetByNames ::
  "duckdb_string \<Rightarrow> DuckLakeFieldData \<Rightarrow> nat \<Rightarrow> string list \<Rightarrow> bool \<Rightarrow>
   (DuckLakeFieldId option \<times> nat option) res" where
  "GetByNames D d i column_names has_offset =
     bind_res (GetByRootIndex d i) (\<lambda>f.
       case column_names of
         [] \<Rightarrow> Inr (Some f, None)
       | _ # rest \<Rightarrow> GetByNames_loop D has_offset 1 rest f)"

section \<open>Changing fields\<close>

fun Rename :: "DuckLakeFieldId \<Rightarrow> string \<Rightarrow> DuckLakeFieldId" where
  "Rename (FieldId c n t cs) new_name = FieldId c new_name t cs"

fun FieldId_SetDefault ::
  "duckdb_exprs \<Rightarrow> DuckLakeFieldId \<Rightarrow> ParsedExpression option \<Rightarrow> DuckLakeFieldId res" where
  "FieldId_SetDefault E (FieldId c n t cs) default_expr =
     bind_res (ExtractDefaultExpression E default_expr t) (\<lambda>e.
       Inr (FieldId (c\<lparr>cd_default_value := Some e\<rparr>) n t cs))"

definition GetStructType :: "DuckLakeFieldId list \<Rightarrow> LogicalType" where
  "GetStructType new_children =
     LogicalType STRUCT None [] 0 0 (map (\<lambda>c. (field_name c, field_type c)) new_children)"

definition GetNewNestedType :: "LogicalType \<Rightarrow> DuckLakeFieldId list \<Rightarrow> LogicalType res" where
  "GetNewNestedType t new_children =
     (let out_of_range = Inl (InternalException ''Attempted to access index within vector'')
      in case type_id t of
           LIST \<Rightarrow> (case new_children of
                      c # _ \<Rightarrow> Inr (LogicalType LIST None [] 0 0 [([], field_type c)])
                    | [] \<Rightarrow> out_of_range)
         | STRUCT \<Rightarrow> Inr (GetStructType new_children)
         | MAP \<Rightarrow> (case new_children of
                      k # v # _ \<Rightarrow> Inr (LogicalType MAP None [] 0 0 [(''key'', field_type k), (''value'', field_type v)])
                    | _ \<Rightarrow> out_of_range)
         | _ \<Rightarrow> Inl (InternalException ''Unsupported type for AddField''))"

text \<open>The common end of the three edits: the new type and the checked constructor.\<close>

definition rebuild ::
  "duckdb_string \<Rightarrow> DuckLakeColumnData \<Rightarrow> string \<Rightarrow> LogicalType \<Rightarrow> DuckLakeFieldId list \<Rightarrow> DuckLakeFieldId res" where
  "rebuild D c n t new_children =
     bind_res (GetNewNestedType t new_children) (\<lambda>new_type. DuckLakeFieldId_new D c n new_type new_children)"

abbreviation child_not_found :: "'a res" where
  "child_not_found \<equiv> Inl (InternalException ''DuckLakeFieldId::AddField - child not found in struct path'')"

text \<open>\<open>AddField_children\<close> replaces the first child with the name; \<open>None\<close> when there is none.\<close>

fun AddField :: "duckdb_string \<Rightarrow> duckdb_exprs \<Rightarrow> DuckLakeFieldId \<Rightarrow> string list \<Rightarrow> DuckLakeFieldId \<Rightarrow>
    DuckLakeFieldId res"
and AddField_children :: "duckdb_string \<Rightarrow> duckdb_exprs \<Rightarrow> DuckLakeFieldId list \<Rightarrow> string \<Rightarrow> string list \<Rightarrow>
    DuckLakeFieldId \<Rightarrow> DuckLakeFieldId list option res" where
  "AddField D E (FieldId c n t cs) path new_child =
     (case path of
        [] \<Rightarrow> rebuild D c n t (cs @ [new_child])
      | p # ps \<Rightarrow>
          bind_res (AddField_children D E cs p ps new_child) (\<lambda>r.
            case r of None \<Rightarrow> child_not_found | Some new_children \<Rightarrow> rebuild D c n t new_children))"
| "AddField_children D E [] p ps new_child = Inr None"
| "AddField_children D E (c # cs) p ps new_child =
     (if Identifier_equal E (field_name c) p
      then bind_res (AddField D E c ps new_child) (\<lambda>c'. Inr (Some (c' # cs)))
      else bind_res (AddField_children D E cs p ps new_child) (\<lambda>r. Inr (map_option ((#) c) r)))"

text \<open>
  \<^verbatim>\<open>RemoveField\<close> visits every child; \<open>whole\<close> is the length of the whole column path. The result of
  the loop over the children tells whether one was found.
\<close>

fun RemoveField :: "duckdb_exprs \<Rightarrow> duckdb_string \<Rightarrow> nat \<Rightarrow> DuckLakeFieldId \<Rightarrow> string list \<Rightarrow> DuckLakeFieldId res"
and RemoveField_children :: "duckdb_exprs \<Rightarrow> duckdb_string \<Rightarrow> nat \<Rightarrow> string \<Rightarrow> LogicalType \<Rightarrow> DuckLakeFieldId list \<Rightarrow>
    string list \<Rightarrow> (DuckLakeFieldId list \<times> bool) res" where
  "RemoveField E D whole (FieldId c n t cs) path =
     bind_res (RemoveField_children E D whole n t cs path) (\<lambda>(new_children, found).
       if \<not> found then child_not_found else rebuild D c n t new_children)"
| "RemoveField_children E D whole n t [] path = Inr ([], False)"
| "RemoveField_children E D whole n t (c # cs) path =
     (case path of
        [] \<Rightarrow> Inl (InternalException ''Attempted to access index within vector'')
      | p # ps \<Rightarrow>
          if Identifier_equal E (field_name c) p
          then (if whole = 2 \<and> (type_id t = MAP \<or> type_id t = LIST)
                then Inl (CatalogException (''Cannot drop field '' @ field_name c @ '' from column '' @ n @
                            '' - it is not a struct''))
                else bind_res (if ps = [] then Inr [] else bind_res (RemoveField E D whole c ps) (\<lambda>c'. Inr [c'])) (\<lambda>kept.
                     bind_res (RemoveField_children E D whole n t cs path) (\<lambda>(rest, _). Inr (kept @ rest, True))))
          else bind_res (RemoveField_children E D whole n t cs path) (\<lambda>(rest, found). Inr (c # rest, found)))"

fun RenameField :: "duckdb_exprs \<Rightarrow> duckdb_string \<Rightarrow> DuckLakeFieldId \<Rightarrow> string list \<Rightarrow> string \<Rightarrow> DuckLakeFieldId res"
and RenameField_children :: "duckdb_exprs \<Rightarrow> duckdb_string \<Rightarrow> DuckLakeFieldId list \<Rightarrow> string list \<Rightarrow> string \<Rightarrow>
    (DuckLakeFieldId list \<times> bool) res" where
  "RenameField E D (FieldId c n t cs) path new_name =
     bind_res (RenameField_children E D cs path new_name) (\<lambda>(new_children, found).
       if \<not> found then child_not_found else rebuild D c n t new_children)"
| "RenameField_children E D [] path new_name = Inr ([], False)"
| "RenameField_children E D (c # cs) path new_name =
     (case path of
        [] \<Rightarrow> Inl (InternalException ''Attempted to access index within vector'')
      | p # ps \<Rightarrow>
          if Identifier_equal E (field_name c) p
          then bind_res (if ps = [] then Inr (Rename c new_name) else RenameField E D c ps new_name) (\<lambda>c'.
               bind_res (RenameField_children E D cs path new_name) (\<lambda>(rest, _). Inr (c' # rest, True)))
          else bind_res (RenameField_children E D cs path new_name) (\<lambda>(rest, found). Inr (c # rest, found)))"

definition RenameColumn :: "DuckLakeFieldData \<Rightarrow> FieldIndex \<Rightarrow> string \<Rightarrow> DuckLakeFieldData" where
  "RenameColumn field_data rename_index new_name =
     FieldData_of (map (\<lambda>f. if GetFieldIndex f = rename_index then Rename f new_name else f)
       (fd_field_ids field_data))"

definition AddColumn ::
  "duckdb_string \<Rightarrow> duckdb_exprs \<Rightarrow> DuckLakeFieldData \<Rightarrow> ColumnDefinition \<Rightarrow> idx \<Rightarrow>
   (DuckLakeFieldData \<times> idx) res" where
  "AddColumn D E field_data new_col next_column_id =
     bind_res (FieldIdFromColumn D E new_col next_column_id True) (\<lambda>(f, next_id).
       Inr (FieldData_of (fd_field_ids field_data @ [f]), next_id))"

definition DropColumn :: "DuckLakeFieldData \<Rightarrow> FieldIndex \<Rightarrow> DuckLakeFieldData" where
  "DropColumn field_data drop_index =
     FieldData_of (filter (\<lambda>f. GetFieldIndex f \<noteq> drop_index) (fd_field_ids field_data))"

definition FieldData_SetDefault ::
  "duckdb_exprs \<Rightarrow> DuckLakeFieldData \<Rightarrow> FieldIndex \<Rightarrow> ColumnDefinition \<Rightarrow> bool \<Rightarrow> DuckLakeFieldData res" where
  "FieldData_SetDefault E field_data i new_col add_column =
     (if (case col_default new_col of
            Some (ConstantExpression _) \<Rightarrow> False | Some _ \<Rightarrow> add_column | None \<Rightarrow> False)
      then Inl (NotImplementedException ''We cannot add a column with a non-literal default value'')
      else bind_res (map_res (\<lambda>f. if GetFieldIndex f = i then FieldId_SetDefault E f (col_default new_col)
                                  else Inr f) (fd_field_ids field_data)) (\<lambda>fs.
             Inr (FieldData_of fs)))"

section \<open>Identifiers of a field tree\<close>

fun tree_ids :: "DuckLakeFieldId \<Rightarrow> FieldIndex list" where
  "tree_ids (FieldId c n t cs) = cd_id c # concat (map tree_ids cs)"

abbreviation forest_ids :: "DuckLakeFieldId list \<Rightarrow> FieldIndex list" where
  "forest_ids fs \<equiv> concat (map tree_ids fs)"

definition consecutive :: "idx \<Rightarrow> nat \<Rightarrow> FieldIndex list" where
  "consecutive i n = map (\<lambda>k. FieldIndex (i + of_nat k)) [0..<n]"

lemma consecutive_0 [simp]: "consecutive i 0 = []"
  by (simp add: consecutive_def)

lemma consecutive_Suc: "consecutive i (Suc n) = FieldIndex i # consecutive (i + 1) n"
  by (simp add: consecutive_def upt_rec [of 0] map_Suc_upt [symmetric] del: upt_Suc)

lemma consecutive_add: "consecutive i (m + n) = consecutive i m @ consecutive (i + of_nat m) n"
  by (induction m arbitrary: i) (simp_all add: consecutive_Suc add.assoc)

lemma consecutive_distinct: "n \<le> 2 ^ 64 \<Longrightarrow> distinct (consecutive i n)"
proof -
  assume n: "n \<le> 2 ^ 64"
  have "unat (of_nat k :: idx) = k" if "k < n" for k
    using that n by (simp add: unsigned_of_nat take_bit_nat_eq_self)
  then have "(of_nat k :: idx) = of_nat l \<Longrightarrow> k < n \<Longrightarrow> l < n \<Longrightarrow> k = l" for k l by metis
  then show ?thesis by (auto simp: consecutive_def distinct_map inj_on_def)
qed

lemma FieldIdFromType_ids:
  "FieldIdFromType D E nm t d i a = Inr (f, j) \<Longrightarrow>
     tree_ids f = consecutive i (field_size f) \<and> j = i + of_nat (field_size f)"
  "FieldIdFromTypes D E cs i a = Inr (fs, j) \<Longrightarrow>
     forest_ids fs = consecutive i (sum_list (map field_size fs)) \<and>
     j = i + of_nat (sum_list (map field_size fs))"
proof (induction D E nm t d i a and D E cs i a arbitrary: f j and fs j rule: FieldIdFromType_FieldIdFromTypes.induct)
  case (1 D E nm t d i a)
  from 1(2) show ?case
    by (subst (asm) FieldIdFromType.simps)
      (auto simp: bind_res_Inr_iff DuckLakeFieldId_new_def consecutive_Suc algebra_simps
        dest!: 1(1) split: prod.splits)
next
  case (3 D E nm t cs i a)
  from 3(3) obtain f k gs where f: "FieldIdFromType D E nm t None i a = Inr (f, k)"
    and gs: "FieldIdFromTypes D E cs k a = Inr (gs, j)" and fs: "fs = f # gs"
    by (auto simp: bind_res_Inr_iff split: prod.splits)
  from 3(1) [OF f] 3(2) [OF f refl gs] show ?case
    by (simp add: fs consecutive_add add.assoc)
qed auto

lemma Rename_ids [simp]: "tree_ids (Rename f n) = tree_ids f"
  by (cases f) simp

lemma rebuild_ids: "rebuild D c n t cs = Inr g \<Longrightarrow> tree_ids g = cd_id c # forest_ids cs"
  by (auto simp: rebuild_def DuckLakeFieldId_new_def bind_res_Inr_iff)

lemma RenameField_ids:
  "RenameField E D f path nm = Inr g \<Longrightarrow> tree_ids g = tree_ids f"
  "RenameField_children E D cs path nm = Inr (ds, found) \<Longrightarrow> forest_ids ds = forest_ids cs"
proof (induction E D f path nm and E D cs path nm arbitrary: g and ds found
    rule: RenameField_RenameField_children.induct)
  case (1 E D c n t cs path nm)
  from 1(2) obtain ds where "RenameField_children E D cs path nm = Inr (ds, True)" "rebuild D c n t ds = Inr g"
    by (auto simp: bind_res_Inr_iff split: prod.splits if_splits)
  with 1(1) rebuild_ids show ?case by fastforce
next
  case (3 E D c cs path nm)
  from 3(4) obtain p ps where path: "path = p # ps" by (cases path) auto
  show ?case
  proof (cases "Identifier_equal E (field_name c) p")
    case True
    with 3(4) path obtain c' rest f' where
      c': "(if ps = [] then Inr (Rename c nm) else RenameField E D c ps nm) = Inr c'"
      and rest: "RenameField_children E D cs path nm = Inr (rest, f')" and ds: "ds = c' # rest"
      by (auto simp: bind_res_Inr_iff split: prod.splits)
    have "tree_ids c' = tree_ids c"
      using c' 3(1) [OF path True] by (cases "ps = []") auto
    with 3(2) [OF path True c' rest] ds show ?thesis by simp
  next
    case False
    with 3(4) path obtain rest where "RenameField_children E D cs path nm = Inr (rest, found)" "ds = c # rest"
      by (auto simp: bind_res_Inr_iff split: prod.splits)
    with 3(3) [OF path False] show ?thesis by simp
  qed
qed auto

lemma AddField_ids:
  "AddField D E f path c = Inr g \<Longrightarrow> mset (tree_ids g) = mset (tree_ids f) + mset (tree_ids c)"
  "AddField_children D E cs p ps c = Inr r \<Longrightarrow> r = Some ds \<Longrightarrow>
     mset (forest_ids ds) = mset (forest_ids cs) + mset (tree_ids c)"
proof (induction D E f path c and D E cs p ps c arbitrary: g and r ds rule: AddField_AddField_children.induct)
  case (1 D E c n t cs path new_child)
  then show ?case
    by (auto simp: bind_res_Inr_iff split: list.splits option.splits dest!: rebuild_ids)
next
  case (3 D E c cs p ps new_child)
  then show ?case
    by (auto simp: bind_res_Inr_iff split: if_splits option.splits)
qed auto

lemma RemoveField_ids:
  "RemoveField E D w f path = Inr g \<Longrightarrow> mset (tree_ids g) \<subseteq># mset (tree_ids f)"
  "RemoveField_children E D w n t cs path = Inr (ds, found) \<Longrightarrow> mset (forest_ids ds) \<subseteq># mset (forest_ids cs)"
proof (induction E D w f path and E D w n t cs path arbitrary: g and ds found
    rule: RemoveField_RemoveField_children.induct)
  case (1 E D w c n t cs path)
  from 1(2) obtain ds where "RemoveField_children E D w n t cs path = Inr (ds, True)" "rebuild D c n t ds = Inr g"
    by (auto simp: bind_res_Inr_iff split: prod.splits if_splits)
  with 1(1) rebuild_ids show ?case by fastforce
next
  case (3 E D w n t c cs path)
  from 3(4) obtain p ps where path: "path = p # ps" by (cases path) auto
  show ?case
  proof (cases "Identifier_equal E (field_name c) p")
    case True
    with 3(4) path have keep: "\<not> (w = 2 \<and> (type_id t = MAP \<or> type_id t = LIST))" by auto
    with True 3(4) path obtain kept rest f' where
      kept: "(if ps = [] then Inr [] else bind_res (RemoveField E D w c ps) (\<lambda>c'. Inr [c'])) = Inr kept"
      and rest: "RemoveField_children E D w n t cs path = Inr (rest, f')" and ds: "ds = kept @ rest"
      by (auto simp: bind_res_Inr_iff split: prod.splits)
    have "mset (forest_ids kept) \<subseteq># mset (tree_ids c)"
      using kept 3(1) [OF path True keep] by (cases "ps = []") (auto simp: bind_res_Inr_iff)
    with 3(2) [OF path True keep kept rest] ds show ?thesis
      by (simp add: subset_mset.add_mono)
  next
    case False
    with 3(4) path obtain rest where "RemoveField_children E D w n t cs path = Inr (rest, found)" "ds = c # rest"
      by (auto simp: bind_res_Inr_iff split: prod.splits)
    with 3(3) [OF path False] show ?thesis by simp
  qed
qed auto

section \<open>References\<close>

text \<open>Every field of the forest, roots first within each tree.\<close>

fun tree_fields :: "DuckLakeFieldId \<Rightarrow> DuckLakeFieldId list" where
  "tree_fields (FieldId c n t cs) = FieldId c n t cs # concat (map tree_fields cs)"

abbreviation forest_fields :: "DuckLakeFieldId list \<Rightarrow> DuckLakeFieldId list" where
  "forest_fields fs \<equiv> concat (map tree_fields fs)"

lemma tree_fields_ids: "map GetFieldIndex (tree_fields f) = tree_ids f"
proof (induction f)
  case (FieldId c n t cs)
  then have "map GetFieldIndex (forest_fields cs) = forest_ids cs"
    by (induction cs) auto
  then show ?case by simp
qed

lemma forest_fields_ids: "map GetFieldIndex (forest_fields fs) = forest_ids fs"
  by (induction fs) (auto simp: tree_fields_ids)

lemma mset_subfields: "mset (subfields fs) = mset (forest_fields fs)"
proof (induction fs rule: subfields.induct)
  case (2 f active)
  then show ?case by (cases f) simp
qed simp

lemma fold_insert_new:
  assumes "distinct (map GetFieldIndex fs)" and "\<forall>f \<in> set fs. map_of m (GetFieldIndex f) = None"
  shows "map_of (fold (\<lambda>f m. omap_insert_new (GetFieldIndex f) f m) fs m) i =
    (case find (\<lambda>f. GetFieldIndex f = i) fs of Some f \<Rightarrow> Some f | None \<Rightarrow> map_of m i)"
  using assms
proof (induction fs arbitrary: m)
  case (Cons f fs)
  let ?m = "omap_insert_new (GetFieldIndex f) f m"
  have m: "map_of ?m = (map_of m)(GetFieldIndex f \<mapsto> f)"
    using Cons.prems by (simp add: omap_insert_new_def)
  have notin: "GetFieldIndex f \<notin> GetFieldIndex ` set fs" using Cons.prems(1) by simp
  have "map_of (fold (\<lambda>f m. omap_insert_new (GetFieldIndex f) f m) fs ?m) i =
      (case find (\<lambda>f. GetFieldIndex f = i) fs of Some f \<Rightarrow> Some f | None \<Rightarrow> map_of ?m i)"
    using Cons.prems notin m by (intro Cons.IH) (auto simp: image_iff)
  moreover have "find (\<lambda>h. GetFieldIndex h = GetFieldIndex f) fs = None"
    using notin by (auto simp: find_None_iff image_iff dest: sym)
  ultimately show ?case
    by (cases "i = GetFieldIndex f") (auto simp: m split: option.splits)
qed simp

definition references_ok :: "DuckLakeFieldData \<Rightarrow> bool" where
  "references_ok d \<longleftrightarrow>
     (\<forall>i. map_of (fd_field_references d) i = find (\<lambda>f. GetFieldIndex f = i) (forest_fields (fd_field_ids d)))"

lemma find_unique:
  assumes "distinct (map g xs)" and "mset xs = mset ys"
  shows "find (\<lambda>x. g x = i) xs = find (\<lambda>x. g x = i) ys"
proof -
  have d: "distinct (map g ys)" using assms by (metis mset_eq_imp_distinct_iff mset_map)
  have s: "set xs = set ys" using assms(2) by (rule mset_eq_setD)
  have key: "find (\<lambda>x. g x = i) zs = (if x \<in> set zs \<and> g x = i then Some x else find (\<lambda>x. g x = i) zs)"
    if "distinct (map g zs)" for x zs
    using find_distinct_key [OF that, of x] by (auto simp: eq_commute)
  show ?thesis
  proof (cases "\<exists>x \<in> set xs. g x = i")
    case True
    then obtain x where "x \<in> set xs" "g x = i" by blast
    with key [OF assms(1), of x] key [OF d, of x] s show ?thesis by simp
  next
    case False
    with s have "find (\<lambda>x. g x = i) xs = None" "find (\<lambda>x. g x = i) ys = None"
      by (auto simp: find_None_iff)
    then show ?thesis by simp
  qed
qed

lemma FieldData_Add_ids [simp]: "fd_field_ids (FieldData_Add f d) = fd_field_ids d @ [f]"
  by (simp add: FieldData_Add_def)

lemma FieldData_Add_references:
  assumes ok: "references_ok d" and dist: "distinct (forest_ids (fd_field_ids d @ [f]))"
  shows "references_ok (FieldData_Add f d)"
proof -
  let ?g = "GetFieldIndex" and ?old = "forest_fields (fd_field_ids d)"
  have perm: "mset (subfields [f]) = mset (tree_fields f)" using mset_subfields [of "[f]"] by simp
  have tree: "distinct (map ?g (tree_fields f))" using dist by (simp add: tree_fields_ids)
  have d1: "distinct (map ?g (subfields [f]))"
    using tree perm by (metis mset_eq_imp_distinct_iff mset_map)
  have "map_of (fd_field_references d) (?g h) = None" if "h \<in> set (subfields [f])" for h
  proof -
    have "?g h \<in> ?g ` set (tree_fields f)" using that perm by (metis image_eqI mset_eq_setD)
    then have "?g h \<in> set (tree_ids f)" by (simp flip: tree_fields_ids)
    then have "?g h \<notin> set (forest_ids (fd_field_ids d))" using dist by auto
    then have "?g h \<notin> ?g ` set ?old" by (simp flip: forest_fields_ids)
    then have "find (\<lambda>f. ?g f = ?g h) ?old = None" unfolding find_None_iff by (metis image_eqI)
    then show ?thesis using ok by (simp add: references_ok_def)
  qed
  then have new: "map_of (fd_field_references (FieldData_Add f d)) i =
      (case find (\<lambda>f. ?g f = i) (tree_fields f) of Some h \<Rightarrow> Some h | None \<Rightarrow> map_of (fd_field_references d) i)" for i
    using fold_insert_new [OF d1, of "fd_field_references d" i] find_unique [OF d1 perm, of i]
    by (simp add: FieldData_Add_def)
  have app: "find P (xs @ ys) = (case find P xs of Some x \<Rightarrow> Some x | None \<Rightarrow> find P ys)" for P and xs ys :: "DuckLakeFieldId list"
    by (induction xs) auto
  show ?thesis
    unfolding references_ok_def
  proof
    fix i
    have "mset (tree_fields f @ ?old) = mset (?old @ tree_fields f)" by simp
    moreover have "distinct (map ?g (tree_fields f @ ?old))"
      using dist by (auto simp: tree_fields_ids forest_fields_ids simp flip: tree_fields_ids forest_fields_ids)
    ultimately have "find (\<lambda>f. ?g f = i) (tree_fields f @ ?old) = find (\<lambda>f. ?g f = i) (?old @ tree_fields f)"
      by (intro find_unique)
    then show "map_of (fd_field_references (FieldData_Add f d)) i =
        find (\<lambda>f. ?g f = i) (forest_fields (fd_field_ids (FieldData_Add f d)))"
      using ok [unfolded references_ok_def, rule_format, of i]
      by (simp add: new app split: option.splits)
  qed
qed

lemma references_ok_default: "references_ok DuckLakeFieldData_default"
  by (simp add: references_ok_def DuckLakeFieldData_default_def)

lemma FromColumns_loop_ids:
  assumes "FromColumns_loop D E cols d i = Inr (d', j)"
  shows "\<exists>n. forest_ids (fd_field_ids d') = forest_ids (fd_field_ids d) @ consecutive i n \<and> j = i + of_nat n"
  using assms
proof (induction cols arbitrary: d i)
  case Nil
  then show ?case by (intro exI [of _ 0]) auto
next
  case (Cons col cols)
  from Cons.prems obtain f k where f: "FieldIdFromColumn D E col i False = Inr (f, k)"
    and rest: "FromColumns_loop D E cols (FieldData_Add f d) k = Inr (d', j)"
    by (auto simp: bind_res_Inr_iff split: prod.splits)
  have ids: "tree_ids f = consecutive i (field_size f)" "k = i + of_nat (field_size f)"
    using FieldIdFromType_ids(1) f by (auto simp: FieldIdFromColumn_def)
  obtain n where "forest_ids (fd_field_ids d') = forest_ids (fd_field_ids d @ [f]) @ consecutive k n"
    and "j = k + of_nat n"
    using Cons.IH [OF rest] by auto
  with ids show ?case
    by (intro exI [of _ "field_size f + n"]) (simp add: consecutive_add add.assoc)
qed

lemma FromColumns_loop_references:
  assumes "FromColumns_loop D E cols d i = Inr (d', j)" and "references_ok d"
    and "distinct (forest_ids (fd_field_ids d'))"
  shows "references_ok d'"
  using assms
proof (induction cols arbitrary: d i)
  case (Cons col cols)
  from Cons.prems(1) obtain f k where
    rest: "FromColumns_loop D E cols (FieldData_Add f d) k = Inr (d', j)"
    by (auto simp: bind_res_Inr_iff split: prod.splits)
  obtain n where "forest_ids (fd_field_ids d') = forest_ids (fd_field_ids d @ [f]) @ consecutive k n"
    using FromColumns_loop_ids [OF rest] by auto
  with Cons.prems(3) have "distinct (forest_ids (fd_field_ids d @ [f]))" by (metis distinct_append)
  with Cons.prems(2,3) rest show ?case
    using Cons.IH FieldData_Add_references by blast
qed simp

lemma find_forest_member:
  assumes "distinct (forest_ids fs)" and "f \<in> set (forest_fields fs)"
  shows "find (\<lambda>g. GetFieldIndex g = GetFieldIndex f) (forest_fields fs) = Some f"
proof -
  have "distinct (map GetFieldIndex (forest_fields fs))" using assms(1) by (simp only: forest_fields_ids)
  from find_distinct_key [OF this assms(2)] show ?thesis by (simp add: eq_commute)
qed

text \<open>
  Dropping the element of a list is refused with a message only when the list is the column itself: for a list further down
  (\<open>whole\<close> is not 2) the element is removed and the rebuilt type reads past the end of the children.
\<close>

lemma nested_list_element_internal_error:
  assumes "whole \<noteq> 2" and "type_id t = LIST" and "Identifier_equal E (field_name child) p"
  shows "RemoveField E D whole (FieldId c n t [child]) [p] = Inl (InternalException ''Attempted to access index within vector'')"
  using assms by (simp add: rebuild_def GetNewNestedType_def)

section \<open>Concrete fields\<close>

definition exprs_ref :: duckdb_exprs where
  "exprs_ref = \<lparr>HasSubquery = (\<lambda>_. False), IsWindow = (\<lambda>_. False), TryDefaultBind = (\<lambda>t. t),
     DefaultTryCastAs = (\<lambda>v t. Some (Value t (value_text v))), DefaultCastAs = (\<lambda>v t. Inr (Value t (value_text v))),
     Identifier_equal = (\<lambda>a b. ascii_lower a = ascii_lower b)\<rparr>"

definition sample_columns :: "ColumnDefinition list" where
  "sample_columns =
     [\<lparr>col_name = ''id'', col_type = plain_type BIGINT, col_default = None, col_generated = False,
         col_compression_auto = True, col_comment = None\<rparr>,
      \<lparr>col_name = ''p'', col_type = LogicalType STRUCT None [] 0 0
         [(''x'', plain_type DOUBLE), (''y'', plain_type DOUBLE)], col_default = None, col_generated = False,
         col_compression_auto = True, col_comment = None\<rparr>,
      \<lparr>col_name = ''n'', col_type = plain_type VARCHAR, col_default = None, col_generated = False,
         col_compression_auto = True, col_comment = None\<rparr>]"

definition sample_leaf :: "string \<Rightarrow> idx \<Rightarrow> DuckLakeFieldId" where
  "sample_leaf n i = FieldId \<lparr>cd_id = FieldIndex i, cd_initial_default = Value (plain_type DOUBLE) None,
     cd_default_value = None\<rparr> n (plain_type DOUBLE) []"

definition sample_field :: DuckLakeFieldId where
  "sample_field = FieldId \<lparr>cd_id = FieldIndex 1, cd_initial_default = Value (plain_type DOUBLE) None,
     cd_default_value = None\<rparr> ''p''
     (LogicalType STRUCT None [] 0 0 [(''x'', plain_type DOUBLE), (''y'', plain_type DOUBLE)])
     [sample_leaf ''x'' 2, sample_leaf ''y'' 3]"

section \<open>Properties\<close>



text \<open>
  C19. Changing a nested column never renumbers a field: renaming a field keeps every identifier in
  its place, adding a field adds exactly the identifiers of the new field, and removing a field only
  takes identifiers away.
\<close>

theorem field_edits_keep_identifiers:
  "(RenameField E D f path nm = Inr g \<longrightarrow> tree_ids g = tree_ids f) \<and>
   (AddField D E f path c = Inr h \<longrightarrow> mset (tree_ids h) = mset (tree_ids f) + mset (tree_ids c)) \<and>
   (RemoveField E D w f path = Inr k \<longrightarrow> mset (tree_ids k) \<subseteq># mset (tree_ids f))"
  using RenameField_ids(1) AddField_ids(1) RemoveField_ids(1) by blast

theorem field_edits_keep_identifiers_witness:
  "\<exists>g. RenameField exprs_ref duckdb_ref sample_field [''x''] ''z'' = Inr g \<and> tree_ids g = map FieldIndex [1, 2, 3]"
proof -
  obtain g where g: "RenameField exprs_ref duckdb_ref sample_field [''x''] ''z'' = Inr g"
    by (simp add: sample_field_def sample_leaf_def exprs_ref_def ascii_lower_def char_lower_def rebuild_def
        GetNewNestedType_def GetStructType_def DuckLakeFieldId_new_def ci_member_def duckdb_ref_def)
  with field_edits_keep_identifiers have "tree_ids g = tree_ids sample_field" by blast
  with g show ?thesis by (simp add: sample_field_def sample_leaf_def)
qed

end
