(* ===== verification/DL_LocalChanges.thy ===== *)
theory DL_LocalChanges
  imports DL_DataFile DL_FieldData
begin

text \<open>
  The transaction-local table changes, \<^verbatim>\<open>LocalTableChanges\<close> of
  \<^verbatim>\<open>src/src/storage/ducklake_transaction.cpp\<close>: data files, delete files, inlined rows, inlined
  deletes and compactions a transaction has accumulated per table. Every operation of the class is
  a definition here. The mutex of the class makes its operations atomic, so they are functions on
  the state.

  The file system is DuckDB's; its operations are the record \<open>duckdb_fs\<close> over an arbitrary state.
  \<^verbatim>\<open>VectorOperations::Cast\<close> of a value is the parameter \<open>cast\<close>. The state after an exception is not
  modelled: a statement that throws aborts.
\<close>

section \<open>File system\<close>

record 'fs duckdb_fs =
  fs_RemoveFile :: "string \<Rightarrow> 'fs \<Rightarrow> 'fs res"
  fs_TryRemoveFile :: "string \<Rightarrow> 'fs \<Rightarrow> 'fs"
  fs_RemoveFiles :: "string list \<Rightarrow> 'fs \<Rightarrow> 'fs res"
  fs_exists :: "'fs \<Rightarrow> string \<Rightarrow> bool"

text \<open>
  \<^verbatim>\<open>RemoveFile\<close> fails when the file is missing, \<^verbatim>\<open>TryRemoveFile\<close> does not; both remove only the
  named file.
\<close>

locale duckdb_filesystem =
  fixes F :: "'fs duckdb_fs"
  assumes RemoveFile_exists: "fs_exists F fs p \<Longrightarrow>
      \<exists>fs'. fs_RemoveFile F p fs = Inr fs' \<and> (\<forall>q. fs_exists F fs' q \<longleftrightarrow> fs_exists F fs q \<and> q \<noteq> p)"
    and RemoveFile_ok: "fs_RemoveFile F p fs = Inr fs' \<Longrightarrow> fs_exists F fs' q \<longleftrightarrow> fs_exists F fs q \<and> q \<noteq> p"
    and TryRemoveFile: "fs_exists F (fs_TryRemoveFile F p fs) q \<longleftrightarrow> fs_exists F fs q \<and> q \<noteq> p"
    and RemoveFiles_ok: "fs_RemoveFiles F ps fs = Inr fs' \<Longrightarrow>
      fs_exists F fs' q \<longleftrightarrow> fs_exists F fs q \<and> q \<notin> set ps"
begin

lemma TryRemove_all:
  "fs_exists F (fold (fs_TryRemoveFile F) ps fs) q \<longleftrightarrow> fs_exists F fs q \<and> q \<notin> set ps"
  by (induction ps arbitrary: fs) (auto simp: TryRemoveFile)

lemma Remove_all:
  "fold_res (fs_RemoveFile F) ps fs = Inr fs' \<Longrightarrow> fs_exists F fs' q \<longleftrightarrow> fs_exists F fs q \<and> q \<notin> set ps"
proof (induction ps arbitrary: fs)
  case (Cons p ps)
  then obtain fs1 where "fs_RemoveFile F p fs = Inr fs1" "fold_res (fs_RemoveFile F) ps fs1 = Inr fs'"
    by (auto simp: bind_res_Inr_iff)
  with Cons.IH [of fs1] RemoveFile_ok [of p fs fs1 q] show ?case by auto
qed simp

end

definition fs_ref :: "string fset duckdb_fs" where
  "fs_ref =
     \<lparr>fs_RemoveFile = (\<lambda>p fs. if p |\<in>| fs then Inr (fs |-| {|p|}) else Inl (MetadataError (''no file '' @ p))),
      fs_TryRemoveFile = (\<lambda>p fs. fs |-| {|p|}),
      fs_RemoveFiles = (\<lambda>ps fs. Inr (fs |-| fset_of_list ps)),
      fs_exists = (\<lambda>fs p. p |\<in>| fs)\<rparr>"

interpretation ref_fs: duckdb_filesystem fs_ref
  by unfold_locales (auto simp: fs_ref_def fset_of_list_elem split: if_splits)

section \<open>State\<close>

text \<open>\<^verbatim>\<open>std::unordered_map\<close> keyed by a path: an association list in iteration order.\<close>

record LocalTableDataChanges =
  new_data_files :: "DuckLakeDataFile list"
  new_inlined_data :: "DuckLakeInlinedData option"
  new_delete_files :: "(string \<times> DuckLakeDeleteFile list) list"
  new_inlined_data_deletes :: "(string \<times> DuckLakeInlinedDataDeletes) list"
  new_inlined_file_deletes :: "DuckLakeInlinedFileDeletes option"
  compactions :: "DuckLakeCompactionEntry list"

definition LocalTableDataChanges_default :: LocalTableDataChanges where
  "LocalTableDataChanges_default =
     \<lparr>new_data_files = [], new_inlined_data = None, new_delete_files = [],
      new_inlined_data_deletes = [], new_inlined_file_deletes = None, compactions = []\<rparr>"

type_synonym LocalTableChanges = "(TableIndex, LocalTableDataChanges) omap"

abbreviation table_changes :: "LocalTableChanges \<Rightarrow> TableIndex \<Rightarrow> LocalTableDataChanges" where
  "table_changes c t \<equiv> omap_get LocalTableDataChanges_default c t"

definition IsEmpty :: "LocalTableDataChanges \<Rightarrow> bool" where
  "IsEmpty c \<longleftrightarrow>
     (if new_data_files c \<noteq> [] then False
      else if new_inlined_data c \<noteq> None then False
      else if new_delete_files c \<noteq> [] then False
      else if new_inlined_data_deletes c \<noteq> [] then False
      else if compactions c \<noteq> [] then False
      else if new_inlined_file_deletes c \<noteq> None then False
      else True)"

text \<open>The unordered map operations: \<^verbatim>\<open>find\<close> is \<open>map_of\<close>, \<^verbatim>\<open>m[k]\<close> creates a missing entry at the end.\<close>

fun umap_update :: "'k \<Rightarrow> 'v \<Rightarrow> ('v \<Rightarrow> 'v) \<Rightarrow> ('k \<times> 'v) list \<Rightarrow> ('k \<times> 'v) list" where
  "umap_update k d f [] = [(k, f d)]"
| "umap_update k d f ((k', v) # m) = (if k' = k then (k', f v) # m else (k', v) # umap_update k d f m)"

lemma map_of_umap_update:
  "map_of (umap_update k d f m) k' =
     (if k' = k then Some (f (case map_of m k of None \<Rightarrow> d | Some v \<Rightarrow> v)) else map_of m k')"
  by (induction m) auto

section \<open>Operations\<close>

definition Clear :: "LocalTableChanges \<Rightarrow> LocalTableChanges" where
  "Clear changes = []"

definition HasChanges :: "LocalTableChanges \<Rightarrow> bool" where
  "HasChanges changes \<longleftrightarrow> changes \<noteq> []"

definition Changes :: "LocalTableChanges \<Rightarrow> (TableIndex \<times> LocalTableDataChanges) list" where
  "Changes changes = changes"

text \<open>The files a table's changes wrote, in the order \<^verbatim>\<open>CleanupFiles\<close> visits them.\<close>

definition data_file_paths :: "LocalTableDataChanges \<Rightarrow> string list" where
  "data_file_paths c =
     concat (map (\<lambda>file. (if created_by_ducklake file then [file_name file] else []) @
       concat (map (\<lambda>d. if df_created_by_ducklake d then [df_file_name d] else []) (delete_files file)))
       (new_data_files c))"

definition delete_file_paths :: "LocalTableDataChanges \<Rightarrow> string list" where
  "delete_file_paths c =
     concat (map (\<lambda>(p, ds). concat (map (\<lambda>d. if df_created_by_ducklake d then [df_file_name d] else []) ds))
       (new_delete_files c))"

definition compaction_paths :: "LocalTableDataChanges \<Rightarrow> string list" where
  "compaction_paths c = concat (map (\<lambda>e. map file_name (written_files e)) (compactions c))"

definition CleanupFiles ::
  "'fs duckdb_fs \<Rightarrow> LocalTableChanges \<Rightarrow> 'fs \<Rightarrow> LocalTableChanges \<times> 'fs" where
  "CleanupFiles F changes fs =
     (map (\<lambda>(t, c). (t, c\<lparr>new_data_files := [], new_delete_files := [], compactions := []\<rparr>)) changes,
      fold (\<lambda>(t, c) fs.
              fold (fs_TryRemoveFile F) (data_file_paths c @ delete_file_paths c @ compaction_paths c) fs)
        changes fs)"

definition HasTransactionLocalInserts :: "LocalTableChanges \<Rightarrow> TableIndex \<Rightarrow> bool" where
  "HasTransactionLocalInserts changes table_id \<longleftrightarrow>
     (case map_of changes table_id of
        None \<Rightarrow> False
      | Some c \<Rightarrow> new_data_files c \<noteq> [] \<or> new_inlined_data c \<noteq> None)"

definition HasTransactionInlinedData :: "LocalTableChanges \<Rightarrow> TableIndex \<Rightarrow> bool" where
  "HasTransactionInlinedData changes table_id \<longleftrightarrow>
     (case map_of changes table_id of None \<Rightarrow> False | Some c \<Rightarrow> new_inlined_data c \<noteq> None)"

definition GetTransactionLocalFiles :: "LocalTableChanges \<Rightarrow> TableIndex \<Rightarrow> DuckLakeDataFile list" where
  "GetTransactionLocalFiles changes table_id =
     (case map_of changes table_id of None \<Rightarrow> [] | Some c \<Rightarrow> new_data_files c)"

text \<open>The copy holds the rows and the row identifiers, not the statistics.\<close>

definition GetTransactionLocalInlinedData ::
  "LocalTableChanges \<Rightarrow> TableIndex \<Rightarrow> DuckLakeInlinedData option" where
  "GetTransactionLocalInlinedData changes table_id =
     (case map_of changes table_id of
        None \<Rightarrow> None
      | Some c \<Rightarrow>
          (case new_inlined_data c of
             None \<Rightarrow> None
           | Some d \<Rightarrow> Some \<lparr>id_data = id_data d, id_external_row_count = 0, id_column_stats = [],
                             id_row_ids = id_row_ids d\<rparr>))"

text \<open>The search of \<^verbatim>\<open>DropTransactionLocalFile\<close>: the files before the match, the match, the rest.\<close>

fun split_file :: "string \<Rightarrow> DuckLakeDataFile list \<Rightarrow>
    (DuckLakeDataFile list \<times> DuckLakeDataFile \<times> DuckLakeDataFile list) option" where
  "split_file path [] = None"
| "split_file path (f # fs) =
     (if file_name f = path then Some ([], f, fs)
      else (case split_file path fs of None \<Rightarrow> None | Some (a, g, b) \<Rightarrow> Some (f # a, g, b)))"

definition DropTransactionLocalFile ::
  "'fs duckdb_fs \<Rightarrow> TableIndex \<Rightarrow> string \<Rightarrow> LocalTableChanges \<Rightarrow> 'fs \<Rightarrow> (LocalTableChanges \<times> 'fs) res" where
  "DropTransactionLocalFile F table_id path changes fs =
     (case map_of changes table_id of
        None \<Rightarrow> Inl (InternalException
          ''DropTransactionLocalFile called for a table for which no transaction-local files exist'')
      | Some c \<Rightarrow>
          (case split_file path (new_data_files c) of
             None \<Rightarrow> Inl (InternalException
               ''Failed to find matching transaction-local file for DropTransactionLocalFile'')
           | Some (a, file, b) \<Rightarrow>
               bind_res (fold_res (fs_RemoveFile F)
                   (map df_file_name (filter df_created_by_ducklake (delete_files file))) fs) (\<lambda>fs1.
               bind_res (if created_by_ducklake file then fs_RemoveFile F path fs1 else Inr fs1) (\<lambda>fs2.
                 let c' = c\<lparr>new_data_files := a @ b\<rparr>
                 in Inr (if IsEmpty c' then omap_erase table_id changes
                         else omap_insert table_id c' changes, fs2)))))"

definition AppendFiles ::
  "duckdb_string \<Rightarrow> TableIndex \<Rightarrow> DuckLakeDataFile list \<Rightarrow> LocalTableChanges \<Rightarrow> LocalTableChanges res" where
  "AppendFiles D table_id files changes =
     (let c = table_changes changes table_id;
          mixed = (\<lambda>f g. InvalidInputException
            (''Cannot append mixed data file formats to the same table in one transaction (found '' @
             f @ '' and '' @ g @ '')''))
      in bind_res
           (case files of
              [] \<Rightarrow> Inr ()
            | f0 # _ \<Rightarrow>
                (let expected_format = file_format f0
                 in bind_res (for_each files (\<lambda>file.
                        if StringUtil_CIEquals D (file_format file) expected_format then Inr ()
                        else Inl (mixed expected_format (file_format file)))) (\<lambda>_.
                    case new_data_files c of
                      [] \<Rightarrow> Inr ()
                    | g # _ \<Rightarrow> if StringUtil_CIEquals D (file_format g) expected_format then Inr ()
                              else Inl (mixed (file_format g) expected_format))))
           (\<lambda>_. Inr (omap_insert table_id (c\<lparr>new_data_files := new_data_files c @ files\<rparr>) changes)))"

definition AppendDeleteFiles ::
  "TableIndex \<Rightarrow> string \<Rightarrow> DuckLakeDeleteFile list \<Rightarrow> LocalTableChanges \<Rightarrow> LocalTableChanges" where
  "AppendDeleteFiles table_id data_file_path files changes =
     (if files = [] then changes
      else (let c = table_changes changes table_id
            in omap_insert table_id
                 (c\<lparr>new_delete_files := umap_update data_file_path [] (\<lambda>e. e @ files) (new_delete_files c)\<rparr>)
                 changes))"

text \<open>
  \<^verbatim>\<open>AppendInlinedData\<close>: existing rows are cast when a column changed its type, the new rows are
  appended, row identifiers and statistics merged.
\<close>

definition cast_row :: "(Value \<Rightarrow> LogicalType \<Rightarrow> Value res) \<Rightarrow> LogicalType list \<Rightarrow> LogicalType list \<Rightarrow>
    Value list \<Rightarrow> Value list res" where
  "cast_row cast old_types new_types row =
     map_res (\<lambda>(v, old_t, new_t). if old_t \<noteq> new_t then cast v new_t else Inr v)
       (zip row (zip old_types new_types))"

definition cast_collection :: "(Value \<Rightarrow> LogicalType \<Rightarrow> Value res) \<Rightarrow> LogicalType list \<Rightarrow>
    ColumnDataCollection \<Rightarrow> ColumnDataCollection res" where
  "cast_collection cast new_types d =
     (if cdc_types d = new_types then Inr d
      else bind_res (map_res (map_res (cast_row cast (cdc_types d) new_types)) (cdc_chunks d)) (\<lambda>chunks.
             Inr \<lparr>cdc_types = new_types, cdc_chunks = chunks\<rparr>))"

definition merge_inlined_stats :: "duckdb_types \<Rightarrow> 'v duckdb_value \<Rightarrow>
    (FieldIndex, DuckLakeColumnStats) omap \<Rightarrow> (FieldIndex, DuckLakeColumnStats) omap \<Rightarrow>
    (FieldIndex, DuckLakeColumnStats) omap res" where
  "merge_inlined_stats T V new_stats stats =
     fold_res (\<lambda>(c, n) st.
       case map_of st c of
         None \<Rightarrow> Inl (InternalException ''Missing stats when merging inlined data'')
       | Some s \<Rightarrow> bind_res (MergeStats T V s n) (\<lambda>m. Inr (omap_insert c m st))) new_stats stats"

definition append_to_inlined ::
  "duckdb_types \<Rightarrow> 'v duckdb_value \<Rightarrow> (Value \<Rightarrow> LogicalType \<Rightarrow> Value res) \<Rightarrow>
   DuckLakeInlinedData \<Rightarrow> DuckLakeInlinedData \<Rightarrow> DuckLakeInlinedData res" where
  "append_to_inlined T V cast new_data existing =
     (case (id_data existing, id_data new_data) of
        (Some ed, Some nd) \<Rightarrow>
          bind_res (cast_collection cast (cdc_types nd) ed) (\<lambda>ed'.
            let appended = existing\<lparr>id_data := Some (ed'\<lparr>cdc_chunks := cdc_chunks ed' @ cdc_chunks nd\<rparr>)\<rparr>;
                merged = MergeRowIds appended new_data (length (cdc_rows nd))
            in bind_res (merge_inlined_stats T V (id_column_stats new_data) (id_column_stats existing)) (\<lambda>st.
                 Inr (merged\<lparr>id_column_stats := st\<rparr>)))
      | _ \<Rightarrow> Inl (InternalException ''Attempted to dereference unique_ptr that is NULL''))"

definition AppendInlinedData ::
  "duckdb_types \<Rightarrow> 'v duckdb_value \<Rightarrow> (Value \<Rightarrow> LogicalType \<Rightarrow> Value res) \<Rightarrow> TableIndex \<Rightarrow>
   DuckLakeInlinedData \<Rightarrow> LocalTableChanges \<Rightarrow> LocalTableChanges res" where
  "AppendInlinedData T V cast table_id new_data changes =
     (let c = table_changes changes table_id
      in case new_inlined_data c of
           Some existing \<Rightarrow>
             bind_res (append_to_inlined T V cast new_data existing) (\<lambda>m.
               Inr (omap_insert table_id (c\<lparr>new_inlined_data := Some m\<rparr>) changes))
         | None \<Rightarrow> Inr (omap_insert table_id (c\<lparr>new_inlined_data := Some new_data\<rparr>) changes))"

definition AddNewInlinedDeletes ::
  "TableIndex \<Rightarrow> string \<Rightarrow> idx fset \<Rightarrow> LocalTableChanges \<Rightarrow> LocalTableChanges" where
  "AddNewInlinedDeletes table_id table_name new_deletes changes =
     (let c = table_changes changes table_id
      in omap_insert table_id
           (c\<lparr>new_inlined_data_deletes :=
                umap_update table_name \<lparr>rows = {||}\<rparr> (\<lambda>d. d\<lparr>rows := rows d |\<union>| new_deletes\<rparr>)
                  (new_inlined_data_deletes c)\<rparr>) changes)"

text \<open>
  \<^verbatim>\<open>DeleteFromLocalInlinedData\<close>: the rows whose identifier is deleted are dropped chunk by chunk
  (a chunk left empty is not appended), the identifiers of the others become explicit.
\<close>

fun filter_chunk :: "DuckLakeInlinedData \<Rightarrow> int set \<Rightarrow> nat \<Rightarrow> Value list list \<Rightarrow> (Value list list \<times> int list) res" where
  "filter_chunk d deletes position [] = Inr ([], [])"
| "filter_chunk d deletes position (r # rs) =
     bind_res (GetRowId d position) (\<lambda>row_id.
       if row_id \<in> deletes then filter_chunk d deletes (Suc position) rs
       else bind_res (GetOutputRowId d position) (\<lambda>out_id.
            bind_res (filter_chunk d deletes (Suc position) rs) (\<lambda>(rows, ids). Inr (r # rows, out_id # ids))))"

fun filter_chunks :: "DuckLakeInlinedData \<Rightarrow> int set \<Rightarrow> nat \<Rightarrow> Value list list list \<Rightarrow>
    (Value list list list \<times> int list) res" where
  "filter_chunks d deletes base_row_id [] = Inr ([], [])"
| "filter_chunks d deletes base_row_id (c # cs) =
     bind_res (filter_chunk d deletes base_row_id c) (\<lambda>(rows, ids).
     bind_res (filter_chunks d deletes (base_row_id + length c) cs) (\<lambda>(chunks, ids').
       Inr (if rows = [] then chunks else rows # chunks, ids @ ids')))"

definition delete_from_inlined :: "idx fset \<Rightarrow> DuckLakeInlinedData \<Rightarrow> DuckLakeInlinedData res" where
  "delete_from_inlined new_deletes inlined =
     (case id_data inlined of
        None \<Rightarrow> Inl (InternalException ''Attempted to dereference unique_ptr that is NULL'')
      | Some existing \<Rightarrow>
          bind_res (filter_chunks inlined (uint ` fset new_deletes) 0 (cdc_chunks existing)) (\<lambda>(chunks, ids).
            Inr (inlined\<lparr>id_data := Some (existing\<lparr>cdc_chunks := chunks\<rparr>), id_row_ids := ids\<rparr>)))"

definition DeleteFromLocalInlinedData ::
  "TableIndex \<Rightarrow> idx fset \<Rightarrow> LocalTableChanges \<Rightarrow> LocalTableChanges res" where
  "DeleteFromLocalInlinedData table_id new_deletes changes =
     (case map_of changes table_id of
        None \<Rightarrow> Inl (InternalException
          ''DeleteFromLocalInlinedData called but no transaction-local data exists for table'')
      | Some c \<Rightarrow>
          (case new_inlined_data c of
             None \<Rightarrow> Inl (InternalException ''Attempted to dereference unique_ptr that is NULL'')
           | Some inlined \<Rightarrow>
               bind_res (delete_from_inlined new_deletes inlined) (\<lambda>d.
                 Inr (omap_insert table_id (c\<lparr>new_inlined_data := Some d\<rparr>) changes))))"

fun RemoveFieldStats :: "DuckLakeFieldId \<Rightarrow> (FieldIndex, DuckLakeColumnStats) omap \<Rightarrow>
    (FieldIndex, DuckLakeColumnStats) omap" where
  "RemoveFieldStats (FieldId c n t cs) stats = fold RemoveFieldStats cs (omap_erase (cd_id c) stats)"

text \<open>The common guards of the two operations that change the columns of the inlined rows.\<close>

definition with_inlined_data ::
  "string \<Rightarrow> TableIndex \<Rightarrow> (DuckLakeInlinedData \<Rightarrow> DuckLakeInlinedData res) \<Rightarrow> LocalTableChanges \<Rightarrow>
   LocalTableChanges res" where
  "with_inlined_data caller table_id f changes =
     (case map_of changes table_id of
        None \<Rightarrow> Inl (InternalException (caller @ '' called but no transaction-local data exists''))
      | Some c \<Rightarrow>
          (case new_inlined_data c of
             None \<Rightarrow> Inl (InternalException (caller @ '' called but no inlined data exists''))
           | Some d \<Rightarrow> bind_res (f d) (\<lambda>d'.
               Inr (omap_insert table_id (c\<lparr>new_inlined_data := Some d'\<rparr>) changes))))"

definition AddColumnToLocalInlinedData ::
  "Value duckdb_value \<Rightarrow> TableIndex \<Rightarrow> LogicalType \<Rightarrow> FieldIndex \<Rightarrow> Value \<Rightarrow> LocalTableChanges \<Rightarrow>
   LocalTableChanges res" where
  "AddColumnToLocalInlinedData V table_id new_column_type new_field_index default_value =
     with_inlined_data ''AddColumnToLocalInlinedData'' table_id (\<lambda>d.
       case id_data d of
         None \<Rightarrow> Inl (InternalException ''Attempted to dereference unique_ptr that is NULL'')
       | Some existing \<Rightarrow>
           let new_value = (if IsNull default_value then Value new_column_type None else default_value)
           in Inr (d\<lparr>id_column_stats :=
                       (case map_of (id_column_stats d) new_field_index of
                          None \<Rightarrow> omap_insert new_field_index
                            (FromConstant V new_column_type default_value (of_nat (length (cdc_rows existing))))
                            (id_column_stats d)
                        | Some _ \<Rightarrow> id_column_stats d),
                     id_data := Some \<lparr>cdc_types = cdc_types existing @ [new_column_type],
                       cdc_chunks = map (map (\<lambda>row. row @ [new_value])) (cdc_chunks existing)\<rparr>\<rparr>))"

definition remove_nth :: "nat \<Rightarrow> 'a list \<Rightarrow> 'a list" where
  "remove_nth i xs = take i xs @ drop (Suc i) xs"

definition RemoveColumnFromLocalInlinedData ::
  "TableIndex \<Rightarrow> nat \<Rightarrow> DuckLakeFieldId \<Rightarrow> LocalTableChanges \<Rightarrow> LocalTableChanges res" where
  "RemoveColumnFromLocalInlinedData table_id removed_column_index field_id =
     with_inlined_data ''RemoveColumnFromLocalInlinedData'' table_id (\<lambda>d.
       case id_data d of
         None \<Rightarrow> Inl (InternalException ''Attempted to dereference unique_ptr that is NULL'')
       | Some existing \<Rightarrow>
           Inr (d\<lparr>id_column_stats := RemoveFieldStats field_id (id_column_stats d),
                  id_data := Some \<lparr>cdc_types = remove_nth removed_column_index (cdc_types existing),
                    cdc_chunks = map (map (remove_nth removed_column_index)) (cdc_chunks existing)\<rparr>\<rparr>))"

definition GetInlinedDeletes :: "LocalTableChanges \<Rightarrow> TableIndex \<Rightarrow> string \<Rightarrow> DuckLakeInlinedDataDeletes option" where
  "GetInlinedDeletes changes table_id table_name =
     (case map_of changes table_id of None \<Rightarrow> None | Some c \<Rightarrow> map_of (new_inlined_data_deletes c) table_name)"

definition AddNewInlinedFileDeletes ::
  "TableIndex \<Rightarrow> idx \<Rightarrow> idx fset \<Rightarrow> LocalTableChanges \<Rightarrow> LocalTableChanges" where
  "AddNewInlinedFileDeletes table_id file_id new_deletes changes =
     (if new_deletes = {||} then changes
      else (let c = table_changes changes table_id;
                d = (case new_inlined_file_deletes c of None \<Rightarrow> \<lparr>file_deletes = []\<rparr> | Some d \<Rightarrow> d);
                m = file_deletes d
            in omap_insert table_id
                 (c\<lparr>new_inlined_file_deletes :=
                      Some (d\<lparr>file_deletes := omap_insert file_id (omap_get {||} m file_id |\<union>| new_deletes) m\<rparr>)\<rparr>)
                 changes))"

definition AddCompaction :: "TableIndex \<Rightarrow> DuckLakeCompactionEntry \<Rightarrow> LocalTableChanges \<Rightarrow> LocalTableChanges" where
  "AddCompaction table_id entry changes =
     (let c = table_changes changes table_id
      in omap_insert table_id (c\<lparr>compactions := compactions c @ [entry]\<rparr>) changes)"

definition HasLocalDeletes :: "LocalTableChanges \<Rightarrow> TableIndex \<Rightarrow> bool" where
  "HasLocalDeletes changes table_id \<longleftrightarrow>
     (case map_of changes table_id of None \<Rightarrow> False | Some c \<Rightarrow> new_delete_files c \<noteq> [])"

definition HasAnyLocalChanges :: "LocalTableChanges \<Rightarrow> TableIndex \<Rightarrow> bool" where
  "HasAnyLocalChanges changes table_id \<longleftrightarrow>
     (case map_of changes table_id of None \<Rightarrow> False | Some c \<Rightarrow> \<not> IsEmpty c)"

definition HasLocalDeleteForFile :: "LocalTableChanges \<Rightarrow> TableIndex \<Rightarrow> string \<Rightarrow> bool" where
  "HasLocalDeleteForFile changes table_id path \<longleftrightarrow>
     (case map_of changes table_id of
        None \<Rightarrow> False
      | Some c \<Rightarrow> (case map_of (new_delete_files c) path of None \<Rightarrow> False | Some ds \<Rightarrow> ds \<noteq> []))"

definition GetLocalDeleteForFile ::
  "LocalTableChanges \<Rightarrow> TableIndex \<Rightarrow> string \<Rightarrow> DuckLakeFileData \<Rightarrow> DuckLakeFileData" where
  "GetLocalDeleteForFile changes table_id path result =
     (case map_of changes table_id of
        None \<Rightarrow> result
      | Some c \<Rightarrow>
          (case map_of (new_delete_files c) path of
             None \<Rightarrow> result
           | Some ds \<Rightarrow>
               if ds = [] then result
               else (let delete_file = last ds
                     in result\<lparr>fd_path := df_file_name delete_file,
                               fd_file_size_bytes := df_file_size_bytes delete_file,
                               fd_footer_size := Some (df_footer_size delete_file),
                               fd_encryption_key := df_encryption_key delete_file,
                               fd_format := df_format delete_file\<rparr>)))"

definition HasLocalInlinedFileDeletes :: "LocalTableChanges \<Rightarrow> TableIndex \<Rightarrow> bool" where
  "HasLocalInlinedFileDeletes changes table_id \<longleftrightarrow>
     (case map_of changes table_id of
        None \<Rightarrow> False
      | Some c \<Rightarrow> (case new_inlined_file_deletes c of None \<Rightarrow> False | Some d \<Rightarrow> file_deletes d \<noteq> []))"

definition GetLocalInlinedFileDeletesForFile ::
  "LocalTableChanges \<Rightarrow> TableIndex \<Rightarrow> idx \<Rightarrow> idx fset \<Rightarrow> idx fset" where
  "GetLocalInlinedFileDeletesForFile changes table_id file_id result =
     (case map_of changes table_id of
        None \<Rightarrow> result
      | Some c \<Rightarrow>
          (case new_inlined_file_deletes c of
             None \<Rightarrow> result
           | Some d \<Rightarrow> (case map_of (file_deletes d) file_id of None \<Rightarrow> result | Some r \<Rightarrow> result |\<union>| r)))"

definition TransactionLocalDelete ::
  "'fs duckdb_fs \<Rightarrow> TableIndex \<Rightarrow> string \<Rightarrow> DuckLakeDeleteFile \<Rightarrow> LocalTableChanges \<Rightarrow> 'fs \<Rightarrow>
   (LocalTableChanges \<times> 'fs) res" where
  "TransactionLocalDelete F table_id data_file_path delete_file changes fs =
     (case map_of changes table_id of
        None \<Rightarrow> Inl (InternalException
          ''Transaction local delete called for table which does not have transaction local insertions'')
      | Some c \<Rightarrow>
          (case split_file data_file_path (new_data_files c) of
             None \<Rightarrow> Inl (InternalException ''Failed to find matching transaction-local file for written delete file'')
           | Some (a, file, b) \<Rightarrow>
               bind_res (if delete_files file = [] then Inr fs
                         else fs_RemoveFiles F (map df_file_name (filter df_created_by_ducklake (delete_files file))) fs)
                 (\<lambda>fs'. Inr (omap_insert table_id
                    (c\<lparr>new_data_files := a @ file\<lparr>delete_files := [delete_file]\<rparr> # b\<rparr>) changes, fs'))))"

text \<open>\<^verbatim>\<open>CleanupFiles\<close> of one table: data files must exist, the others are removed if they do.\<close>

definition CleanupFiles_table ::
  "'fs duckdb_fs \<Rightarrow> TableIndex \<Rightarrow> LocalTableChanges \<Rightarrow> 'fs \<Rightarrow> (LocalTableChanges \<times> 'fs) res" where
  "CleanupFiles_table F table_id changes fs =
     (case map_of changes table_id of
        None \<Rightarrow> Inr (changes, fs)
      | Some c \<Rightarrow>
          bind_res (fold_res (\<lambda>file fs.
              bind_res (if created_by_ducklake file then fs_RemoveFile F (file_name file) fs else Inr fs) (\<lambda>fs1.
                Inr (fold (fs_TryRemoveFile F)
                       (map df_file_name (filter df_created_by_ducklake (delete_files file))) fs1)))
              (new_data_files c) fs) (\<lambda>fs2.
            Inr (omap_erase table_id changes,
                 fold (fs_TryRemoveFile F) (delete_file_paths c @ compaction_paths c) fs2)))"

definition AddDeletesToMap_step ::
  "'fs duckdb_fs \<Rightarrow> DuckLakeDeleteFile \<Rightarrow> (string \<times> DuckLakeDeleteFile list) list \<times> 'fs \<Rightarrow>
   ((string \<times> DuckLakeDeleteFile list) list \<times> 'fs) res" where
  "AddDeletesToMap_step F file st =
     (case st of (m, fs) \<Rightarrow>
        let path = df_data_file_path file
        in if path = [] then Inl (InternalException ''Data file path needs to be set in delete'')
           else (case df_source file of
                   FLUSH \<Rightarrow> Inr (umap_update path [] (\<lambda>ds. ds @ [file]) m, fs)
                 | REGULAR \<Rightarrow>
                     bind_res (case map_of m path of
                                 None \<Rightarrow> Inr fs
                               | Some ds \<Rightarrow> fold_res (fs_RemoveFile F) (map df_file_name ds) fs) (\<lambda>fs'.
                       Inr (umap_update path [] (\<lambda>ds. [file]) m, fs'))))"

definition AddDeletesToMap ::
  "'fs duckdb_fs \<Rightarrow> DuckLakeDeleteFile list \<Rightarrow> (string \<times> DuckLakeDeleteFile list) list \<times> 'fs \<Rightarrow>
   ((string \<times> DuckLakeDeleteFile list) list \<times> 'fs) res" where
  "AddDeletesToMap F new_deletes st = fold_res (AddDeletesToMap_step F) new_deletes st"

definition AddDeletes ::
  "'fs duckdb_fs \<Rightarrow> TableIndex \<Rightarrow> DuckLakeDeleteFile list \<Rightarrow> LocalTableChanges \<Rightarrow> 'fs \<Rightarrow>
   (LocalTableChanges \<times> 'fs) res" where
  "AddDeletes F table_id files changes fs =
     (if files = [] then Inr (changes, fs)
      else (let c = table_changes changes table_id
            in bind_res (AddDeletesToMap F files (new_delete_files c, fs)) (\<lambda>(m, fs').
                 Inr (omap_insert table_id (c\<lparr>new_delete_files := m\<rparr>) changes, fs'))))"

section \<open>Deleting inlined rows\<close>

text \<open>The identifier a delete names a row by, and the one the row carries afterwards.\<close>

definition match_id :: "DuckLakeInlinedData \<Rightarrow> nat \<Rightarrow> int" where
  "match_id d i = (if HasPreservedRowIds d then id_row_ids d ! i else int i)"

definition output_id :: "DuckLakeInlinedData \<Rightarrow> nat \<Rightarrow> int" where
  "output_id d i = (if HasPreservedRowIds d then id_row_ids d ! i else LOCAL_ROW_ID_START + int i)"

definition kept :: "DuckLakeInlinedData \<Rightarrow> int set \<Rightarrow> nat list \<Rightarrow> nat list" where
  "kept d deletes positions = filter (\<lambda>i. match_id d i \<notin> deletes) positions"

definition row_ids_valid :: "DuckLakeInlinedData \<Rightarrow> bool" where
  "row_ids_valid d \<longleftrightarrow> row_ids_ok d \<and> list_all (\<lambda>r. 0 \<le> r) (id_row_ids d)"

lemma GetRowId_valid: "row_ids_valid d \<Longrightarrow> i < Count d \<Longrightarrow> GetRowId d i = Inr (match_id d i)"
  by (auto simp: GetRowId_def row_ids_valid_def row_ids_ok_def row_id_at_def match_id_def list_all_length)

lemma GetOutputRowId_valid: "row_ids_valid d \<Longrightarrow> i < Count d \<Longrightarrow> GetOutputRowId d i = Inr (output_id d i)"
  by (auto simp: GetOutputRowId_def row_ids_valid_def row_ids_ok_def row_id_at_def output_id_def)

lemma filter_chunk_valid:
  assumes "row_ids_valid d" and "p + length rs \<le> Count d"
  shows "filter_chunk d deletes p rs =
    (let ks = kept d deletes [p..<p + length rs] in Inr (map (\<lambda>i. rs ! (i - p)) ks, map (output_id d) ks))"
  using assms(2)
proof (induction rs arbitrary: p)
  case Nil
  then show ?case by (simp add: kept_def)
next
  case (Cons r rs)
  have IH: "filter_chunk d deletes (Suc p) rs =
      (let ks = kept d deletes [Suc p..<Suc p + length rs] in Inr (map (\<lambda>i. rs ! (i - Suc p)) ks, map (output_id d) ks))"
    using Cons.IH [of "Suc p"] Cons.prems by simp
  have shift: "map (\<lambda>i. (r # rs) ! (i - p)) (kept d deletes [Suc p..<Suc p + length rs])
      = map (\<lambda>i. rs ! (i - Suc p)) (kept d deletes [Suc p..<Suc p + length rs])"
    by (intro map_cong) (auto simp: kept_def nth_Cons' Suc_diff_le)
  have split: "[p..<p + length (r # rs)] = p # [Suc p..<Suc p + length rs]"
    by (simp add: upt_conv_Cons del: upt_Suc)
  show ?case
    using Cons.prems shift unfolding split
    by (simp add: GetRowId_valid [OF assms(1)] GetOutputRowId_valid [OF assms(1)] IH kept_def Let_def)
qed

lemma nth_append_shift:
  "map (\<lambda>i. (xs @ ys) ! (i - p)) (kept d del [p + length xs..<p + length xs + length ys])
   = map (\<lambda>i. ys ! (i - (p + length xs))) (kept d del [p + length xs..<p + length xs + length ys])"
  by (intro map_cong) (auto simp: kept_def nth_append)

lemma filter_chunks_valid:
  assumes "row_ids_valid d" and "p + length (concat cs) \<le> Count d"
  shows "\<exists>chunks. filter_chunks d deletes p cs =
      Inr (chunks, map (output_id d) (kept d deletes [p..<p + length (concat cs)])) \<and>
    concat chunks = map (\<lambda>i. concat cs ! (i - p)) (kept d deletes [p..<p + length (concat cs)])"
  using assms(2)
proof (induction cs arbitrary: p)
  case Nil
  then show ?case by (simp add: kept_def)
next
  case (Cons c cs)
  let ?a = "kept d deletes [p..<p + length c]"
  let ?b = "kept d deletes [p + length c..<p + length c + length (concat cs)]"
  have app: "kept d deletes [p..<p + length (concat (c # cs))] = ?a @ ?b"
    using upt_add_eq_append [of p "p + length c" "length (concat cs)"]
    by (simp add: kept_def add.assoc)
  obtain chunks where ch: "filter_chunks d deletes (p + length c) cs = Inr (chunks, map (output_id d) ?b)"
    and cc: "concat chunks = map (\<lambda>i. concat cs ! (i - (p + length c))) ?b"
    using Cons.IH [of "p + length c"] Cons.prems by auto
  have hd: "map (\<lambda>i. (c @ concat cs) ! (i - p)) ?a = map (\<lambda>i. c ! (i - p)) ?a"
    by (intro map_cong) (auto simp: kept_def nth_append)
  have "filter_chunk d deletes p c = Inr (map (\<lambda>i. c ! (i - p)) ?a, map (output_id d) ?a)"
    using filter_chunk_valid [OF assms(1), of p c deletes] Cons.prems by (simp add: Let_def)
  then show ?case
    using ch cc hd nth_append_shift [of c "concat cs" p d deletes] app by auto
qed

lemma delete_from_inlined_valid:
  assumes "row_ids_valid d" and "id_data d = Some c"
  shows "\<exists>d' c'. delete_from_inlined del d = Inr d' \<and> id_data d' = Some c' \<and>
    (let ks = kept d (uint ` fset del) [0..<Count d]
     in cdc_rows c' = map ((!) (cdc_rows c)) ks \<and> id_row_ids d' = map (output_id d) ks)"
proof -
  have n: "Count d = length (concat (cdc_chunks c))"
    using assms(2) by (simp add: Count_def cdc_rows_def)
  obtain chunks where "filter_chunks d (uint ` fset del) 0 (cdc_chunks c) =
      Inr (chunks, map (output_id d) (kept d (uint ` fset del) [0..<Count d]))"
    and "concat chunks = map ((!) (cdc_rows c)) (kept d (uint ` fset del) [0..<Count d])"
    using filter_chunks_valid [OF assms(1), of 0 "cdc_chunks c" "uint ` fset del"] n
    by (auto simp: cdc_rows_def)
  with assms(2) show ?thesis
    by (simp add: delete_from_inlined_def cdc_rows_def)
qed

lemma output_id_inject:
  assumes "row_ids_valid d" and "i < Count d" and "j < Count d" and "output_id d i = output_id d j"
  shows "i = j"
  using assms
  by (auto simp: output_id_def row_ids_valid_def row_ids_ok_def nth_eq_iff_index_eq split: if_splits)

section \<open>Cleaning up\<close>

definition owned_paths :: "LocalTableChanges \<Rightarrow> string list" where
  "owned_paths changes =
     concat (map (\<lambda>(t, c). data_file_paths c @ delete_file_paths c @ compaction_paths c) changes)"

context duckdb_filesystem
begin

lemma CleanupFiles_exists:
  "fs_exists F (snd (CleanupFiles F changes fs)) q \<longleftrightarrow> fs_exists F fs q \<and> q \<notin> set (owned_paths changes)"
proof -
  have "fs_exists F (fold (\<lambda>(t, c) fs. fold (fs_TryRemoveFile F)
          (data_file_paths c @ delete_file_paths c @ compaction_paths c) fs) changes fs) q
        \<longleftrightarrow> fs_exists F fs q \<and> q \<notin> set (owned_paths changes)"
  proof (induction changes arbitrary: fs)
    case (Cons e changes)
    then show ?case
      by (cases e) (simp only: fold_simps o_apply prod.case TryRemove_all owned_paths_def list.map concat.simps
          set_append Un_iff, blast)
  qed (simp add: owned_paths_def)
  then show ?thesis by (simp add: CleanupFiles_def)
qed

end

lemma CleanupFiles_owned: "owned_paths (fst (CleanupFiles F changes fs)) = []"
  by (induction changes)
    (auto simp: CleanupFiles_def owned_paths_def data_file_paths_def delete_file_paths_def compaction_paths_def)

section \<open>One format per table\<close>

definition uniform_format :: "duckdb_string \<Rightarrow> LocalTableChanges \<Rightarrow> bool" where
  "uniform_format D changes \<longleftrightarrow>
     (\<forall>(t, c) \<in> set changes. \<forall>f \<in> set (new_data_files c). \<forall>g \<in> set (new_data_files c).
        StringUtil_CIEquals D (file_format f) (file_format g))"

lemma omap_insert_member: "x \<in> set (omap_insert k v m) \<Longrightarrow> x = (k, v) \<or> x \<in> set m"
  by (induction m) (auto split: if_splits)

context duckdb_strings
begin

lemma AppendFiles_uniform:
  assumes "uniform_format D changes" and "AppendFiles D t files changes = Inr changes'"
  shows "uniform_format D changes'"
proof -
  let ?c = "table_changes changes t"
  have old: "StringUtil_CIEquals D (file_format f) (file_format g)"
    if "f \<in> set (new_data_files ?c)" "g \<in> set (new_data_files ?c)" for f g
    using assms(1) that
    by (auto simp: uniform_format_def omap_get_def LocalTableDataChanges_default_def
        split: option.splits dest!: map_of_SomeD)
  have new: "StringUtil_CIEquals D (file_format f) (file_format g)"
    if "f \<in> set (new_data_files ?c @ files)" "g \<in> set (new_data_files ?c @ files)" for f g
  proof (cases files)
    case Nil
    with that old show ?thesis by simp
  next
    case (Cons f0 fs)
    have all: "\<forall>h \<in> set files. StringUtil_CIEquals D (file_format h) (file_format f0)"
      and first: "new_data_files ?c \<noteq> [] \<longrightarrow> StringUtil_CIEquals D (file_format (hd (new_data_files ?c))) (file_format f0)"
      using assms(2) Cons
      by (auto simp: AppendFiles_def Let_def bind_res_Inr_iff is_ok_def [symmetric] split: if_splits list.splits
          dest: arg_cong [where f = is_ok])
    have "StringUtil_CIEquals D (file_format h) (file_format f0)"
      if "h \<in> set (new_data_files ?c @ files)" for h
      using that all first old [of h "hd (new_data_files ?c)"] CIEquals_trans
      by (cases "new_data_files ?c") auto
    with that show ?thesis using CIEquals_sym CIEquals_trans by blast
  qed
  have "changes' = omap_insert t (?c\<lparr>new_data_files := new_data_files ?c @ files\<rparr>) changes"
    using assms(2) by (auto simp: AppendFiles_def Let_def bind_res_Inr_iff)
  with new assms(1) show ?thesis
    by (auto simp: uniform_format_def dest!: omap_insert_member)
qed

end

lemma output_id_nonneg: "row_ids_valid d \<Longrightarrow> i < Count d \<Longrightarrow> 0 \<le> output_id d i"
  by (auto simp: output_id_def row_ids_valid_def row_ids_ok_def list_all_length)

lemma delete_from_inlined_row_ids:
  assumes "row_ids_valid d" and "id_data d = Some c" and "delete_from_inlined del d = Inr d'"
  shows "row_ids_valid d'"
proof -
  let ?ks = "kept d (uint ` fset del) [0..<Count d]"
  obtain c' where d': "id_data d' = Some c'" "cdc_rows c' = map ((!) (cdc_rows c)) ?ks"
    "id_row_ids d' = map (output_id d) ?ks"
    using delete_from_inlined_valid [OF assms(1,2), of del] assms(3) by (auto simp: Let_def)
  have "inj_on (output_id d) (set ?ks)"
    using output_id_inject [OF assms(1)] by (auto simp: inj_on_def kept_def)
  moreover have "distinct ?ks" by (simp add: kept_def)
  ultimately have "distinct (id_row_ids d')" by (simp add: d' distinct_map)
  moreover have "list_all (\<lambda>r. 0 \<le> r) (id_row_ids d')"
    using output_id_nonneg [OF assms(1)] by (auto simp: d' list_all_iff kept_def)
  ultimately show ?thesis
    by (simp add: row_ids_valid_def row_ids_ok_def Count_def d')
qed

section \<open>Concrete changes\<close>

definition sample_data :: DuckLakeInlinedData where
  "sample_data =
     \<lparr>id_data = Some \<lparr>cdc_types = [plain_type BIGINT],
        cdc_chunks = [[[Value (plain_type BIGINT) (Some ''1'')], [Value (plain_type BIGINT) (Some ''2'')]],
                      [[Value (plain_type BIGINT) (Some ''3'')]]]\<rparr>,
      id_external_row_count = 0, id_column_stats = [], id_row_ids = []\<rparr>"

definition sample_file :: "string \<Rightarrow> bool \<Rightarrow> DuckLakeDataFile" where
  "sample_file nm owned =
     \<lparr>file_name = nm, file_format = ''parquet'', row_count = 1, file_size_bytes = 10, footer_size = None,
      row_group_count = None, partition_id = None, delete_files = [], column_stats = [], partition_values = [],
      encryption_key = [], mapping_id = MappingIndex_default, begin_snapshot = None,
      max_partial_file_snapshot = None, flush_row_id_start = None, created_by_ducklake = owned\<rparr>"

definition sample_changes :: LocalTableChanges where
  "sample_changes =
     [(3, LocalTableDataChanges_default
        \<lparr>new_data_files := [sample_file ''own'' True, sample_file ''user'' False]\<rparr>)]"

section \<open>Properties\<close>

text \<open>
  C13. Deleting from transaction-local inlined data removes exactly the rows named by the delete:
  \<^verbatim>\<open>DeleteFromLocalInlinedData\<close> on a collection with valid row identifiers does not throw, the
  remaining rows are the old rows whose identifier is not among the deletes, in their old order,
  each keeps its output identifier, and the identifiers of the result are again one per row and
  distinct.
\<close>

theorem inlined_delete_exact:
  assumes "row_ids_valid d" and "id_data d = Some c"
  shows "\<exists>d' c'. delete_from_inlined del d = Inr d' \<and> id_data d' = Some c' \<and> row_ids_valid d' \<and>
    cdc_rows c' = map ((!) (cdc_rows c)) (kept d (uint ` fset del) [0..<Count d]) \<and>
    id_row_ids d' = map (output_id d) (kept d (uint ` fset del) [0..<Count d])"
  using delete_from_inlined_valid [OF assms, of del] delete_from_inlined_row_ids [OF assms]
  by (auto simp: Let_def)

theorem inlined_delete_exact_witness:
  "\<exists>d' c'. delete_from_inlined {|1|} sample_data = Inr d' \<and> id_data d' = Some c' \<and> row_ids_valid d' \<and>
     cdc_rows c' = [[Value (plain_type BIGINT) (Some ''1'')], [Value (plain_type BIGINT) (Some ''3'')]] \<and>
     id_row_ids d' = [1000000000000000000, 1000000000000000002]"
proof -
  let ?c = "\<lparr>cdc_types = [plain_type BIGINT],
        cdc_chunks = [[[Value (plain_type BIGINT) (Some ''1'')], [Value (plain_type BIGINT) (Some ''2'')]],
                      [[Value (plain_type BIGINT) (Some ''3'')]]]\<rparr>"
  have "row_ids_valid sample_data" and "id_data sample_data = Some ?c"
    by (simp_all add: sample_data_def row_ids_valid_def row_ids_ok_def HasPreservedRowIds_def)
  from inlined_delete_exact [OF this, of "{|1|}"] show ?thesis
    by (simp add: kept_def match_id_def output_id_def HasPreservedRowIds_def sample_data_def Count_def
        cdc_rows_def TRANSACTION_LOCAL_ROW_ID_START_def)
qed



text \<open>
  C15. A transaction never mixes data file formats within a table: if the files collected so far have
  one format per table (up to letter case), they still do after \<^verbatim>\<open>AppendFiles\<close> accepts more.
\<close>

theorem AppendFiles_keeps_one_format:
  assumes "duckdb_strings D" and "uniform_format D changes" and "AppendFiles D t files changes = Inr changes'"
  shows "uniform_format D changes'"
  using duckdb_strings.AppendFiles_uniform [OF assms] .

theorem AppendFiles_keeps_one_format_witness:
  "\<exists>c. AppendFiles duckdb_ref 3 [sample_file ''more'' True] sample_changes = Inr c \<and> uniform_format duckdb_ref c"
proof -
  have uni: "uniform_format duckdb_ref sample_changes"
    by (auto simp: uniform_format_def sample_changes_def sample_file_def)
  have "is_ok (AppendFiles duckdb_ref 3 [sample_file ''more'' True] sample_changes)"
    by (simp add: AppendFiles_def sample_changes_def sample_file_def omap_get_def Let_def)
  then obtain c where "AppendFiles duckdb_ref 3 [sample_file ''more'' True] sample_changes = Inr c"
    by (auto simp: is_ok_def)
  with AppendFiles_keeps_one_format [OF ref.duckdb_strings_axioms uni] show ?thesis by blast
qed

end
