(* ===== verification/DL_TransactionState.thy ===== *)
theory DL_TransactionState
  imports DL_Changes DL_LocalChanges
begin

text \<open>
  The per-transaction state of \<^verbatim>\<open>src/src/include/storage/ducklake_transaction_state.hpp\<close> and its
  summary: \<^verbatim>\<open>GetTransactionChanges\<close> of \<^verbatim>\<open>src/src/storage/ducklake_transaction.cpp\<close> condenses the
  pending catalog entries and local table changes into the sets that conflict detection and the
  stored change text are made of.

  A catalog entry created or altered in the transaction is a chain of versions, newest first; each
  version records the local change that produced it.
\<close>

section \<open>State\<close>

datatype LocalChangeType =
    LC_NONE | LC_CREATED | LC_RENAMED | LC_SET_PARTITION_KEY | LC_SET_COMMENT | LC_SET_COLUMN_COMMENT
  | LC_SET_NULL | LC_DROP_NULL | LC_RENAME_COLUMN | LC_ADD_COLUMN | LC_REMOVE_COLUMN
  | LC_CHANGE_COLUMN_TYPE | LC_SET_DEFAULT | LC_SET_SORT_KEY | LC_ADD_CONSTRAINT

record LocalChange =
  lc_type :: LocalChangeType
  lc_field_index :: FieldIndex
  lc_view_column_comment_name :: string

record local_entry = catalog_entry +
  le_id :: TableIndex
  le_local_change :: LocalChange

type_synonym entry_chain = "local_entry list"
type_synonym DuckLakeCatalogSet = "entry_chain ci_map"

record DroppedDataFileStats =
  ds_row_count :: idx
  ds_file_size_bytes :: idx

record FlushedInlinedTableInfo =
  fi_table_name :: string
  fi_schema_version :: idx
  fi_flush_snapshot_id :: idx

record DuckLakeTransactionState =
  st_require_commit_message :: bool
  st_data_path :: string
  st_separator :: string
  st_new_tables :: "(SchemaIndex, DuckLakeCatalogSet) omap"
  st_dropped_tables :: "TableIndex fset"
  st_new_scalar_macros :: "(SchemaIndex, DuckLakeCatalogSet) omap"
  st_new_table_macros :: "(SchemaIndex, DuckLakeCatalogSet) omap"
  st_dropped_scalar_macros :: "MacroIndex fset"
  st_dropped_table_macros :: "MacroIndex fset"
  st_new_procedures :: "(SchemaIndex, DuckLakeCatalogSet) omap"
  st_dropped_procedures :: "ProcedureIndex fset"
  st_renamed_tables :: "TableIndex fset"
  st_renamed_views :: "TableIndex fset"
  st_dropped_views :: "TableIndex fset"
  st_dropped_files :: "(string \<times> DataFileIndex) list"
  st_dropped_file_stats :: "(TableIndex, DroppedDataFileStats) omap"
  st_tables_deleted_from :: "TableIndex fset"
  st_tables_delete_attempted :: "TableIndex fset"
  st_new_schemas :: "schema_entry ci_map option"
  st_dropped_schemas :: "(SchemaIndex, schema_entry) omap"
  st_local_changes :: LocalTableChanges
  st_flushed_inlined_tables :: "FlushedInlinedTableInfo list"

definition DuckLakeTransactionState_empty :: DuckLakeTransactionState where
  "DuckLakeTransactionState_empty =
     \<lparr>st_require_commit_message = False, st_data_path = [], st_separator = ''/'', st_new_tables = [],
      st_dropped_tables = {||}, st_new_scalar_macros = [], st_new_table_macros = [],
      st_dropped_scalar_macros = {||}, st_dropped_table_macros = {||}, st_new_procedures = [],
      st_dropped_procedures = {||}, st_renamed_tables = {||}, st_renamed_views = {||},
      st_dropped_views = {||}, st_dropped_files = [], st_dropped_file_stats = [],
      st_tables_deleted_from = {||}, st_tables_delete_attempted = {||}, st_new_schemas = None,
      st_dropped_schemas = [], st_local_changes = [], st_flushed_inlined_tables = []\<rparr>"

definition SchemaChangesMade :: "DuckLakeTransactionState \<Rightarrow> bool" where
  "SchemaChangesMade s \<longleftrightarrow>
     st_new_tables s \<noteq> [] \<or> st_dropped_tables s \<noteq> {||} \<or> st_new_schemas s \<noteq> None \<or>
     st_dropped_schemas s \<noteq> [] \<or> st_dropped_views s \<noteq> {||} \<or> st_renamed_views s \<noteq> {||} \<or>
     st_new_scalar_macros s \<noteq> [] \<or> st_new_table_macros s \<noteq> [] \<or> st_dropped_scalar_macros s \<noteq> {||} \<or>
     st_dropped_table_macros s \<noteq> {||} \<or> st_new_procedures s \<noteq> [] \<or> st_dropped_procedures s \<noteq> {||}"

definition InlinedTableFlushed :: "DuckLakeTransactionState \<Rightarrow> string \<Rightarrow> bool" where
  "InlinedTableFlushed s table_name \<longleftrightarrow>
     list_ex (\<lambda>f. fi_table_name f = table_name) (st_flushed_inlined_tables s)"

text \<open>\<open>has_name_maps\<close>: the transaction registered new name maps.\<close>

definition ChangesMade :: "DuckLakeTransactionState \<Rightarrow> bool \<Rightarrow> bool" where
  "ChangesMade s has_name_maps \<longleftrightarrow>
     SchemaChangesMade s \<or> HasChanges (st_local_changes s) \<or> st_dropped_files s \<noteq> [] \<or> has_name_maps"

definition EnsureCommitInfoProvided :: "DuckLakeTransactionState \<Rightarrow> bool \<Rightarrow> unit res" where
  "EnsureCommitInfoProvided s is_commit_info_set =
     (if is_commit_info_set \<or> \<not> st_require_commit_message s then Inr ()
      else Inl (InvalidConfigurationException
        ''Commit Information for the snapshot is required but has not been provided.''))"

section \<open>Summarising the changes\<close>

text \<open>An altered table is reported unless it was created in the same transaction.\<close>

definition report_altered ::
  "TableIndex \<Rightarrow> bool \<Rightarrow> TransactionChangeInformation \<Rightarrow> TransactionChangeInformation" where
  "report_altered table_id schema_version_changes c =
     (if IsTransactionLocal table_id then c
      else c\<lparr>tc_altered_tables := finsert table_id (tc_altered_tables c),
             tc_altered_tables_with_schema_version_changes :=
               (if schema_version_changes
                then finsert table_id (tc_altered_tables_with_schema_version_changes c)
                else tc_altered_tables_with_schema_version_changes c)\<rparr>)"

definition report_created ::
  "duckdb_string \<Rightarrow> local_entry \<Rightarrow> TransactionChangeInformation \<Rightarrow> TransactionChangeInformation" where
  "report_created D e c =
     c\<lparr>tc_created_tables := ci_update D (PathKey D (ce_ParentSchema e)) [] (\<lambda>es. es @ [catalog_entry.truncate e])
        (tc_created_tables c)\<rparr>"

definition table_version_changes ::
  "duckdb_string \<Rightarrow> local_entry \<Rightarrow> TransactionChangeInformation \<Rightarrow> TransactionChangeInformation" where
  "table_version_changes D e c =
     (let t = le_id e in
      case lc_type (le_local_change e) of
        LC_SET_PARTITION_KEY \<Rightarrow> report_altered t True c
      | LC_DROP_NULL \<Rightarrow> report_altered t True c
      | LC_RENAME_COLUMN \<Rightarrow> report_altered t True c
      | LC_ADD_COLUMN \<Rightarrow> report_altered t True c
      | LC_REMOVE_COLUMN \<Rightarrow> report_altered t True c
      | LC_CHANGE_COLUMN_TYPE \<Rightarrow> report_altered t True c
      | LC_SET_DEFAULT \<Rightarrow> report_altered t True c
      | LC_SET_NULL \<Rightarrow>
          if IsTransactionLocal t then c
          else (report_altered t True c)\<lparr>tc_tables_set_not_null := finsert t (tc_tables_set_not_null c)\<rparr>
      | LC_ADD_CONSTRAINT \<Rightarrow> report_altered t False c
      | LC_SET_COMMENT \<Rightarrow> report_altered t False c
      | LC_SET_COLUMN_COMMENT \<Rightarrow> report_altered t False c
      | LC_SET_SORT_KEY \<Rightarrow> report_altered t False c
      | LC_NONE \<Rightarrow> report_created D e c
      | LC_CREATED \<Rightarrow> report_created D e c
      | LC_RENAMED \<Rightarrow> report_created D e c)"

definition GetTransactionTableChanges ::
  "duckdb_string \<Rightarrow> entry_chain \<Rightarrow> TransactionChangeInformation \<Rightarrow> TransactionChangeInformation" where
  "GetTransactionTableChanges D versions c = fold (table_version_changes D) versions c"

definition view_version_changes ::
  "duckdb_string \<Rightarrow> local_entry \<Rightarrow> TransactionChangeInformation \<Rightarrow> TransactionChangeInformation res" where
  "view_version_changes D e c =
     (let v = le_id e;
          altered = (if IsTransactionLocal v then c else c\<lparr>tc_altered_views := finsert v (tc_altered_views c)\<rparr>)
      in case lc_type (le_local_change e) of
           LC_SET_COMMENT \<Rightarrow> Inr altered
         | LC_SET_COLUMN_COMMENT \<Rightarrow> Inr altered
         | LC_NONE \<Rightarrow> Inr (report_created D e c)
         | LC_CREATED \<Rightarrow> Inr (report_created D e c)
         | LC_RENAMED \<Rightarrow> Inr (report_created D e c)
         | _ \<Rightarrow> Inl (NotImplementedException
                 ''Unsupported transaction local change in GetTransactionTableChanges''))"

definition GetTransactionViewChanges ::
  "duckdb_string \<Rightarrow> entry_chain \<Rightarrow> TransactionChangeInformation \<Rightarrow> TransactionChangeInformation res" where
  "GetTransactionViewChanges D versions c = fold_res (view_version_changes D) versions c"

definition AddTableChanges ::
  "TableIndex \<Rightarrow> LocalTableDataChanges \<Rightarrow> TransactionChangeInformation \<Rightarrow> TransactionChangeInformation" where
  "AddTableChanges t d c0 =
     (let inserted_data = list_ex (\<lambda>f. begin_snapshot f = None) (new_data_files d);
          flushed_inline_data = list_ex (\<lambda>f. begin_snapshot f \<noteq> None) (new_data_files d);
          add = (\<lambda>b S. if b then finsert t S else S)
      in c0\<lparr>tc_tables_inserted_into := add inserted_data (tc_tables_inserted_into c0),
            tc_tables_flushed_inlined := add flushed_inline_data (tc_tables_flushed_inlined c0),
            tc_tables_inserted_inlined := add (new_inlined_data d \<noteq> None) (tc_tables_inserted_inlined c0),
            tc_tables_deleted_from := add (new_delete_files d \<noteq> []) (tc_tables_deleted_from c0),
            tc_tables_deleted_inlined :=
              add (new_inlined_data_deletes d \<noteq> [] \<or> new_inlined_file_deletes d \<noteq> None)
                (tc_tables_deleted_inlined c0),
            tc_tables_merge_adjacent :=
              add (list_ex (\<lambda>e. compaction_type e = MERGE_ADJACENT_TABLES) (compactions d))
                (tc_tables_merge_adjacent c0),
            tc_tables_rewrite_delete :=
              add (list_ex (\<lambda>e. compaction_type e = REWRITE_DELETES) (compactions d))
                (tc_tables_rewrite_delete c0)\<rparr>)"

text \<open>The entries of a map of catalog sets: the newest version of each chain.\<close>

definition set_entries :: "(SchemaIndex, DuckLakeCatalogSet) omap \<Rightarrow> entry_chain list" where
  "set_entries m = concat (map (\<lambda>(s, es). map snd es) m)"

definition created_by_schema ::
  "duckdb_string \<Rightarrow> (SchemaIndex, DuckLakeCatalogSet) omap \<Rightarrow> catalog_entry list ci_map" where
  "created_by_schema D m =
     fold (\<lambda>versions acc. case versions of
             [] \<Rightarrow> acc
           | e # _ \<Rightarrow> ci_update D (PathKey D (ce_ParentSchema e)) [] (\<lambda>es. es @ [catalog_entry.truncate e]) acc)
       (set_entries m) []"

definition add_new_entry ::
  "duckdb_string \<Rightarrow> entry_chain \<Rightarrow> TransactionChangeInformation \<Rightarrow> TransactionChangeInformation res" where
  "add_new_entry D versions c =
     (case versions of
        [] \<Rightarrow> Inr c
      | e # _ \<Rightarrow>
          (case ce_type e of
             TABLE_ENTRY \<Rightarrow> Inr (GetTransactionTableChanges D versions c)
           | VIEW_ENTRY \<Rightarrow> GetTransactionViewChanges D versions c
           | _ \<Rightarrow> Inl (InternalException ''Unsupported type found in new_tables'')))"

definition add_local_changes ::
  "LocalTableChanges \<Rightarrow> TransactionChangeInformation \<Rightarrow> TransactionChangeInformation" where
  "add_local_changes changes c =
     fold (\<lambda>(t, d) c. if IsTransactionLocal t then c else AddTableChanges t d c) changes c"

text \<open>The part of the summary that does not need the version chains.\<close>

definition catalog_changes :: "duckdb_string \<Rightarrow> DuckLakeTransactionState \<Rightarrow> TransactionChangeInformation" where
  "catalog_changes D s =
     TransactionChangeInformation_empty
       \<lparr>tc_dropped_tables := st_dropped_tables s,
        tc_dropped_views := st_dropped_views s,
        tc_dropped_scalar_macros := st_dropped_scalar_macros s,
        tc_dropped_table_macros := st_dropped_table_macros s,
        tc_dropped_procedures := st_dropped_procedures s,
        tc_dropped_schemas := st_dropped_schemas s,
        tc_created_schemas :=
          (case st_new_schemas s of
             None \<Rightarrow> []
           | Some es \<Rightarrow> fold (\<lambda>(k, e) m. ci_map_insert D (PathKey D e) e m) es []),
        tc_created_scalar_macros := created_by_schema D (st_new_scalar_macros s),
        tc_created_table_macros := created_by_schema D (st_new_table_macros s),
        tc_created_procedures := created_by_schema D (st_new_procedures s)\<rparr>"

definition GetTransactionChanges ::
  "duckdb_string \<Rightarrow> DuckLakeTransactionState \<Rightarrow> TransactionChangeInformation res" where
  "GetTransactionChanges D s =
     bind_res (fold_res (add_new_entry D) (set_entries (st_new_tables s)) (catalog_changes D s)) (\<lambda>c.
       Inr (add_local_changes (st_local_changes s)
         (c\<lparr>tc_tables_deleted_from := st_tables_deleted_from s,
            tc_tables_delete_attempted := st_tables_delete_attempted s\<rparr>)))"

section \<open>What a summary contains\<close>

definition schema_alter_types :: "LocalChangeType list" where
  "schema_alter_types =
     [LC_SET_PARTITION_KEY, LC_DROP_NULL, LC_RENAME_COLUMN, LC_ADD_COLUMN, LC_REMOVE_COLUMN,
      LC_CHANGE_COLUMN_TYPE, LC_SET_DEFAULT, LC_SET_NULL]"

definition alter_types :: "LocalChangeType list" where
  "alter_types = schema_alter_types @ [LC_ADD_CONSTRAINT, LC_SET_COMMENT, LC_SET_COLUMN_COMMENT, LC_SET_SORT_KEY]"

text \<open>\<open>versions_with S s t\<close>: a version of the already committed table \<open>t\<close> was produced by a change in \<open>S\<close>.\<close>

definition chain_has :: "LocalChangeType list \<Rightarrow> TableIndex \<Rightarrow> entry_chain \<Rightarrow> bool" where
  "chain_has S t versions \<longleftrightarrow> list_ex (\<lambda>e. le_id e = t \<and> lc_type (le_local_change e) \<in> set S) versions"

definition is_table_chain :: "entry_chain \<Rightarrow> bool" where
  "is_table_chain versions \<longleftrightarrow> versions \<noteq> [] \<and> ce_type (hd versions) = TABLE_ENTRY"

definition versions_with :: "LocalChangeType list \<Rightarrow> DuckLakeTransactionState \<Rightarrow> TableIndex \<Rightarrow> bool" where
  "versions_with S s t \<longleftrightarrow> \<not> IsTransactionLocal t \<and>
     list_ex (\<lambda>versions. is_table_chain versions \<and> chain_has S t versions) (set_entries (st_new_tables s))"

definition local_change_with :: "(LocalTableDataChanges \<Rightarrow> bool) \<Rightarrow> LocalTableChanges \<Rightarrow> TableIndex \<Rightarrow> bool" where
  "local_change_with P changes t \<longleftrightarrow> \<not> IsTransactionLocal t \<and> list_ex (\<lambda>(t', d). t' = t \<and> P d) changes"

definition writes_files :: "LocalTableDataChanges \<Rightarrow> bool" where
  "writes_files d \<longleftrightarrow> list_ex (\<lambda>f. begin_snapshot f = None) (new_data_files d)"

definition flushes_files :: "LocalTableDataChanges \<Rightarrow> bool" where
  "flushes_files d \<longleftrightarrow> list_ex (\<lambda>f. begin_snapshot f \<noteq> None) (new_data_files d)"

definition deletes_inlined :: "LocalTableDataChanges \<Rightarrow> bool" where
  "deletes_inlined d \<longleftrightarrow> new_inlined_data_deletes d \<noteq> [] \<or> new_inlined_file_deletes d \<noteq> None"

definition compacts :: "CompactionType \<Rightarrow> LocalTableDataChanges \<Rightarrow> bool" where
  "compacts k d \<longleftrightarrow> list_ex (\<lambda>e. compaction_type e = k) (compactions d)"

lemma local_change_with_Cons [simp]:
  "local_change_with P ((t', d) # changes) t \<longleftrightarrow>
     (\<not> IsTransactionLocal t \<and> t' = t \<and> P d) \<or> local_change_with P changes t"
  by (auto simp: local_change_with_def)

lemma local_change_with_Nil [simp]: "\<not> local_change_with P [] t"
  by (simp add: local_change_with_def)

lemma add_local_changes_Nil [simp]: "add_local_changes [] c = c"
  by (simp add: add_local_changes_def)

lemma add_local_changes_Cons [simp]:
  "add_local_changes ((t, d) # changes) c =
     add_local_changes changes (if IsTransactionLocal t then c else AddTableChanges t d c)"
  by (simp add: add_local_changes_def)

lemma AddTableChanges_sets:
  "tc_tables_inserted_into (AddTableChanges t d c) = (if writes_files d then finsert t else id) (tc_tables_inserted_into c)"
  "tc_tables_flushed_inlined (AddTableChanges t d c) = (if flushes_files d then finsert t else id) (tc_tables_flushed_inlined c)"
  "tc_tables_inserted_inlined (AddTableChanges t d c) =
     (if new_inlined_data d \<noteq> None then finsert t else id) (tc_tables_inserted_inlined c)"
  "tc_tables_deleted_from (AddTableChanges t d c) = (if new_delete_files d \<noteq> [] then finsert t else id) (tc_tables_deleted_from c)"
  "tc_tables_deleted_inlined (AddTableChanges t d c) = (if deletes_inlined d then finsert t else id) (tc_tables_deleted_inlined c)"
  "tc_tables_merge_adjacent (AddTableChanges t d c) =
     (if compacts MERGE_ADJACENT_TABLES d then finsert t else id) (tc_tables_merge_adjacent c)"
  "tc_tables_rewrite_delete (AddTableChanges t d c) =
     (if compacts REWRITE_DELETES d then finsert t else id) (tc_tables_rewrite_delete c)"
  by (simp_all add: AddTableChanges_def Let_def writes_files_def flushes_files_def deletes_inlined_def compacts_def)

text \<open>Each set of data changes collects the tables with such a local change.\<close>

lemma add_local_changes_set:
  assumes "\<And>t d c. sel (AddTableChanges t d c) = (if P d then finsert t else id) (sel c)"
  shows "t |\<in>| sel (add_local_changes changes c) \<longleftrightarrow> t |\<in>| sel c \<or> local_change_with P changes t"
  by (induction changes arbitrary: c) (auto simp: assms split: if_splits)

lemma add_local_changes_sets:
  "t |\<in>| tc_tables_inserted_into (add_local_changes changes c) \<longleftrightarrow>
     t |\<in>| tc_tables_inserted_into c \<or> local_change_with writes_files changes t"
  "t |\<in>| tc_tables_flushed_inlined (add_local_changes changes c) \<longleftrightarrow>
     t |\<in>| tc_tables_flushed_inlined c \<or> local_change_with flushes_files changes t"
  "t |\<in>| tc_tables_inserted_inlined (add_local_changes changes c) \<longleftrightarrow>
     t |\<in>| tc_tables_inserted_inlined c \<or> local_change_with (\<lambda>d. new_inlined_data d \<noteq> None) changes t"
  "t |\<in>| tc_tables_deleted_from (add_local_changes changes c) \<longleftrightarrow>
     t |\<in>| tc_tables_deleted_from c \<or> local_change_with (\<lambda>d. new_delete_files d \<noteq> []) changes t"
  "t |\<in>| tc_tables_deleted_inlined (add_local_changes changes c) \<longleftrightarrow>
     t |\<in>| tc_tables_deleted_inlined c \<or> local_change_with deletes_inlined changes t"
  "t |\<in>| tc_tables_merge_adjacent (add_local_changes changes c) \<longleftrightarrow>
     t |\<in>| tc_tables_merge_adjacent c \<or> local_change_with (compacts MERGE_ADJACENT_TABLES) changes t"
  "t |\<in>| tc_tables_rewrite_delete (add_local_changes changes c) \<longleftrightarrow>
     t |\<in>| tc_tables_rewrite_delete c \<or> local_change_with (compacts REWRITE_DELETES) changes t"
  by (rule add_local_changes_set, rule AddTableChanges_sets)+

lemma add_local_changes_keeps:
  "tc_altered_tables (add_local_changes changes c) = tc_altered_tables c"
  "tc_altered_tables_with_schema_version_changes (add_local_changes changes c) =
     tc_altered_tables_with_schema_version_changes c"
  "tc_tables_set_not_null (add_local_changes changes c) = tc_tables_set_not_null c"
  "tc_dropped_tables (add_local_changes changes c) = tc_dropped_tables c"
  "tc_tables_delete_attempted (add_local_changes changes c) = tc_tables_delete_attempted c"
  by (induction changes arbitrary: c) (simp_all add: AddTableChanges_def Let_def split_paired_all split: if_split)

text \<open>The sets of altered tables, version by version.\<close>

definition added :: "LocalChangeType list \<Rightarrow> entry_chain \<Rightarrow> TableIndex \<Rightarrow> bool" where
  "added S versions t \<longleftrightarrow> \<not> IsTransactionLocal t \<and> chain_has S t versions"

lemma added_Nil [simp]: "\<not> added S [] t"
  by (simp add: added_def chain_has_def)

lemma added_Cons:
  "added S (e # versions) t \<longleftrightarrow>
     (\<not> IsTransactionLocal t \<and> le_id e = t \<and> lc_type (le_local_change e) \<in> set S) \<or> added S versions t"
  by (auto simp: added_def chain_has_def)

lemma table_version_changes_sets:
  "t |\<in>| tc_altered_tables (table_version_changes D e c) \<longleftrightarrow> t |\<in>| tc_altered_tables c \<or> added alter_types [e] t"
  "t |\<in>| tc_altered_tables_with_schema_version_changes (table_version_changes D e c) \<longleftrightarrow>
     t |\<in>| tc_altered_tables_with_schema_version_changes c \<or> added schema_alter_types [e] t"
  "t |\<in>| tc_tables_set_not_null (table_version_changes D e c) \<longleftrightarrow>
     t |\<in>| tc_tables_set_not_null c \<or> added [LC_SET_NULL] [e] t"
  "tc_dropped_tables (table_version_changes D e c) = tc_dropped_tables c"
  unfolding table_version_changes_def Let_def report_altered_def report_created_def added_Cons alter_types_def
    schema_alter_types_def
  by (cases "lc_type (le_local_change e)"; force)+

lemma GetTransactionTableChanges_sets:
  "t |\<in>| tc_altered_tables (GetTransactionTableChanges D versions c) \<longleftrightarrow>
     t |\<in>| tc_altered_tables c \<or> added alter_types versions t"
  "t |\<in>| tc_altered_tables_with_schema_version_changes (GetTransactionTableChanges D versions c) \<longleftrightarrow>
     t |\<in>| tc_altered_tables_with_schema_version_changes c \<or> added schema_alter_types versions t"
  "t |\<in>| tc_tables_set_not_null (GetTransactionTableChanges D versions c) \<longleftrightarrow>
     t |\<in>| tc_tables_set_not_null c \<or> added [LC_SET_NULL] versions t"
  "tc_dropped_tables (GetTransactionTableChanges D versions c) = tc_dropped_tables c"
  by (induction versions arbitrary: c)
    (auto simp: GetTransactionTableChanges_def table_version_changes_sets added_Cons)

definition data_sets :: "TransactionChangeInformation \<Rightarrow> TableIndex fset list" where
  "data_sets c =
     [tc_tables_inserted_into c, tc_tables_flushed_inlined c, tc_tables_inserted_inlined c,
      tc_tables_deleted_inlined c, tc_tables_merge_adjacent c, tc_tables_rewrite_delete c]"

definition table_sets :: "TransactionChangeInformation \<Rightarrow> TableIndex fset list" where
  "table_sets c = tc_altered_tables c # tc_altered_tables_with_schema_version_changes c #
     tc_tables_set_not_null c # tc_dropped_tables c # data_sets c"

lemma view_version_changes_keeps:
  "view_version_changes D e c = Inr c' \<Longrightarrow> table_sets c' = table_sets c"
  by (cases "lc_type (le_local_change e)")
    (auto simp: view_version_changes_def Let_def report_created_def table_sets_def data_sets_def split: if_splits)

lemma GetTransactionViewChanges_keeps:
  "GetTransactionViewChanges D versions c = Inr c' \<Longrightarrow> table_sets c' = table_sets c"
  unfolding GetTransactionViewChanges_def
  by (induction versions arbitrary: c) (auto simp: bind_res_Inr_iff dest: view_version_changes_keeps)

lemma table_version_changes_data:
  "data_sets (table_version_changes D e c) = data_sets c"
  by (cases "lc_type (le_local_change e)")
    (simp_all add: table_version_changes_def report_altered_def report_created_def data_sets_def Let_def)

lemma GetTransactionTableChanges_data: "data_sets (GetTransactionTableChanges D versions c) = data_sets c"
  by (induction versions arbitrary: c) (simp_all add: GetTransactionTableChanges_def table_version_changes_data)

lemma add_new_entry_sets:
  assumes "add_new_entry D versions c = Inr c'"
  shows "t |\<in>| tc_altered_tables c' \<longleftrightarrow>
           t |\<in>| tc_altered_tables c \<or> is_table_chain versions \<and> added alter_types versions t"
    and "t |\<in>| tc_altered_tables_with_schema_version_changes c' \<longleftrightarrow>
           t |\<in>| tc_altered_tables_with_schema_version_changes c \<or> is_table_chain versions \<and> added schema_alter_types versions t"
    and "t |\<in>| tc_tables_set_not_null c' \<longleftrightarrow>
           t |\<in>| tc_tables_set_not_null c \<or> is_table_chain versions \<and> added [LC_SET_NULL] versions t"
    and "tc_dropped_tables c' = tc_dropped_tables c" and "data_sets c' = data_sets c"
  using assms GetTransactionViewChanges_keeps [of D versions c c']
  by (cases versions; cases "ce_type (hd versions)";
      auto simp: add_new_entry_def is_table_chain_def GetTransactionTableChanges_sets GetTransactionTableChanges_data
        table_sets_def)+

lemma add_new_entries_sets:
  assumes "fold_res (add_new_entry D) entries c = Inr c'"
  shows "t |\<in>| tc_altered_tables c' \<longleftrightarrow>
           t |\<in>| tc_altered_tables c \<or> list_ex (\<lambda>v. is_table_chain v \<and> added alter_types v t) entries"
    and "t |\<in>| tc_altered_tables_with_schema_version_changes c' \<longleftrightarrow>
           t |\<in>| tc_altered_tables_with_schema_version_changes c \<or>
           list_ex (\<lambda>v. is_table_chain v \<and> added schema_alter_types v t) entries"
    and "t |\<in>| tc_tables_set_not_null c' \<longleftrightarrow>
           t |\<in>| tc_tables_set_not_null c \<or> list_ex (\<lambda>v. is_table_chain v \<and> added [LC_SET_NULL] v t) entries"
    and "tc_dropped_tables c' = tc_dropped_tables c" and "data_sets c' = data_sets c"
proof -
  note collect = fold_res_collects [OF assms]
  show "t |\<in>| tc_altered_tables c' \<longleftrightarrow>
          t |\<in>| tc_altered_tables c \<or> list_ex (\<lambda>v. is_table_chain v \<and> added alter_types v t) entries"
    by (rule collect) (rule add_new_entry_sets)
  show "t |\<in>| tc_altered_tables_with_schema_version_changes c' \<longleftrightarrow>
          t |\<in>| tc_altered_tables_with_schema_version_changes c \<or>
          list_ex (\<lambda>v. is_table_chain v \<and> added schema_alter_types v t) entries"
    by (rule collect) (rule add_new_entry_sets)
  show "t |\<in>| tc_tables_set_not_null c' \<longleftrightarrow>
          t |\<in>| tc_tables_set_not_null c \<or> list_ex (\<lambda>v. is_table_chain v \<and> added [LC_SET_NULL] v t) entries"
    by (rule collect) (rule add_new_entry_sets)
qed (rule fold_res_keeps [OF assms], erule add_new_entry_sets)+

lemma versions_with_added:
  "versions_with S s t \<longleftrightarrow> list_ex (\<lambda>v. is_table_chain v \<and> added S v t) (set_entries (st_new_tables s))"
  by (auto simp: versions_with_def added_def list_ex_iff)

text \<open>A transaction for the witness: file inserts into table 5, NOT NULL on table 6, a local table.\<close>

definition sample_root_schema :: schema_entry where
  "sample_root_schema = DuckLakeSchemaEntry (SchemaIndex 0) ''main'' [] [] None"

definition sample_set_null :: local_entry where
  "sample_set_null =
     \<lparr>ce_type = TABLE_ENTRY, ce_name = ''t'', ce_ParentSchema = sample_root_schema, le_id = 6,
      le_local_change = \<lparr>lc_type = LC_SET_NULL, lc_field_index = FieldIndex 1, lc_view_column_comment_name = []\<rparr>\<rparr>"

definition sample_state :: DuckLakeTransactionState where
  "sample_state = DuckLakeTransactionState_empty
     \<lparr>st_new_tables := [(SchemaIndex 0, [(''t'', [sample_set_null])])],
      st_local_changes := [(5, LocalTableDataChanges_default\<lparr>new_data_files := [sample_file ''f'' True]\<rparr>)]\<rparr>"

lemma transaction_summary_sets:
  assumes "GetTransactionChanges D s = Inr c"
  shows "t |\<in>| tc_tables_inserted_into c \<longleftrightarrow> local_change_with writes_files (st_local_changes s) t"
    and "t |\<in>| tc_tables_flushed_inlined c \<longleftrightarrow> local_change_with flushes_files (st_local_changes s) t"
    and "t |\<in>| tc_tables_inserted_inlined c \<longleftrightarrow> local_change_with (\<lambda>d. new_inlined_data d \<noteq> None) (st_local_changes s) t"
    and "t |\<in>| tc_tables_deleted_from c \<longleftrightarrow>
           t |\<in>| st_tables_deleted_from s \<or> local_change_with (\<lambda>d. new_delete_files d \<noteq> []) (st_local_changes s) t"
    and "t |\<in>| tc_tables_deleted_inlined c \<longleftrightarrow> local_change_with deletes_inlined (st_local_changes s) t"
    and "t |\<in>| tc_tables_merge_adjacent c \<longleftrightarrow> local_change_with (compacts MERGE_ADJACENT_TABLES) (st_local_changes s) t"
    and "t |\<in>| tc_tables_rewrite_delete c \<longleftrightarrow> local_change_with (compacts REWRITE_DELETES) (st_local_changes s) t"
    and "t |\<in>| tc_altered_tables c \<longleftrightarrow> versions_with alter_types s t"
    and "t |\<in>| tc_altered_tables_with_schema_version_changes c \<longleftrightarrow> versions_with schema_alter_types s t"
    and "t |\<in>| tc_tables_set_not_null c \<longleftrightarrow> versions_with [LC_SET_NULL] s t"
    and "tc_dropped_tables c = st_dropped_tables s"
proof -
  obtain c1 c2 where c2: "fold_res (add_new_entry D) (set_entries (st_new_tables s)) c1 = Inr c2"
    and empty: "tc_altered_tables c1 = {||}" "tc_altered_tables_with_schema_version_changes c1 = {||}"
      "tc_tables_set_not_null c1 = {||}" "tc_dropped_tables c1 = st_dropped_tables s"
      "data_sets c1 = data_sets TransactionChangeInformation_empty"
    and c: "c = add_local_changes (st_local_changes s)
      (c2\<lparr>tc_tables_deleted_from := st_tables_deleted_from s, tc_tables_delete_attempted := st_tables_delete_attempted s\<rparr>)"
    using assms
    by (auto simp: GetTransactionChanges_def catalog_changes_def bind_res_Inr_iff TransactionChangeInformation_empty_def
        data_sets_def)
  have data: "data_sets c2 = data_sets TransactionChangeInformation_empty"
    using add_new_entries_sets(5) [OF c2] empty(5) by simp
  note facts = add_local_changes_sets add_local_changes_keeps add_new_entries_sets(1-4) [OF c2] versions_with_added empty
  show "t |\<in>| tc_tables_inserted_into c \<longleftrightarrow> local_change_with writes_files (st_local_changes s) t"
    "t |\<in>| tc_tables_flushed_inlined c \<longleftrightarrow> local_change_with flushes_files (st_local_changes s) t"
    "t |\<in>| tc_tables_inserted_inlined c \<longleftrightarrow> local_change_with (\<lambda>d. new_inlined_data d \<noteq> None) (st_local_changes s) t"
    "t |\<in>| tc_tables_deleted_inlined c \<longleftrightarrow> local_change_with deletes_inlined (st_local_changes s) t"
    "t |\<in>| tc_tables_merge_adjacent c \<longleftrightarrow> local_change_with (compacts MERGE_ADJACENT_TABLES) (st_local_changes s) t"
    "t |\<in>| tc_tables_rewrite_delete c \<longleftrightarrow> local_change_with (compacts REWRITE_DELETES) (st_local_changes s) t"
    using data by (simp_all add: c facts data_sets_def TransactionChangeInformation_empty_def)
  show "t |\<in>| tc_tables_deleted_from c \<longleftrightarrow>
        t |\<in>| st_tables_deleted_from s \<or> local_change_with (\<lambda>d. new_delete_files d \<noteq> []) (st_local_changes s) t"
    "t |\<in>| tc_altered_tables c \<longleftrightarrow> versions_with alter_types s t"
    "t |\<in>| tc_altered_tables_with_schema_version_changes c \<longleftrightarrow> versions_with schema_alter_types s t"
    "t |\<in>| tc_tables_set_not_null c \<longleftrightarrow> versions_with [LC_SET_NULL] s t"
    "tc_dropped_tables c = st_dropped_tables s"
    by (simp_all add: c facts)
qed

section \<open>Properties\<close>



end
