(* ===== verification/DL_Conflicts.thy ===== *)
theory DL_Conflicts
  imports DL_TransactionState
begin

text \<open>
  Conflict detection of \<^verbatim>\<open>src/src/storage/ducklake_transaction_state.cpp\<close>: before a retry the changes
  of this transaction are checked against the changes other transactions committed since its
  snapshot. Each check throws a \<^verbatim>\<open>TransactionException\<close>; the checks run in the order of the source.

  The declarative side is \<open>conflicts\<close>: a table of pairs (what this transaction did, what another
  one did) that exclude each other. The equivalence theorem says that the code accepts exactly the
  transactions without such a pair.
\<close>

section \<open>The checks\<close>

definition conflict_error :: "string \<Rightarrow> idx \<Rightarrow> string \<Rightarrow> error" where
  "conflict_error action i conflict_action =
     TransactionException (''Transaction conflict - attempting to '' @ action @ '' with index '' @ [dquote] @
       to_string i @ [dquote] @ '' - but another transaction has '' @ conflict_action)"

text \<open>The template \<^verbatim>\<open>ConflictCheck(index, map, action, conflict_action)\<close>; \<open>ix\<close> reads the index.\<close>

definition ConflictCheck :: "('i \<Rightarrow> idx) \<Rightarrow> 'i \<Rightarrow> 'i fset \<Rightarrow> string \<Rightarrow> string \<Rightarrow> unit res" where
  "ConflictCheck ix i conflict_map action conflict_action =
     (if i |\<in>| conflict_map then Inl (conflict_error action (ix i) conflict_action) else Inr ())"

definition SchemaKeyConflictCheck ::
  "duckdb_string \<Rightarrow> string \<Rightarrow> ci_set \<Rightarrow> string \<Rightarrow> string \<Rightarrow> unit res" where
  "SchemaKeyConflictCheck D schema_key conflict_set action conflict_action =
     (if \<not> ci_member D conflict_set schema_key then Inr ()
      else Inl (TransactionException (''Transaction conflict - attempting to '' @ action @ '' with name '' @
             schema_key @ '' - but another transaction has '' @ conflict_action)))"

text \<open>
  \<^verbatim>\<open>FindDroppedAncestor\<close>: \<open>before\<close> is the text in front of the current position, \<open>rest\<close> the text from
  it on. Each round parses one quoted name.
\<close>

function FindDroppedAncestor_loop :: "duckdb_string \<Rightarrow> ci_set \<Rightarrow> string \<Rightarrow> string \<Rightarrow> string option res" where
  "FindDroppedAncestor_loop D dropped_keys before rest =
     (if rest = [] then Inr None
      else bind_res (ParseQuotedValue rest) (\<lambda>(_, rest').
        let before' = before @ take (length rest - length rest') rest
        in case ci_find D dropped_keys before' of
             Some k \<Rightarrow> Inr (Some k)
           | None \<Rightarrow>
               (case rest' of
                  [] \<Rightarrow> Inr None
                | c # cs \<Rightarrow> FindDroppedAncestor_loop D dropped_keys (before' @ [c]) cs)))"
  by pat_completeness auto
termination
  by (relation "measure (\<lambda>(D, keys, before, rest). length rest)") (auto dest: ParseQuotedValue_shorter)

declare FindDroppedAncestor_loop.simps [simp del]

definition FindDroppedAncestor :: "duckdb_string \<Rightarrow> ci_set \<Rightarrow> string \<Rightarrow> string option res" where
  "FindDroppedAncestor D dropped_keys schema_key = FindDroppedAncestor_loop D dropped_keys [] schema_key"

definition SchemaSubtreeConflictCheck :: "duckdb_string \<Rightarrow> ci_set \<Rightarrow> string \<Rightarrow> string \<Rightarrow> unit res" where
  "SchemaSubtreeConflictCheck D dropped_keys schema_key conflict_action =
     bind_res (FindDroppedAncestor D dropped_keys schema_key) (\<lambda>r.
       case r of
         None \<Rightarrow> Inr ()
       | Some k \<Rightarrow> Inl (TransactionException (''Transaction conflict - attempting to drop schema with name '' @
                      k @ '' - but another transaction has '' @ conflict_action)))"

definition SchemaSubtreeConflictCheck_map :: "duckdb_string \<Rightarrow> ci_set \<Rightarrow> 'v ci_map \<Rightarrow> string \<Rightarrow> unit res" where
  "SchemaSubtreeConflictCheck_map D dropped_keys conflict_map conflict_action =
     for_each conflict_map (\<lambda>e. SchemaSubtreeConflictCheck D dropped_keys (fst e) conflict_action)"

fun GetCatalogType :: "CatalogType \<Rightarrow> string res" where
  "GetCatalogType TABLE_ENTRY = Inr ''table''"
| "GetCatalogType VIEW_ENTRY = Inr ''view''"
| "GetCatalogType MACRO_ENTRY = Inr ''scalar''"
| "GetCatalogType TABLE_MACRO_ENTRY = Inr ''table''"
| "GetCatalogType PROCEDURE_ENTRY = Inr ''procedure''"
| "GetCatalogType SCHEMA_ENTRY = Inl (InternalException ''Can not handle catalog type in GetCatalogType()'')"

text \<open>One created entry against the schemas dropped and the entries created elsewhere.\<close>

definition check_created_entry ::
  "duckdb_string \<Rightarrow> string \<Rightarrow> string \<Rightarrow> catalog_entry \<Rightarrow> SchemaIndex fset \<Rightarrow> string ci_map ci_map \<Rightarrow> unit res" where
  "check_created_entry D entry_type schema_key e dropped_schemas other_created =
     bind_res (ConflictCheck schema_index (schema_id (ce_ParentSchema e)) dropped_schemas
         (''create '' @ entry_type @ '' '' @ [dquote] @ ce_name e @ [dquote] @ '' in schema '' @ schema_key)
         ''dropped this schema'') (\<lambda>_.
       case ci_lookup D other_created schema_key of
         None \<Rightarrow> Inr ()
       | Some other_tables \<Rightarrow>
           (case ci_lookup D other_tables (ce_name e) of
              None \<Rightarrow> Inr ()
            | Some kind \<Rightarrow> Inl (TransactionException (''Transaction conflict - attempting to create '' @ entry_type @
                '' '' @ [dquote] @ ce_name e @ [dquote] @ '' in schema '' @ schema_key @ '' - but this '' @ kind @
                '' has been created by another transaction already''))))"

definition ConflictCheck_created ::
  "duckdb_string \<Rightarrow> catalog_entry list ci_map \<Rightarrow> SchemaIndex fset \<Rightarrow> string ci_map ci_map \<Rightarrow> unit res" where
  "ConflictCheck_created D created_changes dropped_schemas other_created =
     for_each created_changes (\<lambda>(schema_key, created).
       for_each created (\<lambda>e.
         bind_res (GetCatalogType (ce_type e)) (\<lambda>entry_type.
           check_created_entry D entry_type schema_key e dropped_schemas other_created)))"

section \<open>Checking a transaction\<close>

datatype metadata_query = FilesDeletedOrDroppedAfterSnapshot

text \<open>\<open>executor\<close> runs a metadata query and returns the first column of its rows, or the error.\<close>

definition GetFilesDeletedOrDroppedAfterSnapshot :: "(metadata_query \<Rightarrow> idx list res) \<Rightarrow> DataFileIndex fset res" where
  "GetFilesDeletedOrDroppedAfterSnapshot executor =
     bind_res (executor FilesDeletedOrDroppedAfterSnapshot) (\<lambda>ids.
       Inr (fset_of_list (map DataFileIndex ids)))"

text \<open>The loops over one set of table identifiers, each with its list of checks.\<close>

definition check_tables ::
  "TableIndex fset \<Rightarrow> (TableIndex fset \<times> string) list \<Rightarrow> string \<Rightarrow> unit res" where
  "check_tables tables checks action =
     for_each (sorted_list_of_fset tables) (\<lambda>t.
       for_each checks (\<lambda>(conflict_map, conflict_action). ConflictCheck id t conflict_map action conflict_action))"

definition check_drops :: "('i::linorder \<Rightarrow> idx) \<Rightarrow> 'i fset \<Rightarrow> 'i fset \<Rightarrow> string \<Rightarrow> unit res" where
  "check_drops ix dropped other action =
     for_each (sorted_list_of_fset dropped) (\<lambda>i. ConflictCheck ix i other action ''dropped it already'')"

definition check_dropped_schemas ::
  "duckdb_string \<Rightarrow> TransactionChangeInformation \<Rightarrow> SnapshotChangeInformation \<Rightarrow> unit res" where
  "check_dropped_schemas D c other =
     bind_res (for_each (tc_dropped_schemas c) (\<lambda>(i, _).
       ConflictCheck schema_index i (sc_dropped_schemas other) ''drop schema'' ''dropped it already'')) (\<lambda>_.
     let dropped_keys = fold (\<lambda>(_, e) keys. ci_insert D (PathKey D e) keys) (tc_dropped_schemas c) []
     in if dropped_keys = [] then Inr ()
        else bind_res (for_each (sc_created_schemas other) (\<lambda>k.
               SchemaSubtreeConflictCheck D dropped_keys k ''created a schema inside this schema'')) (\<lambda>_.
             bind_res (SchemaSubtreeConflictCheck_map D dropped_keys (sc_created_tables other)
               ''created an entry in this schema'') (\<lambda>_.
             bind_res (SchemaSubtreeConflictCheck_map D dropped_keys (sc_created_scalar_macros other)
               ''created an entry in this schema'') (\<lambda>_.
             bind_res (SchemaSubtreeConflictCheck_map D dropped_keys (sc_created_table_macros other)
               ''created an entry in this schema'') (\<lambda>_.
             SchemaSubtreeConflictCheck_map D dropped_keys (sc_created_procedures other)
               ''created an entry in this schema'')))))"

text \<open>The walk over the parents of a created schema.\<close>

fun ancestors :: "schema_entry \<Rightarrow> schema_entry list" where
  "ancestors (DuckLakeSchemaEntry i n u dp parent) =
     (case parent of None \<Rightarrow> [] | Some p \<Rightarrow> p # ancestors p)"

definition check_created_schemas ::
  "duckdb_string \<Rightarrow> TransactionChangeInformation \<Rightarrow> SnapshotChangeInformation \<Rightarrow> unit res" where
  "check_created_schemas D c other =
     for_each (tc_created_schemas c) (\<lambda>(key, e).
       bind_res (SchemaKeyConflictCheck D key (sc_created_schemas other) ''create schema''
           ''created a schema with this name already'') (\<lambda>_.
         for_each (ancestors e) (\<lambda>p.
           if schema_id p |\<notin>| sc_dropped_schemas other then Inr ()
           else Inl (TransactionException (''Transaction conflict - attempting to create schema with name '' @ key @
                  '' - but another transaction has dropped one of its parent schemas '' @ PathKey D p)))))"

text \<open>The second loop over the created tables, whose entry type is table or view.\<close>

definition check_created_tables ::
  "duckdb_string \<Rightarrow> TransactionChangeInformation \<Rightarrow> SnapshotChangeInformation \<Rightarrow> unit res" where
  "check_created_tables D c other =
     for_each (tc_created_tables c) (\<lambda>(schema_key, created).
       for_each created (\<lambda>e.
         check_created_entry D (if ce_type e = TABLE_ENTRY then ''table'' else ''view'') schema_key e
           (sc_dropped_schemas other) (sc_created_tables other)))"

definition check_deleted_files ::
  "(metadata_query \<Rightarrow> idx list res) \<Rightarrow> DuckLakeTransactionState \<Rightarrow> TransactionChangeInformation \<Rightarrow>
   SnapshotChangeInformation \<Rightarrow> unit res" where
  "check_deleted_files executor s c other =
     (if tc_tables_deleted_from c |\<inter>| sc_tables_deleted_from other = {||} then Inr ()
      else bind_res (GetFilesDeletedOrDroppedAfterSnapshot executor) (\<lambda>deleted.
           bind_res (for_each (Changes (st_local_changes s)) (\<lambda>(_, d).
             for_each (new_delete_files d) (\<lambda>(_, files).
               for_each files (\<lambda>f.
                 ConflictCheck data_file_index (df_data_file_id f) deleted ''delete from file'' ''deleted from it'')))) (\<lambda>_.
           for_each (st_dropped_files s) (\<lambda>(_, i).
             ConflictCheck data_file_index i deleted ''delete from file'' ''deleted from it''))))"

definition insert_checks :: "SnapshotChangeInformation \<Rightarrow> (TableIndex fset \<times> string) list" where
  "insert_checks other =
     [(sc_dropped_tables other, ''dropped it''), (sc_altered_tables other, ''altered it''),
      (sc_tables_deleted_from other, ''deleted from it''),
      (sc_tables_deleted_inlined other, ''deleted inlined data from it''),
      (sc_tables_set_not_null other, ''added a NOT NULL constraint to it'')]"

definition inserted_checks :: "SnapshotChangeInformation \<Rightarrow> (TableIndex fset \<times> string) list" where
  "inserted_checks other =
     [(sc_inserted_tables other, ''inserted into it''), (sc_tables_inserted_inlined other, ''inserted into it'')]"

definition delete_checks :: "SnapshotChangeInformation \<Rightarrow> (TableIndex fset \<times> string) list" where
  "delete_checks other =
     [(sc_dropped_tables other, ''dropped it''), (sc_altered_tables other, ''altered it''),
      (sc_tables_merge_adjacent other, ''compacted it''), (sc_tables_rewrite_delete other, ''compacted it''),
      (sc_inserted_tables other, ''inserted into it''), (sc_tables_inserted_inlined other, ''inserted into it'')]"

definition delete_inlined_checks :: "SnapshotChangeInformation \<Rightarrow> (TableIndex fset \<times> string) list" where
  "delete_inlined_checks other =
     [(sc_dropped_tables other, ''dropped it''), (sc_altered_tables other, ''altered it''),
      (sc_tables_deleted_inlined other, ''deleted from it''),
      (sc_tables_flushed_inlined other, ''flushed the inlined data''),
      (sc_inserted_tables other, ''inserted into it''), (sc_tables_inserted_inlined other, ''inserted into it'')]"

definition flush_checks :: "SnapshotChangeInformation \<Rightarrow> (TableIndex fset \<times> string) list" where
  "flush_checks other =
     [(sc_dropped_tables other, ''dropped it''), (sc_tables_deleted_inlined other, ''deleted from it''),
      (sc_tables_flushed_inlined other, ''flushed it'')]"

definition compact_checks :: "SnapshotChangeInformation \<Rightarrow> (TableIndex fset \<times> string) list" where
  "compact_checks other =
     [(sc_dropped_tables other, ''dropped it''), (sc_tables_deleted_from other, ''deleted from it''),
      (sc_tables_merge_adjacent other, ''compacted it''), (sc_tables_rewrite_delete other, ''compacted it'')]"

definition table_alter_checks :: "SnapshotChangeInformation \<Rightarrow> (TableIndex fset \<times> string) list" where
  "table_alter_checks other =
     [(sc_dropped_tables other, ''dropped it''), (sc_altered_tables other, ''altered it'')]"

definition view_alter_checks :: "SnapshotChangeInformation \<Rightarrow> (TableIndex fset \<times> string) list" where
  "view_alter_checks other =
     [(sc_dropped_views other, ''dropped it''), (sc_altered_views other, ''altered it'')]"

definition CheckForConflicts ::
  "duckdb_string \<Rightarrow> DuckLakeTransactionState \<Rightarrow> TransactionChangeInformation \<Rightarrow> SnapshotChangeInformation \<Rightarrow>
   (metadata_query \<Rightarrow> idx list res) \<Rightarrow> unit res" where
  "CheckForConflicts D s c other executor =
     for_each
       [check_drops id (tc_dropped_tables c) (sc_dropped_tables other) ''drop table'',
        check_drops id (tc_dropped_views c) (sc_dropped_views other) ''drop view'',
        check_drops macro_index (tc_dropped_scalar_macros c) (sc_dropped_scalar_macros other) ''drop macro'',
        check_drops macro_index (tc_dropped_table_macros c) (sc_dropped_table_macros other) ''drop macro'',
        check_drops procedure_index (tc_dropped_procedures c) (sc_dropped_procedures other) ''drop procedure'',
        check_dropped_schemas D c other,
        check_created_schemas D c other,
        ConflictCheck_created D (tc_created_table_macros c) (sc_dropped_schemas other) (sc_created_table_macros other),
        ConflictCheck_created D (tc_created_scalar_macros c) (sc_dropped_schemas other) (sc_created_scalar_macros other),
        ConflictCheck_created D (tc_created_procedures c) (sc_dropped_schemas other) (sc_created_procedures other),
        ConflictCheck_created D (tc_created_tables c) (sc_dropped_schemas other) (sc_created_tables other),
        check_created_tables D c other,
        check_tables (tc_tables_inserted_into c) (insert_checks other) ''insert into table'',
        check_tables (tc_tables_inserted_inlined c) (insert_checks other) ''insert into table'',
        check_tables (tc_tables_set_not_null c) (inserted_checks other) ''SET NOT NULL on table'',
        check_tables (tc_tables_deleted_from c) (delete_checks other) ''delete from table'',
        check_tables (tc_tables_delete_attempted c) (inserted_checks other) ''delete from table'',
        check_deleted_files executor s c other,
        check_tables (tc_tables_deleted_inlined c) (delete_inlined_checks other) ''delete from table'',
        check_tables (tc_tables_flushed_inlined c) (flush_checks other) ''flush inline data'',
        check_tables (tc_tables_merge_adjacent c) (compact_checks other) ''compact table'',
        check_tables (tc_tables_rewrite_delete c) (compact_checks other) ''compact table'',
        check_tables (tc_altered_tables c) (table_alter_checks other) ''alter table'',
        check_tables (tc_altered_views c) (view_alter_checks other) ''alter view'',
        check_tables (st_renamed_tables s) (table_alter_checks other) ''rename table'',
        check_tables (st_renamed_views s) (view_alter_checks other) ''rename view'']
       (\<lambda>check. check)"

section \<open>Dropped ancestors\<close>

text \<open>\<open>under D p q\<close>: the schema path \<open>q\<close> is \<open>p\<close> or lies below it, names compared without case.\<close>

definition under :: "duckdb_string \<Rightarrow> string list \<Rightarrow> string list \<Rightarrow> bool" where
  "under D p q \<longleftrightarrow> length p \<le> length q \<and> list_all2 (StringUtil_CIEquals D) p (take (length p) q)"

definition path_prefix :: "duckdb_string \<Rightarrow> string list \<Rightarrow> string" where
  "path_prefix D names = (if names = [] then [] else ToQuotedList D names CHR ''.'' @ ''.'')"

lemma ascii_lower_append [simp]: "ascii_lower (a @ b) = ascii_lower a @ ascii_lower b"
  by (simp add: ascii_lower_def)

lemma ascii_lower_dot [simp]: "ascii_lower ''.'' = ''.''"
  by (simp add: ascii_lower_def char_lower_def)

lemma escape_quotes_lower: "map char_lower (escape_quotes dquote s) = escape_quotes dquote (map char_lower s)"
proof (induction s)
  case (Cons c s)
  have "char_lower c = dquote \<longleftrightarrow> c = dquote"
  proof
    assume a: "char_lower c = dquote"
    show "c = dquote"
    proof (rule ccontr)
      assume "c \<noteq> dquote"
      with a have "65 \<le> (of_char c :: nat) \<and> (of_char c :: nat) \<le> 90 \<and> char_of ((of_char c :: nat) + 32) = dquote"
        by (auto simp: char_lower_def Let_def split: if_splits)
      then have "(of_char (char_of ((of_char c :: nat) + 32)) :: nat) = of_char dquote" and
        "65 \<le> (of_char c :: nat) \<and> (of_char c :: nat) \<le> 90" by simp_all
      then show False by simp
    qed
  qed (simp add: char_lower_def)
  with Cons show ?case by (auto simp: char_lower_def)
qed simp

context duckdb_strings
begin

lemma ToQuotedList_lower: "ascii_lower (ToQuotedList D p CHR ''.'') = ToQuotedList D (map ascii_lower p) CHR ''.''"
proof -
  have q: "ascii_lower (SQLQuotedIdentifier_ToString D s) = SQLQuotedIdentifier_ToString D (ascii_lower s)" for s
    by (simp add: QuotedIdentifier ascii_lower_def escape_quotes_lower char_lower_def)
  have "ascii_lower (join_strings (map (SQLQuotedIdentifier_ToString D) p) ''.'')
      = join_strings (map (SQLQuotedIdentifier_ToString D) (map ascii_lower p)) ''.''"
  proof (induction p)
    case (Cons x xs)
    then show ?case
      by (cases xs) (simp_all add: q del: append.simps)
  qed (simp add: ascii_lower_def)
  then show ?thesis by (simp add: ToQuotedList_def Join)
qed

lemma ToQuotedList_inject: "ToQuotedList D p CHR ''.'' = ToQuotedList D q CHR ''.'' \<longleftrightarrow> p = q"
proof
  assume eq: "ToQuotedList D p CHR ''.'' = ToQuotedList D q CHR ''.''"
  have "(Inr p :: string list res) = ParseQuotedList (ToQuotedList D p CHR ''.'') CHR ''.''"
    by (simp add: ParseQuotedList_ToQuotedList)
  also have "\<dots> = Inr q" by (simp only: eq) (simp add: ParseQuotedList_ToQuotedList)
  finally show "p = q" by simp
qed simp

lemma path_keys_equal:
  "StringUtil_CIEquals D (ToQuotedList D p CHR ''.'') (ToQuotedList D q CHR ''.'') \<longleftrightarrow>
   list_all2 (StringUtil_CIEquals D) p q"
proof -
  have "map ascii_lower p = map ascii_lower q \<longleftrightarrow> list_all2 (StringUtil_CIEquals D) p q"
    by (induction p q rule: list_induct2') (auto simp: CIEquals)
  then show ?thesis by (simp add: CIEquals ToQuotedList_lower ToQuotedList_inject)
qed

lemma path_prefix_snoc:
  "path_prefix D done @ SQLQuotedIdentifier_ToString D x = ToQuotedList D (done @ [x]) CHR ''.''"
  by (simp add: path_prefix_def ToQuotedList_snoc)

lemma ToQuotedList_Cons:
  "ToQuotedList D (x # xs) CHR ''.'' = SQLQuotedIdentifier_ToString D x @
     (if xs = [] then [] else CHR ''.'' # ToQuotedList D xs CHR ''.'')"
  by (cases xs) (simp_all add: ToQuotedList_def Join)

lemma FindDroppedAncestor_loop_spec:
  "todo \<noteq> [] \<Longrightarrow>
   \<exists>r. FindDroppedAncestor_loop D keys (path_prefix D done) (ToQuotedList D todo CHR ''.'') = Inr r \<and>
     (r \<noteq> None \<longleftrightarrow> (\<exists>k. 0 < k \<and> k \<le> length todo \<and>
        ci_member D keys (ToQuotedList D (done @ take k todo) CHR ''.'')))"
proof (induction todo arbitrary: "done")
  case (Cons x xs)
  let ?q = "SQLQuotedIdentifier_ToString D x"
  let ?rest = "if xs = [] then [] else CHR ''.'' # ToQuotedList D xs CHR ''.''"
  have str: "ToQuotedList D (x # xs) CHR ''.'' = ?q @ ?rest" by (rule ToQuotedList_Cons)
  have parse: "ParseQuotedValue (?q @ ?rest) = Inr (x, ?rest)"
    by (rule ParseQuotedValue_quoted) auto
  have ne: "?q @ ?rest \<noteq> []" by (simp add: QuotedIdentifier)
  have key: "path_prefix D done @ take (length (?q @ ?rest) - length ?rest) (?q @ ?rest) =
      ToQuotedList D (done @ [x]) CHR ''.''"
    by (simp add: path_prefix_snoc)
  have step: "FindDroppedAncestor_loop D keys (path_prefix D done) (?q @ ?rest) =
      (case ci_find D keys (ToQuotedList D (done @ [x]) CHR ''.'') of
         Some k \<Rightarrow> Inr (Some k)
       | None \<Rightarrow> (case ?rest of [] \<Rightarrow> Inr None
           | c # cs \<Rightarrow> FindDroppedAncestor_loop D keys (ToQuotedList D (done @ [x]) CHR ''.'' @ [c]) cs))"
    by (subst FindDroppedAncestor_loop.simps) (simp only: parse ne key if_False bind_res_simps prod.case Let_def)
  have one: "(\<exists>k. 0 < k \<and> k \<le> length (x # xs) \<and> ci_member D keys (ToQuotedList D (done @ take k (x # xs)) CHR ''.''))
      \<longleftrightarrow> ci_member D keys (ToQuotedList D (done @ [x]) CHR ''.'') \<or>
         (\<exists>k. 0 < k \<and> k \<le> length xs \<and> ci_member D keys (ToQuotedList D ((done @ [x]) @ take k xs) CHR ''.''))"
    (is "?L \<longleftrightarrow> ?R")
  proof
    assume ?L
    then obtain k where k: "0 < k" "k \<le> length (x # xs)" "ci_member D keys (ToQuotedList D (done @ take k (x # xs)) CHR ''.'')"
      by blast
    then show ?R by (cases k; cases "k = 1") auto
  next
    assume ?R
    then show ?L
    proof
      assume "ci_member D keys (ToQuotedList D (done @ [x]) CHR ''.'')"
      then show ?L by (intro exI [of _ 1]) simp
    next
      assume "\<exists>k. 0 < k \<and> k \<le> length xs \<and> ci_member D keys (ToQuotedList D ((done @ [x]) @ take k xs) CHR ''.'')"
      then obtain k where "0 < k" "k \<le> length xs" "ci_member D keys (ToQuotedList D ((done @ [x]) @ take k xs) CHR ''.'')"
        by blast
      then show ?L by (intro exI [of _ "Suc k"]) simp
    qed
  qed
  show ?case
  proof (cases "ci_find D keys (ToQuotedList D (done @ [x]) CHR ''.'')")
    case (Some k)
    then have "ci_member D keys (ToQuotedList D (done @ [x]) CHR ''.'')"
      using ci_find_None by (metis option.distinct(1))
    with Some show ?thesis unfolding str step one by simp
  next
    case None
    then have no: "\<not> ci_member D keys (ToQuotedList D (done @ [x]) CHR ''.'')" by (simp add: ci_find_None)
    show ?thesis
    proof (cases "xs = []")
      case True
      with None no show ?thesis unfolding str step one by simp
    next
      case False
      have "path_prefix D (done @ [x]) = ToQuotedList D (done @ [x]) CHR ''.'' @ ''.''"
        by (simp add: path_prefix_def)
      with Cons.IH [OF False, of "done @ [x]"] None no False show ?thesis
        unfolding str step one by simp
    qed
  qed
qed simp

lemma FindDroppedAncestor_member:
  "\<exists>r. FindDroppedAncestor D keys (ToQuotedList D q CHR ''.'') = Inr r \<and>
     (r \<noteq> None \<longleftrightarrow> (\<exists>k. 0 < k \<and> k \<le> length q \<and> ci_member D keys (ToQuotedList D (take k q) CHR ''.'')))"
proof (cases "q = []")
  case True
  then show ?thesis
    by (simp add: FindDroppedAncestor_def FindDroppedAncestor_loop.simps)
next
  case False
  then show ?thesis
    using FindDroppedAncestor_loop_spec [OF False, of keys "[]"]
    by (simp add: FindDroppedAncestor_def path_prefix_def)
qed

lemma prefix_member_under:
  assumes "\<And>r. ci_member D keys (ToQuotedList D r CHR ''.'') \<longleftrightarrow>
      (\<exists>p \<in> P. list_all2 (StringUtil_CIEquals D) p r)" and "[] \<notin> P"
  shows "(\<exists>k. 0 < k \<and> k \<le> length q \<and> ci_member D keys (ToQuotedList D (take k q) CHR ''.'')) \<longleftrightarrow>
      (\<exists>p \<in> P. under D p q)" (is "?L \<longleftrightarrow> ?R")
proof
  assume ?L
  then obtain k p where k: "0 < k" "k \<le> length q" and p: "p \<in> P" "list_all2 (StringUtil_CIEquals D) p (take k q)"
    by (auto simp: assms(1))
  then have "length p = k" by (auto dest!: list_all2_lengthD)
  with k p show ?R by (auto simp: under_def)
next
  assume ?R
  then obtain p where "p \<in> P" "under D p q" by blast
  with assms show ?L
    by (intro exI [of _ "length p"]) (auto simp: under_def)
qed

end

section \<open>What excludes what\<close>

text \<open>The path a schema key of the stored changes denotes.\<close>

definition key_path :: "string \<Rightarrow> string list" where
  "key_path k = (case ParseQuotedList k CHR ''.'' of Inr q \<Rightarrow> q | Inl _ \<Rightarrow> [])"

definition created_keys :: "SnapshotChangeInformation \<Rightarrow> string list" where
  "created_keys other = sc_created_schemas other @ map fst (sc_created_tables other) @
     map fst (sc_created_scalar_macros other) @ map fst (sc_created_table_macros other) @
     map fst (sc_created_procedures other)"

definition keys_ok :: "duckdb_string \<Rightarrow> SnapshotChangeInformation \<Rightarrow> bool" where
  "keys_ok D other \<longleftrightarrow> list_all (\<lambda>k. k = ToQuotedList D (key_path k) CHR ''.'') (created_keys other)"

text \<open>
  Pairs of table sets: a table this transaction touched in the way of the first set must not be
  touched by another transaction in the way of the second.
\<close>

definition exclusion_table ::
  "DuckLakeTransactionState \<Rightarrow> TransactionChangeInformation \<Rightarrow> SnapshotChangeInformation \<Rightarrow>
   (TableIndex fset \<times> TableIndex fset) list" where
  "exclusion_table s c other =
     [(tc_dropped_tables c, sc_dropped_tables other),
      (tc_tables_inserted_into c |\<union>| tc_tables_inserted_inlined c,
       sc_dropped_tables other |\<union>| sc_altered_tables other |\<union>| sc_tables_deleted_from other |\<union>|
       sc_tables_deleted_inlined other |\<union>| sc_tables_set_not_null other),
      (tc_tables_set_not_null c |\<union>| tc_tables_deleted_from c |\<union>| tc_tables_delete_attempted c |\<union>|
       tc_tables_deleted_inlined c,
       sc_inserted_tables other |\<union>| sc_tables_inserted_inlined other),
      (tc_tables_deleted_from c,
       sc_dropped_tables other |\<union>| sc_altered_tables other |\<union>| sc_tables_merge_adjacent other |\<union>| sc_tables_rewrite_delete other),
      (tc_tables_deleted_inlined c,
       sc_dropped_tables other |\<union>| sc_altered_tables other |\<union>| sc_tables_deleted_inlined other |\<union>| sc_tables_flushed_inlined other),
      (tc_tables_flushed_inlined c,
       sc_dropped_tables other |\<union>| sc_tables_deleted_inlined other |\<union>| sc_tables_flushed_inlined other),
      (tc_tables_merge_adjacent c |\<union>| tc_tables_rewrite_delete c,
       sc_dropped_tables other |\<union>| sc_tables_deleted_from other |\<union>| sc_tables_merge_adjacent other |\<union>| sc_tables_rewrite_delete other),
      (tc_altered_tables c |\<union>| st_renamed_tables s, sc_dropped_tables other |\<union>| sc_altered_tables other),
      (tc_dropped_views c, sc_dropped_views other),
      (tc_altered_views c |\<union>| st_renamed_views s, sc_dropped_views other |\<union>| sc_altered_views other)]"

definition tables_compatible ::
  "DuckLakeTransactionState \<Rightarrow> TransactionChangeInformation \<Rightarrow> SnapshotChangeInformation \<Rightarrow> bool" where
  "tables_compatible s c other \<longleftrightarrow> list_all (\<lambda>(mine, theirs). mine |\<inter>| theirs = {||}) (exclusion_table s c other)"

definition routines_compatible :: "TransactionChangeInformation \<Rightarrow> SnapshotChangeInformation \<Rightarrow> bool" where
  "routines_compatible c other \<longleftrightarrow>
     tc_dropped_scalar_macros c |\<inter>| sc_dropped_scalar_macros other = {||} \<and>
     tc_dropped_table_macros c |\<inter>| sc_dropped_table_macros other = {||} \<and>
     tc_dropped_procedures c |\<inter>| sc_dropped_procedures other = {||}"

text \<open>Nothing was created at or below a schema this transaction drops, and vice versa.\<close>

definition schemas_compatible ::
  "duckdb_string \<Rightarrow> TransactionChangeInformation \<Rightarrow> SnapshotChangeInformation \<Rightarrow> bool" where
  "schemas_compatible D c other \<longleftrightarrow>
     list_all (\<lambda>(i, e). i |\<notin>| sc_dropped_schemas other \<and>
       list_all (\<lambda>k. \<not> under D (schema_names e) (key_path k)) (created_keys other)) (tc_dropped_schemas c) \<and>
     list_all (\<lambda>(k, e). \<not> ci_member D (sc_created_schemas other) k \<and>
       list_all (\<lambda>p. schema_id p |\<notin>| sc_dropped_schemas other) (ancestors e)) (tc_created_schemas c)"

definition entries_compatible ::
  "duckdb_string \<Rightarrow> catalog_entry list ci_map \<Rightarrow> SchemaIndex fset \<Rightarrow> string ci_map ci_map \<Rightarrow> bool" where
  "entries_compatible D mine dropped_schemas theirs \<longleftrightarrow>
     list_all (\<lambda>(k, es). list_all (\<lambda>e. schema_id (ce_ParentSchema e) |\<notin>| dropped_schemas \<and>
       (case ci_lookup D theirs k of None \<Rightarrow> True | Some m \<Rightarrow> ci_lookup D m (ce_name e) = None)) es) mine"

definition deletes_compatible ::
  "DuckLakeTransactionState \<Rightarrow> TransactionChangeInformation \<Rightarrow> SnapshotChangeInformation \<Rightarrow> idx list \<Rightarrow> bool" where
  "deletes_compatible s c other deleted \<longleftrightarrow>
     (tc_tables_deleted_from c |\<inter>| sc_tables_deleted_from other \<noteq> {||} \<longrightarrow>
        list_all (\<lambda>(t, d). list_all (\<lambda>(p, fs). list_all (\<lambda>f.
          data_file_index (df_data_file_id f) \<notin> set deleted) fs) (new_delete_files d)) (st_local_changes s) \<and>
        list_all (\<lambda>(p, i). data_file_index i \<notin> set deleted) (st_dropped_files s))"

definition compatible ::
  "duckdb_string \<Rightarrow> DuckLakeTransactionState \<Rightarrow> TransactionChangeInformation \<Rightarrow> SnapshotChangeInformation \<Rightarrow>
   idx list \<Rightarrow> bool" where
  "compatible D s c other deleted \<longleftrightarrow>
     tables_compatible s c other \<and> routines_compatible c other \<and> schemas_compatible D c other \<and>
     entries_compatible D (tc_created_table_macros c) (sc_dropped_schemas other) (sc_created_table_macros other) \<and>
     entries_compatible D (tc_created_scalar_macros c) (sc_dropped_schemas other) (sc_created_scalar_macros other) \<and>
     entries_compatible D (tc_created_procedures c) (sc_dropped_schemas other) (sc_created_procedures other) \<and>
     entries_compatible D (tc_created_tables c) (sc_dropped_schemas other) (sc_created_tables other) \<and>
     deletes_compatible s c other deleted"

definition created_entries :: "TransactionChangeInformation \<Rightarrow> catalog_entry list" where
  "created_entries c = concat (map snd (tc_created_table_macros c @ tc_created_scalar_macros c @
     tc_created_procedures c @ tc_created_tables c))"

definition entry_types_ok :: "TransactionChangeInformation \<Rightarrow> bool" where
  "entry_types_ok c \<longleftrightarrow> list_all (\<lambda>e. ce_type e \<noteq> SCHEMA_ENTRY) (created_entries c)"

section \<open>The code accepts exactly the compatible transactions\<close>

lemma is_ok_ConflictCheck [simp]: "is_ok (ConflictCheck ix i S a b) \<longleftrightarrow> i |\<notin>| S"
  by (simp add: ConflictCheck_def)

lemma is_ok_check_drops: "is_ok (check_drops ix S S' a) \<longleftrightarrow> S |\<inter>| S' = {||}"
  by (auto simp: check_drops_def)

lemma is_ok_check_tables:
  "is_ok (check_tables S checks a) \<longleftrightarrow> list_all (\<lambda>(S', _). S |\<inter>| S' = {||}) checks"
  by (fastforce simp: check_tables_def list_all_iff is_ok_case_prod case_prod_beta)

lemma finter_union_empty: "S |\<inter>| (A |\<union>| B) = {||} \<longleftrightarrow> S |\<inter>| A = {||} \<and> S |\<inter>| B = {||}"
  "(A |\<union>| B) |\<inter>| S = {||} \<longleftrightarrow> A |\<inter>| S = {||} \<and> B |\<inter>| S = {||}"
  by auto

lemmas table_checks = insert_checks_def inserted_checks_def delete_checks_def delete_inlined_checks_def
  flush_checks_def compact_checks_def table_alter_checks_def view_alter_checks_def

lemma is_ok_check_created_entry:
  "is_ok (check_created_entry D t k e S m) \<longleftrightarrow> schema_id (ce_ParentSchema e) |\<notin>| S \<and>
     (case ci_lookup D m k of None \<Rightarrow> True | Some m' \<Rightarrow> ci_lookup D m' (ce_name e) = None)"
  by (simp add: check_created_entry_def split: option.split)

lemma is_ok_ConflictCheck_created:
  assumes "\<forall>p \<in> set mine. \<forall>e \<in> set (snd p). ce_type e \<noteq> SCHEMA_ENTRY"
  shows "is_ok (ConflictCheck_created D mine S theirs) \<longleftrightarrow> entries_compatible D mine S theirs"
proof -
  have "\<exists>t. GetCatalogType ty = Inr t" if "ty \<noteq> SCHEMA_ENTRY" for ty
    using that by (cases ty) auto
  then have "is_ok (bind_res (GetCatalogType (ce_type e)) (\<lambda>t. check_created_entry D t k e S theirs)) \<longleftrightarrow>
      schema_id (ce_ParentSchema e) |\<notin>| S \<and>
      (case ci_lookup D theirs k of None \<Rightarrow> True | Some m' \<Rightarrow> ci_lookup D m' (ce_name e) = None)"
    if "ce_type e \<noteq> SCHEMA_ENTRY" for e :: catalog_entry and k
    using that by (auto simp: is_ok_bind is_ok_check_created_entry)
  with assms show ?thesis
    by (simp add: ConflictCheck_created_def entries_compatible_def list_all_iff is_ok_case_prod case_prod_beta)
qed

lemma is_ok_check_created_tables:
  "is_ok (check_created_tables D c other) \<longleftrightarrow>
   entries_compatible D (tc_created_tables c) (sc_dropped_schemas other) (sc_created_tables other)"
  by (simp add: check_created_tables_def entries_compatible_def list_all_iff is_ok_check_created_entry
      is_ok_case_prod case_prod_beta)

lemma is_ok_check_created_schemas:
  "is_ok (check_created_schemas D c other) \<longleftrightarrow>
   list_all (\<lambda>(k, e). \<not> ci_member D (sc_created_schemas other) k \<and>
     list_all (\<lambda>p. schema_id p |\<notin>| sc_dropped_schemas other) (ancestors e)) (tc_created_schemas c)"
  by (simp add: check_created_schemas_def SchemaKeyConflictCheck_def list_all_iff is_ok_if is_ok_case_prod
      case_prod_beta) blast

lemma is_ok_check_deleted_files:
  assumes "executor FilesDeletedOrDroppedAfterSnapshot = Inr deleted"
  shows "is_ok (check_deleted_files executor s c other) \<longleftrightarrow> deletes_compatible s c other deleted"
proof -
  have "i |\<in>| fset_of_list (map DataFileIndex deleted) \<longleftrightarrow> data_file_index i \<in> set deleted" for i
    by (cases i) (auto simp: fset_of_list_elem)
  with assms show ?thesis
    by (simp add: check_deleted_files_def deletes_compatible_def GetFilesDeletedOrDroppedAfterSnapshot_def
        Changes_def list_all_iff is_ok_case_prod case_prod_beta)
qed

definition dropped_keys_of :: "duckdb_string \<Rightarrow> (SchemaIndex \<times> schema_entry) list \<Rightarrow> ci_set" where
  "dropped_keys_of D dropped = fold (\<lambda>(_, e) keys. ci_insert D (PathKey D e) keys) dropped []"

lemma schema_names_nonempty [simp]: "schema_names e \<noteq> []" "[] \<noteq> schema_names e"
  by (cases e; simp)+

context duckdb_strings
begin

lemma ci_member_fold_insert:
  "ci_member D (fold (\<lambda>(_, e) keys. ci_insert D (PathKey D e) keys) dropped acc) k \<longleftrightarrow>
     ci_member D acc k \<or> (\<exists>x \<in> set dropped. StringUtil_CIEquals D (PathKey D (snd x)) k)"
  by (induction dropped arbitrary: acc) (auto simp: case_prod_beta)

lemma dropped_keys_empty: "dropped_keys_of D dropped = [] \<longleftrightarrow> dropped = []"
proof (cases dropped)
  case (Cons x xs)
  then have "ci_member D (dropped_keys_of D dropped) (PathKey D (snd x))"
    by (simp add: dropped_keys_of_def ci_member_fold_insert case_prod_beta)
  with Cons show ?thesis by (auto simp: ci_member_def)
qed (simp add: dropped_keys_of_def)

lemma dropped_keys_member:
  "ci_member D (dropped_keys_of D dropped) (ToQuotedList D r CHR ''.'') \<longleftrightarrow>
     (\<exists>p \<in> (\<lambda>x. schema_names (snd x)) ` set dropped. list_all2 (StringUtil_CIEquals D) p r)"
proof -
  have "ci_member D (dropped_keys_of D dropped) k \<longleftrightarrow>
      (\<exists>x \<in> set dropped. StringUtil_CIEquals D (PathKey D (snd x)) k)" for k
    unfolding dropped_keys_of_def ci_member_fold_insert by (simp add: ci_member_def)
  then show ?thesis by (simp add: PathKey_eq path_keys_equal)
qed

lemma is_ok_subtree_check:
  assumes "k = ToQuotedList D (key_path k) CHR ''.''"
  shows "is_ok (SchemaSubtreeConflictCheck D (dropped_keys_of D dropped) k a) \<longleftrightarrow>
     (\<forall>x \<in> set dropped. \<not> under D (schema_names (snd x)) (key_path k))"
proof -
  obtain r where r: "FindDroppedAncestor D (dropped_keys_of D dropped) k = Inr r"
    and iff: "r \<noteq> None \<longleftrightarrow> (\<exists>n. 0 < n \<and> n \<le> length (key_path k) \<and>
      ci_member D (dropped_keys_of D dropped) (ToQuotedList D (take n (key_path k)) CHR ''.''))"
    using FindDroppedAncestor_member [of "dropped_keys_of D dropped" "key_path k"] assms by metis
  have "r \<noteq> None \<longleftrightarrow> (\<exists>p \<in> (\<lambda>x. schema_names (snd x)) ` set dropped. under D p (key_path k))"
    unfolding iff by (rule prefix_member_under [OF dropped_keys_member]) auto
  then have "(\<forall>x \<in> set dropped. \<not> under D (schema_names (snd x)) (key_path k)) \<longleftrightarrow> r = None" by auto
  then show ?thesis
    by (simp add: SchemaSubtreeConflictCheck_def r split: option.split)
qed

lemma is_ok_check_dropped_schemas:
  assumes "keys_ok D other"
  shows "is_ok (check_dropped_schemas D c other) \<longleftrightarrow>
    list_all (\<lambda>(i, e). i |\<notin>| sc_dropped_schemas other \<and>
      list_all (\<lambda>k. \<not> under D (schema_names e) (key_path k)) (created_keys other)) (tc_dropped_schemas c)"
proof -
  let ?drop = "tc_dropped_schemas c"
  have sub: "is_ok (SchemaSubtreeConflictCheck D (dropped_keys_of D ?drop) k a) \<longleftrightarrow>
      (\<forall>x \<in> set ?drop. \<not> under D (schema_names (snd x)) (key_path k))" if "k \<in> set (created_keys other)" for k a
    using assms that is_ok_subtree_check by (simp add: keys_ok_def list_all_iff)
  have "is_ok (check_dropped_schemas D c other) \<longleftrightarrow>
      (\<forall>x \<in> set ?drop. fst x |\<notin>| sc_dropped_schemas other) \<and>
      (?drop = [] \<or> (\<forall>k \<in> set (created_keys other). \<forall>x \<in> set ?drop. \<not> under D (schema_names (snd x)) (key_path k)))"
    unfolding check_dropped_schemas_def dropped_keys_of_def [symmetric] Let_def dropped_keys_empty
    using sub
    by (auto simp: SchemaSubtreeConflictCheck_map_def created_keys_def is_ok_case_prod case_prod_beta is_ok_if
        simp del: split_paired_All)
  then show ?thesis
    by (cases "?drop = []") (simp, simp add: list_all_iff case_prod_beta, blast)
qed

lemma CheckForConflicts_iff:
  assumes "keys_ok D other" and "entry_types_ok c"
    and "executor FilesDeletedOrDroppedAfterSnapshot = Inr deleted"
  shows "is_ok (CheckForConflicts D s c other executor) \<longleftrightarrow> compatible D s c other deleted"
proof -
  have types: "\<forall>p \<in> set (tc_created_table_macros c). \<forall>e \<in> set (snd p). ce_type e \<noteq> SCHEMA_ENTRY"
    "\<forall>p \<in> set (tc_created_scalar_macros c). \<forall>e \<in> set (snd p). ce_type e \<noteq> SCHEMA_ENTRY"
    "\<forall>p \<in> set (tc_created_procedures c). \<forall>e \<in> set (snd p). ce_type e \<noteq> SCHEMA_ENTRY"
    "\<forall>p \<in> set (tc_created_tables c). \<forall>e \<in> set (snd p). ce_type e \<noteq> SCHEMA_ENTRY"
    using assms(2) by (auto simp: entry_types_ok_def created_entries_def list_all_iff)
  show ?thesis
    unfolding CheckForConflicts_def is_ok_for_each compatible_def tables_compatible_def exclusion_table_def
      routines_compatible_def schemas_compatible_def
    by (simp add: is_ok_check_drops is_ok_check_tables table_checks is_ok_check_dropped_schemas [OF assms(1)]
        is_ok_check_created_schemas is_ok_ConflictCheck_created types is_ok_check_created_tables
        is_ok_check_deleted_files [where executor = executor and deleted = deleted, OF assms(3)] finter_union_empty) blast
qed

end

section \<open>Properties\<close>

text \<open>
  C4. Conflict detection is exact: \<^verbatim>\<open>CheckForConflicts\<close> lets a transaction pass if and only if its
  changes are compatible with what was committed since its snapshot, that is, no table or view is
  touched by both sides in ways that exclude each other (the pairs of \<open>exclusion_table\<close>), no schema,
  macro or procedure is dropped twice, no entry with the same name is created twice, nothing was
  created at or below a schema that is dropped, and no data file is deleted from twice. The
  schema keys of the other side are those \<^verbatim>\<open>ParseChangesMade\<close> produces, created entries have an entry
  type that can be created, and the query for deleted files succeeds.
\<close>

theorem conflict_check_exact:
  assumes "duckdb_strings D" and "keys_ok D other" and "entry_types_ok c"
    and "executor FilesDeletedOrDroppedAfterSnapshot = Inr deleted"
  shows "is_ok (CheckForConflicts D s c other executor) \<longleftrightarrow> compatible D s c other deleted"
  using duckdb_strings.CheckForConflicts_iff [where executor = executor and deleted = deleted, OF assms] .

theorem conflict_check_exact_witness:
  "(let c = TransactionChangeInformation_empty\<lparr>tc_tables_inserted_into := {|5|}\<rparr>;
        o1 = SnapshotChangeInformation_empty\<lparr>sc_dropped_tables := {|5|}\<rparr>;
        o2 = SnapshotChangeInformation_empty\<lparr>sc_inserted_tables := {|5|}\<rparr>
    in \<not> is_ok (CheckForConflicts duckdb_ref DuckLakeTransactionState_empty c o1 (\<lambda>_. Inr [])) \<and>
       is_ok (CheckForConflicts duckdb_ref DuckLakeTransactionState_empty c o2 (\<lambda>_. Inr [])))"
proof -
  let ?c = "TransactionChangeInformation_empty\<lparr>tc_tables_inserted_into := {|5|}\<rparr>"
  let ?o1 = "SnapshotChangeInformation_empty\<lparr>sc_dropped_tables := {|5|}\<rparr>"
  let ?o2 = "SnapshotChangeInformation_empty\<lparr>sc_inserted_tables := {|5|}\<rparr>"
  have ok: "keys_ok duckdb_ref ?o1" "keys_ok duckdb_ref ?o2" "entry_types_ok ?c"
    by (simp_all add: keys_ok_def created_keys_def SnapshotChangeInformation_empty_def entry_types_ok_def
        created_entries_def TransactionChangeInformation_empty_def)
  have "\<not> compatible duckdb_ref DuckLakeTransactionState_empty ?c ?o1 []"
    by (simp add: compatible_def tables_compatible_def exclusion_table_def SnapshotChangeInformation_empty_def
        TransactionChangeInformation_empty_def)
  moreover have "compatible duckdb_ref DuckLakeTransactionState_empty ?c ?o2 []"
    by (simp add: compatible_def tables_compatible_def exclusion_table_def SnapshotChangeInformation_empty_def
        TransactionChangeInformation_empty_def routines_compatible_def schemas_compatible_def
        entries_compatible_def deletes_compatible_def DuckLakeTransactionState_empty_def)
  ultimately show ?thesis
    using conflict_check_exact [where executor = "\<lambda>_. Inr []" and deleted = "[]" and s = DuckLakeTransactionState_empty,
        OF ref.duckdb_strings_axioms ok(1,3) refl]
      conflict_check_exact [where executor = "\<lambda>_. Inr []" and deleted = "[]" and s = DuckLakeTransactionState_empty,
        OF ref.duckdb_strings_axioms ok(2,3) refl]
    by (simp add: Let_def)
qed

text \<open>
  C21. The search for a dropped ancestor terminates and is right at every nesting depth: for the key
  of a schema path, \<^verbatim>\<open>FindDroppedAncestor\<close> returns (it does not throw) and finds an ancestor if and
  only if some non-empty prefix of the path, the path itself included, is among the dropped keys up
  to letter case. Names may contain dots and quotes.
\<close>

theorem dropped_ancestor_found:
  assumes "duckdb_strings D"
  shows "\<exists>r. FindDroppedAncestor D keys (ToQuotedList D q CHR ''.'') = Inr r \<and>
     (r \<noteq> None \<longleftrightarrow> (\<exists>k. 0 < k \<and> k \<le> length q \<and> ci_member D keys (ToQuotedList D (take k q) CHR ''.'')))"
  using duckdb_strings.FindDroppedAncestor_member [OF assms] .

theorem dropped_ancestor_found_witness:
  "\<exists>r. FindDroppedAncestor duckdb_ref [ToQuotedList duckdb_ref [''a.b''] CHR ''.'']
        (ToQuotedList duckdb_ref [''A.b'', ''c''] CHR ''.'') = Inr r \<and> r \<noteq> None"
proof -
  have "ci_member duckdb_ref [ToQuotedList duckdb_ref [''a.b''] CHR ''.'']
      (ToQuotedList duckdb_ref (take 1 [''A.b'', ''c'']) CHR ''.'')"
    by (simp add: ci_member_def ref.path_keys_equal) (simp add: duckdb_ref_def ascii_lower_def char_lower_def, code_simp)
  with dropped_ancestor_found [OF ref.duckdb_strings_axioms,
      of "[ToQuotedList duckdb_ref [''a.b''] CHR ''.'']" "[''A.b'', ''c'']"]
  show ?thesis by (metis One_nat_def Suc_leI length_greater_0_conv list.distinct(1) zero_less_one)
qed

end
