(* ===== verification/DL_WriteChanges.thy ===== *)
theory DL_WriteChanges
  imports DL_Conflicts
begin

text \<open>
  What a committed transaction leaves for the others: \<^verbatim>\<open>WriteSnapshotChanges\<close> of
  \<^verbatim>\<open>src/src/storage/ducklake_transaction_state.cpp\<close> prints the summary of the transaction as the
  \<^verbatim>\<open>changes_made\<close> text of its snapshot, after \<^verbatim>\<open>DuckLakeCommitState\<close>
  (\<^verbatim>\<open>src/src/include/storage/ducklake_commit_state.hpp\<close>) has replaced transaction-local identifiers
  by committed ones. A later transaction reads the texts of all newer snapshots, joined by commas,
  with \<^verbatim>\<open>ParseChangesMade\<close>. The theory proves that the reader sees exactly what was written.
\<close>

section \<open>Identifiers at commit\<close>

record DuckLakeCommitState =
  cs_commit_snapshot :: DuckLakeSnapshot
  cs_committed_schemas :: "(SchemaIndex, SchemaIndex) omap"
  cs_committed_tables :: "(TableIndex, TableIndex) omap"
  cs_committed_partition_ids :: "(idx, idx) omap"
  cs_committed_mapping_indexes :: "(MappingIndex, MappingIndex) omap"
  cs_local_delete_files :: "(TableIndex, DuckLakeDeleteFile list) omap"

definition DuckLakeCommitState_new :: "DuckLakeSnapshot \<Rightarrow> DuckLakeCommitState" where
  "DuckLakeCommitState_new snapshot =
     \<lparr>cs_commit_snapshot = snapshot, cs_committed_schemas = [], cs_committed_tables = [],
      cs_committed_partition_ids = [], cs_committed_mapping_indexes = [], cs_local_delete_files = []\<rparr>"

definition RemapIdentifier_schema :: "DuckLakeCommitState \<Rightarrow> SchemaIndex \<Rightarrow> SchemaIndex" where
  "RemapIdentifier_schema cs i = omap_get i (cs_committed_schemas cs) i"

definition RemapIdentifier_table :: "DuckLakeCommitState \<Rightarrow> TableIndex \<Rightarrow> TableIndex" where
  "RemapIdentifier_table cs table_id = omap_get table_id (cs_committed_tables cs) table_id"

definition RemapPartitionId :: "DuckLakeCommitState \<Rightarrow> idx option \<Rightarrow> idx option" where
  "RemapPartitionId cs p =
     (case p of
        None \<Rightarrow> None
      | Some i \<Rightarrow> Some (omap_get i (cs_committed_partition_ids cs) i))"

definition RemapMappingIndex :: "DuckLakeCommitState \<Rightarrow> MappingIndex \<Rightarrow> MappingIndex" where
  "RemapMappingIndex cs m = omap_get m (cs_committed_mapping_indexes cs) m"

definition GetSchemaId :: "DuckLakeCommitState \<Rightarrow> schema_entry \<Rightarrow> SchemaIndex" where
  "GetSchemaId cs schema = RemapIdentifier_schema cs (schema_id schema)"

definition GetTableId :: "DuckLakeCommitState \<Rightarrow> TableIndex \<Rightarrow> TableIndex" where
  "GetTableId cs table_id = RemapIdentifier_table cs table_id"

section \<open>Writing the changes\<close>

text \<open>Every loop of the writer appends \<^verbatim>\<open>type:value\<close> entries, with a comma before all but the first.\<close>

definition append_change :: "string \<times> string \<Rightarrow> string \<Rightarrow> string" where
  "append_change = (\<lambda>(kind, value) changes_made.
     (if changes_made = [] then [] else changes_made @ '','') @ kind @ '':'' @ value)"

definition append_changes :: "(string \<times> string) list \<Rightarrow> string \<Rightarrow> string" where
  "append_changes changes changes_made = fold append_change changes changes_made"

definition AddChangeInfo ::
  "DuckLakeCommitState \<Rightarrow> TableIndex fset \<Rightarrow> string \<Rightarrow> string \<Rightarrow> string" where
  "AddChangeInfo cs changes kind changes_made =
     append_changes (map (\<lambda>t. (kind, to_string (GetTableId cs t))) (sorted_list_of_fset changes)) changes_made"

definition write_created_entries ::
  "duckdb_string \<Rightarrow> (catalog_entry \<Rightarrow> string) \<Rightarrow> catalog_entry list ci_map \<Rightarrow> string \<Rightarrow> string" where
  "write_created_entries D kind created changes_made =
     fold (\<lambda>(schema_key, entries).
         append_changes (map (\<lambda>e. (kind e, schema_key @ ''.'' @ SQLIdentifierToString D (ce_name e))) entries))
       created changes_made"

text \<open>The transaction's own data changes, with the identifiers of committed tables.\<close>

definition readd_table_changes ::
  "DuckLakeTransactionState \<Rightarrow> DuckLakeCommitState \<Rightarrow> TransactionChangeInformation \<Rightarrow> TransactionChangeInformation" where
  "readd_table_changes s cs c =
     fold (\<lambda>(t, d). AddTableChanges (GetTableId cs t) d) (Changes (st_local_changes s))
       (c\<lparr>tc_tables_deleted_from := st_tables_deleted_from s\<rparr>)"

definition write_catalog_changes :: "duckdb_string \<Rightarrow> DuckLakeCommitState \<Rightarrow> TransactionChangeInformation \<Rightarrow> string" where
  "write_catalog_changes D cs c =
     (let t1 = append_changes (map (\<lambda>(i, _). (''dropped_schema'', to_string (schema_index i))) (tc_dropped_schemas c)) [];
          t2 = AddChangeInfo cs (tc_dropped_tables c) ''dropped_table'' t1;
          t3 = AddChangeInfo cs (tc_dropped_views c) ''dropped_view'' t2;
          t4 = append_changes (map (\<lambda>(k, _). (''created_schema'', k)) (tc_created_schemas c)) t3;
          t5 = write_created_entries D (\<lambda>e. if ce_type e = VIEW_ENTRY then ''created_view'' else ''created_table'')
                 (tc_created_tables c) t4;
          t6 = write_created_entries D (\<lambda>_. ''created_scalar_macro'') (tc_created_scalar_macros c) t5;
          t7 = write_created_entries D (\<lambda>_. ''created_table_macro'') (tc_created_table_macros c) t6;
          t8 = write_created_entries D (\<lambda>_. ''created_procedure'') (tc_created_procedures c) t7;
          t9 = append_changes (map (\<lambda>i. (''dropped_scalar_macro'', to_string (macro_index i)))
                 (sorted_list_of_fset (tc_dropped_scalar_macros c))) t8;
          t10 = append_changes (map (\<lambda>i. (''dropped_table_macro'', to_string (macro_index i)))
                 (sorted_list_of_fset (tc_dropped_table_macros c))) t9
      in append_changes (map (\<lambda>i. (''dropped_procedure'', to_string (procedure_index i)))
           (sorted_list_of_fset (tc_dropped_procedures c))) t10)"

definition write_table_changes :: "DuckLakeCommitState \<Rightarrow> TransactionChangeInformation \<Rightarrow> string \<Rightarrow> string" where
  "write_table_changes cs c t0 =
     (let t1 = AddChangeInfo cs (tc_tables_inserted_into c) ''inserted_into_table'' t0;
          t2 = AddChangeInfo cs (tc_tables_set_not_null c) ''set_not_null'' t1;
          t3 = AddChangeInfo cs (tc_tables_deleted_from c) ''deleted_from_table'' t2;
          t4 = AddChangeInfo cs (tc_altered_tables c) ''altered_table'' t3;
          t5 = AddChangeInfo cs (tc_altered_views c) ''altered_view'' t4;
          t6 = AddChangeInfo cs (tc_tables_inserted_inlined c) ''inlined_insert'' t5;
          t7 = AddChangeInfo cs (tc_tables_deleted_inlined c) ''inlined_delete'' t6
      in AddChangeInfo cs (tc_tables_flushed_inlined c) ''inline_flush'' t7)"

text \<open>The text that is stored, and the summary as the writer leaves it.\<close>

definition WriteSnapshotChanges ::
  "duckdb_string \<Rightarrow> DuckLakeTransactionState \<Rightarrow> DuckLakeCommitState \<Rightarrow> TransactionChangeInformation \<Rightarrow>
   (string \<times> TransactionChangeInformation) res" where
  "WriteSnapshotChanges D s cs changes =
     (let c = readd_table_changes s cs changes;
          changes_made = write_table_changes cs c (write_catalog_changes D cs c);
          has_compaction = (tc_tables_merge_adjacent c \<noteq> {||} \<or> tc_tables_rewrite_delete c \<noteq> {||})
      in if has_compaction \<and> changes_made \<noteq> []
         then Inl (InvalidInputException ''Transactions can either make changes OR perform compaction - not both'')
         else Inr (AddChangeInfo cs (tc_tables_rewrite_delete c) ''rewrite_delete''
                     (AddChangeInfo cs (tc_tables_merge_adjacent c) ''merge_adjacent'' changes_made), c))"

section \<open>The entries of a text\<close>

text \<open>
  A written entry, before it is printed: an identifier, a created schema path, or a created entry
  with the path of its schema.
\<close>

datatype change_entry =
    IndexChange ChangeType idx
  | SchemaChange "string list"
  | EntryChange ChangeType "string list" string

fun change_type_text :: "ChangeType \<Rightarrow> string" where
  "change_type_text CREATED_TABLE = ''created_table''"
| "change_type_text CREATED_VIEW = ''created_view''"
| "change_type_text CREATED_SCHEMA = ''created_schema''"
| "change_type_text DROPPED_SCHEMA = ''dropped_schema''"
| "change_type_text DROPPED_TABLE = ''dropped_table''"
| "change_type_text DROPPED_VIEW = ''dropped_view''"
| "change_type_text INSERTED_INTO_TABLE = ''inserted_into_table''"
| "change_type_text DELETED_FROM_TABLE = ''deleted_from_table''"
| "change_type_text INSERTED_INTO_TABLE_INLINED = ''inlined_insert''"
| "change_type_text DELETED_FROM_TABLE_INLINED = ''inlined_delete''"
| "change_type_text FLUSHED_INLINE_DATA_FOR_TABLE = ''inline_flush''"
| "change_type_text ALTERED_TABLE = ''altered_table''"
| "change_type_text ALTERED_VIEW = ''altered_view''"
| "change_type_text COMPACTED_TABLE = ''compacted_table''"
| "change_type_text MERGE_ADJACENT = ''merge_adjacent''"
| "change_type_text REWRITE_DELETE = ''rewrite_delete''"
| "change_type_text CREATED_SCALAR_MACRO = ''created_scalar_macro''"
| "change_type_text CREATED_TABLE_MACRO = ''created_table_macro''"
| "change_type_text SET_NOT_NULL = ''set_not_null''"
| "change_type_text CREATED_PROCEDURE = ''created_procedure''"
| "change_type_text DROPPED_SCALAR_MACRO = ''dropped_scalar_macro''"
| "change_type_text DROPPED_TABLE_MACRO = ''dropped_table_macro''"
| "change_type_text DROPPED_PROCEDURE = ''dropped_procedure''"

fun entry_type :: "change_entry \<Rightarrow> ChangeType" where
  "entry_type (IndexChange t i) = t"
| "entry_type (SchemaChange p) = CREATED_SCHEMA"
| "entry_type (EntryChange t p n) = t"

fun entry_value :: "duckdb_string \<Rightarrow> change_entry \<Rightarrow> string" where
  "entry_value D (IndexChange t i) = to_string i"
| "entry_value D (SchemaChange p) = ToQuotedList D p CHR ''.''"
| "entry_value D (EntryChange t p n) = ToQuotedList D p CHR ''.'' @ ''.'' @ SQLIdentifierToString D n"

definition print_pair :: "duckdb_string \<Rightarrow> change_entry \<Rightarrow> string \<times> string" where
  "print_pair D e = (change_type_text (entry_type e), entry_value D e)"

definition print_entry :: "duckdb_string \<Rightarrow> change_entry \<Rightarrow> string" where
  "print_entry D e = change_type_text (entry_type e) @ '':'' @ entry_value D e"

definition print_entries :: "duckdb_string \<Rightarrow> change_entry list \<Rightarrow> string" where
  "print_entries D es = join_strings (map (print_entry D) es) '',''"

definition entry_change_types :: "ChangeType list" where
  "entry_change_types = [CREATED_TABLE, CREATED_VIEW, CREATED_SCALAR_MACRO, CREATED_TABLE_MACRO, CREATED_PROCEDURE]"

fun entry_ok :: "change_entry \<Rightarrow> bool" where
  "entry_ok (IndexChange t i) \<longleftrightarrow> t \<notin> set (CREATED_SCHEMA # entry_change_types)"
| "entry_ok (SchemaChange p) \<longleftrightarrow> True"
| "entry_ok (EntryChange t p n) \<longleftrightarrow> t \<in> set entry_change_types \<and> p \<noteq> []"

lemma append_changes_simps [simp]:
  "append_changes [] s = s" "append_changes (x # xs) s = append_changes xs (append_change x s)"
  by (simp_all add: append_changes_def)

lemma append_changes_append: "append_changes (xs @ ys) s = append_changes ys (append_changes xs s)"
  by (simp add: append_changes_def)

lemma append_changes_nonempty_acc:
  "s \<noteq> [] \<Longrightarrow> append_changes (map (print_pair D) es) s = s @ concat (map (\<lambda>e. '','' @ print_entry D e) es)"
  by (induction es arbitrary: s) (simp_all add: append_change_def print_pair_def print_entry_def)

lemma print_entries_Cons:
  "print_entries D (e # es) = print_entry D e @ concat (map (\<lambda>e. '','' @ print_entry D e) es)"
proof (induction es arbitrary: e)
  case (Cons e' es)
  then show ?case by (simp add: print_entries_def)
qed (simp add: print_entries_def)

lemma print_entry_nonempty [simp]: "print_entry D e \<noteq> []"
  by (simp add: print_entry_def)

lemma append_changes_print: "append_changes (map (print_pair D) es) [] = print_entries D es"
proof (cases es)
  case (Cons e es')
  have "append_change (print_pair D e) [] = print_entry D e"
    by (simp add: append_change_def print_pair_def print_entry_def)
  then show ?thesis
    by (simp add: Cons append_changes_nonempty_acc print_entries_Cons del: print_entry_nonempty)
      (simp add: append_changes_nonempty_acc)
qed (simp add: print_entries_def)

section \<open>Reading the entries back\<close>

text \<open>The scanner of \<^verbatim>\<open>ParseChangeValue\<close>: \<open>None\<close> if it stops at an unquoted comma.\<close>

fun scan_value :: "bool \<Rightarrow> string \<Rightarrow> bool option" where
  "scan_value q [] = Some q"
| "scan_value q (c # cs) =
     (if \<not> q \<and> c = CHR '','' then None else scan_value (if c = dquote then \<not> q else q) cs)"

lemma scan_value_append:
  "scan_value q (a @ b) = (case scan_value q a of None \<Rightarrow> None | Some q' \<Rightarrow> scan_value q' b)"
  by (induction q a rule: scan_value.induct) auto

lemma ParseChangeValue_loop_scan:
  assumes "scan_value q v = Some False" and "rest = [] \<or> hd rest = CHR '',''"
  shows "ParseChangeValue_loop q acc (v @ rest) = (acc @ v, rest)"
  using assms
proof (induction q v arbitrary: acc rule: scan_value.induct)
  case (1 q)
  then show ?case by (cases rest) auto
next
  case (2 q c cs)
  then show ?case by (auto split: if_splits)
qed

lemma scan_escaped: "scan_value True (escape_quotes dquote s) = Some True"
  by (induction s) auto

lemma scan_digits: "(\<And>c. c \<in> set s \<Longrightarrow> is_digit c) \<Longrightarrow> scan_value False s = Some False"
proof (induction s)
  case (Cons c s)
  then have "is_digit c" and "scan_value False s = Some False" by simp_all
  moreover from this have "c \<noteq> CHR '',''" and "c \<noteq> dquote" using not_digit by metis+
  ultimately show ?case by simp
qed simp

lemma change_type_names_lower: "(n, t) \<in> set change_type_names \<Longrightarrow> ascii_lower n = n"
  by (auto simp: change_type_names_def ascii_lower_def char_lower_def)

lemma lookup_change_type_map_of:
  assumes "\<And>n t. (n, t) \<in> set ns \<Longrightarrow> ascii_lower n = n" and "ascii_lower s = s" and "map_of ns s = Some t"
  shows "lookup_change_type duckdb_ref ns s = Inr t"
  using assms
proof (induction ns)
  case (Cons p ns)
  obtain n u where p: "p = (n, u)" by (cases p)
  have "ascii_lower n = n" using Cons.prems(1) [of n u] by (simp add: p)
  moreover have "lookup_change_type duckdb_ref ns s = Inr t" if "n \<noteq> s"
    using Cons.IH Cons.prems that by (auto simp: p)
  ultimately show ?case using Cons.prems(2,3) by (auto simp: p ref.CIEquals split: if_splits)
qed simp

lemma change_type_text_listed: "map_of change_type_names (change_type_text t) = Some t"
  by (cases t) (simp_all add: change_type_names_def)

lemma lookup_change_type_text: "lookup_change_type duckdb_ref change_type_names (change_type_text t) = Inr t"
  by (rule lookup_change_type_map_of [OF _ _ change_type_text_listed])
    (auto intro: change_type_names_lower map_of_SomeD [OF change_type_text_listed])

lemma change_type_text_no_colon: "CHR '':'' \<notin> set (change_type_text t)"
  by (cases t) simp_all

context duckdb_strings
begin

lemma lookup_change_type_ref: "lookup_change_type D ns s = lookup_change_type duckdb_ref ns s"
  by (induction ns) (auto simp: CIEquals ref.CIEquals)

lemma scan_quoted: "scan_value False (SQLQuotedIdentifier_ToString D s) = Some False"
  by (simp add: QuotedIdentifier scan_value_append scan_escaped)

lemma scan_quoted_list: "scan_value False (ToQuotedList D p CHR ''.'') = Some False"
proof (induction p)
  case (Cons x xs)
  then show ?case
    by (simp add: ToQuotedList_Cons scan_value_append scan_quoted)
qed (simp add: ToQuotedList_def Join)

lemma scan_entry_value: "scan_value False (entry_value D e) = Some False"
  by (cases e) (auto simp: scan_value_append scan_quoted_list scan_quoted SQLIdentifierToString_def
      intro: scan_digits to_string_digits)

lemma ParseChangeEntry_print:
  assumes "rest = [] \<or> hd rest = CHR '',''"
  shows "ParseChangeEntry D (print_entry D e @ rest) =
     Inr (\<lparr>change_type = entry_type e, change_value = entry_value D e\<rparr>, rest)"
proof -
  let ?n = "change_type_text (entry_type e)"
  have all: "\<forall>c \<in> set ?n. c \<noteq> CHR '':''" using change_type_text_no_colon by metis
  have "takeWhile (\<lambda>c. c \<noteq> CHR '':'') (?n @ '':'' @ entry_value D e @ rest) = ?n"
    and "dropWhile (\<lambda>c. c \<noteq> CHR '':'') (?n @ '':'' @ entry_value D e @ rest) = '':'' @ entry_value D e @ rest"
    using all by (auto simp: takeWhile_append dropWhile_append)
  moreover have "ParseChangeValue (entry_value D e @ rest) = (entry_value D e, rest)"
    using ParseChangeValue_loop_scan [OF scan_entry_value assms, of "[]"] by (simp add: ParseChangeValue_def)
  ultimately show ?thesis
    by (simp add: print_entry_def ParseChangeEntry_def ParseChangeType_def Let_def lookup_change_type_ref
        lookup_change_type_text)
qed

abbreviation parsed :: "change_entry \<Rightarrow> ParsedChange" where
  "parsed e \<equiv> \<lparr>change_type = entry_type e, change_value = entry_value D e\<rparr>"

lemma ParseChangesList_loop_print:
  "ParseChangesList_loop D acc (print_entries D es) = Inr (acc @ map parsed es)"
proof (induction es arbitrary: acc)
  case Nil
  then show ?case by (simp add: print_entries_def ParseChangesList_loop.simps)
next
  case (Cons e es)
  let ?rest = "concat (map (\<lambda>e. '','' @ print_entry D e) es)"
  have printed: "print_entries D (e # es) = print_entry D e @ ?rest" by (rule print_entries_Cons)
  have entry: "ParseChangeEntry D (print_entry D e @ ?rest) = Inr (parsed e, ?rest)"
    by (rule ParseChangeEntry_print) (cases es, simp_all)
  show ?case
  proof (cases es)
    case Nil
    with entry show ?thesis
      unfolding printed ParseChangesList_loop.simps [of D acc] by simp
  next
    case (Cons e' es')
    then have "?rest = CHR '','' # print_entries D es" by (simp add: print_entries_Cons)
    with entry Cons.IH [of "acc @ [parsed e]"] show ?thesis
      unfolding printed ParseChangesList_loop.simps [of D acc] by simp
  qed
qed

lemma ParseChangesList_print: "ParseChangesList D (print_entries D es) = Inr (map parsed es)"
  by (simp add: ParseChangesList_def ParseChangesList_loop_print)

end

text \<open>A case-insensitive table of created entries lists a name under a schema key.\<close>

definition has_entry :: "duckdb_string \<Rightarrow> string ci_map ci_map \<Rightarrow> string \<Rightarrow> string \<Rightarrow> bool" where
  "has_entry D m k n \<longleftrightarrow> (case ci_lookup D m k of None \<Rightarrow> False | Some m' \<Rightarrow> ci_lookup D m' n \<noteq> None)"

definition entry_listed ::
  "duckdb_string \<Rightarrow> ChangeType list \<Rightarrow> string \<Rightarrow> string \<Rightarrow> change_entry \<Rightarrow> bool" where
  "entry_listed D kinds k n e \<longleftrightarrow>
     (case e of
        EntryChange t p n' \<Rightarrow> t \<in> set kinds \<and> StringUtil_CIEquals D (ToQuotedList D p CHR ''.'') k \<and>
                             StringUtil_CIEquals D n' n
      | _ \<Rightarrow> False)"

text \<open>\<open>reflects D es r\<close>: the parsed summary \<open>r\<close> lists exactly the entries \<open>es\<close>.\<close>

definition index_sets :: "SnapshotChangeInformation \<Rightarrow> (ChangeType \<times> idx fset) list" where
  "index_sets r =
     [(DROPPED_SCHEMA, schema_index |`| sc_dropped_schemas r), (DROPPED_TABLE, sc_dropped_tables r),
      (DROPPED_VIEW, sc_dropped_views r), (DROPPED_SCALAR_MACRO, macro_index |`| sc_dropped_scalar_macros r),
      (DROPPED_TABLE_MACRO, macro_index |`| sc_dropped_table_macros r),
      (DROPPED_PROCEDURE, procedure_index |`| sc_dropped_procedures r),
      (INSERTED_INTO_TABLE, sc_inserted_tables r), (SET_NOT_NULL, sc_tables_set_not_null r),
      (DELETED_FROM_TABLE, sc_tables_deleted_from r), (ALTERED_TABLE, sc_altered_tables r),
      (ALTERED_VIEW, sc_altered_views r), (COMPACTED_TABLE, sc_tables_compacted r),
      (MERGE_ADJACENT, sc_tables_merge_adjacent r), (REWRITE_DELETE, sc_tables_rewrite_delete r),
      (INSERTED_INTO_TABLE_INLINED, sc_tables_inserted_inlined r),
      (DELETED_FROM_TABLE_INLINED, sc_tables_deleted_inlined r),
      (FLUSHED_INLINE_DATA_FOR_TABLE, sc_tables_flushed_inlined r)]"

definition entry_sets :: "SnapshotChangeInformation \<Rightarrow> (ChangeType list \<times> string ci_map ci_map) list" where
  "entry_sets r =
     [([CREATED_TABLE, CREATED_VIEW], sc_created_tables r), ([CREATED_SCALAR_MACRO], sc_created_scalar_macros r),
      ([CREATED_TABLE_MACRO], sc_created_table_macros r), ([CREATED_PROCEDURE], sc_created_procedures r)]"

definition reflects :: "duckdb_string \<Rightarrow> change_entry list \<Rightarrow> SnapshotChangeInformation \<Rightarrow> bool" where
  "reflects D es r \<longleftrightarrow>
     (\<forall>(t, S) \<in> set (index_sets r). \<forall>i. i |\<in>| S \<longleftrightarrow> IndexChange t i \<in> set es) \<and>
     (\<forall>(kinds, m) \<in> set (entry_sets r). \<forall>k n. has_entry D m k n \<longleftrightarrow> list_ex (entry_listed D kinds k n) es) \<and>
     (\<forall>k. ci_member D (sc_created_schemas r) k \<longleftrightarrow>
        list_ex (\<lambda>e. case e of SchemaChange p \<Rightarrow> StringUtil_CIEquals D (ToQuotedList D p CHR ''.'') k | _ \<Rightarrow> False) es)"

context duckdb_strings
begin

lemma ci_lookup_cong: "StringUtil_CIEquals D k k' \<Longrightarrow> ci_lookup D m k = ci_lookup D m k'"
  by (induction m) (auto simp: CIEquals)

lemma has_entry_insert:
  "has_entry D (ci_update D key [] (ci_map_insert D nm kind) m) k n \<longleftrightarrow>
     has_entry D m k n \<or> (StringUtil_CIEquals D key k \<and> StringUtil_CIEquals D nm n)"
  by (auto simp: has_entry_def ci_lookup_update ci_lookup_map_insert ci_lookup_cong split: option.splits)

lemma with_index_ok: "with_index D (to_string i) mk S = Inr (finsert (mk i) S)"
  by (simp add: with_index_def ToUnsigned)

lemma with_entry_ok:
  "p \<noteq> [] \<Longrightarrow> with_entry D (ToQuotedList D p CHR ''.'' @ CHR ''.'' # SQLIdentifierToString D n) kind m =
     Inr (ci_update D (ToQuotedList D p CHR ''.'') [] (ci_map_insert D n kind) m)"
  unfolding with_entry_def using ParseCatalogEntry_quoted [of p n] by (simp add: SchemaKey_def)

lemma created_schema_ok: "ParseQuotedList (ToQuotedList D p CHR ''.'') CHR ''.'' = Inr p"
  by (rule ParseQuotedList_ToQuotedList) simp

lemmas step_facts = ParseChangesMade_step_def Let_def with_index_ok with_entry_ok created_schema_ok

lemma step_total: "entry_ok e \<Longrightarrow> \<exists>r'. ParseChangesMade_step D (parsed e) r = Inr r'"
proof (cases e)
  case (IndexChange t i)
  then show "entry_ok e \<Longrightarrow> ?thesis" by (cases t) (simp_all add: step_facts entry_change_types_def)
next
  case (SchemaChange p)
  then show ?thesis by (simp add: step_facts)
next
  case (EntryChange t p n)
  then show "entry_ok e \<Longrightarrow> ?thesis" by (auto simp: step_facts entry_change_types_def)
qed

lemma step_index_change:
  assumes "entry_ok (IndexChange t j)" and "ParseChangesMade_step D (parsed (IndexChange t j)) r = Inr r'"
  shows "index_sets r' = map (\<lambda>(u, S). (u, if u = t then finsert j S else S)) (index_sets r)"
  using assms by (cases t) (auto simp: step_facts entry_change_types_def index_sets_def)

lemma step_index_sets:
  assumes "entry_ok e" and "ParseChangesMade_step D (parsed e) r = Inr r'" and "k < length (index_sets r)"
  shows "i |\<in>| snd (index_sets r' ! k) \<longleftrightarrow>
     i |\<in>| snd (index_sets r ! k) \<or> e = IndexChange (fst (index_sets r ! k)) i"
proof (cases e)
  case (IndexChange t j)
  with assms have "index_sets r' ! k = (\<lambda>(u, S). (u, if u = t then finsert j S else S)) (index_sets r ! k)"
    using step_index_change [of t j r r'] by simp
  then show ?thesis by (auto simp: IndexChange split: prod.splits if_splits)
next
  case (SchemaChange p)
  with assms(2) have "index_sets r' = index_sets r" by (auto simp: step_facts index_sets_def)
  with SchemaChange show ?thesis by simp
next
  case (EntryChange t p n)
  with assms(1,2) have "index_sets r' = index_sets r"
    by (auto simp: step_facts index_sets_def entry_change_types_def)
  with EntryChange show ?thesis by simp
qed

lemma step_entry_sets:
  assumes "entry_ok e" and "ParseChangesMade_step D (parsed e) r = Inr r'" and "j < length (entry_sets r)"
  shows "has_entry D (snd (entry_sets r' ! j)) k n \<longleftrightarrow>
     has_entry D (snd (entry_sets r ! j)) k n \<or> entry_listed D (fst (entry_sets r ! j)) k n e"
proof (cases e)
  case (IndexChange t i)
  with assms(1,2) have "entry_sets r' = entry_sets r"
    by (cases t) (auto simp: step_facts entry_sets_def entry_change_types_def)
  with IndexChange show ?thesis by (simp add: entry_listed_def)
next
  case (SchemaChange p)
  with assms(2) have "entry_sets r' = entry_sets r" by (auto simp: step_facts entry_sets_def)
  with SchemaChange show ?thesis by (simp add: entry_listed_def)
next
  case (EntryChange t p nm)
  have "j \<in> {0, 1, 2, 3}" using assms(3) by (auto simp: entry_sets_def)
  with assms(1,2) show ?thesis
    unfolding EntryChange entry_listed_def
    by (auto simp: step_facts entry_change_types_def entry_sets_def has_entry_insert)
qed

lemma step_schemas:
  assumes "entry_ok e" and "ParseChangesMade_step D (parsed e) r = Inr r'"
  shows "ci_member D (sc_created_schemas r') k \<longleftrightarrow> ci_member D (sc_created_schemas r) k \<or>
     (case e of SchemaChange p \<Rightarrow> StringUtil_CIEquals D (ToQuotedList D p CHR ''.'') k | _ \<Rightarrow> False)"
proof (cases e)
  case (IndexChange t i)
  with assms show ?thesis by (cases t) (auto simp: step_facts entry_change_types_def)
qed (use assms in \<open>auto simp: step_facts entry_change_types_def\<close>)

lemma index_sets_shape:
  "length (index_sets r) = 17" "map fst (index_sets r) = map fst (index_sets r')"
  "length (entry_sets r) = 4" "map fst (entry_sets r) = map fst (entry_sets r')"
  by (simp_all add: index_sets_def entry_sets_def)

lemma empty_sets:
  "j < 17 \<Longrightarrow> i |\<notin>| snd (index_sets SnapshotChangeInformation_empty ! j)"
  "j < 4 \<Longrightarrow> \<not> has_entry D (snd (entry_sets SnapshotChangeInformation_empty ! j)) k n"
proof -
  have "\<forall>p \<in> set (index_sets SnapshotChangeInformation_empty). snd p = {||}"
    by (simp add: index_sets_def SnapshotChangeInformation_empty_def)
  then show "j < 17 \<Longrightarrow> i |\<notin>| snd (index_sets SnapshotChangeInformation_empty ! j)"
    by (metis fempty_iff index_sets_shape(1) nth_mem)
  have "\<forall>p \<in> set (entry_sets SnapshotChangeInformation_empty). snd p = []"
    by (simp add: entry_sets_def SnapshotChangeInformation_empty_def)
  then have "j < 4 \<Longrightarrow> snd (entry_sets SnapshotChangeInformation_empty ! j) = []"
    by (metis index_sets_shape(3) nth_mem)
  then show "j < 4 \<Longrightarrow> \<not> has_entry D (snd (entry_sets SnapshotChangeInformation_empty ! j)) k n"
    by (simp add: has_entry_def)
qed

lemma ParseChangesMade_print:
  assumes ok: "\<And>e. e \<in> set es \<Longrightarrow> entry_ok e"
  shows "\<exists>r. ParseChangesMade D (print_entries D es) = Inr r \<and> reflects D es r"
proof -
  let ?f = "\<lambda>e. ParseChangesMade_step D (parsed e)" and ?r0 = SnapshotChangeInformation_empty
  obtain r where r: "fold_res ?f es ?r0 = Inr r"
    using fold_res_total [of es ?f] step_total ok by blast
  have parse: "ParseChangesMade D (print_entries D es) = Inr r"
    by (simp add: ParseChangesMade_def ParseChangesList_print fold_res_map r)
  have idx: "i |\<in>| snd (index_sets r ! j) \<longleftrightarrow> IndexChange (fst (index_sets r ! j)) i \<in> set es" if j: "j < 17" for i j
  proof -
    have type: "fst (index_sets x ! j) = fst (index_sets r ! j)" for x
      using j index_sets_shape(1,2) by (metis nth_map)
    have "i |\<in>| snd (index_sets r ! j) \<longleftrightarrow> i |\<in>| snd (index_sets ?r0 ! j) \<or>
        list_ex (\<lambda>e. e = IndexChange (fst (index_sets r ! j)) i) es"
    proof (rule fold_res_collects [OF r])
      fix x s u
      assume "x \<in> set es" and "ParseChangesMade_step D (parsed x) s = Inr u"
      then show "i |\<in>| snd (index_sets u ! j) \<longleftrightarrow>
          i |\<in>| snd (index_sets s ! j) \<or> x = IndexChange (fst (index_sets r ! j)) i"
        using step_index_sets [OF ok, of x s u j i] j by (simp add: index_sets_shape(1) type [of s])
    qed
    then show ?thesis using empty_sets(1) [OF j] by (simp add: list_ex_iff)
  qed
  have ent: "has_entry D (snd (entry_sets r ! j)) k n \<longleftrightarrow> list_ex (entry_listed D (fst (entry_sets r ! j)) k n) es"
    if j: "j < 4" for j k n
  proof -
    have type: "fst (entry_sets x ! j) = fst (entry_sets r ! j)" for x
      using j index_sets_shape(3,4) by (metis nth_map)
    have "has_entry D (snd (entry_sets r ! j)) k n \<longleftrightarrow> has_entry D (snd (entry_sets ?r0 ! j)) k n \<or>
        list_ex (entry_listed D (fst (entry_sets r ! j)) k n) es"
    proof (rule fold_res_collects [OF r])
      fix x s u
      assume "x \<in> set es" and "ParseChangesMade_step D (parsed x) s = Inr u"
      then show "has_entry D (snd (entry_sets u ! j)) k n \<longleftrightarrow>
          has_entry D (snd (entry_sets s ! j)) k n \<or> entry_listed D (fst (entry_sets r ! j)) k n x"
        using step_entry_sets [OF ok, of x s u j k n] j by (simp add: index_sets_shape(3) type [of s])
    qed
    then show ?thesis using empty_sets(2) [OF j] by simp
  qed
  have sch: "ci_member D (sc_created_schemas r) k \<longleftrightarrow> ci_member D (sc_created_schemas ?r0) k \<or>
      list_ex (\<lambda>e. case e of SchemaChange p \<Rightarrow> StringUtil_CIEquals D (ToQuotedList D p CHR ''.'') k | _ \<Rightarrow> False) es" for k
    by (rule fold_res_collects [OF r]) (use step_schemas ok in blast)
  have "\<forall>p \<in> set (index_sets r). \<forall>i. i |\<in>| snd p \<longleftrightarrow> IndexChange (fst p) i \<in> set es"
    unfolding all_set_conv_all_nth index_sets_shape using idx by simp
  moreover have "\<forall>p \<in> set (entry_sets r). \<forall>k n. has_entry D (snd p) k n \<longleftrightarrow> list_ex (entry_listed D (fst p) k n) es"
    unfolding all_set_conv_all_nth index_sets_shape using ent by simp
  moreover have "\<not> ci_member D (sc_created_schemas ?r0) k" for k
    by (simp add: ci_member_def SnapshotChangeInformation_empty_def)
  ultimately have "reflects D es r"
    unfolding reflects_def case_prod_beta using sch by simp
  with parse show ?thesis by blast
qed

end

section \<open>The entries of a summary\<close>

definition index_changes :: "DuckLakeCommitState \<Rightarrow> ChangeType \<Rightarrow> TableIndex fset \<Rightarrow> change_entry list" where
  "index_changes cs t S = map (\<lambda>i. IndexChange t (GetTableId cs i)) (sorted_list_of_fset S)"

definition entry_changes :: "(catalog_entry \<Rightarrow> ChangeType) \<Rightarrow> catalog_entry list ci_map \<Rightarrow> change_entry list" where
  "entry_changes kind m =
     concat (map (\<lambda>(k, es). map (\<lambda>e. EntryChange (kind e) (key_path k) (ce_name e)) es) m)"

definition table_or_view :: "catalog_entry \<Rightarrow> ChangeType" where
  "table_or_view e = (if ce_type e = VIEW_ENTRY then CREATED_VIEW else CREATED_TABLE)"

definition catalog_entries :: "DuckLakeCommitState \<Rightarrow> TransactionChangeInformation \<Rightarrow> change_entry list" where
  "catalog_entries cs c =
     map (\<lambda>(i, _). IndexChange DROPPED_SCHEMA (schema_index i)) (tc_dropped_schemas c) @
     index_changes cs DROPPED_TABLE (tc_dropped_tables c) @
     index_changes cs DROPPED_VIEW (tc_dropped_views c) @
     map (\<lambda>(k, _). SchemaChange (key_path k)) (tc_created_schemas c) @
     entry_changes table_or_view (tc_created_tables c) @
     entry_changes (\<lambda>_. CREATED_SCALAR_MACRO) (tc_created_scalar_macros c) @
     entry_changes (\<lambda>_. CREATED_TABLE_MACRO) (tc_created_table_macros c) @
     entry_changes (\<lambda>_. CREATED_PROCEDURE) (tc_created_procedures c) @
     map (\<lambda>i. IndexChange DROPPED_SCALAR_MACRO (macro_index i)) (sorted_list_of_fset (tc_dropped_scalar_macros c)) @
     map (\<lambda>i. IndexChange DROPPED_TABLE_MACRO (macro_index i)) (sorted_list_of_fset (tc_dropped_table_macros c)) @
     map (\<lambda>i. IndexChange DROPPED_PROCEDURE (procedure_index i)) (sorted_list_of_fset (tc_dropped_procedures c))"

definition table_entries :: "DuckLakeCommitState \<Rightarrow> TransactionChangeInformation \<Rightarrow> change_entry list" where
  "table_entries cs c =
     index_changes cs INSERTED_INTO_TABLE (tc_tables_inserted_into c) @
     index_changes cs SET_NOT_NULL (tc_tables_set_not_null c) @
     index_changes cs DELETED_FROM_TABLE (tc_tables_deleted_from c) @
     index_changes cs ALTERED_TABLE (tc_altered_tables c) @
     index_changes cs ALTERED_VIEW (tc_altered_views c) @
     index_changes cs INSERTED_INTO_TABLE_INLINED (tc_tables_inserted_inlined c) @
     index_changes cs DELETED_FROM_TABLE_INLINED (tc_tables_deleted_inlined c) @
     index_changes cs FLUSHED_INLINE_DATA_FOR_TABLE (tc_tables_flushed_inlined c)"

definition compaction_entries :: "DuckLakeCommitState \<Rightarrow> TransactionChangeInformation \<Rightarrow> change_entry list" where
  "compaction_entries cs c =
     index_changes cs MERGE_ADJACENT (tc_tables_merge_adjacent c) @
     index_changes cs REWRITE_DELETE (tc_tables_rewrite_delete c)"

definition written_entries :: "DuckLakeCommitState \<Rightarrow> TransactionChangeInformation \<Rightarrow> change_entry list" where
  "written_entries cs c = catalog_entries cs c @ table_entries cs c @ compaction_entries cs c"

text \<open>The keys of the created entries are path keys of schemas.\<close>

definition path_keys_ok :: "duckdb_string \<Rightarrow> 'v ci_map \<Rightarrow> bool" where
  "path_keys_ok D m \<longleftrightarrow>
     list_all (\<lambda>(k, _). key_path k \<noteq> [] \<and> k = ToQuotedList D (key_path k) CHR ''.'') m"

definition summary_keys_ok :: "duckdb_string \<Rightarrow> TransactionChangeInformation \<Rightarrow> bool" where
  "summary_keys_ok D c \<longleftrightarrow>
     path_keys_ok D (tc_created_schemas c) \<and> path_keys_ok D (tc_created_tables c) \<and>
     path_keys_ok D (tc_created_scalar_macros c) \<and> path_keys_ok D (tc_created_table_macros c) \<and>
     path_keys_ok D (tc_created_procedures c)"

lemma append_print:
  "map (print_pair D) fs = ps \<Longrightarrow> append_changes ps (print_entries D es) = print_entries D (es @ fs)"
  by (auto simp: append_changes_print [symmetric] append_changes_append)

lemma AddChangeInfo_print:
  "change_type_text t = kind \<Longrightarrow>
     AddChangeInfo cs S kind (print_entries D es) = print_entries D (es @ index_changes cs t S)"
  unfolding AddChangeInfo_def by (rule append_print) (auto simp: index_changes_def print_pair_def)

lemma write_created_entries_print:
  assumes "path_keys_ok D m" and "\<And>e. change_type_text (kind e) = text_of e"
  shows "write_created_entries D text_of m (print_entries D es) = print_entries D (es @ entry_changes kind m)"
  using assms(1)
proof (induction m arbitrary: es)
  case (Cons p m)
  obtain k cs where p: "p = (k, cs)" by (cases p)
  have "append_changes (map (\<lambda>e. (text_of e, k @ ''.'' @ SQLIdentifierToString D (ce_name e))) cs) (print_entries D es) =
      print_entries D (es @ map (\<lambda>e. EntryChange (kind e) (key_path k) (ce_name e)) cs)"
    using Cons.prems by (intro append_print) (auto simp: p path_keys_ok_def print_pair_def assms(2))
  with Cons show ?case
    by (simp add: p write_created_entries_def entry_changes_def path_keys_ok_def)
qed (simp add: write_created_entries_def entry_changes_def)

lemma append_indexes_print:
  "change_type_text t = kind \<Longrightarrow>
     append_changes (map (\<lambda>x. (kind, to_string (ix x))) xs) (print_entries D es) =
     print_entries D (es @ map (\<lambda>x. IndexChange t (ix x)) xs)"
  by (rule append_print) (auto simp: print_pair_def)

lemma print_entries_Nil: "print_entries D [] = []"
  by (simp add: print_entries_def)

lemma write_catalog_changes_print:
  assumes "summary_keys_ok D c"
  shows "write_catalog_changes D cs c = print_entries D (catalog_entries cs c)"
proof -
  have keys: "path_keys_ok D (tc_created_schemas c)" "path_keys_ok D (tc_created_tables c)"
    "path_keys_ok D (tc_created_scalar_macros c)" "path_keys_ok D (tc_created_table_macros c)"
    "path_keys_ok D (tc_created_procedures c)"
    using assms by (simp_all add: summary_keys_ok_def)
  have schemas: "append_changes (map (\<lambda>(k, _). (''created_schema'', k)) (tc_created_schemas c)) (print_entries D es) =
      print_entries D (es @ map (\<lambda>(k, _). SchemaChange (key_path k)) (tc_created_schemas c))" for es
    using keys(1) by (intro append_print) (auto simp: print_pair_def path_keys_ok_def list_all_iff)
  have first: "append_changes (map (\<lambda>(i, _). (''dropped_schema'', to_string (schema_index i))) (tc_dropped_schemas c)) [] =
      print_entries D (map (\<lambda>(i, _). IndexChange DROPPED_SCHEMA (schema_index i)) (tc_dropped_schemas c))"
    by (subst append_changes_print [symmetric], rule arg_cong [where f = "\<lambda>ps. append_changes ps []"])
      (auto simp: print_pair_def)
  show ?thesis
    unfolding write_catalog_changes_def Let_def first
    by (simp add: AddChangeInfo_print [where t = DROPPED_TABLE] AddChangeInfo_print [where t = DROPPED_VIEW] schemas
        write_created_entries_print [OF keys(2), where kind = table_or_view] table_or_view_def
        write_created_entries_print [OF keys(3), where kind = "\<lambda>_. CREATED_SCALAR_MACRO"]
        write_created_entries_print [OF keys(4), where kind = "\<lambda>_. CREATED_TABLE_MACRO"]
        write_created_entries_print [OF keys(5), where kind = "\<lambda>_. CREATED_PROCEDURE"]
        append_indexes_print [where t = DROPPED_SCALAR_MACRO] append_indexes_print [where t = DROPPED_TABLE_MACRO]
        append_indexes_print [where t = DROPPED_PROCEDURE] catalog_entries_def)
qed

lemma write_table_changes_print:
  "write_table_changes cs c (print_entries D es) = print_entries D (es @ table_entries cs c)"
  unfolding write_table_changes_def Let_def
  by (simp add: AddChangeInfo_print [where t = INSERTED_INTO_TABLE] AddChangeInfo_print [where t = SET_NOT_NULL]
      AddChangeInfo_print [where t = DELETED_FROM_TABLE] AddChangeInfo_print [where t = ALTERED_TABLE]
      AddChangeInfo_print [where t = ALTERED_VIEW] AddChangeInfo_print [where t = INSERTED_INTO_TABLE_INLINED]
      AddChangeInfo_print [where t = DELETED_FROM_TABLE_INLINED]
      AddChangeInfo_print [where t = FLUSHED_INLINE_DATA_FOR_TABLE] table_entries_def)

lemma readd_keeps:
  assumes "\<And>t d c. sel (AddTableChanges t d c) = sel c"
  shows "sel (readd_table_changes s cs c) = sel (c\<lparr>tc_tables_deleted_from := st_tables_deleted_from s\<rparr>)"
proof -
  have "sel (fold (\<lambda>(t, d). AddTableChanges (GetTableId cs t) d) xs c') = sel c'" for xs c'
    by (induction xs arbitrary: c') (simp_all add: assms case_prod_beta)
  then show ?thesis by (simp add: readd_table_changes_def)
qed

lemma AddTableChanges_keeps:
  "tc_created_schemas (AddTableChanges t d c) = tc_created_schemas c"
  "tc_created_tables (AddTableChanges t d c) = tc_created_tables c"
  "tc_created_scalar_macros (AddTableChanges t d c) = tc_created_scalar_macros c"
  "tc_created_table_macros (AddTableChanges t d c) = tc_created_table_macros c"
  "tc_created_procedures (AddTableChanges t d c) = tc_created_procedures c"
  "tc_dropped_tables (AddTableChanges t d c) = tc_dropped_tables c"
  "tc_altered_tables (AddTableChanges t d c) = tc_altered_tables c"
  "tc_tables_set_not_null (AddTableChanges t d c) = tc_tables_set_not_null c"
  by (simp_all add: AddTableChanges_def Let_def)

lemma readd_summary_keys: "summary_keys_ok D (readd_table_changes s cs c) \<longleftrightarrow> summary_keys_ok D c"
  unfolding summary_keys_ok_def
  by (simp add: readd_keeps [of tc_created_schemas] readd_keeps [of tc_created_tables]
      readd_keeps [of tc_created_scalar_macros] readd_keeps [of tc_created_table_macros]
      readd_keeps [of tc_created_procedures] AddTableChanges_keeps)

lemma WriteSnapshotChanges_print:
  assumes "summary_keys_ok D c0" and "WriteSnapshotChanges D s cs c0 = Inr (txt, c)"
  shows "c = readd_table_changes s cs c0" and "txt = print_entries D (written_entries cs c)"
    and "compaction_entries cs c = [] \<or> catalog_entries cs c @ table_entries cs c = []"
proof -
  let ?c = "readd_table_changes s cs c0"
  have made: "write_table_changes cs ?c (write_catalog_changes D cs ?c) =
      print_entries D (catalog_entries cs ?c @ table_entries cs ?c)"
    using assms(1) by (simp add: write_catalog_changes_print readd_summary_keys write_table_changes_print)
  have [simp]: "sorted_list_of_fset ({||} :: TableIndex fset) = []" by (simp add: sorted_list_of_fset.rep_eq)
  have empty: "print_entries D es = [] \<longleftrightarrow> es = []" for es
    by (cases es) (simp_all add: print_entries_Nil print_entries_Cons)
  from assms(2) show c: "c = ?c" and "txt = print_entries D (written_entries cs c)"
    and "compaction_entries cs c = [] \<or> catalog_entries cs c @ table_entries cs c = []"
    by (auto simp: WriteSnapshotChanges_def Let_def made AddChangeInfo_print [where t = MERGE_ADJACENT]
        AddChangeInfo_print [where t = REWRITE_DELETE] written_entries_def compaction_entries_def index_changes_def
        empty split: if_splits)
qed

lemma index_changes_empty [simp]: "index_changes cs t S = [] \<longleftrightarrow> S = {||}"
proof -
  have "sorted_list_of_fset S = [] \<longleftrightarrow> set (sorted_list_of_fset S) = fset {||}"
    by (simp only: bot_fset.rep_eq set_empty)
  also have "\<dots> \<longleftrightarrow> S = {||}" by (simp only: sorted_list_of_fset_simps fset_inject)
  finally show ?thesis by (simp add: index_changes_def)
qed

lemma WriteSnapshotChanges_refuses:
  assumes "summary_keys_ok D c0"
  shows "\<not> is_ok (WriteSnapshotChanges D s cs c0) \<longleftrightarrow>
    (let c = readd_table_changes s cs c0
     in compaction_entries cs c \<noteq> [] \<and> catalog_entries cs c @ table_entries cs c \<noteq> [])"
proof -
  let ?c = "readd_table_changes s cs c0"
  have made: "write_table_changes cs ?c (write_catalog_changes D cs ?c) =
      print_entries D (catalog_entries cs ?c @ table_entries cs ?c)"
    using assms by (simp add: write_catalog_changes_print readd_summary_keys write_table_changes_print)
  have empty: "print_entries D es = [] \<longleftrightarrow> es = []" for es
    by (cases es) (simp_all add: print_entries_Nil print_entries_Cons)
  show ?thesis
    unfolding WriteSnapshotChanges_def Let_def made empty compaction_entries_def is_ok_if by auto
qed

lemma index_changes_ok: "e \<in> set (index_changes cs t S) \<Longrightarrow> t \<notin> set (CREATED_SCHEMA # entry_change_types) \<Longrightarrow> entry_ok e"
  by (auto simp: index_changes_def)

lemma entry_changes_ok:
  "path_keys_ok D m \<Longrightarrow> (\<And>c. kind c \<in> set entry_change_types) \<Longrightarrow> e \<in> set (entry_changes kind m) \<Longrightarrow> entry_ok e"
  by (auto simp: entry_changes_def path_keys_ok_def list_all_iff)

lemma written_entries_ok:
  assumes "summary_keys_ok D c" and "e \<in> set (written_entries cs c)"
  shows "entry_ok e"
proof -
  have keys: "path_keys_ok D (tc_created_tables c)" "path_keys_ok D (tc_created_scalar_macros c)"
    "path_keys_ok D (tc_created_table_macros c)" "path_keys_ok D (tc_created_procedures c)"
    using assms(1) by (simp_all add: summary_keys_ok_def)
  have kinds: "table_or_view x \<in> set entry_change_types" "CREATED_SCALAR_MACRO \<in> set entry_change_types"
    "CREATED_TABLE_MACRO \<in> set entry_change_types" "CREATED_PROCEDURE \<in> set entry_change_types" for x
    by (simp_all add: table_or_view_def entry_change_types_def)
  note created = entry_changes_ok [OF keys(1) kinds(1)] entry_changes_ok [OF keys(2) kinds(2)]
    entry_changes_ok [OF keys(3) kinds(3)] entry_changes_ok [OF keys(4) kinds(4)]
  show ?thesis
    using assms(2) unfolding written_entries_def catalog_entries_def table_entries_def compaction_entries_def set_append Un_iff
    by (elim disjE created) (auto simp: entry_change_types_def dest: index_changes_ok)
qed

section \<open>The keys a transaction reports\<close>

lemma path_keys_ok_update:
  "path_keys_ok D m \<Longrightarrow> path_keys_ok D [(k, v)] \<Longrightarrow> path_keys_ok D (ci_update D k d f m)"
  by (induction m) (auto simp: path_keys_ok_def)

lemma path_keys_ok_insert:
  "path_keys_ok D m \<Longrightarrow> path_keys_ok D [(k, v)] \<Longrightarrow> path_keys_ok D (ci_map_insert D k v m)"
  by (auto simp: path_keys_ok_def ci_map_insert_def split: option.split)

context duckdb_strings
begin

lemma key_path_PathKey: "key_path (PathKey D e) = schema_names e"
  by (simp add: key_path_def PathKey_eq created_schema_ok)

lemma PathKey_ok: "path_keys_ok D [(PathKey D e, v)]"
  by (simp add: path_keys_ok_def key_path_PathKey) (simp add: PathKey_eq)

lemma created_by_schema_keys: "path_keys_ok D (created_by_schema D m)"
proof -
  have "path_keys_ok D acc \<Longrightarrow> path_keys_ok D (fold (\<lambda>versions acc. case versions of [] \<Rightarrow> acc
      | e # _ \<Rightarrow> ci_update D (PathKey D (ce_ParentSchema e)) [] (\<lambda>es. es @ [catalog_entry.truncate e]) acc) vs acc)"
    for vs :: "entry_chain list" and acc
    by (induction vs arbitrary: acc) (auto split: list.split intro: path_keys_ok_update PathKey_ok)
  then show ?thesis by (simp add: created_by_schema_def path_keys_ok_def)
qed

lemma report_created_keys: "summary_keys_ok D c \<Longrightarrow> summary_keys_ok D (report_created D e c)"
  by (simp add: summary_keys_ok_def report_created_def path_keys_ok_update PathKey_ok)

lemma report_altered_keys: "summary_keys_ok D (report_altered t b c) \<longleftrightarrow> summary_keys_ok D c"
  by (simp add: summary_keys_ok_def report_altered_def)

lemma table_changes_keys: "summary_keys_ok D c \<Longrightarrow> summary_keys_ok D (GetTransactionTableChanges D versions c)"
proof -
  have "summary_keys_ok D c \<Longrightarrow> summary_keys_ok D (table_version_changes D e c)" for e c
    by (cases "lc_type (le_local_change e)")
      (simp_all add: table_version_changes_def Let_def report_created_keys report_altered_keys,
       simp add: summary_keys_ok_def report_altered_def)
  then show "summary_keys_ok D c \<Longrightarrow> ?thesis"
    unfolding GetTransactionTableChanges_def by (induction versions arbitrary: c) simp_all
qed

lemma view_changes_keys:
  assumes "GetTransactionViewChanges D versions c = Inr c'" and "summary_keys_ok D c"
  shows "summary_keys_ok D c'"
  using assms(1) [unfolded GetTransactionViewChanges_def] assms(2)
proof (rule fold_res_invariant)
  have view_altered: "summary_keys_ok D (c\<lparr>tc_altered_views := V\<rparr>) \<longleftrightarrow> summary_keys_ok D c" for c V
    by (simp add: summary_keys_ok_def)
  fix e s t
  assume "summary_keys_ok D s" and "view_version_changes D e s = Inr t"
  then show "summary_keys_ok D t"
    by (cases "lc_type (le_local_change e)")
      (auto simp: view_version_changes_def Let_def report_created_keys view_altered split: if_splits)
qed

lemma GetTransactionChanges_keys:
  assumes "GetTransactionChanges D s = Inr c"
  shows "summary_keys_ok D c"
proof -
  have "path_keys_ok D m \<Longrightarrow> path_keys_ok D (fold (\<lambda>(k, e) m. ci_map_insert D (PathKey D e) e m) es m)"
    for es :: "schema_entry ci_map" and m
    by (induction es arbitrary: m) (auto intro: path_keys_ok_insert PathKey_ok)
  then have schemas: "path_keys_ok D (fold (\<lambda>(k, e) m. ci_map_insert D (PathKey D e) e m) es [])"
    for es :: "schema_entry ci_map"
    by (simp add: path_keys_ok_def)
  have c1: "summary_keys_ok D (catalog_changes D s)"
    by (simp add: catalog_changes_def summary_keys_ok_def created_by_schema_keys schemas
        TransactionChangeInformation_empty_def path_keys_ok_def [of D "[]"] split: option.split)
  obtain c2 where c2: "fold_res (add_new_entry D) (set_entries (st_new_tables s)) (catalog_changes D s) = Inr c2"
    and c: "c = add_local_changes (st_local_changes s)
      (c2\<lparr>tc_tables_deleted_from := st_tables_deleted_from s, tc_tables_delete_attempted := st_tables_delete_attempted s\<rparr>)"
    using assms
    by (auto simp: GetTransactionChanges_def bind_res_Inr_iff)
  have "summary_keys_ok D c2"
  proof (rule fold_res_invariant [where P = "summary_keys_ok D", OF c2 c1])
    fix versions s t
    assume "summary_keys_ok D s" and "add_new_entry D versions s = Inr t"
    then show "summary_keys_ok D t"
      by (auto simp: add_new_entry_def intro: table_changes_keys view_changes_keys split: list.splits CatalogType.splits)
  qed
  then have "summary_keys_ok D (c2\<lparr>tc_tables_deleted_from := a, tc_tables_delete_attempted := b\<rparr>)" for a b
    by (simp add: summary_keys_ok_def)
  have add: "summary_keys_ok D (AddTableChanges t x d) \<longleftrightarrow> summary_keys_ok D d" for t x d
    by (simp add: summary_keys_ok_def AddTableChanges_keeps)
  have "summary_keys_ok D d \<Longrightarrow> summary_keys_ok D (add_local_changes changes d)" for changes d
    by (induction changes arbitrary: d) (auto simp: add)
  with \<open>\<And>a b. summary_keys_ok D (c2\<lparr>tc_tables_deleted_from := a, tc_tables_delete_attempted := b\<rparr>)\<close>
  show ?thesis by (simp add: c)
qed

text \<open>Whatever the text, the keys of the parsed summary are quoted lists.\<close>

lemma created_keys_update: "fst ` set (ci_update D key d f m) \<subseteq> insert key (fst ` set m)"
proof (induction m)
  case (Cons p m)
  then show ?case by (cases p; cases "StringUtil_CIEquals D (fst p) key") auto
qed simp

definition quoted_key :: "string \<Rightarrow> bool" where
  "quoted_key k \<longleftrightarrow> k = ToQuotedList D (key_path k) CHR ''.''"

lemma quoted_key_ToQuotedList: "quoted_key (ToQuotedList D p CHR ''.'')"
  by (simp add: quoted_key_def key_path_def created_schema_ok)

lemma with_entry_keys:
  assumes "with_entry D v kind m = Inr m'" and "list_all quoted_key (map fst m)"
  shows "list_all quoted_key (map fst m')"
proof -
  obtain e where "m' = ci_update D (SchemaKey D e) [] (ci_map_insert D (entry_name e) kind) m"
    using assms(1) by (auto simp: with_entry_def bind_res_Inr_iff)
  then have "set (map fst m') \<subseteq> insert (SchemaKey D e) (set (map fst m))"
    using created_keys_update by simp
  moreover have "quoted_key (SchemaKey D e)" by (simp add: SchemaKey_def quoted_key_ToQuotedList)
  ultimately show ?thesis using assms(2) unfolding list_all_iff by blast
qed

lemma step_keys:
  assumes "ParseChangesMade_step D e r = Inr r'" and "list_all quoted_key (created_keys r)"
  shows "list_all quoted_key (created_keys r')"
  using assms
  by (cases "change_type e")
    (auto simp: ParseChangesMade_step_def Let_def bind_res_Inr_iff created_keys_def ci_insert_def
      quoted_key_ToQuotedList dest: with_entry_keys)

lemma ParseChangesMade_keys_ok:
  assumes "ParseChangesMade D txt = Inr r"
  shows "keys_ok D r"
proof -
  obtain es where es: "fold_res (ParseChangesMade_step D) es SnapshotChangeInformation_empty = Inr r"
    using assms by (auto simp: ParseChangesMade_def bind_res_Inr_iff)
  have "list_all quoted_key (created_keys r)"
  proof (rule fold_res_invariant [OF es])
    show "list_all quoted_key (created_keys SnapshotChangeInformation_empty)"
      by (simp add: created_keys_def SnapshotChangeInformation_empty_def)
  qed (rule step_keys)
  then show ?thesis by (simp add: keys_ok_def quoted_key_def list_all_iff)
qed

end

section \<open>Texts of several snapshots\<close>

text \<open>
  \<^verbatim>\<open>STRING_AGG(changes_made, ',')\<close> of the query for newer snapshots; a snapshot without changes stores
  NULL, which the aggregate skips.
\<close>

definition aggregate_changes :: "string list \<Rightarrow> string" where
  "aggregate_changes texts = join_strings (filter (\<lambda>t. t \<noteq> []) texts) '',''"

lemma join_strings_append:
  "xs \<noteq> [] \<Longrightarrow> ys \<noteq> [] \<Longrightarrow> join_strings (xs @ ys) sep = join_strings xs sep @ sep @ join_strings ys sep"
proof (induction xs sep rule: join_strings.induct)
  case (2 x sep)
  then show ?case by (cases ys) simp_all
qed simp_all

lemma print_entries_empty_iff [simp]: "print_entries D es = [] \<longleftrightarrow> es = []"
  by (cases es) (simp_all add: print_entries_Nil print_entries_Cons)

lemma print_entries_append:
  "es \<noteq> [] \<Longrightarrow> fs \<noteq> [] \<Longrightarrow> print_entries D (es @ fs) = print_entries D es @ '','' @ print_entries D fs"
  by (simp add: print_entries_def join_strings_append)

lemma aggregate_print: "aggregate_changes (map (print_entries D) ess) = print_entries D (concat ess)"
proof (induction ess)
  case Nil
  then show ?case by (simp add: aggregate_changes_def print_entries_Nil)
next
  case (Cons es ess)
  let ?f = "\<lambda>ess. filter (\<lambda>t. t \<noteq> []) (map (print_entries D) ess)"
  show ?case
  proof (cases "es = [] \<or> concat ess = []")
    case True
    have none: "?f ess = []" if "concat ess = []" using that by (induction ess) auto
    show ?thesis
    proof (cases "es = []")
      case True
      with Cons.IH show ?thesis by (simp add: aggregate_changes_def print_entries_Nil)
    next
      case False
      with \<open>es = [] \<or> concat ess = []\<close> have "concat ess = []" by simp
      with none False show ?thesis
        unfolding concat.simps by (simp only: append_Nil2) (simp add: aggregate_changes_def)
    qed
  next
    case False
    then have "?f ess \<noteq> []" by (induction ess) (auto simp: filter_empty_conv)
    then have "aggregate_changes (map (print_entries D) (es # ess)) =
        print_entries D es @ '','' @ aggregate_changes (map (print_entries D) ess)"
      using False join_strings_append [of "[print_entries D es]" "?f ess" "'',''"]
      by (simp add: aggregate_changes_def)
    then show ?thesis using False by (simp add: Cons.IH print_entries_append)
  qed
qed

section \<open>What a reader learns\<close>

definition created_lists :: "duckdb_string \<Rightarrow> catalog_entry list ci_map \<Rightarrow> string \<Rightarrow> string \<Rightarrow> bool" where
  "created_lists D m k n \<longleftrightarrow>
     list_ex (\<lambda>(k', es). StringUtil_CIEquals D k' k \<and> list_ex (\<lambda>e. StringUtil_CIEquals D (ce_name e) n) es) m"

text \<open>
  \<open>read_back D cs c r\<close>: the parsed summary \<open>r\<close> has the table sets of the summary \<open>c\<close> under their
  committed identifiers, and its created names up to letter case.
\<close>

definition read_back ::
  "duckdb_string \<Rightarrow> DuckLakeCommitState \<Rightarrow> TransactionChangeInformation \<Rightarrow> SnapshotChangeInformation \<Rightarrow> bool" where
  "read_back D cs c r \<longleftrightarrow>
     sc_dropped_schemas r = fset_of_list (map fst (tc_dropped_schemas c)) \<and>
     sc_dropped_tables r = GetTableId cs |`| tc_dropped_tables c \<and>
     sc_dropped_views r = GetTableId cs |`| tc_dropped_views c \<and>
     sc_dropped_scalar_macros r = tc_dropped_scalar_macros c \<and>
     sc_dropped_table_macros r = tc_dropped_table_macros c \<and>
     sc_dropped_procedures r = tc_dropped_procedures c \<and>
     sc_inserted_tables r = GetTableId cs |`| tc_tables_inserted_into c \<and>
     sc_tables_set_not_null r = GetTableId cs |`| tc_tables_set_not_null c \<and>
     sc_tables_deleted_from r = GetTableId cs |`| tc_tables_deleted_from c \<and>
     sc_altered_tables r = GetTableId cs |`| tc_altered_tables c \<and>
     sc_altered_views r = GetTableId cs |`| tc_altered_views c \<and>
     sc_tables_compacted r = {||} \<and>
     sc_tables_merge_adjacent r = GetTableId cs |`| tc_tables_merge_adjacent c \<and>
     sc_tables_rewrite_delete r = GetTableId cs |`| tc_tables_rewrite_delete c \<and>
     sc_tables_inserted_inlined r = GetTableId cs |`| tc_tables_inserted_inlined c \<and>
     sc_tables_deleted_inlined r = GetTableId cs |`| tc_tables_deleted_inlined c \<and>
     sc_tables_flushed_inlined r = GetTableId cs |`| tc_tables_flushed_inlined c \<and>
     (\<forall>k. ci_member D (sc_created_schemas r) k \<longleftrightarrow> ci_member D (map fst (tc_created_schemas c)) k) \<and>
     (\<forall>k n. has_entry D (sc_created_tables r) k n \<longleftrightarrow> created_lists D (tc_created_tables c) k n) \<and>
     (\<forall>k n. has_entry D (sc_created_scalar_macros r) k n \<longleftrightarrow> created_lists D (tc_created_scalar_macros c) k n) \<and>
     (\<forall>k n. has_entry D (sc_created_table_macros r) k n \<longleftrightarrow> created_lists D (tc_created_table_macros c) k n) \<and>
     (\<forall>k n. has_entry D (sc_created_procedures r) k n \<longleftrightarrow> created_lists D (tc_created_procedures c) k n)"

lemma IndexChange_index_changes [simp]:
  "IndexChange t i \<in> set (index_changes cs u S) \<longleftrightarrow> t = u \<and> i |\<in>| GetTableId cs |`| S"
  by (auto simp: index_changes_def)

lemma IndexChange_maps [simp]:
  "IndexChange t i \<in> set (map (\<lambda>x. IndexChange u (ix x)) (sorted_list_of_fset S)) \<longleftrightarrow> t = u \<and> i |\<in>| ix |`| S"
  "IndexChange t i \<in> set (map (\<lambda>(x, y). IndexChange u (iy x)) xs) \<longleftrightarrow> t = u \<and> i |\<in>| iy |`| fset_of_list (map fst xs)"
  "IndexChange t i \<notin> set (map (\<lambda>(k, y). SchemaChange (f k)) zs)"
  by (auto simp: fset_of_list.rep_eq image_iff split_beta)

lemma IndexChange_entry_changes [simp]: "IndexChange t i \<notin> set (entry_changes kind m)"
  by (auto simp: entry_changes_def)

lemma list_ex_index_changes:
  "\<not> list_ex (entry_listed D kinds k n) (index_changes cs t S)"
  "\<not> list_ex (entry_listed D kinds k n) (map (\<lambda>x. IndexChange t (ix x)) xs)"
  "\<not> list_ex (entry_listed D kinds k n) (map (\<lambda>(i, y). IndexChange t (ix i)) ys)"
  "\<not> list_ex (entry_listed D kinds k n) (map (\<lambda>(k, z). SchemaChange (f k)) zs)"
  by (auto simp: index_changes_def list_ex_iff entry_listed_def)

lemma list_ex_entry_changes:
  assumes "path_keys_ok D m"
  shows "list_ex (entry_listed D kinds k n) (entry_changes kind m) \<longleftrightarrow>
     list_ex (\<lambda>(k', es). StringUtil_CIEquals D k' k \<and>
       list_ex (\<lambda>e. kind e \<in> set kinds \<and> StringUtil_CIEquals D (ce_name e) n) es) m"
proof -
  have "entry_listed D kinds k n (EntryChange t (key_path k') nm) \<longleftrightarrow>
      t \<in> set kinds \<and> StringUtil_CIEquals D k' k \<and> StringUtil_CIEquals D nm n" if "(k', es) \<in> set m" for t k' nm es
    using assms that by (auto simp: entry_listed_def path_keys_ok_def list_all_iff dest!: bspec)
  then show ?thesis
    unfolding entry_changes_def by (auto simp: list_ex_iff) blast+
qed

fun written_set :: "DuckLakeCommitState \<Rightarrow> TransactionChangeInformation \<Rightarrow> ChangeType \<Rightarrow> idx fset" where
  "written_set cs c DROPPED_SCHEMA = schema_index |`| fset_of_list (map fst (tc_dropped_schemas c))"
| "written_set cs c DROPPED_TABLE = GetTableId cs |`| tc_dropped_tables c"
| "written_set cs c DROPPED_VIEW = GetTableId cs |`| tc_dropped_views c"
| "written_set cs c DROPPED_SCALAR_MACRO = macro_index |`| tc_dropped_scalar_macros c"
| "written_set cs c DROPPED_TABLE_MACRO = macro_index |`| tc_dropped_table_macros c"
| "written_set cs c DROPPED_PROCEDURE = procedure_index |`| tc_dropped_procedures c"
| "written_set cs c INSERTED_INTO_TABLE = GetTableId cs |`| tc_tables_inserted_into c"
| "written_set cs c SET_NOT_NULL = GetTableId cs |`| tc_tables_set_not_null c"
| "written_set cs c DELETED_FROM_TABLE = GetTableId cs |`| tc_tables_deleted_from c"
| "written_set cs c ALTERED_TABLE = GetTableId cs |`| tc_altered_tables c"
| "written_set cs c ALTERED_VIEW = GetTableId cs |`| tc_altered_views c"
| "written_set cs c MERGE_ADJACENT = GetTableId cs |`| tc_tables_merge_adjacent c"
| "written_set cs c REWRITE_DELETE = GetTableId cs |`| tc_tables_rewrite_delete c"
| "written_set cs c INSERTED_INTO_TABLE_INLINED = GetTableId cs |`| tc_tables_inserted_inlined c"
| "written_set cs c DELETED_FROM_TABLE_INLINED = GetTableId cs |`| tc_tables_deleted_inlined c"
| "written_set cs c FLUSHED_INLINE_DATA_FOR_TABLE = GetTableId cs |`| tc_tables_flushed_inlined c"
| "written_set cs c t = {||}"

lemma written_index: "IndexChange t i \<in> set (written_entries cs c) \<longleftrightarrow> i |\<in>| written_set cs c t"
  unfolding written_entries_def catalog_entries_def table_entries_def compaction_entries_def set_append Un_iff
    IndexChange_index_changes IndexChange_maps(1,2)
  by (cases t) (auto simp: image_iff)

lemma list_ex_False: "\<not> list_ex (\<lambda>_. False) xs" "\<not> list_ex (\<lambda>(a, b). False) ys"
  by (auto simp: list_ex_iff)

lemma written_listed:
  assumes "summary_keys_ok D c"
  shows "list_ex (entry_listed D [CREATED_TABLE, CREATED_VIEW] k n) (written_entries cs c) \<longleftrightarrow>
           created_lists D (tc_created_tables c) k n"
    and "list_ex (entry_listed D [CREATED_SCALAR_MACRO] k n) (written_entries cs c) \<longleftrightarrow>
           created_lists D (tc_created_scalar_macros c) k n"
    and "list_ex (entry_listed D [CREATED_TABLE_MACRO] k n) (written_entries cs c) \<longleftrightarrow>
           created_lists D (tc_created_table_macros c) k n"
    and "list_ex (entry_listed D [CREATED_PROCEDURE] k n) (written_entries cs c) \<longleftrightarrow>
           created_lists D (tc_created_procedures c) k n"
  using assms unfolding summary_keys_ok_def written_entries_def catalog_entries_def table_entries_def
    compaction_entries_def list_ex_append created_lists_def
  by (simp_all add: list_ex_index_changes list_ex_entry_changes table_or_view_def list_ex_False)

lemma written_schemas:
  assumes "summary_keys_ok D c"
  shows "list_ex (\<lambda>e. case e of SchemaChange p \<Rightarrow> StringUtil_CIEquals D (ToQuotedList D p CHR ''.'') k | _ \<Rightarrow> False)
      (written_entries cs c) \<longleftrightarrow> ci_member D (map fst (tc_created_schemas c)) k"
proof -
  let ?P = "\<lambda>e. case e of SchemaChange p \<Rightarrow> StringUtil_CIEquals D (ToQuotedList D p CHR ''.'') k | _ \<Rightarrow> False"
  have "\<not> list_ex ?P (index_changes cs t S)" "\<not> list_ex ?P (entry_changes kind m)" for t S kind m
    by (auto simp: index_changes_def entry_changes_def list_ex_iff)
  moreover have "path_keys_ok D m \<Longrightarrow> list_ex ?P (map (\<lambda>(k, _). SchemaChange (key_path k)) m) \<longleftrightarrow>
      ci_member D (map fst m) k" for m :: "schema_entry ci_map"
    by (induction m) (auto simp: path_keys_ok_def ci_member_def)
  moreover have "path_keys_ok D (tc_created_schemas c)"
    using assms by (simp add: summary_keys_ok_def)
  ultimately show ?thesis
    unfolding written_entries_def catalog_entries_def table_entries_def compaction_entries_def list_ex_append
    by (simp add: list_ex_iff case_prod_beta)
qed

lemma reflects_read_back:
  assumes keys: "summary_keys_ok D c" and r: "reflects D (written_entries cs c) r"
  shows "read_back D cs c r"
proof -
  have "\<forall>(t, S) \<in> set (index_sets r). S = written_set cs c t"
    using r unfolding reflects_def written_index by (auto simp: fset_eq_iff)
  then have sets: "list_all (\<lambda>(t, S). S = written_set cs c t) (index_sets r)" by (simp add: list_all_iff)
  have inj: "inj schema_index" "inj macro_index" "inj procedure_index"
    by (auto intro!: injI simp: SchemaIndex.expand MacroIndex.expand ProcedureIndex.expand)
  have ids [simp]: "schema_index |`| A = schema_index |`| B \<longleftrightarrow> A = B" "macro_index |`| C = macro_index |`| E \<longleftrightarrow> C = E"
    "procedure_index |`| F = procedure_index |`| G \<longleftrightarrow> F = G" for A B C E F G
    by (simp_all add: fset_inject [symmetric] inj_image_eq_iff inj)
  have [simp]: "schema_index |`| A = (schema_index \<circ> fst) |`| X \<longleftrightarrow> A = fst |`| X"
    for A and X :: "(SchemaIndex \<times> schema_entry) fset"
    using ids(1) [of A "fst |`| X"] by simp
  have schema_part: "\<forall>k. ci_member D (sc_created_schemas r) k \<longleftrightarrow> ci_member D (map fst (tc_created_schemas c)) k"
    using r written_schemas [OF keys] unfolding reflects_def by simp
  have entries: "list_all (\<lambda>(kinds, m). \<forall>k n. has_entry D m k n \<longleftrightarrow> list_ex (entry_listed D kinds k n) (written_entries cs c))
      (entry_sets r)"
    using r unfolding reflects_def by (simp add: list_all_iff)
  show ?thesis
    using sets entries schema_part unfolding read_back_def index_sets_def entry_sets_def
    by (simp add: written_listed [OF keys])
qed

text \<open>A transaction's own text, or the error that stops it.\<close>

definition commit_text :: "duckdb_string \<Rightarrow> DuckLakeTransactionState \<Rightarrow> DuckLakeCommitState \<Rightarrow> string res" where
  "commit_text D s cs =
     bind_res (GetTransactionChanges D s) (\<lambda>c. bind_res (WriteSnapshotChanges D s cs c) (\<lambda>(changes_made, _). Inr changes_made))"

context duckdb_strings
begin

lemma commit_text_print:
  assumes "GetTransactionChanges D s = Inr c0" and "WriteSnapshotChanges D s cs c0 = Inr (changes_made, c)"
  shows "changes_made = print_entries D (written_entries cs c)" and "summary_keys_ok D c"
    and "c = readd_table_changes s cs c0"
    and "e \<in> set (written_entries cs c) \<Longrightarrow> entry_ok e"
proof -
  have keys: "summary_keys_ok D c0" by (rule GetTransactionChanges_keys [OF assms(1)])
  note print = WriteSnapshotChanges_print [OF keys assms(2)]
  then show "changes_made = print_entries D (written_entries cs c)" "c = readd_table_changes s cs c0" by simp_all
  with keys show "summary_keys_ok D c" by (simp add: readd_summary_keys)
  then show "e \<in> set (written_entries cs c) \<Longrightarrow> entry_ok e" by (rule written_entries_ok)
qed

lemma written_text_read_back:
  assumes "GetTransactionChanges D s = Inr c0" and "WriteSnapshotChanges D s cs c0 = Inr (changes_made, c)"
  shows "\<exists>r. ParseChangesMade D changes_made = Inr r \<and> read_back D cs c r"
  using ParseChangesMade_print [of "written_entries cs c"] commit_text_print [OF assms] reflects_read_back by metis

text \<open>The texts of several committed transactions, read together.\<close>

lemma aggregated_texts_read_back:
  assumes "\<And>w. w \<in> set ws \<Longrightarrow> \<exists>c0 c. GetTransactionChanges D (fst w) = Inr c0 \<and>
      WriteSnapshotChanges D (fst w) (snd w) c0 = Inr (text_of w, c)"
  shows "\<exists>r. ParseChangesMade D (aggregate_changes (map text_of ws)) = Inr r \<and>
     (\<forall>w c0 c t i. w \<in> set ws \<and> GetTransactionChanges D (fst w) = Inr c0 \<and>
        WriteSnapshotChanges D (fst w) (snd w) c0 = Inr (text_of w, c) \<and> i |\<in>| written_set (snd w) c t \<longrightarrow>
        (\<forall>S. (t, S) \<in> set (index_sets r) \<longrightarrow> i |\<in>| S))"
proof -
  define sum where "sum w = (THE c. \<exists>c0. GetTransactionChanges D (fst w) = Inr c0 \<and>
      WriteSnapshotChanges D (fst w) (snd w) c0 = Inr (text_of w, c))" for w
  have sum: "sum w = c" if "GetTransactionChanges D (fst w) = Inr c0"
    and "WriteSnapshotChanges D (fst w) (snd w) c0 = Inr (text_of w, c)" for w c0 c
    unfolding sum_def using that by auto
  let ?es = "\<lambda>w. written_entries (snd w) (sum w)"
  have w: "text_of w = print_entries D (?es w)" "e \<in> set (?es w) \<Longrightarrow> entry_ok e" if "w \<in> set ws" for w e
    using assms [OF that] sum commit_text_print by metis+
  have "map text_of ws = map (print_entries D) (map ?es ws)" using w(1) by simp
  then have agg: "aggregate_changes (map text_of ws) = print_entries D (concat (map ?es ws))"
    by (simp only: aggregate_print)
  have all_ok: "e \<in> set (concat (map ?es ws)) \<Longrightarrow> entry_ok e" for e using w(2) by auto
  obtain r where r: "ParseChangesMade D (aggregate_changes (map text_of ws)) = Inr r"
    and reflects: "reflects D (concat (map ?es ws)) r"
    using ParseChangesMade_print [OF all_ok] unfolding agg by blast
  have "i |\<in>| S" if "w \<in> set ws" "GetTransactionChanges D (fst w) = Inr c0"
    "WriteSnapshotChanges D (fst w) (snd w) c0 = Inr (text_of w, c)" "i |\<in>| written_set (snd w) c t"
    "(t, S) \<in> set (index_sets r)" for w c0 c t i S
  proof -
    have "IndexChange t i \<in> set (?es w)" using that(4) sum [OF that(2,3)] by (simp add: written_index)
    then have "IndexChange t i \<in> set (concat (map ?es ws))" using that(1) by auto
    then show ?thesis using reflects that(5) unfolding reflects_def by blast
  qed
  with r show ?thesis by blast
qed

end

section \<open>Concrete transactions\<close>

definition sample_commit :: DuckLakeCommitState where
  "sample_commit = DuckLakeCommitState_new \<lparr>snapshot_id = 4, schema_version = 1, next_catalog_id = 9, next_file_id = 2\<rparr>"

definition sample_dropper :: DuckLakeTransactionState where
  "sample_dropper = DuckLakeTransactionState_empty\<lparr>st_dropped_tables := {|7|}, st_tables_deleted_from := {|3|}\<rparr>"

lemma sample_dropper_changes:
  "GetTransactionChanges duckdb_ref sample_dropper = Inr (TransactionChangeInformation_empty
     \<lparr>tc_dropped_tables := {|7|}, tc_tables_deleted_from := {|3|}\<rparr>)"
  by (simp add: GetTransactionChanges_def sample_dropper_def DuckLakeTransactionState_empty_def set_entries_def
      catalog_changes_def created_by_schema_def TransactionChangeInformation_empty_def)

lemma GetTableId_sample: "GetTableId sample_commit t = t"
  by (simp add: GetTableId_def RemapIdentifier_table_def sample_commit_def DuckLakeCommitState_new_def omap_get_def)

lemma sample_dropper_text:
  "\<exists>c. WriteSnapshotChanges duckdb_ref sample_dropper sample_commit (TransactionChangeInformation_empty
     \<lparr>tc_dropped_tables := {|7|}, tc_tables_deleted_from := {|3|}\<rparr>) =
     Inr (''dropped_table:7,deleted_from_table:3'', c) \<and>
     c = TransactionChangeInformation_empty\<lparr>tc_dropped_tables := {|7|}, tc_tables_deleted_from := {|3|}\<rparr>"
proof -
  have [simp]: "sorted_list_of_fset ({||} :: TableIndex fset) = []" "sorted_list_of_fset ({||} :: MacroIndex fset) = []"
    "sorted_list_of_fset ({||} :: ProcedureIndex fset) = []" "sorted_list_of_fset {|7 :: TableIndex|} = [7]"
    "sorted_list_of_fset {|3 :: TableIndex|} = [3]"
    by (simp_all add: sorted_list_of_fset.rep_eq)
  have [simp]: "to_string 7 = ''7''" "to_string 3 = ''3''" by (simp_all add: to_string_def dec_string.simps)
  show ?thesis
    by (simp add: WriteSnapshotChanges_def Let_def readd_table_changes_def sample_dropper_def
        DuckLakeTransactionState_empty_def Changes_def write_catalog_changes_def write_table_changes_def AddChangeInfo_def
        TransactionChangeInformation_empty_def write_created_entries_def append_change_def GetTableId_sample)
qed

section \<open>Properties\<close>

text \<open>
  C5. Other transactions read exactly what a transaction wrote: for a transaction whose summary and
  whose text can be built, \<^verbatim>\<open>ParseChangesMade\<close> accepts the text of \<^verbatim>\<open>WriteSnapshotChanges\<close>, and every set of
  dropped, inserted, deleted, altered, flushed or compacted tables, views, macros, procedures and
  schemas comes back unchanged (under the committed identifiers), as do the created schemas and
  entries up to letter case. Names may hold commas, colons, dots and quotes.
\<close>

theorem snapshot_changes_round_trip:
  assumes "duckdb_strings D"
    and "GetTransactionChanges D s = Inr c0" and "WriteSnapshotChanges D s cs c0 = Inr (changes_made, c)"
  shows "\<exists>r. ParseChangesMade D changes_made = Inr r \<and> read_back D cs c r"
  using duckdb_strings.written_text_read_back [OF assms] .

theorem snapshot_changes_round_trip_witness:
  "\<exists>r. ParseChangesMade duckdb_ref ''dropped_table:7,deleted_from_table:3'' = Inr r \<and>
     sc_dropped_tables r = {|7|} \<and> sc_tables_deleted_from r = {|3|} \<and> sc_inserted_tables r = {||}"
proof -
  obtain c where c: "WriteSnapshotChanges duckdb_ref sample_dropper sample_commit (TransactionChangeInformation_empty
      \<lparr>tc_dropped_tables := {|7|}, tc_tables_deleted_from := {|3|}\<rparr>) = Inr (''dropped_table:7,deleted_from_table:3'', c)"
    "c = TransactionChangeInformation_empty\<lparr>tc_dropped_tables := {|7|}, tc_tables_deleted_from := {|3|}\<rparr>"
    using sample_dropper_text by blast
  have ids: "GetTableId sample_commit = id" by (rule ext) (simp add: GetTableId_sample)
  show ?thesis
    using snapshot_changes_round_trip [OF ref.duckdb_strings_axioms sample_dropper_changes c(1)]
    by (auto simp: read_back_def ids c(2) TransactionChangeInformation_empty_def)
qed

text \<open>
  C22. A compaction is committed alone: \<^verbatim>\<open>WriteSnapshotChanges\<close> refuses a transaction if and only if it
  compacts some table and also has any other change to report.
\<close>

theorem compaction_commits_alone:
  assumes "duckdb_strings D" and "GetTransactionChanges D s = Inr c0"
  shows "\<not> is_ok (WriteSnapshotChanges D s cs c0) \<longleftrightarrow>
    (let c = readd_table_changes s cs c0
     in compaction_entries cs c \<noteq> [] \<and> catalog_entries cs c @ table_entries cs c \<noteq> [])"
proof -
  have keys: "summary_keys_ok D c0" by (rule duckdb_strings.GetTransactionChanges_keys [OF assms])
  show ?thesis
    using WriteSnapshotChanges_refuses [OF keys] by simp
qed

theorem compaction_commits_alone_witness:
  "is_ok (WriteSnapshotChanges duckdb_ref sample_dropper sample_commit (TransactionChangeInformation_empty
     \<lparr>tc_dropped_tables := {|7|}, tc_tables_deleted_from := {|3|}\<rparr>))"
proof -
  have "compaction_entries sample_commit (readd_table_changes sample_dropper sample_commit
      (TransactionChangeInformation_empty\<lparr>tc_dropped_tables := {|7|}, tc_tables_deleted_from := {|3|}\<rparr>)) = []"
    by (simp add: compaction_entries_def readd_table_changes_def sample_dropper_def DuckLakeTransactionState_empty_def
        Changes_def TransactionChangeInformation_empty_def)
  then show ?thesis
    using compaction_commits_alone [OF ref.duckdb_strings_axioms sample_dropper_changes, of sample_commit]
    by (simp add: Let_def)
qed

end
