(* ===== verification/DL_Commit.thy ===== *)
theory DL_Commit
  imports DL_WriteChanges
begin

text \<open>
  The optimistic commit of \<^verbatim>\<open>src/src/storage/ducklake_transaction_state.cpp\<close>: \<^verbatim>\<open>Commit\<close> makes one attempt
  and, when the metadata database reports that someone else was faster, up to \<^verbatim>\<open>max_retry_count\<close>
  more, each after checking the changes committed in the meantime. The hooks of
  \<^verbatim>\<open>DuckLakeCommitContext\<close> are functions on an abstract world \<open>'w\<close> (the metadata database and the
  caches), and the SQL batch of \<^verbatim>\<open>CommitChanges\<close> is an argument. The second half of the theory runs
  any number of transactions against one metadata database, step by step in any interleaving.
\<close>

section \<open>Errors that are worth a retry\<close>

definition RetryOnError :: "duckdb_string \<Rightarrow> string \<Rightarrow> bool" where
  "RetryOnError D original_message =
     (let message = StringUtil_Lower D original_message
      in if StringUtil_Contains D message ''primary key'' \<or> StringUtil_Contains D message ''unique'' then True
         else if StringUtil_Contains D message ''conflict'' then True
         else if StringUtil_Contains D message ''concurrent'' then True
         else False)"

section \<open>One attempt\<close>

record DuckLakeRetryConfig =
  max_retry_count :: idx
  retry_wait_ms :: idx

definition DuckLakeRetryConfig_default :: DuckLakeRetryConfig where
  "DuckLakeRetryConfig_default = \<lparr>max_retry_count = 10, retry_wait_ms = 100\<rparr>"

text \<open>
  The statements of a commit: the snapshot row, the statements of \<^verbatim>\<open>CommitChanges\<close> and the row of
  \<^verbatim>\<open>ducklake_snapshot_changes\<close>.
\<close>

record commit_batch =
  cb_queries :: string
  cb_changes_made :: string

text \<open>
  The hooks. \<open>cx_snapshot_and_changes\<close> is the answer to the query of
  \<^verbatim>\<open>GetSnapshotAndStatsAndChanges\<close>: the latest snapshot and the aggregated texts of the snapshots after
  the transaction's own; \<open>cx_conflict_query\<close> answers the other queries of the conflict check. The last
  four hooks stand for the queries of the clean-up after a commit.
\<close>

record SupersededInlinedTable =
  si_table_id :: idx
  si_schema_version :: idx
  si_table_name :: string

record 'w DuckLakeCommitContext =
  cx_get_snapshot :: "'w \<Rightarrow> DuckLakeSnapshot res \<times> 'w"
  cx_snapshot_and_changes :: "'w \<Rightarrow> (DuckLakeSnapshot \<times> string) res \<times> 'w"
  cx_conflict_query :: "'w \<Rightarrow> metadata_query \<Rightarrow> idx list res"
  cx_execute_commit_batch :: "DuckLakeSnapshot \<Rightarrow> commit_batch \<Rightarrow> 'w \<Rightarrow> unit res \<times> 'w"
  cx_is_retryable_metadata_error :: "string \<Rightarrow> bool"
  cx_flush_cache_if_pending :: "'w \<Rightarrow> 'w"
  cx_commit_connection :: "'w \<Rightarrow> unit res \<times> 'w"
  cx_try_rollback :: "'w \<Rightarrow> 'w"
  cx_prepare_retry :: "'w \<Rightarrow> 'w"
  cx_set_committed_snapshot_id :: "idx \<Rightarrow> 'w \<Rightarrow> 'w"
  cx_set_table_options :: "DuckLakeConfigOption list \<Rightarrow> 'w \<Rightarrow> 'w"
  cx_invalidate_table_stats_cache :: "idx \<Rightarrow> TableIndex \<Rightarrow> 'w \<Rightarrow> 'w"
  cx_set_catalog_version :: "idx \<Rightarrow> 'w \<Rightarrow> 'w"
  cx_invalidate_schema_cache :: "idx \<Rightarrow> 'w \<Rightarrow> 'w"
  cx_skip_drop_empty_inlined :: bool
  cx_report_post_commit_error :: "string \<Rightarrow> 'w \<Rightarrow> 'w"
  cx_superseded_inlined_tables :: "'w \<Rightarrow> SupersededInlinedTable list res \<times> 'w"
  cx_inlined_row_counts :: "string \<Rightarrow> 'w \<Rightarrow> idx list res \<times> 'w"
  cx_drop_inlined_tables :: "SupersededInlinedTable list \<Rightarrow> 'w \<Rightarrow> unit res \<times> 'w"
  cx_snapshot_schema_versions :: "'w \<Rightarrow> idx list res \<times> 'w"

text \<open>
  \<^verbatim>\<open>CommitChanges\<close> as the loop sees it: it builds the statements, extends the identifier map and may
  read the world.
\<close>

type_synonym 'w commit_changes =
  "DuckLakeCommitState \<Rightarrow> TransactionChangeInformation \<Rightarrow> 'w \<Rightarrow>
   (string \<times> DuckLakeCommitState \<times> TransactionChangeInformation \<times> DuckLakeConfigOption list) res"

text \<open>The conflict check with its query (\<^verbatim>\<open>CheckForConflicts\<close> with four arguments).\<close>

definition CheckForConflicts_after ::
  "duckdb_string \<Rightarrow> 'w DuckLakeCommitContext \<Rightarrow> DuckLakeTransactionState \<Rightarrow> TransactionChangeInformation \<Rightarrow>
   'w \<Rightarrow> DuckLakeSnapshot res \<times> 'w" where
  "CheckForConflicts_after D cx s changes w =
     (case cx_snapshot_and_changes cx w of
        (Inl e, w1) \<Rightarrow> (Inl e, w1)
      | (Inr (snapshot, changes_made), w1) \<Rightarrow>
          (bind_res (ParseChangesMade D changes_made) (\<lambda>other.
             bind_res (CheckForConflicts D s changes other (cx_conflict_query cx w1)) (\<lambda>_. Inr snapshot)), w1))"

text \<open>The snapshot an attempt writes: one later, with a new schema version if the schema changed.\<close>

definition next_snapshot :: "DuckLakeTransactionState \<Rightarrow> DuckLakeSnapshot \<Rightarrow> DuckLakeSnapshot" where
  "next_snapshot s snapshot =
     snapshot\<lparr>snapshot_id := snapshot_id snapshot + 1,
       schema_version := (if SchemaChangesMade s then schema_version snapshot + 1 else schema_version snapshot)\<rparr>"

text \<open>
  How an attempt ends: with the committed snapshot, or with an error, whether the error happened
  where a retry is possible (\<^verbatim>\<open>can_retry\<close>) and whether the metadata manager calls it retryable.
\<close>

datatype attempt_result =
    Committed DuckLakeSnapshot "DuckLakeConfigOption list"
  | Failed error bool bool

definition commit_batch_of ::
  "duckdb_string \<Rightarrow> 'w commit_changes \<Rightarrow> DuckLakeTransactionState \<Rightarrow> TransactionChangeInformation \<Rightarrow>
   DuckLakeSnapshot \<Rightarrow> 'w \<Rightarrow> (DuckLakeSnapshot \<times> commit_batch \<times> DuckLakeConfigOption list) res" where
  "commit_batch_of D CommitChanges s changes snapshot w =
     bind_res (CommitChanges (DuckLakeCommitState_new snapshot) changes w) (\<lambda>(queries, cs, changes1, options).
       bind_res (WriteSnapshotChanges D s cs changes1) (\<lambda>(changes_made, _).
         Inr (cs_commit_snapshot cs, \<lparr>cb_queries = queries, cb_changes_made = changes_made\<rparr>, options)))"

definition commit_attempt ::
  "duckdb_string \<Rightarrow> 'w DuckLakeCommitContext \<Rightarrow> 'w commit_changes \<Rightarrow> DuckLakeTransactionState \<Rightarrow>
   TransactionChangeInformation \<Rightarrow> idx \<Rightarrow> 'w \<Rightarrow> attempt_result \<times> 'w" where
  "commit_attempt D cx CommitChanges s changes i w =
     (case (if i > 0 then CheckForConflicts_after D cx s changes w else cx_get_snapshot cx w) of
        (Inl e, w1) \<Rightarrow> (Failed e False False, w1)
      | (Inr base, w1) \<Rightarrow>
          (case commit_batch_of D CommitChanges s changes (next_snapshot s base) w1 of
             Inl e \<Rightarrow> (Failed e True False, w1)
           | Inr (snapshot, batch, options) \<Rightarrow>
               (case cx_execute_commit_batch cx snapshot batch w1 of
                  (Inl e, w2) \<Rightarrow> (Failed e True (cx_is_retryable_metadata_error cx (error_message e)), w2)
                | (Inr _, w2) \<Rightarrow>
                    (case cx_commit_connection cx (cx_flush_cache_if_pending cx w2) of
                       (Inl e, w3) \<Rightarrow> (Failed e True False, w3)
                     | (Inr _, w3) \<Rightarrow> (Committed snapshot options, w3)))))"

section \<open>The loop\<close>

definition retry_on_error ::
  "duckdb_string \<Rightarrow> 'w DuckLakeCommitContext \<Rightarrow> error \<Rightarrow> bool \<Rightarrow> bool \<Rightarrow> bool" where
  "retry_on_error D cx e can_retry retryable_metadata_error \<longleftrightarrow>
     can_retry \<and> (retryable_metadata_error \<or> cx_is_retryable_metadata_error cx (error_message e) \<or>
       RetryOnError D (error_message e))"

text \<open>
  The outcome: whether an attempt succeeded, with the snapshot and the table options after the loop
  (the default snapshot when the loop body never ran), or the error.
\<close>

function Commit_loop ::
  "duckdb_string \<Rightarrow> 'w DuckLakeCommitContext \<Rightarrow> 'w commit_changes \<Rightarrow> DuckLakeRetryConfig \<Rightarrow>
   DuckLakeTransactionState \<Rightarrow> TransactionChangeInformation \<Rightarrow> idx \<Rightarrow> 'w \<Rightarrow>
   (bool \<times> DuckLakeSnapshot \<times> DuckLakeConfigOption list) res \<times> 'w" where
  "Commit_loop D cx CommitChanges config s changes i w =
     (if i < max_retry_count config + 1
      then (case commit_attempt D cx CommitChanges s changes i w of
              (Committed snapshot options, w1) \<Rightarrow> (Inr (True, snapshot, options), w1)
            | (Failed e can_retry retryable, w1) \<Rightarrow>
                (if \<not> retry_on_error D cx e can_retry retryable \<or> i \<ge> max_retry_count config
                 then (Inl e, cx_try_rollback cx w1)
                 else Commit_loop D cx CommitChanges config s changes (i + 1)
                        (cx_prepare_retry cx (cx_try_rollback cx w1))))
      else (Inr (False, DuckLakeSnapshot_default, []), w))"
  by pat_completeness auto
termination
proof (relation "measure (\<lambda>(D, cx, C, config, s, changes, i, w). unat (max_retry_count config) - unat i)")
qed (auto simp: not_le word_less_nat_alt unat_word_ariths(1) intro!: diff_less_mono2 dest: less_imp_le_nat)

declare Commit_loop.simps [simp del]

text \<open>
  \<^verbatim>\<open>DropEmptySupersededInlinedTables\<close>: of the superseded inlined tables, those without rows are
  dropped in one statement, and the cached schemas are invalidated.
\<close>

definition sbind :: "'a res \<times> 'w \<Rightarrow> ('a \<Rightarrow> 'w \<Rightarrow> 'b res \<times> 'w) \<Rightarrow> 'b res \<times> 'w" where
  "sbind r k = (case r of (Inl e, w) \<Rightarrow> (Inl e, w) | (Inr x, w) \<Rightarrow> k x w)"

fun empty_superseded_tables ::
  "'w DuckLakeCommitContext \<Rightarrow> SupersededInlinedTable list \<Rightarrow> 'w \<Rightarrow> SupersededInlinedTable list res \<times> 'w" where
  "empty_superseded_tables cx [] w = (Inr [], w)"
| "empty_superseded_tables cx (candidate # candidates) w =
     sbind (cx_inlined_row_counts cx (si_table_name candidate) w) (\<lambda>counts w1.
       let row_count = (if counts = [] then 0 else last counts)
       in sbind (empty_superseded_tables cx candidates w1) (\<lambda>empty w2.
            (Inr (if row_count \<noteq> 0 then empty else candidate # empty), w2)))"

definition DropEmptySupersededInlinedTables :: "'w DuckLakeCommitContext \<Rightarrow> 'w \<Rightarrow> unit res \<times> 'w" where
  "DropEmptySupersededInlinedTables cx w =
     sbind (cx_superseded_inlined_tables cx w) (\<lambda>candidates w1.
       sbind (empty_superseded_tables cx candidates w1) (\<lambda>drops w2.
         if drops = [] then (Inr (), w2)
         else sbind (cx_drop_inlined_tables cx drops w2) (\<lambda>_ w3.
           sbind (cx_snapshot_schema_versions cx w3) (\<lambda>versions w4.
             (Inr (), fold (cx_invalidate_schema_cache cx) versions w4)))))"

definition after_commit ::
  "'w DuckLakeCommitContext \<Rightarrow> DuckLakeTransactionState \<Rightarrow> bool \<Rightarrow> DuckLakeSnapshot \<Rightarrow> DuckLakeConfigOption list \<Rightarrow> 'w \<Rightarrow> 'w" where
  "after_commit cx s committed snapshot options w =
     (let flushed_inlined = (committed \<and> st_flushed_inlined_tables s \<noteq> []);
          w1 = cx_set_committed_snapshot_id cx (snapshot_id snapshot) w;
          w2 = cx_set_table_options cx options w1;
          w3 = fold (\<lambda>(t, _). cx_invalidate_table_stats_cache cx (next_file_id snapshot) t) (st_dropped_file_stats s) w2;
          w4 = (if flushed_inlined \<and> \<not> cx_skip_drop_empty_inlined cx
                then (case DropEmptySupersededInlinedTables cx w3 of
                        (Inr _, w') \<Rightarrow> w'
                      | (Inl e, w') \<Rightarrow> cx_report_post_commit_error cx (error_message e) w')
                else w3);
          w5 = cx_set_catalog_version cx (schema_version snapshot) w4
      in if SchemaChangesMade s then cx_invalidate_schema_cache cx (schema_version snapshot - 1) w5 else w5)"

definition Commit ::
  "duckdb_string \<Rightarrow> 'fs duckdb_fs \<Rightarrow> 'w DuckLakeCommitContext \<Rightarrow> 'w commit_changes \<Rightarrow> DuckLakeRetryConfig \<Rightarrow>
   DuckLakeTransactionState \<Rightarrow> TransactionChangeInformation \<Rightarrow> 'w \<Rightarrow> 'fs \<Rightarrow>
   unit res \<times> DuckLakeTransactionState \<times> 'w \<times> 'fs" where
  "Commit D F cx CommitChanges config s changes w fs =
     (case Commit_loop D cx CommitChanges config s changes 0 w of
        (Inl e, w1) \<Rightarrow>
          (let (local, fs1) = CleanupFiles F (st_local_changes s) fs
           in (Inl e, s\<lparr>st_local_changes := local\<rparr>, w1, fs1))
      | (Inr (committed, snapshot, options), w1) \<Rightarrow>
          (Inr (), s, after_commit cx s committed snapshot options w1, fs))"

section \<open>All or nothing\<close>

text \<open>
  What the loop relies on: \<open>own w\<close> are the snapshots this transaction's connection has committed,
  \<open>pending w\<close> the batch executed in its open metadata transaction. Executing a batch does not commit
  it, committing does so once, and nothing else commits.
\<close>

lemma unat_of_nat_bounded:
  fixes m :: idx
  assumes "n \<le> unat m"
  shows "unat (of_nat n :: idx) = n"
proof -
  have "n < 2 ^ 64" using assms unsigned_less [of m, where 'a = nat] by simp
  then show ?thesis by (simp add: unsigned_of_nat take_bit_nat_eq_self)
qed

lemma attempt_allowed:
  fixes i m :: idx
  assumes "m \<noteq> - 1" and "i \<le> m"
  shows "i < m + 1"
proof -
  have "1 + m \<noteq> 0" using assms(1) by (simp add: add_eq_0_iff)
  then have "unat (m + 1) = Suc (unat m)" by (metis add.commute unatSuc)
  with assms(2) show ?thesis by (simp add: word_less_nat_alt word_le_nat_alt)
qed

lemma next_attempt:
  fixes i m :: idx
  assumes "i < m"
  shows "unat m - unat (i + 1) < unat m - unat i" and "i + 1 \<le> m"
proof -
  have "i \<noteq> - 1" using assms word_order.extremum_strict [of m] by auto
  then have "1 + i \<noteq> 0" by (simp add: add_eq_0_iff)
  then have "unat (i + 1) = Suc (unat i)" by (metis add.commute unatSuc)
  with assms show "unat m - unat (i + 1) < unat m - unat i" and "i + 1 \<le> m"
    by (simp_all add: word_less_nat_alt word_le_nat_alt)
qed

locale metadata_connection =
  fixes cx :: "'w DuckLakeCommitContext"
    and own :: "'w \<Rightarrow> (DuckLakeSnapshot \<times> commit_batch) list"
    and pending :: "'w \<Rightarrow> (DuckLakeSnapshot \<times> commit_batch) option"
  assumes get_snapshot: "own (snd (cx_get_snapshot cx w)) = own w"
    and snapshot_and_changes: "own (snd (cx_snapshot_and_changes cx w)) = own w"
    and execute: "own (snd (cx_execute_commit_batch cx snap batch w)) = own w"
    and execute_ok: "cx_execute_commit_batch cx snap batch w = (Inr u, w') \<Longrightarrow> pending w' = Some (snap, batch)"
    and flush_cache: "own (cx_flush_cache_if_pending cx w) = own w" "pending (cx_flush_cache_if_pending cx w) = pending w"
    and commit_ok: "cx_commit_connection cx w = (Inr u, w') \<Longrightarrow> pending w = Some x \<Longrightarrow> own w' = own w @ [x]"
    and commit_failed: "cx_commit_connection cx w = (Inl e, w') \<Longrightarrow> own w' = own w"
    and rollback: "own (cx_try_rollback cx w) = own w"
    and prepare_retry: "own (cx_prepare_retry cx w) = own w"
    and hooks: "own (cx_set_committed_snapshot_id cx i w) = own w" "own (cx_set_table_options cx os w) = own w"
      "own (cx_invalidate_table_stats_cache cx i t w) = own w" "own (cx_set_catalog_version cx i w) = own w"
      "own (cx_invalidate_schema_cache cx i w) = own w" "own (cx_report_post_commit_error cx m w) = own w"
    and cleanup: "own (snd (cx_superseded_inlined_tables cx w)) = own w" "own (snd (cx_inlined_row_counts cx n w)) = own w"
      "own (snd (cx_drop_inlined_tables cx ts w)) = own w" "own (snd (cx_snapshot_schema_versions cx w)) = own w"
begin

lemma conflict_check_own: "own (snd (CheckForConflicts_after D cx s changes w)) = own w"
  using snapshot_and_changes [of w] by (auto simp: CheckForConflicts_after_def split: prod.splits sum.splits)

lemma attempt_own:
  assumes "commit_attempt D cx C s changes i w = (r, w')"
  shows "case r of Committed snap options \<Rightarrow> \<exists>batch. own w' = own w @ [(snap, batch)] | Failed e a b \<Rightarrow> own w' = own w"
proof -
  obtain r1 w1 where first: "(if i > 0 then CheckForConflicts_after D cx s changes w else cx_get_snapshot cx w) = (r1, w1)"
    by fastforce
  then have w1: "own w1 = own w"
    using conflict_check_own get_snapshot by (metis snd_conv)
  show ?thesis
  proof (cases r1)
    case (Inl e)
    with assms first w1 show ?thesis by (auto simp: commit_attempt_def)
  next
    case (Inr base)
    show ?thesis
    proof (cases "commit_batch_of D C s changes (next_snapshot s base) w1")
      case (Inl e)
      with assms first w1 Inr show ?thesis by (auto simp: commit_attempt_def)
    next
      case batch: (Inr b)
      obtain snap ba options where b: "b = (snap, ba, options)" by (cases b)
      obtain r2 w2 where exec: "cx_execute_commit_batch cx snap ba w1 = (r2, w2)" by fastforce
      then have w2: "own w2 = own w" using execute [of snap ba w1] w1 by simp
      show ?thesis
      proof (cases r2)
        case (Inl e)
        with assms first Inr batch b exec w2 show ?thesis by (auto simp: commit_attempt_def)
      next
        case exec_ok: (Inr u)
        obtain r3 w3 where com: "cx_commit_connection cx (cx_flush_cache_if_pending cx w2) = (r3, w3)" by fastforce
        have "pending w2 = Some (snap, ba)" using execute_ok exec exec_ok by blast
        then have "own w3 = own w @ [(snap, ba)]" if "r3 = Inr v" for v
          using commit_ok com that flush_cache w2 by metis
        moreover have "own w3 = own w" if "r3 = Inl e" for e
          using commit_failed com that flush_cache w2 by metis
        ultimately show ?thesis
          using assms first Inr batch b exec exec_ok com by (cases r3) (auto simp: commit_attempt_def)
      qed
    qed
  qed
qed

lemma loop_own:
  assumes "max_retry_count config \<noteq> - 1" and "i \<le> max_retry_count config"
    and "Commit_loop D cx C config s changes i w = (r, w')"
  shows "case r of Inr (committed, snap, options) \<Rightarrow> committed \<and> (\<exists>batch. own w' = own w @ [(snap, batch)])
    | Inl e \<Rightarrow> own w' = own w"
  using assms(2,3)
proof (induction "unat (max_retry_count config) - unat i" arbitrary: i w rule: less_induct)
  case less
  let ?max = "max_retry_count config"
  have run: "i < ?max + 1" by (rule attempt_allowed [OF assms(1) less.prems(1)])
  obtain res w1 where att: "commit_attempt D cx C s changes i w = (res, w1)" by fastforce
  note own1 = attempt_own [OF att]
  show ?case
  proof (cases res)
    case (Committed snap options)
    with less.prems(2) att run own1 show ?thesis by (auto simp: Commit_loop.simps [of D cx C config s changes i])
  next
    case (Failed e can_retry retryable)
    let ?w2 = "cx_try_rollback cx w1"
    have w2: "own ?w2 = own w" using own1 Failed by (simp add: rollback)
    show ?thesis
    proof (cases "\<not> retry_on_error D cx e can_retry retryable \<or> i \<ge> ?max")
      case True
      with less.prems(2) att run Failed w2 show ?thesis by (auto simp: Commit_loop.simps [of D cx C config s changes i])
    next
      case False
      then have i: "i < ?max" by auto
      then have "unat ?max - unat (i + 1) < unat ?max - unat i" and "i + 1 \<le> ?max"
        by (rule next_attempt)+
      moreover have "Commit_loop D cx C config s changes (i + 1) (cx_prepare_retry cx ?w2) = (r, w')"
        using less.prems(2) att run Failed False by (simp add: Commit_loop.simps [of D cx C config s changes i])
      ultimately have "case r of Inr (committed, snap, options) \<Rightarrow> committed \<and>
          (\<exists>batch. own w' = own (cx_prepare_retry cx ?w2) @ [(snap, batch)]) | Inl e \<Rightarrow> own w' = own (cx_prepare_retry cx ?w2)"
        by (rule less.hyps)
      then show ?thesis by (simp only: prepare_retry w2)
    qed
  qed
qed

lemma sbind_own:
  assumes "own (snd r) = own w" and "\<And>x w'. own w' = own w \<Longrightarrow> own (snd (k x w')) = own w"
  shows "own (snd (sbind r k)) = own w"
  using assms by (auto simp: sbind_def split: prod.splits sum.splits)

lemma empty_tables_own: "own (snd (empty_superseded_tables cx ts w)) = own w"
proof (induction ts arbitrary: w)
  case (Cons t ts)
  have "own (snd (sbind (empty_superseded_tables cx ts w1) (\<lambda>empty w2. (Inr (f empty), w2)))) = own w1"
    for w1 and f :: "SupersededInlinedTable list \<Rightarrow> SupersededInlinedTable list"
    by (rule sbind_own) (simp_all add: Cons.IH)
  then show ?case
    unfolding empty_superseded_tables.simps Let_def by (intro sbind_own) (simp_all add: cleanup Cons.IH)
qed simp

lemma fold_own: "(\<And>x w. own (f x w) = own w) \<Longrightarrow> own (fold f xs w) = own w"
  by (induction xs arbitrary: w) simp_all

lemma drop_empty_own: "own (snd (DropEmptySupersededInlinedTables cx w)) = own w"
  unfolding DropEmptySupersededInlinedTables_def
proof (rule sbind_own [OF cleanup(1)])
  fix ts w1
  assume w1: "own w1 = own w"
  show "own (snd (sbind (empty_superseded_tables cx ts w1) (\<lambda>drops w2. if drops = [] then (Inr (), w2)
      else sbind (cx_drop_inlined_tables cx drops w2) (\<lambda>_ w3. sbind (cx_snapshot_schema_versions cx w3)
        (\<lambda>versions w4. (Inr (), fold (cx_invalidate_schema_cache cx) versions w4)))))) = own w"
  proof (rule sbind_own)
    show "own (snd (empty_superseded_tables cx ts w1)) = own w" by (simp add: empty_tables_own w1)
    fix drops w2
    assume w2: "own w2 = own w"
    show "own (snd (if drops = [] then (Inr (), w2) else sbind (cx_drop_inlined_tables cx drops w2)
        (\<lambda>_ w3. sbind (cx_snapshot_schema_versions cx w3)
          (\<lambda>versions w4. (Inr (), fold (cx_invalidate_schema_cache cx) versions w4))))) = own w"
      by (auto simp: w2 cleanup fold_own hooks intro!: sbind_own)
  qed
qed

lemma after_commit_own: "own (after_commit cx s committed snap options w) = own w"
proof -
  have "own (case DropEmptySupersededInlinedTables cx w3 of (Inr _, w') \<Rightarrow> w'
      | (Inl e, w') \<Rightarrow> cx_report_post_commit_error cx (error_message e) w') = own w3" for w3
    using drop_empty_own [of w3] by (auto simp: hooks split: prod.splits sum.splits)
  moreover have "own (fold (\<lambda>(t, _). cx_invalidate_table_stats_cache cx i t) ts w2) = own w2"
    for i w2 and ts :: "(TableIndex, DroppedDataFileStats) omap"
    by (rule fold_own) (simp add: hooks split: prod.split)
  ultimately show ?thesis by (simp add: after_commit_def Let_def hooks)
qed

lemma Commit_own:
  assumes "max_retry_count config \<noteq> - 1" and "Commit D F cx CommitChanges config s changes w fs = (r, s', w', fs')"
  shows "(r = Inr () \<and> (\<exists>x. own w' = own w @ [x]) \<and> s' = s \<and> fs' = fs) \<or>
    ((\<exists>e. r = Inl e) \<and> own w' = own w \<and> fs' = snd (CleanupFiles F (st_local_changes s) fs))"
proof -
  obtain res w1 where loop: "Commit_loop D cx CommitChanges config s changes 0 w = (res, w1)" by fastforce
  note own1 = loop_own [OF assms(1) _ loop, simplified]
  show ?thesis
  proof (cases res)
    case (Inl e)
    with assms(2) loop own1 show ?thesis by (auto simp: Commit_def split: prod.splits)
  next
    case (Inr y)
    with assms(2) loop own1 show ?thesis
      by (cases y) (auto simp: Commit_def after_commit_own)
  qed
qed

end

section \<open>A concrete metadata database\<close>

text \<open>
  One connection to a database that other connections write too: \<open>rw_rows\<close> are the committed rows of
  \<^verbatim>\<open>ducklake_snapshot\<close> with their \<^verbatim>\<open>ducklake_snapshot_changes\<close>, \<open>rw_start\<close> the snapshot of the transaction. The
  primary key on the snapshot identifier makes a batch with a taken identifier fail.
\<close>

record ref_world =
  rw_rows :: "(DuckLakeSnapshot \<times> commit_batch) list"
  rw_own :: "(DuckLakeSnapshot \<times> commit_batch) list"
  rw_pending :: "(DuckLakeSnapshot \<times> commit_batch) option"
  rw_start :: DuckLakeSnapshot

definition rw_latest :: "ref_world \<Rightarrow> DuckLakeSnapshot" where
  "rw_latest w = (if rw_rows w = [] then rw_start w else fst (last (rw_rows w)))"

definition cx_ref :: "ref_world DuckLakeCommitContext" where
  "cx_ref =
     \<lparr>cx_get_snapshot = (\<lambda>w. (Inr (rw_start w), w)),
      cx_snapshot_and_changes = (\<lambda>w. (Inr (rw_latest w, aggregate_changes (map (cb_changes_made \<circ> snd)
        (filter (\<lambda>(snap, _). snapshot_id snap > snapshot_id (rw_start w)) (rw_rows w)))), w)),
      cx_conflict_query = (\<lambda>_ _. Inr []),
      cx_execute_commit_batch = (\<lambda>snap batch w.
        if list_ex (\<lambda>(snap', _). snapshot_id snap' = snapshot_id snap) (rw_rows w)
        then (Inl (MetadataError ''Duplicate key violates primary key constraint''), w)
        else (Inr (), w\<lparr>rw_pending := Some (snap, batch)\<rparr>)),
      cx_is_retryable_metadata_error = (\<lambda>_. False),
      cx_flush_cache_if_pending = (\<lambda>w. w),
      cx_commit_connection = (\<lambda>w. case rw_pending w of
          None \<Rightarrow> (Inr (), w)
        | Some x \<Rightarrow> (Inr (), w\<lparr>rw_rows := rw_rows w @ [x], rw_own := rw_own w @ [x], rw_pending := None\<rparr>)),
      cx_try_rollback = (\<lambda>w. w\<lparr>rw_pending := None\<rparr>),
      cx_prepare_retry = (\<lambda>w. w),
      cx_set_committed_snapshot_id = (\<lambda>_ w. w),
      cx_set_table_options = (\<lambda>_ w. w),
      cx_invalidate_table_stats_cache = (\<lambda>_ _ w. w),
      cx_set_catalog_version = (\<lambda>_ w. w),
      cx_invalidate_schema_cache = (\<lambda>_ w. w),
      cx_skip_drop_empty_inlined = False,
      cx_report_post_commit_error = (\<lambda>_ w. w),
      cx_superseded_inlined_tables = (\<lambda>w. (Inr [], w)),
      cx_inlined_row_counts = (\<lambda>_ w. (Inr [0], w)),
      cx_drop_inlined_tables = (\<lambda>_ w. (Inr (), w)),
      cx_snapshot_schema_versions = (\<lambda>w. (Inr [], w))\<rparr>"

interpretation ref_connection: metadata_connection cx_ref rw_own rw_pending
  by unfold_locales (auto simp: cx_ref_def split: if_splits option.splits)

definition no_catalog_changes :: "'w commit_changes" where
  "no_catalog_changes cs changes w = Inr ([], cs, changes, [])"

text \<open>
  The loop of \<^verbatim>\<open>Commit\<close> seen attempt by attempt: the world in which attempt \<open>i\<close> starts when all attempts
  before it failed with errors that are retried.
\<close>

fun retried ::
  "duckdb_string \<Rightarrow> 'w DuckLakeCommitContext \<Rightarrow> 'w commit_changes \<Rightarrow> DuckLakeTransactionState \<Rightarrow>
   TransactionChangeInformation \<Rightarrow> nat \<Rightarrow> 'w \<Rightarrow> 'w option" where
  "retried D cx C s changes 0 w = Some w"
| "retried D cx C s changes (Suc n) w =
     (case retried D cx C s changes n w of
        None \<Rightarrow> None
      | Some w1 \<Rightarrow>
          (case commit_attempt D cx C s changes (of_nat n) w1 of
             (Failed e can_retry retryable, w2) \<Rightarrow>
               if retry_on_error D cx e can_retry retryable then Some (cx_prepare_retry cx (cx_try_rollback cx w2)) else None
           | (Committed _ _, _) \<Rightarrow> None))"

lemma Commit_loop_retried:
  assumes "max_retry_count config \<noteq> - 1" and "retried D cx C s changes n w = Some w'"
    and "n \<le> unat (max_retry_count config)"
  shows "Commit_loop D cx C config s changes 0 w = Commit_loop D cx C config s changes (of_nat n) w'"
  using assms(2,3)
proof (induction n arbitrary: w')
  case (Suc n)
  let ?max = "max_retry_count config"
  obtain w1 e can_retry retryable w2 where r: "retried D cx C s changes n w = Some w1"
    and att: "commit_attempt D cx C s changes (of_nat n) w1 = (Failed e can_retry retryable, w2)"
    and retry: "retry_on_error D cx e can_retry retryable" and w': "w' = cx_prepare_retry cx (cx_try_rollback cx w2)"
    using Suc.prems(1) by (auto split: option.splits prod.splits attempt_result.splits if_splits)
  have small: "n < unat ?max" using Suc.prems(2) by simp
  then have n: "unat (of_nat n :: idx) = n"
    by (intro unat_of_nat_bounded [of n "max_retry_count config"]) simp
  then have lt: "(of_nat n :: idx) < ?max" using small by (simp add: word_less_nat_alt)
  have "Commit_loop D cx C config s changes (of_nat n) w1 = Commit_loop D cx C config s changes (of_nat n + 1) w'"
    using attempt_allowed [OF assms(1), of "of_nat n"] lt att retry not_le [of ?max "of_nat n"]
    by (subst Commit_loop.simps) (simp add: w')
  with Suc.IH [OF r] small show ?case by (simp add: add.commute)
qed simp

definition sample_world :: ref_world where
  "sample_world =
     \<lparr>rw_rows = [], rw_own = [], rw_pending = None,
      rw_start = \<lparr>snapshot_id = 3, schema_version = 0, next_catalog_id = 9, next_file_id = 2\<rparr>\<rparr>"

definition sample_summary :: TransactionChangeInformation where
  "sample_summary = TransactionChangeInformation_empty\<lparr>tc_dropped_tables := {|7|}, tc_tables_deleted_from := {|3|}\<rparr>"

lemma sample_attempt:
  "\<exists>snapshot w'. commit_attempt duckdb_ref cx_ref no_catalog_changes sample_dropper sample_summary 0 sample_world =
     (Committed snapshot [], w')"
proof -
  have snap: "next_snapshot sample_dropper (rw_start sample_world) =
      \<lparr>snapshot_id = 4, schema_version = 1, next_catalog_id = 9, next_file_id = 2\<rparr>"
    by (simp add: next_snapshot_def sample_world_def sample_dropper_def SchemaChangesMade_def DuckLakeTransactionState_empty_def)
  show ?thesis
    using sample_dropper_text snap
    by (auto simp: commit_attempt_def cx_ref_def commit_batch_of_def no_catalog_changes_def sample_commit_def [symmetric]
        sample_summary_def sample_world_def)
qed

lemma sample_commit_runs:
  "\<exists>w'. Commit duckdb_ref fs_ref cx_ref no_catalog_changes DuckLakeRetryConfig_default sample_dropper sample_summary
     sample_world {||} = (Inr (), sample_dropper, w', {||})"
proof -
  obtain snapshot w' where "commit_attempt duckdb_ref cx_ref no_catalog_changes sample_dropper sample_summary 0 sample_world =
      (Committed snapshot [], w')"
    using sample_attempt by blast
  then have "Commit_loop duckdb_ref cx_ref no_catalog_changes DuckLakeRetryConfig_default sample_dropper sample_summary 0
      sample_world = (Inr (True, snapshot, []), w')"
    by (subst Commit_loop.simps) (simp add: DuckLakeRetryConfig_default_def)
  then show ?thesis by (simp add: Commit_def)
qed

text \<open>The same transaction when another one dropped table 7 first.\<close>

definition sample_race :: ref_world where
  "sample_race = sample_world\<lparr>rw_rows := [(\<lparr>snapshot_id = 4, schema_version = 1, next_catalog_id = 9, next_file_id = 2\<rparr>,
     \<lparr>cb_queries = [], cb_changes_made = ''dropped_table:7''\<rparr>)]\<rparr>"

lemma primary_key_retried: "RetryOnError duckdb_ref ''Duplicate key violates primary key constraint''"
  by (simp add: RetryOnError_def duckdb_ref_def ascii_lower_def char_lower_def)

lemma sample_race_retried:
  "retried duckdb_ref cx_ref no_catalog_changes sample_dropper sample_summary 1 sample_race = Some sample_race"
proof -
  have snap: "next_snapshot sample_dropper (rw_start sample_world) =
      \<lparr>snapshot_id = 4, schema_version = 1, next_catalog_id = 9, next_file_id = 2\<rparr>"
    by (simp add: next_snapshot_def sample_world_def sample_dropper_def SchemaChangesMade_def DuckLakeTransactionState_empty_def)
  have "commit_attempt duckdb_ref cx_ref no_catalog_changes sample_dropper sample_summary 0 sample_race =
      (Failed (MetadataError ''Duplicate key violates primary key constraint'') True False, sample_race)"
    using sample_dropper_text snap
    by (auto simp: commit_attempt_def cx_ref_def commit_batch_of_def no_catalog_changes_def sample_commit_def [symmetric]
        sample_summary_def sample_world_def sample_race_def)
      (simp add: sample_commit_def DuckLakeCommitState_new_def)
  then show ?thesis
    using primary_key_retried by (simp add: retry_on_error_def) (simp add: cx_ref_def sample_race_def sample_world_def)
qed

lemma sample_race_conflict:
  "\<exists>e. CheckForConflicts_after duckdb_ref cx_ref sample_dropper sample_summary sample_race = (Inl e, sample_race)"
proof -
  have "print_entries duckdb_ref [IndexChange DROPPED_TABLE 7] = ''dropped_table:7''"
    by (simp add: print_entries_def print_entry_def to_string_def dec_string.simps)
  moreover have "\<exists>r. ParseChangesMade duckdb_ref (print_entries duckdb_ref [IndexChange DROPPED_TABLE 7]) = Inr r \<and>
      reflects duckdb_ref [IndexChange DROPPED_TABLE 7] r"
    by (rule ref.ParseChangesMade_print) (simp add: entry_change_types_def)
  ultimately obtain r where r: "ParseChangesMade duckdb_ref ''dropped_table:7'' = Inr r" and "7 |\<in>| sc_dropped_tables r"
    by (auto simp: reflects_def index_sets_def)
  then have "\<not> is_ok (check_drops id (tc_dropped_tables sample_summary) (sc_dropped_tables r) ''drop table'')"
    by (auto simp: is_ok_check_drops sample_summary_def)
  then have "\<not> is_ok (CheckForConflicts duckdb_ref sample_dropper sample_summary r (\<lambda>_. Inr []))"
    unfolding CheckForConflicts_def is_ok_for_each by simp
  then obtain e where "CheckForConflicts duckdb_ref sample_dropper sample_summary r (\<lambda>_. Inr []) = Inl e"
    by (cases "CheckForConflicts duckdb_ref sample_dropper sample_summary r (\<lambda>_. Inr [])") (auto simp: is_ok_def)
  then show ?thesis
    using r by (auto simp: CheckForConflicts_after_def cx_ref_def sample_race_def sample_world_def aggregate_changes_def
        rw_latest_def)
qed

section \<open>Properties\<close>

text \<open>
  C3. A commit is all or nothing: with any retry limit but the largest 64-bit number, and on a
  metadata connection that keeps its transactions, \<^verbatim>\<open>Commit\<close> either reports success, and then exactly
  one snapshot was committed and the data files stay, or it reports an error, and then nothing was
  committed by this transaction and exactly the files it had written are removed. It always returns.
\<close>

theorem commit_all_or_nothing:
  assumes "metadata_connection cx own pending" and "duckdb_filesystem F"
    and "max_retry_count config \<noteq> - 1"
    and "Commit D F cx CommitChanges config s changes w fs = (r, s', w', fs')"
  shows "(r = Inr () \<and> (\<exists>x. own w' = own w @ [x]) \<and> s' = s \<and> fs' = fs) \<or>
    ((\<exists>e. r = Inl e) \<and> own w' = own w \<and>
     (\<forall>q. fs_exists F fs' q \<longleftrightarrow> fs_exists F fs q \<and> q \<notin> set (owned_paths (st_local_changes s))))"
  using metadata_connection.Commit_own [OF assms(1,3,4)] duckdb_filesystem.CleanupFiles_exists [OF assms(2)] by auto

theorem commit_all_or_nothing_witness:
  "\<exists>w' x. Commit duckdb_ref fs_ref cx_ref no_catalog_changes DuckLakeRetryConfig_default sample_dropper sample_summary
     sample_world {||} = (Inr (), sample_dropper, w', {||}) \<and> rw_own w' = [x]"
proof -
  obtain w' where run: "Commit duckdb_ref fs_ref cx_ref no_catalog_changes DuckLakeRetryConfig_default sample_dropper
      sample_summary sample_world {||} = (Inr (), sample_dropper, w', {||})"
    using sample_commit_runs by blast
  have "max_retry_count DuckLakeRetryConfig_default \<noteq> - 1" by (simp add: DuckLakeRetryConfig_default_def)
  from commit_all_or_nothing [OF ref_connection.metadata_connection_axioms ref_fs.duckdb_filesystem_axioms this run] run
  show ?thesis by (auto simp: sample_world_def)
qed

text \<open>
  C23. With \<^verbatim>\<open>ducklake_max_retry_count\<close> at the largest 64-bit number the bound of the loop wraps to zero:
  \<^verbatim>\<open>Commit\<close> makes no attempt, commits nothing and yet reports success.
\<close>

theorem largest_retry_count_skips_commit:
  assumes "metadata_connection cx own pending" and "max_retry_count config = - 1"
  shows "\<exists>w'. Commit D F cx CommitChanges config s changes w fs = (Inr (), s, w', fs) \<and> own w' = own w"
proof -
  have "Commit_loop D cx CommitChanges config s changes 0 w = (Inr (False, DuckLakeSnapshot_default, []), w)"
    by (subst Commit_loop.simps) (simp add: assms(2))
  then show ?thesis
    by (simp add: Commit_def metadata_connection.after_commit_own [OF assms(1)])
qed

theorem largest_retry_count_skips_commit_witness:
  "\<exists>w'. Commit duckdb_ref fs_ref cx_ref no_catalog_changes \<lparr>max_retry_count = - 1, retry_wait_ms = 100\<rparr> sample_dropper
     sample_summary sample_world {||} = (Inr (), sample_dropper, w', {||}) \<and> rw_own w' = []"
  using largest_retry_count_skips_commit [OF ref_connection.metadata_connection_axioms,
      of "\<lparr>max_retry_count = - 1, retry_wait_ms = 100\<rparr>" duckdb_ref fs_ref no_catalog_changes sample_dropper
        sample_summary sample_world "{||}"]
  by (simp add: sample_world_def)



text \<open>
  C8. A conflict is final: when a retry finds that the changes committed in the meantime conflict with
  its own, \<^verbatim>\<open>Commit\<close> stops with that error, however many retries are left, and does not try again.
\<close>

theorem conflict_is_final:
  assumes "max_retry_count config \<noteq> - 1" and "0 < n" and "n \<le> unat (max_retry_count config)"
    and "retried D cx CommitChanges s changes n w = Some w1"
    and "CheckForConflicts_after D cx s changes w1 = (Inl e, w2)"
  shows "\<exists>s' fs'. Commit D F cx CommitChanges config s changes w fs = (Inl e, s', cx_try_rollback cx w2, fs')"
proof -
  have n: "unat (of_nat n :: idx) = n"
    by (rule unat_of_nat_bounded [OF assms(3)])
  then have lt: "(of_nat n :: idx) < max_retry_count config + 1"
    using assms(3) by (intro attempt_allowed [OF assms(1)]) (simp add: word_le_nat_alt)
  have "0 < (of_nat n :: idx)" using assms(2) n by (simp add: word_less_nat_alt)
  then have "commit_attempt D cx CommitChanges s changes (of_nat n) w1 = (Failed e False False, w2)"
    using assms(5) by (simp add: commit_attempt_def)
  then have "Commit_loop D cx CommitChanges config s changes 0 w = (Inl e, cx_try_rollback cx w2)"
    using lt unfolding Commit_loop_retried [OF assms(1,4,3)]
    by (subst Commit_loop.simps) (simp add: retry_on_error_def)
  then show ?thesis by (simp add: Commit_def split: prod.split)
qed

theorem conflict_is_final_witness:
  "\<exists>e s' fs'. Commit duckdb_ref fs_ref cx_ref no_catalog_changes DuckLakeRetryConfig_default sample_dropper
     sample_summary sample_race {||} = (Inl e, s', cx_try_rollback cx_ref sample_race, fs')"
proof -
  obtain e where e: "CheckForConflicts_after duckdb_ref cx_ref sample_dropper sample_summary sample_race = (Inl e, sample_race)"
    using sample_race_conflict by blast
  have limit: "max_retry_count DuckLakeRetryConfig_default \<noteq> - 1" "1 \<le> unat (max_retry_count DuckLakeRetryConfig_default)"
    by (simp_all add: DuckLakeRetryConfig_default_def)
  from conflict_is_final [OF limit(1) _ limit(2) sample_race_retried e, of fs_ref "{||}"] show ?thesis by auto
qed

end
