(* ===== verification/DL_Concurrency.thy ===== *)
theory DL_Concurrency
  imports DL_Commit
begin

text \<open>
  Many transactions on one DuckLake. The metadata database is the table of committed snapshots with
  a primary key on the snapshot identifier; each transaction reads a snapshot, works, and commits as
  \<^verbatim>\<open>Commit\<close> does: a first attempt on top of the snapshot it started from, later attempts on top of the
  latest snapshot after the conflict check. Any number of transactions take these steps in any
  order. The invariant of the reachable states says that the rs are numbered without gaps and
  that whatever a transaction builds on has been checked; it gives isolation.
\<close>

section \<open>The metadata database and its transactions\<close>

text \<open>
  A row of \<^verbatim>\<open>ducklake_snapshot\<close> with its \<^verbatim>\<open>ducklake_snapshot_changes\<close>. The last three fields are history:
  the snapshot the committed transaction had started from, its state and its summary.
\<close>

record snapshot_row =
  row_snapshot :: DuckLakeSnapshot
  row_changes :: string
  row_start :: idx
  row_state :: DuckLakeTransactionState
  row_summary :: TransactionChangeInformation

abbreviation row_id :: "snapshot_row \<Rightarrow> idx" where
  "row_id r \<equiv> snapshot_id (row_snapshot r)"

text \<open>A running transaction; \<open>tx_base\<close> is the snapshot its current attempt builds on.\<close>

record txn =
  tx_start :: DuckLakeSnapshot
  tx_state :: DuckLakeTransactionState
  tx_changes :: TransactionChangeInformation
  tx_base :: "DuckLakeSnapshot option"

record lake =
  lk_rows :: "snapshot_row list"
  lk_txns :: "nat \<Rightarrow> txn option"

definition rows_between :: "idx \<Rightarrow> idx \<Rightarrow> snapshot_row list \<Rightarrow> snapshot_row list" where
  "rows_between start final rs = filter (\<lambda>r. start < row_id r \<and> row_id r \<le> final) rs"

text \<open>
  The check of a retry against a list of rows (\<^verbatim>\<open>CheckForConflicts\<close> with the aggregated texts);
  \<open>deleted\<close> answers the query for the files these rs deleted from or dropped.
\<close>

definition check_against ::
  "duckdb_string \<Rightarrow> (snapshot_row list \<Rightarrow> idx list) \<Rightarrow> DuckLakeTransactionState \<Rightarrow> TransactionChangeInformation \<Rightarrow>
   snapshot_row list \<Rightarrow> unit res" where
  "check_against D deleted s c rs =
     bind_res (ParseChangesMade D (aggregate_changes (map row_changes rs))) (\<lambda>other.
       CheckForConflicts D s c other (\<lambda>_. Inr (deleted rs)))"

text \<open>
  The identifiers of a commit: \<^verbatim>\<open>CommitChanges\<close> gives committed identifiers to transaction-local tables
  only.
\<close>

definition remap_ok :: "DuckLakeCommitState \<Rightarrow> bool" where
  "remap_ok cs \<longleftrightarrow> list_all (\<lambda>(t, _). IsTransactionLocal t) (cs_committed_tables cs)"

inductive lake_step ::
  "duckdb_string \<Rightarrow> (snapshot_row list \<Rightarrow> idx list) \<Rightarrow> lake \<Rightarrow> lake \<Rightarrow> bool" for D deleted where
  begin_txn:
    "lk_txns l i = None \<Longrightarrow> GetTransactionChanges D s = Inr c \<Longrightarrow>
     x = \<lparr>tx_start = row_snapshot (last (lk_rows l)), tx_state = s, tx_changes = c, tx_base = None\<rparr> \<Longrightarrow>
     lake_step D deleted l (l\<lparr>lk_txns := (lk_txns l)(i \<mapsto> x)\<rparr>)"
| first_attempt:
    "lk_txns l i = Some x \<Longrightarrow> tx_base x = None \<Longrightarrow>
     lake_step D deleted l (l\<lparr>lk_txns := (lk_txns l)(i \<mapsto> x\<lparr>tx_base := Some (tx_start x)\<rparr>)\<rparr>)"
| retry_attempt:
    "lk_txns l i = Some x \<Longrightarrow> tx_base x \<noteq> None \<Longrightarrow> latest = row_snapshot (last (lk_rows l)) \<Longrightarrow>
     check_against D deleted (tx_state x) (tx_changes x)
       (rows_between (snapshot_id (tx_start x)) (snapshot_id latest) (lk_rows l)) = Inr () \<Longrightarrow>
     lake_step D deleted l (l\<lparr>lk_txns := (lk_txns l)(i \<mapsto> x\<lparr>tx_base := Some latest\<rparr>)\<rparr>)"
| commit:
    "lk_txns l i = Some x \<Longrightarrow> tx_base x = Some base \<Longrightarrow> remap_ok cs \<Longrightarrow>
     WriteSnapshotChanges D (tx_state x) cs (tx_changes x) = Inr (changes_made, c') \<Longrightarrow>
     snapshot_id snap = snapshot_id (next_snapshot (tx_state x) base) \<Longrightarrow>
     schema_version snap = schema_version (next_snapshot (tx_state x) base) \<Longrightarrow>
     \<not> list_ex (\<lambda>r. row_id r = snapshot_id snap) (lk_rows l) \<Longrightarrow>
     lake_step D deleted l
       (l\<lparr>lk_rows := lk_rows l @ [\<lparr>row_snapshot = snap, row_changes = changes_made,
             row_start = snapshot_id (tx_start x), row_state = tx_state x, row_summary = tx_changes x\<rparr>],
          lk_txns := (lk_txns l)(i := None)\<rparr>)"
| abort:
    "lk_txns l i = Some x \<Longrightarrow> lake_step D deleted l (l\<lparr>lk_txns := (lk_txns l)(i := None)\<rparr>)"

inductive_cases lake_stepE: "lake_step D deleted l l'"

text \<open>A new DuckLake has the snapshot 0 and no transactions.\<close>

definition initial_lake :: "lake \<Rightarrow> bool" where
  "initial_lake l \<longleftrightarrow> length (lk_rows l) = 1 \<and> row_id (hd (lk_rows l)) = 0 \<and> lk_txns l = (\<lambda>_. None)"

inductive reachable ::
  "duckdb_string \<Rightarrow> (snapshot_row list \<Rightarrow> idx list) \<Rightarrow> lake \<Rightarrow> bool" for D deleted where
  initial: "initial_lake l \<Longrightarrow> reachable D deleted l"
| step: "reachable D deleted l \<Longrightarrow> lake_step D deleted l l' \<Longrightarrow> reachable D deleted l'"

section \<open>The invariant\<close>

definition numbered :: "snapshot_row list \<Rightarrow> bool" where
  "numbered rs \<longleftrightarrow> rs \<noteq> [] \<and> length rs \<le> 2 ^ 64 \<and> map row_id rs = map of_nat [0..<length rs]"

definition based_on ::
  "duckdb_string \<Rightarrow> (snapshot_row list \<Rightarrow> idx list) \<Rightarrow> snapshot_row list \<Rightarrow> DuckLakeTransactionState \<Rightarrow>
   TransactionChangeInformation \<Rightarrow> idx \<Rightarrow> idx \<Rightarrow> bool" where
  "based_on D deleted rs s c start base \<longleftrightarrow>
     base \<in> row_id ` set rs \<and>
     (base = start \<or> start \<le> base \<and> check_against D deleted s c (rows_between start base rs) = Inr ())"

definition txn_ok ::
  "duckdb_string \<Rightarrow> (snapshot_row list \<Rightarrow> idx list) \<Rightarrow> snapshot_row list \<Rightarrow> txn \<Rightarrow> bool" where
  "txn_ok D deleted rs x \<longleftrightarrow>
     GetTransactionChanges D (tx_state x) = Inr (tx_changes x) \<and>
     snapshot_id (tx_start x) \<in> row_id ` set rs \<and>
     (\<forall>b. tx_base x = Some b \<longrightarrow>
        based_on D deleted rs (tx_state x) (tx_changes x) (snapshot_id (tx_start x)) (snapshot_id b))"

definition row_ok ::
  "duckdb_string \<Rightarrow> (snapshot_row list \<Rightarrow> idx list) \<Rightarrow> snapshot_row list \<Rightarrow> snapshot_row \<Rightarrow> bool" where
  "row_ok D deleted rs r \<longleftrightarrow>
     GetTransactionChanges D (row_state r) = Inr (row_summary r) \<and>
     (\<exists>cs c. remap_ok cs \<and> WriteSnapshotChanges D (row_state r) cs (row_summary r) = Inr (row_changes r, c)) \<and>
     based_on D deleted rs (row_state r) (row_summary r) (row_start r) (row_id r - 1)"

definition lake_inv :: "duckdb_string \<Rightarrow> (snapshot_row list \<Rightarrow> idx list) \<Rightarrow> lake \<Rightarrow> bool" where
  "lake_inv D deleted l \<longleftrightarrow>
     numbered (lk_rows l) \<and> (\<forall>r \<in> set (tl (lk_rows l)). row_ok D deleted (lk_rows l) r) \<and>
     (\<forall>i x. lk_txns l i = Some x \<longrightarrow> txn_ok D deleted (lk_rows l) x)"

lemma unat_of_nat_small: "j < 2 ^ 64 \<Longrightarrow> unat (of_nat j :: idx) = j"
  by (simp add: unsigned_of_nat take_bit_nat_eq_self)

lemma of_nat_less: "j < 2 ^ 64 \<Longrightarrow> k < 2 ^ 64 \<Longrightarrow> (of_nat j :: idx) < of_nat k \<longleftrightarrow> j < k"
  by (simp only: word_less_nat_alt unat_of_nat_small)

lemma numbered_nth: "numbered rs \<Longrightarrow> j < length rs \<Longrightarrow> row_id (rs ! j) = of_nat j"
  unfolding numbered_def by (metis (no_types, lifting) add.left_neutral diff_zero length_upt nth_map nth_upt)

lemma numbered_ids: "numbered rs \<Longrightarrow> row_id ` set rs = of_nat ` {..<length rs}"
  unfolding numbered_def by (metis atLeast_upt list.set_map)

lemma numbered_last: "numbered rs \<Longrightarrow> row_id (last rs) = of_nat (length rs - 1)"
  using numbered_nth [of rs "length rs - 1"] by (simp add: last_conv_nth numbered_def)

lemma numbered_below_last:
  assumes "numbered rs" and "b \<in> row_id ` set rs"
  shows "b \<le> row_id (last rs)"
proof -
  obtain j where j: "j < length rs" "b = of_nat j" using assms by (auto simp: numbered_ids)
  have "length rs \<le> 2 ^ 64" using assms(1) by (simp add: numbered_def)
  with j show ?thesis
    using of_nat_less [of "length rs - 1" j] by (simp add: numbered_last [OF assms(1)] not_less [symmetric])
qed

text \<open>The primary key leaves one identifier for the next row.\<close>

lemma next_row:
  assumes rs: "numbered rs" and b: "b \<in> row_id ` set rs" and new: "b + 1 \<notin> row_id ` set rs"
  shows "b = row_id (last rs)" and "length rs < 2 ^ 64" and "b + 1 = of_nat (length rs)"
proof -
  have ids: "row_id ` set rs = of_nat ` {..<length rs}" by (rule numbered_ids [OF rs])
  obtain j where j: "j < length rs" "b = of_nat j" using b unfolding ids by auto
  have succ: "b + 1 = of_nat (Suc j)" by (simp add: j add.commute)
  then have last: "Suc j = length rs"
    using new j(1) unfolding ids by (metis Suc_lessI image_eqI lessThan_iff)
  then show "b + 1 = of_nat (length rs)" by (simp add: succ)
  show "b = row_id (last rs)" using last j by (simp add: numbered_last [OF rs] last [symmetric])
  show "length rs < 2 ^ 64"
  proof (rule ccontr)
    assume "\<not> length rs < 2 ^ 64"
    then have "length rs = 2 ^ 64" using rs by (simp add: numbered_def)
    then have "b + 1 = 0" using succ last by simp
    moreover have "0 \<in> row_id ` set rs" unfolding ids using j(1) by (auto intro!: image_eqI [of _ _ 0])
    ultimately show False using new by simp
  qed
qed

lemma numbered_snoc:
  "numbered rs \<Longrightarrow> length rs < 2 ^ 64 \<Longrightarrow> row_id r = of_nat (length rs) \<Longrightarrow> numbered (rs @ [r])"
  by (simp add: numbered_def)

lemma rows_between_snoc:
  assumes "numbered rs" and "length rs < 2 ^ 64" and "row_id r = of_nat (length rs)" and "base \<in> row_id ` set rs"
  shows "rows_between start base (rs @ [r]) = rows_between start base rs"
proof -
  obtain j where "j < length rs" "base = of_nat j" using assms(1,4) by (auto simp: numbered_ids)
  then have "base < row_id r" using assms(2,3) of_nat_less [of j "length rs"] by simp
  then show ?thesis by (simp add: rows_between_def not_le)
qed

lemma based_on_snoc:
  assumes "numbered rs" and "length rs < 2 ^ 64" and "row_id r = of_nat (length rs)"
    and "based_on D deleted rs s c start base"
  shows "based_on D deleted (rs @ [r]) s c start base"
  using assms(4) rows_between_snoc [OF assms(1-3), of base start] by (auto simp: based_on_def)

lemma initial_inv: "initial_lake l \<Longrightarrow> lake_inv D deleted l"
  by (cases "lk_rows l") (auto simp: initial_lake_def lake_inv_def numbered_def)

lemma txn_update_inv:
  assumes "lake_inv D deleted l" and "txn_ok D deleted (lk_rows l) x"
  shows "lake_inv D deleted (l\<lparr>lk_txns := (lk_txns l)(i \<mapsto> x)\<rparr>)"
  using assms by (auto simp: lake_inv_def)

lemma last_row_in: "numbered rs \<Longrightarrow> row_id (last rs) \<in> row_id ` set rs"
  by (simp add: numbered_def)

lemma commit_inv:
  assumes inv: "lake_inv D deleted l" and x: "lk_txns l i = Some x" "tx_base x = Some base"
    and cs: "remap_ok cs" and made: "WriteSnapshotChanges D (tx_state x) cs (tx_changes x) = Inr (changes_made, c')"
    and id: "snapshot_id snap = snapshot_id base + 1" and fresh: "snapshot_id snap \<notin> row_id ` set (lk_rows l)"
  shows "lake_inv D deleted (l\<lparr>lk_rows := lk_rows l @ [\<lparr>row_snapshot = snap, row_changes = changes_made,
      row_start = snapshot_id (tx_start x), row_state = tx_state x, row_summary = tx_changes x\<rparr>],
      lk_txns := (lk_txns l)(i := None)\<rparr>)"
proof -
  let ?rs = "lk_rows l"
  let ?r = "\<lparr>row_snapshot = snap, row_changes = changes_made, row_start = snapshot_id (tx_start x),
      row_state = tx_state x, row_summary = tx_changes x\<rparr>"
  have rs: "numbered ?rs" and rows_ok: "\<forall>r \<in> set (tl ?rs). row_ok D deleted ?rs r"
    and txns: "\<And>i x. lk_txns l i = Some x \<Longrightarrow> txn_ok D deleted ?rs x"
    using inv by (auto simp: lake_inv_def)
  have ok: "txn_ok D deleted ?rs x" using txns x(1) .
  then have base: "based_on D deleted ?rs (tx_state x) (tx_changes x) (snapshot_id (tx_start x)) (snapshot_id base)"
    using x(2) by (simp add: txn_ok_def)
  then have "snapshot_id base \<in> row_id ` set ?rs" by (simp add: based_on_def)
  note next_row = next_row [OF rs this fresh [unfolded id]]
  have snoc: "row_id ?r = of_nat (length ?rs)" using next_row(3) id by simp
  note keep = based_on_snoc [OF rs next_row(2) snoc]
  have "row_ok D deleted (?rs @ [?r]) ?r"
    using ok cs made keep [OF base] id by (auto simp: row_ok_def txn_ok_def)
  moreover have "row_ok D deleted (?rs @ [?r]) r" if "r \<in> set (tl ?rs)" for r
    using rows_ok that keep by (auto simp: row_ok_def)
  moreover have "txn_ok D deleted (?rs @ [?r]) y" if "txn_ok D deleted ?rs y" for y
    using that keep by (auto simp: txn_ok_def)
  moreover have "numbered (?rs @ [?r])" by (rule numbered_snoc [OF rs next_row(2) snoc])
  moreover have "set (tl (?rs @ [?r])) = insert ?r (set (tl ?rs))"
    using rs by (cases ?rs) (auto simp: numbered_def)
  ultimately show ?thesis using txns by (auto simp: lake_inv_def)
qed

lemma step_inv: "lake_step D deleted l l' \<Longrightarrow> lake_inv D deleted l \<Longrightarrow> lake_inv D deleted l'"
proof (induction rule: lake_step.induct)
  case (begin_txn l i s c x)
  then have "numbered (lk_rows l)" by (simp add: lake_inv_def)
  with begin_txn have "txn_ok D deleted (lk_rows l) x" by (auto simp: txn_ok_def last_row_in)
  with begin_txn show ?case by (simp add: txn_update_inv)
next
  case (first_attempt l i x)
  then have "txn_ok D deleted (lk_rows l) x" by (simp add: lake_inv_def)
  then have "txn_ok D deleted (lk_rows l) (x\<lparr>tx_base := Some (tx_start x)\<rparr>)" by (auto simp: txn_ok_def based_on_def)
  with first_attempt show ?case by (simp add: txn_update_inv)
next
  case (retry_attempt l i x latest)
  then have rs: "numbered (lk_rows l)" and ok: "txn_ok D deleted (lk_rows l) x" by (simp_all add: lake_inv_def)
  have "snapshot_id (tx_start x) \<le> snapshot_id latest"
    using ok numbered_below_last [OF rs] retry_attempt.hyps(3) by (simp add: txn_ok_def)
  then have "txn_ok D deleted (lk_rows l) (x\<lparr>tx_base := Some latest\<rparr>)"
    using ok retry_attempt.hyps last_row_in [OF rs] by (auto simp: txn_ok_def based_on_def)
  with retry_attempt show ?case by (simp add: txn_update_inv)
next
  case (commit l i x base cs changes_made c' snap)
  have "snapshot_id snap \<notin> row_id ` set (lk_rows l)" using commit.hyps(7) by (auto simp: list_ex_iff)
  with commit show ?case by (intro commit_inv) (auto simp: next_snapshot_def)
next
  case (abort l i x)
  then show ?case by (auto simp: lake_inv_def)
qed

lemma reachable_inv: "reachable D deleted l \<Longrightarrow> lake_inv D deleted l"
  by (induction rule: reachable.induct) (auto intro: initial_inv step_inv)

section \<open>Isolation\<close>

lemma CheckForConflicts_tables:
  assumes "is_ok (CheckForConflicts D s c other executor)"
  shows "tables_compatible s c other"
  using assms
  unfolding CheckForConflicts_def is_ok_for_each tables_compatible_def exclusion_table_def
  by (simp add: is_ok_check_drops is_ok_check_tables table_checks finter_union_empty)

text \<open>A summary that lists fewer changes conflicts with fewer transactions.\<close>

definition listed_in :: "SnapshotChangeInformation \<Rightarrow> SnapshotChangeInformation \<Rightarrow> bool" where
  "listed_in o1 o2 \<longleftrightarrow> list_all2 (\<lambda>(t, S) (t', S'). t = t' \<and> S |\<subseteq>| S') (index_sets o1) (index_sets o2)"

lemma tables_compatible_mono:
  assumes "listed_in o1 o2" and "tables_compatible s c o2"
  shows "tables_compatible s c o1"
  using assms unfolding listed_in_def index_sets_def tables_compatible_def exclusion_table_def
  by (simp add: finter_union_empty) blast

context duckdb_strings
begin

lemma listed_in_aggregate:
  assumes "\<And>w. w \<in> set ws \<Longrightarrow> \<exists>c0 c. GetTransactionChanges D (fst w) = Inr c0 \<and>
      WriteSnapshotChanges D (fst w) (snd w) c0 = Inr (text_of w, c)"
    and "w \<in> set ws" and "ParseChangesMade D (aggregate_changes (map text_of ws)) = Inr r"
  shows "\<exists>o1. ParseChangesMade D (text_of w) = Inr o1 \<and> listed_in o1 r"
proof -
  obtain c0 c where w: "GetTransactionChanges D (fst w) = Inr c0" "WriteSnapshotChanges D (fst w) (snd w) c0 = Inr (text_of w, c)"
    using assms(1,2) by blast
  have sub: "i |\<in>| written_set (snd w) c t \<Longrightarrow> (t, S) \<in> set (index_sets r) \<Longrightarrow> i |\<in>| S" for i t S
    using aggregated_texts_read_back [of ws text_of] assms w by fastforce
  obtain o1 where o1: "ParseChangesMade D (text_of w) = Inr o1" "reflects D (written_entries (snd w) c) o1"
    using ParseChangesMade_print [of "written_entries (snd w) c"] commit_text_print [OF w] by metis
  have own: "(t, S) \<in> set (index_sets o1) \<Longrightarrow> S = written_set (snd w) c t" for t S
    using o1(2) unfolding reflects_def written_index by (auto simp: fset_eq_iff)
  have "S |\<subseteq>| S'" if "(t, S) \<in> set (index_sets o1)" "(t, S') \<in> set (index_sets r)" for t S S'
    using own [OF that(1)] sub [OF _ that(2)] by auto
  moreover have "fst (index_sets o1 ! j) = fst (index_sets r ! j)" if "j < 17" for j
    using that index_sets_shape(1,2) by (metis nth_map)
  ultimately have "listed_in o1 r"
    unfolding listed_in_def list_all2_conv_all_nth index_sets_shape(1) case_prod_beta
    by (metis index_sets_shape(1) nth_mem prod.collapse)
  with o1(1) show ?thesis by blast
qed

lemma concurrent_compatible:
  assumes rs_ok: "\<And>r. r \<in> set rs \<Longrightarrow> row_ok D deleted all r" and "r1 \<in> set rs"
    and check: "check_against D deleted s c rs = Inr ()"
  shows "\<exists>o1. ParseChangesMade D (row_changes r1) = Inr o1 \<and> tables_compatible s c o1"
proof -
  have "\<forall>r \<in> set rs. \<exists>cs. commit_text D (row_state r) cs = Inr (row_changes r)"
  proof
    fix r
    assume "r \<in> set rs"
    then obtain cs c where "GetTransactionChanges D (row_state r) = Inr (row_summary r)"
      "WriteSnapshotChanges D (row_state r) cs (row_summary r) = Inr (row_changes r, c)"
      using rs_ok [of r] unfolding row_ok_def by blast
    then show "\<exists>cs. commit_text D (row_state r) cs = Inr (row_changes r)"
      by (auto simp: commit_text_def intro!: exI [of _ cs])
  qed
  then obtain cs_of where cs: "\<And>r. r \<in> set rs \<Longrightarrow> commit_text D (row_state r) (cs_of r) = Inr (row_changes r)"
    by metis
  define text_of where "text_of w = (case commit_text D (fst w) (snd w) of Inr t \<Rightarrow> t | Inl _ \<Rightarrow> [])" for w
  define ws where "ws = map (\<lambda>r. (row_state r, cs_of r)) rs"
  have texts: "map text_of ws = map row_changes rs" using cs by (simp add: ws_def text_of_def)
  have written: "\<exists>c0 c. GetTransactionChanges D (fst w) = Inr c0 \<and> WriteSnapshotChanges D (fst w) (snd w) c0 = Inr (text_of w, c)"
    if "w \<in> set ws" for w
  proof -
    from that obtain r where r: "r \<in> set rs" "w = (row_state r, cs_of r)" by (auto simp: ws_def)
    then have "text_of w = row_changes r" using cs by (simp add: text_of_def)
    moreover have "\<exists>c0 c. GetTransactionChanges D (row_state r) = Inr c0 \<and>
        WriteSnapshotChanges D (row_state r) (cs_of r) c0 = Inr (row_changes r, c)"
      using cs [OF r(1)] by (auto simp: commit_text_def bind_res_Inr_iff)
    ultimately show ?thesis by (simp add: r(2))
  qed
  obtain other where other: "ParseChangesMade D (aggregate_changes (map row_changes rs)) = Inr other"
    and ok: "CheckForConflicts D s c other (\<lambda>_. Inr (deleted rs)) = Inr ()"
    using check by (auto simp: check_against_def bind_res_Inr_iff)
  have "(row_state r1, cs_of r1) \<in> set ws" and "text_of (row_state r1, cs_of r1) = row_changes r1"
    using assms(2) cs by (auto simp: ws_def text_of_def)
  with listed_in_aggregate [OF written _ other [folded texts], of "(row_state r1, cs_of r1)"]
  obtain o1 where "ParseChangesMade D (row_changes r1) = Inr o1" "listed_in o1 other" by auto
  moreover have "tables_compatible s c other" using ok by (intro CheckForConflicts_tables [of D]) (simp add: is_ok_def)
  ultimately show ?thesis using tables_compatible_mono by blast
qed

end

lemma word_less_pred: "(a :: idx) < b \<Longrightarrow> a \<le> b - 1"
  by (cases "b = 0") (simp_all add: word_less_nat_alt word_le_nat_alt unat_minus_one)

lemma concurrent_rows_checked:
  assumes inv: "lake_inv D deleted l" and r1: "r1 \<in> set (lk_rows l)" and r2: "r2 \<in> set (lk_rows l)"
    and "row_start r2 < row_id r1" and "row_id r1 < row_id r2"
  shows "r1 \<in> set (rows_between (row_start r2) (row_id r2 - 1) (lk_rows l))" and "row_ok D deleted (lk_rows l) r2"
    and "check_against D deleted (row_state r2) (row_summary r2) (rows_between (row_start r2) (row_id r2 - 1) (lk_rows l)) = Inr ()"
    and "r \<in> set (rows_between (row_start r2) (row_id r2 - 1) (lk_rows l)) \<Longrightarrow> row_ok D deleted (lk_rows l) r"
proof -
  let ?rs = "lk_rows l"
  have numbered: "numbered ?rs" and ok: "\<And>r. r \<in> set (tl ?rs) \<Longrightarrow> row_ok D deleted ?rs r"
    using inv by (auto simp: lake_inv_def)
  have "row_id (hd ?rs) = 0" using numbered numbered_nth [OF numbered, of 0] by (simp add: numbered_def hd_conv_nth)
  then have tl: "r \<in> set (tl ?rs)" if "r \<in> set ?rs" "(a :: idx) < row_id r" for r a
    using that by (cases ?rs) auto
  show "r1 \<in> set (rows_between (row_start r2) (row_id r2 - 1) ?rs)"
    using assms by (simp add: rows_between_def word_less_pred)
  show row2: "row_ok D deleted ?rs r2" using ok tl r2 assms(5) by blast
  have "row_start r2 \<noteq> row_id r2 - 1" using assms(4,5) word_less_pred [of "row_id r1" "row_id r2"] by auto
  then show "check_against D deleted (row_state r2) (row_summary r2) (rows_between (row_start r2) (row_id r2 - 1) ?rs) = Inr ()"
    using row2 by (auto simp: row_ok_def based_on_def)
  show "r \<in> set (rows_between (row_start r2) (row_id r2 - 1) ?rs) \<Longrightarrow> row_ok D deleted ?rs r"
    using ok tl by (auto simp: rows_between_def)
qed

lemma GetTableId_committed:
  assumes "remap_ok cs" and "\<not> IsTransactionLocal t"
  shows "GetTableId cs t = t"
proof -
  have "map_of (cs_committed_tables cs) t = None"
    using assms by (auto simp: remap_ok_def list_all_iff map_of_eq_None_iff)
  then show ?thesis by (simp add: GetTableId_def RemapIdentifier_table_def omap_get_def)
qed

lemma dropped_table_listed:
  assumes "duckdb_strings D" and "row_ok D deleted rs r" and "t |\<in>| st_dropped_tables (row_state r)"
    and "\<not> IsTransactionLocal t" and "ParseChangesMade D (row_changes r) = Inr o1"
  shows "t |\<in>| sc_dropped_tables o1"
proof -
  obtain cs c where cs: "remap_ok cs" and g: "GetTransactionChanges D (row_state r) = Inr (row_summary r)"
    and w: "WriteSnapshotChanges D (row_state r) cs (row_summary r) = Inr (row_changes r, c)"
    using assms(2) unfolding row_ok_def by blast
  have "read_back D cs c o1"
    using duckdb_strings.written_text_read_back [OF assms(1) g w] assms(5) by auto
  moreover have "tc_dropped_tables c = st_dropped_tables (row_state r)"
    using transaction_summary_sets(11) [OF g] duckdb_strings.commit_text_print(3) [OF assms(1) g w]
    by (simp add: readd_keeps [of tc_dropped_tables] AddTableChanges_keeps)
  moreover have "GetTableId cs t = t" by (rule GetTableId_committed [OF cs assms(4)])
  ultimately show ?thesis using assms(3) by (auto simp: read_back_def intro: rev_image_eqI)
qed

lemma no_change_on_dropped:
  assumes "GetTransactionChanges D s = Inr c" and "tables_compatible s c o1" and "t |\<in>| sc_dropped_tables o1"
    and "\<not> IsTransactionLocal t" and "(t, d) \<in> set (st_local_changes s)"
  shows "IsEmpty d"
proof -
  note sets = transaction_summary_sets [OF assms(1)]
  have none: "t |\<notin>| tc_tables_inserted_into c" "t |\<notin>| tc_tables_inserted_inlined c" "t |\<notin>| tc_tables_deleted_from c"
    "t |\<notin>| tc_tables_deleted_inlined c" "t |\<notin>| tc_tables_flushed_inlined c" "t |\<notin>| tc_tables_merge_adjacent c"
    "t |\<notin>| tc_tables_rewrite_delete c"
    using assms(2,3) by (auto simp: tables_compatible_def exclusion_table_def)
  have has: "P d \<Longrightarrow> local_change_with P (st_local_changes s) t" for P
    using assms(4,5) by (auto simp: local_change_with_def list_ex_iff)
  have "\<not> writes_files d" "\<not> flushes_files d" "new_inlined_data d = None" "new_delete_files d = []" "\<not> deletes_inlined d"
    "\<not> compacts MERGE_ADJACENT_TABLES d" "\<not> compacts REWRITE_DELETES d"
    using none has [of writes_files] has [of flushes_files] has [of "\<lambda>d. new_inlined_data d \<noteq> None"]
      has [of "\<lambda>d. new_delete_files d \<noteq> []"] has [of deletes_inlined] has [of "compacts MERGE_ADJACENT_TABLES"]
      has [of "compacts REWRITE_DELETES"]
    unfolding sets by blast+
  moreover have "compactions d = []" if "\<not> compacts MERGE_ADJACENT_TABLES d" "\<not> compacts REWRITE_DELETES d"
    using that by (cases "compactions d") (auto simp: compacts_def, metis CompactionType.exhaust)
  moreover have "new_data_files d = []" if "\<not> writes_files d" "\<not> flushes_files d"
    using that by (cases "new_data_files d") (auto simp: writes_files_def flushes_files_def)
  ultimately show ?thesis by (simp add: IsEmpty_def deletes_inlined_def)
qed

section \<open>Two concurrent transactions\<close>

text \<open>
  Transaction 0 drops table 7 and deletes from table 3, transaction 1 drops table 8; both start from
  snapshot 0, transaction 0 commits first and transaction 1 has to retry. Transaction 1 has looked up
  its local changes of table 7, which left an empty entry.
\<close>

definition sample_row :: "idx \<Rightarrow> string \<Rightarrow> DuckLakeTransactionState \<Rightarrow> TransactionChangeInformation \<Rightarrow> snapshot_row" where
  "sample_row i made s c =
     \<lparr>row_snapshot = \<lparr>snapshot_id = i, schema_version = i, next_catalog_id = 9, next_file_id = 2\<rparr>,
      row_changes = made, row_start = 0, row_state = s, row_summary = c\<rparr>"

definition second_dropper :: DuckLakeTransactionState where
  "second_dropper = DuckLakeTransactionState_empty
     \<lparr>st_dropped_tables := {|8|}, st_local_changes := [(7, LocalTableDataChanges_default)]\<rparr>"

definition second_summary :: TransactionChangeInformation where
  "second_summary = TransactionChangeInformation_empty\<lparr>tc_dropped_tables := {|8|}\<rparr>"

definition sample_rows :: "snapshot_row list" where
  "sample_rows =
     [sample_row 0 [] DuckLakeTransactionState_empty TransactionChangeInformation_empty,
      sample_row 1 ''dropped_table:7,deleted_from_table:3'' sample_dropper sample_summary,
      sample_row 2 ''dropped_table:8'' second_dropper second_summary]"

definition sample_txn :: "DuckLakeTransactionState \<Rightarrow> TransactionChangeInformation \<Rightarrow> DuckLakeSnapshot option \<Rightarrow> txn" where
  "sample_txn s c base =
     \<lparr>tx_start = \<lparr>snapshot_id = 0, schema_version = 0, next_catalog_id = 9, next_file_id = 2\<rparr>, tx_state = s,
      tx_changes = c, tx_base = base\<rparr>"

definition sample_lake :: "nat \<Rightarrow> txn option \<Rightarrow> txn option \<Rightarrow> lake" where
  "sample_lake n x y = \<lparr>lk_rows = take n sample_rows, lk_txns = (\<lambda>_. None)(0 := x, 1 := y)\<rparr>"

abbreviation snap :: "idx \<Rightarrow> DuckLakeSnapshot" where
  "snap i \<equiv> \<lparr>snapshot_id = i, schema_version = i, next_catalog_id = 9, next_file_id = 2\<rparr>"

lemma AddTableChanges_default [simp]: "AddTableChanges t LocalTableDataChanges_default c = c"
  by (simp add: AddTableChanges_def LocalTableDataChanges_default_def)

lemma second_dropper_changes: "GetTransactionChanges duckdb_ref second_dropper = Inr second_summary"
  by (simp add: GetTransactionChanges_def second_dropper_def second_summary_def DuckLakeTransactionState_empty_def
      set_entries_def catalog_changes_def created_by_schema_def TransactionChangeInformation_empty_def)

lemma second_dropper_text:
  "\<exists>c. WriteSnapshotChanges duckdb_ref second_dropper sample_commit second_summary = Inr (''dropped_table:8'', c)"
proof -
  have [simp]: "sorted_list_of_fset ({||} :: TableIndex fset) = []" "sorted_list_of_fset ({||} :: MacroIndex fset) = []"
    "sorted_list_of_fset ({||} :: ProcedureIndex fset) = []" "sorted_list_of_fset {|8 :: TableIndex|} = [8]"
    by (simp_all add: sorted_list_of_fset.rep_eq)
  have [simp]: "to_string 8 = ''8''" by (simp add: to_string_def dec_string.simps)
  show ?thesis
    by (simp add: WriteSnapshotChanges_def Let_def readd_table_changes_def second_dropper_def second_summary_def
        DuckLakeTransactionState_empty_def Changes_def write_catalog_changes_def write_table_changes_def AddChangeInfo_def
        TransactionChangeInformation_empty_def write_created_entries_def append_change_def GetTableId_sample)
qed

lemma second_check:
  "check_against duckdb_ref (\<lambda>_. []) second_dropper second_summary
     [sample_row 1 ''dropped_table:7,deleted_from_table:3'' sample_dropper sample_summary] = Inr ()"
proof -
  let ?es = "[IndexChange DROPPED_TABLE 7, IndexChange DELETED_FROM_TABLE 3]"
  have "print_entries duckdb_ref ?es = ''dropped_table:7,deleted_from_table:3''"
    by (simp add: print_entries_def print_entry_def to_string_def dec_string.simps)
  moreover have "\<exists>r. ParseChangesMade duckdb_ref (print_entries duckdb_ref ?es) = Inr r \<and> reflects duckdb_ref ?es r"
    by (rule ref.ParseChangesMade_print) (auto simp: entry_change_types_def)
  ultimately obtain r where r: "ParseChangesMade duckdb_ref ''dropped_table:7,deleted_from_table:3'' = Inr r"
    and refl: "reflects duckdb_ref ?es r" by auto
  have keys: "keys_ok duckdb_ref r" by (rule ref.ParseChangesMade_keys_ok [OF r])
  have "8 |\<notin>| sc_dropped_tables r" using refl by (simp add: reflects_def index_sets_def)
  then have "compatible duckdb_ref second_dropper second_summary r []"
    by (simp add: compatible_def tables_compatible_def exclusion_table_def second_summary_def second_dropper_def
        TransactionChangeInformation_empty_def DuckLakeTransactionState_empty_def routines_compatible_def
        schemas_compatible_def entries_compatible_def deletes_compatible_def LocalTableDataChanges_default_def)
  moreover have "entry_types_ok second_summary"
    by (simp add: entry_types_ok_def created_entries_def second_summary_def TransactionChangeInformation_empty_def)
  ultimately have "is_ok (CheckForConflicts duckdb_ref second_dropper second_summary r (\<lambda>_. Inr []))"
    using ref.CheckForConflicts_iff [where executor = "\<lambda>_. Inr []" and deleted = "[]", OF keys] by simp
  then show ?thesis
    by (auto simp: check_against_def sample_row_def aggregate_changes_def r is_ok_def)
qed

lemma sample_lake_reachable: "reachable duckdb_ref (\<lambda>_. []) (sample_lake 3 None None)"
proof -
  let ?step = "lake_step duckdb_ref (\<lambda>_. [])"
  let ?x = "sample_txn sample_dropper sample_summary" and ?y = "sample_txn second_dropper second_summary"
  have d0: "initial_lake (sample_lake 1 None None)"
    by (auto simp: initial_lake_def sample_lake_def sample_rows_def sample_row_def)
  note defs = sample_lake_def sample_txn_def sample_rows_def sample_row_def
  have s1: "?step (sample_lake 1 None None) (sample_lake 1 (Some (?x None)) None)"
    using lake_step.begin_txn [of "sample_lake 1 None None" 0 duckdb_ref sample_dropper sample_summary "?x None"]
      sample_dropper_changes
    by (simp add: defs sample_summary_def)
  have s2: "?step (sample_lake 1 (Some (?x None)) None) (sample_lake 1 (Some (?x None)) (Some (?y None)))"
    using lake_step.begin_txn [of "sample_lake 1 (Some (?x None)) None" 1 duckdb_ref second_dropper second_summary "?y None"]
      second_dropper_changes
    by (simp add: defs)
  have s3: "?step (sample_lake 1 (Some (?x None)) (Some (?y None))) (sample_lake 1 (Some (?x (Some (snap 0)))) (Some (?y None)))"
    using lake_step.first_attempt [of "sample_lake 1 (Some (?x None)) (Some (?y None))" 0 "?x None"]
    by (simp add: defs fun_upd_twist)
  have s4: "?step (sample_lake 1 (Some (?x (Some (snap 0)))) (Some (?y None)))
      (sample_lake 1 (Some (?x (Some (snap 0)))) (Some (?y (Some (snap 0)))))"
    using lake_step.first_attempt [of "sample_lake 1 (Some (?x (Some (snap 0)))) (Some (?y None))" 1 "?y None"]
    by (simp add: defs)
  obtain c where c: "WriteSnapshotChanges duckdb_ref sample_dropper sample_commit sample_summary =
      Inr (''dropped_table:7,deleted_from_table:3'', c)"
    using sample_dropper_text by (auto simp: sample_summary_def)
  have cs: "remap_ok sample_commit" by (simp add: remap_ok_def sample_commit_def DuckLakeCommitState_new_def)
  have changed: "SchemaChangesMade sample_dropper" "SchemaChangesMade second_dropper"
    by (simp_all add: SchemaChangesMade_def sample_dropper_def second_dropper_def)
  have s5: "?step (sample_lake 1 (Some (?x (Some (snap 0)))) (Some (?y (Some (snap 0)))))
      (sample_lake 2 None (Some (?y (Some (snap 0)))))"
    using lake_step.commit [of "sample_lake 1 (Some (?x (Some (snap 0)))) (Some (?y (Some (snap 0))))" 0 "?x (Some (snap 0))"
        "snap 0" sample_commit duckdb_ref _ c "snap 1"] c cs changed
    by (simp add: defs next_snapshot_def fun_upd_twist)
  obtain c' where c': "WriteSnapshotChanges duckdb_ref second_dropper sample_commit second_summary = Inr (''dropped_table:8'', c')"
    using second_dropper_text by blast
  have s6: "?step (sample_lake 2 None (Some (?y (Some (snap 0))))) (sample_lake 2 None (Some (?y (Some (snap 1)))))"
  proof -
    let ?l = "sample_lake 2 None (Some (?y (Some (snap 0))))" and ?t = "?y (Some (snap 0))"
    have "rows_between 0 1 (lk_rows ?l) = [sample_row 1 ''dropped_table:7,deleted_from_table:3'' sample_dropper sample_summary]"
      by (simp add: sample_lake_def sample_rows_def sample_row_def rows_between_def)
    then have check: "check_against duckdb_ref (\<lambda>_. []) (tx_state ?t) (tx_changes ?t)
        (rows_between (snapshot_id (tx_start ?t)) (snapshot_id (snap 1)) (lk_rows ?l)) = Inr ()"
      by (simp add: sample_txn_def second_check)
    have latest: "snap 1 = row_snapshot (last (lk_rows ?l))" by (simp add: sample_lake_def sample_rows_def sample_row_def)
    have "lk_txns ?l 1 = Some ?t" "tx_base ?t \<noteq> None" by (simp_all add: sample_lake_def sample_txn_def)
    from lake_step.retry_attempt [OF this latest check] show ?thesis
      by (simp add: sample_lake_def sample_txn_def)
  qed
  have s7: "?step (sample_lake 2 None (Some (?y (Some (snap 1))))) (sample_lake 3 None None)"
    using lake_step.commit [of "sample_lake 2 None (Some (?y (Some (snap 1))))" 1 "?y (Some (snap 1))"
        "snap 1" sample_commit duckdb_ref _ c' "snap 2"] c' cs changed
    by (simp add: defs next_snapshot_def)
  show ?thesis
    using reachable.initial [OF d0] s1 s2 s3 s4 s5 s6 s7 by (meson reachable.step)
qed

section \<open>Properties\<close>

text \<open>
  C1. Concurrent transactions that both commit are compatible: in every state the DuckLake can reach, by
  any interleaving of any number of transactions, if transaction 2 committed after transaction 1 and
  had started before transaction 1 committed, then the tables transaction 2 dropped, wrote, deleted
  from, compacted, flushed, constrained, altered or renamed do not clash with what transaction 1
  recorded in its snapshot.
\<close>

theorem concurrent_commits_compatible:
  assumes "duckdb_strings D" and "reachable D deleted l"
    and "r1 \<in> set (lk_rows l)" and "r2 \<in> set (lk_rows l)"
    and "row_start r2 < row_id r1" and "row_id r1 < row_id r2"
  shows "\<exists>o1. ParseChangesMade D (row_changes r1) = Inr o1 \<and> tables_compatible (row_state r2) (row_summary r2) o1"
proof -
  note checked = concurrent_rows_checked [OF reachable_inv [OF assms(2)] assms(3-6)]
  show ?thesis
    by (rule duckdb_strings.concurrent_compatible [OF assms(1) checked(4) checked(1,3)])
qed

theorem concurrent_commits_compatible_witness:
  "\<exists>o1. ParseChangesMade duckdb_ref ''dropped_table:7,deleted_from_table:3'' = Inr o1 \<and>
     tables_compatible second_dropper second_summary o1"
  using concurrent_commits_compatible [OF ref.duckdb_strings_axioms sample_lake_reachable,
      of "sample_rows ! 1" "sample_rows ! 2"]
  by (simp add: sample_lake_def sample_rows_def sample_row_def)

text \<open>
  C2. A dropped table takes no writes: if a committed transaction dropped table \<open>t\<close>, then no transaction
  that had started before and committed afterwards has any local change (inserted or flushed files,
  inlined rows, deletes, compactions) for \<open>t\<close>, whatever was committed in between.
\<close>

theorem no_writes_to_dropped_table:
  assumes "duckdb_strings D" and "reachable D deleted l"
    and "r1 \<in> set (lk_rows l)" and "r2 \<in> set (lk_rows l)"
    and "row_start r2 < row_id r1" and "row_id r1 < row_id r2"
    and "t |\<in>| st_dropped_tables (row_state r1)" and "\<not> IsTransactionLocal t"
    and "(t, d) \<in> set (st_local_changes (row_state r2))"
  shows "IsEmpty d"
proof -
  note checked = concurrent_rows_checked [OF reachable_inv [OF assms(2)] assms(3-6)]
  obtain o1 where o1: "ParseChangesMade D (row_changes r1) = Inr o1" "tables_compatible (row_state r2) (row_summary r2) o1"
    using duckdb_strings.concurrent_compatible [OF assms(1) checked(4) checked(1,3)] by blast
  have "t |\<in>| sc_dropped_tables o1"
    by (rule dropped_table_listed [OF assms(1) checked(4) [OF checked(1)] assms(7,8) o1(1)])
  moreover have "GetTransactionChanges D (row_state r2) = Inr (row_summary r2)"
    using checked(2) by (simp add: row_ok_def)
  ultimately show ?thesis using no_change_on_dropped o1(2) assms(8,9) by blast
qed

theorem no_writes_to_dropped_table_witness: "IsEmpty LocalTableDataChanges_default"
proof -
  have "\<not> IsTransactionLocal 7"
    by (simp add: IsTransactionLocal_def TRANSACTION_LOCAL_ID_START_def word_le_nat_alt)
  then show ?thesis
    using no_writes_to_dropped_table [OF ref.duckdb_strings_axioms sample_lake_reachable,
        of "sample_rows ! 1" "sample_rows ! 2" 7 LocalTableDataChanges_default]
    by (simp add: sample_lake_def sample_rows_def sample_row_def sample_dropper_def second_dropper_def)
qed



end
