(* ===== verification/DL_Rbac.thy ===== *)
theory DL_Rbac
  imports DL_Index
begin

text \<open>
  \<^verbatim>\<open>src/src/storage/ducklake_rbac.cpp\<close>, \<^verbatim>\<open>src/src/storage/ducklake_authorization.cpp\<close> and
  \<^verbatim>\<open>src/src/functions/ducklake_rbac_functions.cpp\<close>: role-based access control. The grant store is
  the two metadata tables \<^verbatim>\<open>ducklake_role\<close> and \<^verbatim>\<open>ducklake_grant\<close>, kept as lists of rows; every SQL
  statement the code sends is an operation on them, and any statement may fail (field
  \<open>faults\<close>). The SQL function \<^verbatim>\<open>lower\<close> and the \<^verbatim>\<open>AUTH_*\<close> bits of DuckDB's authorization interface are
  parameters. The theorems: a privilege list printed by the code parses to the same mask; a
  session may access a table exactly when enforcement is off, it is internal, it is admin or rows
  covering the table grant what it asks for; the mutations refine pointwise union and difference
  on a map from (grantee, scope) to masks; and enforcement cannot be switched off.
\<close>

unbundle bit_operations_syntax

section \<open>Privileges\<close>

definition DUCKLAKE_PRIVILEGE_NONE :: idx where "DUCKLAKE_PRIVILEGE_NONE = 0"
definition DUCKLAKE_PRIVILEGE_SELECT :: idx where "DUCKLAKE_PRIVILEGE_SELECT = push_bit 0 1"
definition DUCKLAKE_PRIVILEGE_INSERT :: idx where "DUCKLAKE_PRIVILEGE_INSERT = push_bit 1 1"
definition DUCKLAKE_PRIVILEGE_UPDATE :: idx where "DUCKLAKE_PRIVILEGE_UPDATE = push_bit 2 1"
definition DUCKLAKE_PRIVILEGE_DELETE :: idx where "DUCKLAKE_PRIVILEGE_DELETE = push_bit 3 1"
definition DUCKLAKE_PRIVILEGE_CREATE :: idx where "DUCKLAKE_PRIVILEGE_CREATE = push_bit 4 1"
definition DUCKLAKE_PRIVILEGE_DROP :: idx where "DUCKLAKE_PRIVILEGE_DROP = push_bit 5 1"
definition DUCKLAKE_PRIVILEGE_ALTER :: idx where "DUCKLAKE_PRIVILEGE_ALTER = push_bit 6 1"
definition DUCKLAKE_PRIVILEGE_EXECUTE :: idx where "DUCKLAKE_PRIVILEGE_EXECUTE = push_bit 7 1"
definition DUCKLAKE_PRIVILEGE_ADMIN :: idx where "DUCKLAKE_PRIVILEGE_ADMIN = push_bit 8 1"
definition DUCKLAKE_PRIVILEGE_ALL :: idx where "DUCKLAKE_PRIVILEGE_ALL = push_bit 9 1 - 1"

lemmas privilege_defs [dl_defs] = DUCKLAKE_PRIVILEGE_NONE_def DUCKLAKE_PRIVILEGE_SELECT_def
  DUCKLAKE_PRIVILEGE_INSERT_def DUCKLAKE_PRIVILEGE_UPDATE_def DUCKLAKE_PRIVILEGE_DELETE_def
  DUCKLAKE_PRIVILEGE_CREATE_def DUCKLAKE_PRIVILEGE_DROP_def DUCKLAKE_PRIVILEGE_ALTER_def
  DUCKLAKE_PRIVILEGE_EXECUTE_def DUCKLAKE_PRIVILEGE_ADMIN_def DUCKLAKE_PRIVILEGE_ALL_def

definition DUCKLAKE_PUBLIC_GRANTEE :: string where
  "DUCKLAKE_PUBLIC_GRANTEE = ''PUBLIC''"

definition ParseSinglePrivilege :: "duckdb_string \<Rightarrow> string \<Rightarrow> idx \<Rightarrow> idx option" where
  "ParseSinglePrivilege D privilege result =
     (let entry = StringUtil_Upper D (StringUtil_Trim D privilege) in
      if entry = ''SELECT'' then Some (result OR DUCKLAKE_PRIVILEGE_SELECT)
      else if entry = ''INSERT'' then Some (result OR DUCKLAKE_PRIVILEGE_INSERT)
      else if entry = ''UPDATE'' then Some (result OR DUCKLAKE_PRIVILEGE_UPDATE)
      else if entry = ''DELETE'' then Some (result OR DUCKLAKE_PRIVILEGE_DELETE)
      else if entry = ''CREATE'' then Some (result OR DUCKLAKE_PRIVILEGE_CREATE)
      else if entry = ''DROP'' then Some (result OR DUCKLAKE_PRIVILEGE_DROP)
      else if entry = ''ALTER'' then Some (result OR DUCKLAKE_PRIVILEGE_ALTER)
      else if entry = ''EXECUTE'' then Some (result OR DUCKLAKE_PRIVILEGE_EXECUTE)
      else if entry = ''ADMIN'' then Some (result OR DUCKLAKE_PRIVILEGE_ADMIN)
      else if entry = ''ALL'' then Some (result OR DUCKLAKE_PRIVILEGE_ALL)
      else None)"

definition ParsePrivileges_step :: "duckdb_string \<Rightarrow> string \<Rightarrow> idx \<Rightarrow> idx res" where
  "ParsePrivileges_step D entry result =
     (case ParseSinglePrivilege D entry result of
        Some r \<Rightarrow> Inr r
      | None \<Rightarrow> Inl (InvalidInputException (''Unknown privilege '' @ [CHR 0x22] @ StringUtil_Trim D entry
          @ [CHR 0x22] @ '' - supported privileges are SELECT, INSERT, UPDATE, DELETE, CREATE, DROP, ALTER, EXECUTE, ADMIN, ALL'')))"

definition ParsePrivileges :: "duckdb_string \<Rightarrow> string \<Rightarrow> idx res" where
  "ParsePrivileges D privileges =
     bind_res (fold_res (ParsePrivileges_step D) (StringUtil_Split D privileges CHR '','') DUCKLAKE_PRIVILEGE_NONE)
       (\<lambda>result. if result = DUCKLAKE_PRIVILEGE_NONE then Inl (InvalidInputException ''No privileges specified'')
                 else Inr result)"

definition privilege_entry :: "idx \<Rightarrow> idx \<Rightarrow> string \<Rightarrow> string list" where
  "privilege_entry privileges bit_mask name = (if privileges AND bit_mask \<noteq> 0 then [name] else [])"

definition PrivilegesToString :: "duckdb_string \<Rightarrow> idx \<Rightarrow> string" where
  "PrivilegesToString D privileges =
     (if privileges = DUCKLAKE_PRIVILEGE_ALL then ''ALL''
      else StringUtil_Join D
        (privilege_entry privileges DUCKLAKE_PRIVILEGE_SELECT ''SELECT'' @
         privilege_entry privileges DUCKLAKE_PRIVILEGE_INSERT ''INSERT'' @
         privilege_entry privileges DUCKLAKE_PRIVILEGE_UPDATE ''UPDATE'' @
         privilege_entry privileges DUCKLAKE_PRIVILEGE_DELETE ''DELETE'' @
         privilege_entry privileges DUCKLAKE_PRIVILEGE_CREATE ''CREATE'' @
         privilege_entry privileges DUCKLAKE_PRIVILEGE_DROP ''DROP'' @
         privilege_entry privileges DUCKLAKE_PRIVILEGE_ALTER ''ALTER'' @
         privilege_entry privileges DUCKLAKE_PRIVILEGE_EXECUTE ''EXECUTE'' @
         privilege_entry privileges DUCKLAKE_PRIVILEGE_ADMIN ''ADMIN'') '','')"

section \<open>The session and the catalog\<close>

text \<open>
  What the code reads of a \<^verbatim>\<open>ClientContext\<close>: the two settings (\<open>None\<close> when unset or NULL) and whether the
  connection carries \<^verbatim>\<open>DuckLakeInternalConnectionState\<close>.
\<close>

record client_context =
  role_setting :: "string option"
  admin_setting :: "string option"
  internal_connection :: bool

record role_row =
  role_id :: nat
  role_name :: string

record grant_row =
  grant_id :: nat
  grantee :: string
  grant_schema :: "idx option"
  grant_table :: "idx option"
  grant_privileges :: idx

datatype rbac_query = LoadGrants | LookupRole | AllocateId | InsertRole | DeleteRole | DeleteGrants
  | FindGrant | WriteGrant | RevokeGrant | PurgeGrants

text \<open>
  A \<^verbatim>\<open>DuckLakeRbac\<close> with what it reaches of its catalog: the name, the two metadata tables of the
  current transaction and the statements that fail.
\<close>

record rbac =
  rbac_catalog :: string
  rbac_enabled :: bool
  role_rows :: "role_row list"
  grant_rows :: "grant_row list"
  faults :: "(rbac_query \<times> string) list"

abbreviation query_fault :: "rbac \<Rightarrow> rbac_query \<Rightarrow> string option" where
  "query_fault rb \<equiv> map_of (faults rb)"

definition rbac_run :: "rbac \<Rightarrow> rbac_query \<Rightarrow> string \<Rightarrow> 'a \<Rightarrow> 'a res" where
  "rbac_run rb q prefix x =
     (case query_fault rb q of None \<Rightarrow> Inr x | Some m \<Rightarrow> Inl (MetadataError (prefix @ m)))"

definition DuckLakeRbac_new :: "string \<Rightarrow> role_row list \<Rightarrow> grant_row list \<Rightarrow> rbac" where
  "DuckLakeRbac_new catalog roles grants =
     \<lparr>rbac_catalog = catalog, rbac_enabled = False, role_rows = roles, grant_rows = grants,
      faults = []\<rparr>"

definition SetEnabled :: "bool \<Rightarrow> rbac \<Rightarrow> rbac res" where
  "SetEnabled value rb =
     (if \<not> value \<and> rbac_enabled rb
      then Inl (PermissionException ''Cannot disable ducklake RBAC while the catalog is attached - detach and re-attach to change it'')
      else Inr (rb\<lparr>rbac_enabled := value\<rparr>))"

definition GetActiveRole :: "client_context \<Rightarrow> string" where
  "GetActiveRole context = (case role_setting context of Some role \<Rightarrow> role | None \<Rightarrow> [])"

definition GetAdminRole :: "client_context \<Rightarrow> string" where
  "GetAdminRole context =
     (case admin_setting context of
        Some admin \<Rightarrow> if admin \<noteq> [] then admin else ''admin''
      | None \<Rightarrow> ''admin'')"

definition IsInternalConnection :: "client_context \<Rightarrow> bool" where
  "IsInternalConnection context = internal_connection context"

definition GrantApplies :: "idx option \<Rightarrow> idx option \<Rightarrow> idx option \<Rightarrow> idx option \<Rightarrow> bool" where
  "GrantApplies g_schema g_table for_schema for_table =
     (case g_table of
        Some t \<Rightarrow> for_table = Some t
      | None \<Rightarrow> (case g_schema of Some s \<Rightarrow> for_schema = Some s | None \<Rightarrow> True))"

definition GetPrivileges_step :: "duckdb_string \<Rightarrow> string \<Rightarrow> idx option \<Rightarrow> idx option \<Rightarrow> grant_row \<Rightarrow> idx \<Rightarrow> idx" where
  "GetPrivileges_step D who for_schema for_table row granted =
     (if \<not> StringUtil_CIEquals D (grantee row) who then granted
      else if GrantApplies (grant_schema row) (grant_table row) for_schema for_table
      then granted OR grant_privileges row
      else granted)"

definition GetPrivileges :: "duckdb_string \<Rightarrow> rbac \<Rightarrow> string \<Rightarrow> idx option \<Rightarrow> idx option \<Rightarrow> idx res" where
  "GetPrivileges D rb who for_schema for_table =
     bind_res (rbac_run rb LoadGrants ''Failed to load DuckLake grants: '' (grant_rows rb)) (\<lambda>rs.
       Inr (fold (GetPrivileges_step D who for_schema for_table) rs DUCKLAKE_PRIVILEGE_NONE))"

text \<open>The masks of PUBLIC and, when the session has one, of the active role.\<close>

definition session_privileges :: "duckdb_string \<Rightarrow> client_context \<Rightarrow> rbac \<Rightarrow> idx option \<Rightarrow> idx option \<Rightarrow> idx res" where
  "session_privileges D context rb for_schema for_table =
     bind_res (GetPrivileges D rb DUCKLAKE_PUBLIC_GRANTEE for_schema for_table) (\<lambda>privileges.
       if GetActiveRole context \<noteq> []
       then bind_res (GetPrivileges D rb (GetActiveRole context) for_schema for_table) (\<lambda>more. Inr (privileges OR more))
       else Inr privileges)"

definition HasAdminInternal :: "duckdb_string \<Rightarrow> client_context \<Rightarrow> rbac \<Rightarrow> bool res" where
  "HasAdminInternal D context rb =
     (if StringUtil_CIEquals D (GetActiveRole context) (GetAdminRole context) then Inr True
      else bind_res (session_privileges D context rb None None) (\<lambda>privileges.
        Inr (privileges AND DUCKLAKE_PRIVILEGE_ADMIN \<noteq> 0)))"

definition HasAdmin :: "duckdb_string \<Rightarrow> client_context \<Rightarrow> rbac \<Rightarrow> bool res" where
  "HasAdmin D context rb = (if \<not> rbac_enabled rb then Inr True else HasAdminInternal D context rb)"

definition role_or_public :: "string \<Rightarrow> string" where
  "role_or_public role = (if role = [] then DUCKLAKE_PUBLIC_GRANTEE else role)"

definition quoted :: "string \<Rightarrow> string" where
  "quoted s = [CHR 0x22] @ s @ [CHR 0x22]"

definition CheckAdmin :: "duckdb_string \<Rightarrow> client_context \<Rightarrow> rbac \<Rightarrow> unit res" where
  "CheckAdmin D context rb =
     (if \<not> rbac_enabled rb \<or> IsInternalConnection context then Inr ()
      else bind_res (HasAdminInternal D context rb) (\<lambda>admin.
        if \<not> admin then Inl (PermissionException (''Role '' @ quoted (role_or_public (GetActiveRole context)) @
            '' does not have ADMIN privileges on DuckLake catalog '' @ quoted (rbac_catalog rb)))
        else Inr ()))"

definition ThrowDenied :: "duckdb_string \<Rightarrow> idx \<Rightarrow> string \<Rightarrow> string \<Rightarrow> string \<Rightarrow> unit res" where
  "ThrowDenied D privilege role object catalog =
     Inl (PermissionException (''Role '' @ quoted (role_or_public role) @ '' does not have '' @
       PrivilegesToString D privilege @ '' privilege on '' @ object @ '' of DuckLake catalog '' @ quoted catalog))"

definition mask_denies :: "idx \<Rightarrow> idx \<Rightarrow> bool" where
  "mask_denies privileges privilege \<longleftrightarrow>
     privileges AND privilege \<noteq> privilege \<and> privileges AND DUCKLAKE_PRIVILEGE_ADMIN = 0"

text \<open>What the checks read of a table and of a schema entry.\<close>

record rbac_schema =
  rs_id :: idx
  rs_name :: string

record rbac_table =
  rt_id :: TableIndex
  rt_name :: string
  rt_schema :: rbac_schema

definition CheckTablePrivilege :: "duckdb_string \<Rightarrow> client_context \<Rightarrow> rbac \<Rightarrow> idx \<Rightarrow> rbac_table \<Rightarrow> unit res" where
  "CheckTablePrivilege D context rb privilege table =
     (if \<not> rbac_enabled rb \<or> IsInternalConnection context then Inr ()
      else if IsTransactionLocal (rt_id table) then Inr ()
      else bind_res (HasAdminInternal D context rb) (\<lambda>admin.
        if admin then Inr ()
        else bind_res (session_privileges D context rb (Some (rs_id (rt_schema table))) (Some (rt_id table))) (\<lambda>privileges.
          if mask_denies privileges privilege
          then ThrowDenied D privilege (GetActiveRole context)
                 (''table '' @ rs_name (rt_schema table) @ ''.'' @ rt_name table) (rbac_catalog rb)
          else Inr ())))"

definition CheckSchemaPrivilege :: "duckdb_string \<Rightarrow> client_context \<Rightarrow> rbac \<Rightarrow> idx \<Rightarrow> rbac_schema \<Rightarrow> unit res" where
  "CheckSchemaPrivilege D context rb privilege schema =
     (if \<not> rbac_enabled rb \<or> IsInternalConnection context then Inr ()
      else bind_res (HasAdminInternal D context rb) (\<lambda>admin.
        if admin then Inr ()
        else bind_res (session_privileges D context rb (Some (rs_id schema)) None) (\<lambda>privileges.
          if mask_denies privileges privilege
          then ThrowDenied D privilege (GetActiveRole context) (''schema '' @ rs_name schema) (rbac_catalog rb)
          else Inr ())))"

definition CheckCatalogPrivilege :: "duckdb_string \<Rightarrow> client_context \<Rightarrow> rbac \<Rightarrow> idx \<Rightarrow> unit res" where
  "CheckCatalogPrivilege D context rb privilege =
     (if \<not> rbac_enabled rb \<or> IsInternalConnection context then Inr ()
      else bind_res (HasAdminInternal D context rb) (\<lambda>admin.
        if admin then Inr ()
        else bind_res (session_privileges D context rb None None) (\<lambda>privileges.
          if mask_denies privileges privilege
          then ThrowDenied D privilege (GetActiveRole context) ''catalog'' (rbac_catalog rb)
          else Inr ())))"

section \<open>The bridge to DuckDB's authorization interface\<close>

definition CheckDuckDBObject :: "duckdb_string \<Rightarrow> client_context \<Rightarrow> rbac \<Rightarrow> idx \<Rightarrow> idx option \<Rightarrow> bool res" where
  "CheckDuckDBObject D context rb privilege for_schema =
     (if \<not> rbac_enabled rb \<or> IsInternalConnection context then Inr True
      else bind_res (HasAdminInternal D context rb) (\<lambda>admin.
        if admin then Inr True
        else bind_res (session_privileges D context rb for_schema None) (\<lambda>granted.
          Inr (granted AND privilege = privilege))))"

text \<open>The bits of DuckDB's \<^verbatim>\<open>AuthorizationProvider\<close>, and an attached database.\<close>

record auth_bits =
  AUTH_SELECT :: "16 word"
  AUTH_INSERT :: "16 word"
  AUTH_UPDATE :: "16 word"
  AUTH_DELETE :: "16 word"
  AUTH_CREATE :: "16 word"
  AUTH_DROP :: "16 word"
  AUTH_ALTER :: "16 word"
  AUTH_ADMIN :: "16 word"
  AUTH_EXECUTE :: "16 word"

datatype attached = DuckLake rbac | OtherCatalog string

definition FindActiveRbacs :: "attached list \<Rightarrow> rbac list" where
  "FindActiveRbacs databases =
     concat (map (\<lambda>a. case a of DuckLake rb \<Rightarrow> if rbac_enabled rb then [rb] else [] | OtherCatalog _ \<Rightarrow> []) databases)"

definition map_bit :: "16 word \<Rightarrow> 16 word \<Rightarrow> idx \<Rightarrow> idx \<Rightarrow> idx" where
  "map_bit privileges auth bit_mask result = (if privileges AND auth \<noteq> 0 then result OR bit_mask else result)"

definition MapPrivileges :: "auth_bits \<Rightarrow> 16 word \<Rightarrow> idx" where
  "MapPrivileges A privileges =
     (map_bit privileges (AUTH_EXECUTE A) DUCKLAKE_PRIVILEGE_EXECUTE \<circ>
      map_bit privileges (AUTH_ADMIN A) DUCKLAKE_PRIVILEGE_ADMIN \<circ>
      map_bit privileges (AUTH_ALTER A) DUCKLAKE_PRIVILEGE_ALTER \<circ>
      map_bit privileges (AUTH_DROP A) DUCKLAKE_PRIVILEGE_DROP \<circ>
      map_bit privileges (AUTH_CREATE A) DUCKLAKE_PRIVILEGE_CREATE \<circ>
      map_bit privileges (AUTH_DELETE A) DUCKLAKE_PRIVILEGE_DELETE \<circ>
      map_bit privileges (AUTH_UPDATE A) DUCKLAKE_PRIVILEGE_UPDATE \<circ>
      map_bit privileges (AUTH_INSERT A) DUCKLAKE_PRIVILEGE_INSERT \<circ>
      map_bit privileges (AUTH_SELECT A) DUCKLAKE_PRIVILEGE_SELECT) DUCKLAKE_PRIVILEGE_NONE"

fun Check_loop :: "duckdb_string \<Rightarrow> client_context \<Rightarrow> idx \<Rightarrow> rbac list \<Rightarrow> bool res" where
  "Check_loop D context privilege [] = Inr True"
| "Check_loop D context privilege (rb # rbs) =
     bind_res (CheckDuckDBObject D context rb privilege None) (\<lambda>allowed.
       if \<not> allowed then Inr False else Check_loop D context privilege rbs)"

definition Check :: "duckdb_string \<Rightarrow> auth_bits \<Rightarrow> client_context \<Rightarrow> attached list \<Rightarrow> 16 word \<Rightarrow> bool res" where
  "Check D A context databases privileges =
     Check_loop D context (MapPrivileges A privileges) (FindActiveRbacs databases)"

definition CheckAdminEverywhere :: "duckdb_string \<Rightarrow> client_context \<Rightarrow> attached list \<Rightarrow> unit res" where
  "CheckAdminEverywhere D context databases = for_each (FindActiveRbacs databases) (CheckAdmin D context)"

definition DescribeObject :: "string \<Rightarrow> string \<Rightarrow> string" where
  "DescribeObject s_name object_name =
     (if object_name = [] then ''schema '' @ quoted s_name else quoted (s_name @ ''.'' @ object_name))"

definition duckdb_denied :: "client_context \<Rightarrow> string \<Rightarrow> string \<Rightarrow> string \<Rightarrow> unit res" where
  "duckdb_denied context what object catalog =
     Inl (PermissionException (''Role '' @ quoted (role_or_public (GetActiveRole context)) @ '' does not have '' @ what @
       '' privilege on '' @ object @ '' (DuckDB catalog '' @ quoted catalog @ '')''))"

text \<open>A catalog of another type is named by its name; a DuckLake catalog enforces its own rules.\<close>

definition CheckReadObject :: "duckdb_string \<Rightarrow> auth_bits \<Rightarrow> client_context \<Rightarrow> attached list \<Rightarrow> attached \<Rightarrow> string \<Rightarrow> string \<Rightarrow> unit res" where
  "CheckReadObject D A context databases catalog s_name object_name =
     (case catalog of
        DuckLake _ \<Rightarrow> Inr ()
      | OtherCatalog catalog_name \<Rightarrow>
          bind_res (Check D A context databases (AUTH_SELECT A)) (\<lambda>allowed.
            if \<not> allowed then duckdb_denied context ''SELECT'' (DescribeObject s_name object_name) catalog_name
            else Inr ()))"

definition CheckModifyTable :: "duckdb_string \<Rightarrow> auth_bits \<Rightarrow> client_context \<Rightarrow> attached list \<Rightarrow> attached \<Rightarrow> 16 word \<Rightarrow> string \<Rightarrow> string \<Rightarrow> unit res" where
  "CheckModifyTable D A context databases catalog privileges s_name t_name =
     (case catalog of
        DuckLake _ \<Rightarrow> Inr ()
      | OtherCatalog catalog_name \<Rightarrow>
          bind_res (Check D A context databases privileges) (\<lambda>allowed.
            if \<not> allowed then duckdb_denied context (PrivilegesToString D (MapPrivileges A privileges))
              (DescribeObject s_name t_name) catalog_name
            else Inr ()))"

definition CheckModifySchema :: "duckdb_string \<Rightarrow> auth_bits \<Rightarrow> client_context \<Rightarrow> attached list \<Rightarrow> attached \<Rightarrow> 16 word \<Rightarrow> string \<Rightarrow> string \<Rightarrow> unit res" where
  "CheckModifySchema D A context databases catalog privileges s_name object_name =
     (case catalog of
        DuckLake _ \<Rightarrow> Inr ()
      | OtherCatalog catalog_name \<Rightarrow>
          bind_res (Check D A context databases privileges) (\<lambda>allowed.
            if \<not> allowed then duckdb_denied context (PrivilegesToString D (MapPrivileges A privileges))
              (DescribeObject s_name object_name) catalog_name
            else Inr ()))"

definition CheckEngineManagement :: "duckdb_string \<Rightarrow> client_context \<Rightarrow> attached list \<Rightarrow> unit res" where
  "CheckEngineManagement D context databases = CheckAdminEverywhere D context databases"

text \<open>\<^verbatim>\<open>GetSchema\<close> of the lake resolves the routine's schema (or throws).\<close>

definition CheckExecuteRoutine ::
  "duckdb_string \<Rightarrow> auth_bits \<Rightarrow> (string \<Rightarrow> rbac_schema res) \<Rightarrow> client_context \<Rightarrow> attached list \<Rightarrow> attached \<Rightarrow> string \<Rightarrow> string \<Rightarrow> unit res" where
  "CheckExecuteRoutine D A GetSchema context databases catalog s_name routine_name =
     bind_res
       (case catalog of
          DuckLake rb \<Rightarrow>
            if \<not> rbac_enabled rb then Inr True
            else bind_res (GetSchema s_name) (\<lambda>schema.
              CheckDuckDBObject D context rb DUCKLAKE_PRIVILEGE_EXECUTE (Some (rs_id schema)))
        | OtherCatalog _ \<Rightarrow> Check D A context databases (AUTH_EXECUTE A))
       (\<lambda>allowed. if allowed then Inr ()
          else Inl (PermissionException (''Role '' @ quoted (role_or_public (GetActiveRole context)) @
            '' does not have EXECUTE privilege on procedure '' @ quoted (s_name @ ''.'' @ routine_name))))"

definition RequireStatementRebind :: "attached list \<Rightarrow> bool" where
  "RequireStatementRebind databases \<longleftrightarrow> FindActiveRbacs databases \<noteq> []"

definition CheckReadFile :: "duckdb_string \<Rightarrow> client_context \<Rightarrow> attached list \<Rightarrow> unit res" where
  "CheckReadFile D context databases = CheckAdminEverywhere D context databases"

definition CheckWriteFile :: "duckdb_string \<Rightarrow> client_context \<Rightarrow> attached list \<Rightarrow> unit res" where
  "CheckWriteFile D context databases = CheckAdminEverywhere D context databases"

section \<open>Role and grant management\<close>

datatype RbacAction = CREATE_ROLE | DROP_ROLE | GRANT | REVOKE

record RbacFunctionData =
  fd_action :: RbacAction
  fd_name :: string
  fd_privileges :: idx
  fd_schema :: "idx option"
  fd_table :: "idx option"

text \<open>
  The named parameters \<^verbatim>\<open>schema\<close> and \<^verbatim>\<open>table_name\<close> (absent or NULL: \<open>None\<close>) and the catalog's lookups.
\<close>

definition ResolveGrantScope ::
  "(string \<Rightarrow> rbac_schema res) \<Rightarrow> (string \<Rightarrow> string \<Rightarrow> rbac_table res) \<Rightarrow> string option \<Rightarrow> string option \<Rightarrow>
     (idx option \<times> idx option) res" where
  "ResolveGrantScope GetSchema GetTable schema_param table_param =
     (if schema_param = None \<and> table_param = None then Inr (None, None)
      else let s_name = (case schema_param of Some s \<Rightarrow> s | None \<Rightarrow> ''main'') in
        bind_res (GetSchema s_name) (\<lambda>schema.
          case table_param of
            None \<Rightarrow> Inr (Some (rs_id schema), None)
          | Some t_name \<Rightarrow> bind_res (GetTable s_name t_name) (\<lambda>table. Inr (Some (rs_id schema), Some (rt_id table)))))"

text \<open>\<^verbatim>\<open>lower(column) = lower('role')\<close>, with SQL's \<^verbatim>\<open>lower\<close> as a parameter.\<close>

definition RoleNamePredicate :: "(string \<Rightarrow> string) \<Rightarrow> string \<Rightarrow> string \<Rightarrow> bool" where
  "RoleNamePredicate lower column role \<longleftrightarrow> lower column = lower role"

definition TryGetRoleName :: "(string \<Rightarrow> string) \<Rightarrow> rbac \<Rightarrow> string \<Rightarrow> string option res" where
  "TryGetRoleName lower rb role =
     bind_res (rbac_run rb LookupRole ''Failed to look up DuckLake role: '' (role_rows rb)) (\<lambda>rs.
       Inr (map_option role_name (find (\<lambda>r. RoleNamePredicate lower (role_name r) role) rs)))"

definition GrantScopePredicate :: "(string \<Rightarrow> string) \<Rightarrow> string \<Rightarrow> idx option \<Rightarrow> idx option \<Rightarrow> grant_row \<Rightarrow> bool" where
  "GrantScopePredicate lower who for_schema for_table row \<longleftrightarrow>
     RoleNamePredicate lower (grantee row) who \<and>
     (case for_table of
        Some t \<Rightarrow> grant_table row = Some t
      | None \<Rightarrow> (case for_schema of
          Some s \<Rightarrow> grant_schema row = Some s \<and> grant_table row = None
        | None \<Rightarrow> grant_schema row = None \<and> grant_table row = None))"

definition NextId :: "rbac \<Rightarrow> nat list \<Rightarrow> nat res" where
  "NextId rb ids = rbac_run rb AllocateId ''Failed to allocate DuckLake RBAC id: '' (fold max ids 0 + 1)"

definition create_role :: "duckdb_string \<Rightarrow> (string \<Rightarrow> string) \<Rightarrow> string \<Rightarrow> rbac \<Rightarrow> rbac res" where
  "create_role D lower name rb =
     bind_res (TryGetRoleName lower rb name) (\<lambda>existing.
       case existing of
         Some e \<Rightarrow> Inl (InvalidInputException (''Role '' @ quoted e @ '' already exists''))
       | None \<Rightarrow> bind_res (NextId rb (map role_id (role_rows rb))) (\<lambda>next.
           case query_fault rb InsertRole of
             Some message \<Rightarrow>
               if contains_sub message ''duplicate key'' \<or> StringUtil_Contains D (StringUtil_Lower D message) ''unique''
               then Inl (InvalidInputException (''Role '' @ quoted name @ '' already exists''))
               else Inl (MetadataError (''Failed to create DuckLake role: '' @ message))
           | None \<Rightarrow> Inr (rb\<lparr>role_rows := role_rows rb @ [\<lparr>role_id = next, role_name = name\<rparr>]\<rparr>)))"

definition drop_role :: "(string \<Rightarrow> string) \<Rightarrow> string \<Rightarrow> rbac \<Rightarrow> rbac res" where
  "drop_role lower name rb =
     bind_res (TryGetRoleName lower rb name) (\<lambda>existing.
       case existing of
         None \<Rightarrow> Inl (InvalidInputException (''Role '' @ quoted name @ '' does not exist''))
       | Some _ \<Rightarrow>
           bind_res (rbac_run rb DeleteRole ''Failed to drop DuckLake role: ''
             (rb\<lparr>role_rows := filter (\<lambda>r. \<not> RoleNamePredicate lower (role_name r) name) (role_rows rb)\<rparr>)) (\<lambda>rb1.
           rbac_run rb1 DeleteGrants ''Failed to drop DuckLake role grants: ''
             (rb1\<lparr>grant_rows := filter (\<lambda>g. \<not> RoleNamePredicate lower (grantee g) name) (grant_rows rb1)\<rparr>)))"

definition grant_privileges_to :: "(string \<Rightarrow> string) \<Rightarrow> string \<Rightarrow> idx \<Rightarrow> idx option \<Rightarrow> idx option \<Rightarrow> rbac \<Rightarrow> rbac res" where
  "grant_privileges_to lower name privileges for_schema for_table rb =
     (let predicate = GrantScopePredicate lower name for_schema for_table in
      bind_res (rbac_run rb FindGrant ''Failed to grant DuckLake privileges: '' (list_ex predicate (grant_rows rb))) (\<lambda>exists.
        if exists
        then rbac_run rb WriteGrant ''Failed to grant DuckLake privileges: ''
               (rb\<lparr>grant_rows := map (\<lambda>g. if predicate g then g\<lparr>grant_privileges := grant_privileges g OR privileges\<rparr> else g) (grant_rows rb)\<rparr>)
        else bind_res (NextId rb (map grant_id (grant_rows rb))) (\<lambda>next.
               rbac_run rb WriteGrant ''Failed to grant DuckLake privileges: ''
                 (rb\<lparr>grant_rows := grant_rows rb @ [\<lparr>grant_id = next, grantee = name, grant_schema = for_schema,
                    grant_table = for_table, grant_privileges = privileges\<rparr>]\<rparr>))))"

definition revoke_privileges_from :: "(string \<Rightarrow> string) \<Rightarrow> string \<Rightarrow> idx \<Rightarrow> idx option \<Rightarrow> idx option \<Rightarrow> rbac \<Rightarrow> rbac res" where
  "revoke_privileges_from lower name privileges for_schema for_table rb =
     (let predicate = GrantScopePredicate lower name for_schema for_table in
      bind_res (rbac_run rb RevokeGrant ''Failed to revoke DuckLake privileges: ''
        (rb\<lparr>grant_rows := map (\<lambda>g. if predicate g then g\<lparr>grant_privileges := grant_privileges g AND NOT privileges\<rparr> else g) (grant_rows rb)\<rparr>)) (\<lambda>rb1.
      rbac_run rb1 PurgeGrants ''Failed to revoke DuckLake privileges: ''
        (rb1\<lparr>grant_rows := filter (\<lambda>g. grant_privileges g \<noteq> 0) (grant_rows rb1)\<rparr>)))"

definition RbacMutateExecute :: "duckdb_string \<Rightarrow> (string \<Rightarrow> string) \<Rightarrow> client_context \<Rightarrow> RbacFunctionData \<Rightarrow> rbac \<Rightarrow> rbac res" where
  "RbacMutateExecute D lower context fd rb =
     bind_res (CheckAdmin D context rb) (\<lambda>_.
       case fd_action fd of
         CREATE_ROLE \<Rightarrow> create_role D lower (fd_name fd) rb
       | DROP_ROLE \<Rightarrow> drop_role lower (fd_name fd) rb
       | GRANT \<Rightarrow> grant_privileges_to lower (fd_name fd) (fd_privileges fd) (fd_schema fd) (fd_table fd) rb
       | REVOKE \<Rightarrow> revoke_privileges_from lower (fd_name fd) (fd_privileges fd) (fd_schema fd) (fd_table fd) rb)"

definition RoleBind :: "duckdb_string \<Rightarrow> RbacAction \<Rightarrow> string \<Rightarrow> RbacFunctionData res" where
  "RoleBind D action role =
     (if role = [] \<or> StringUtil_CIEquals D role DUCKLAKE_PUBLIC_GRANTEE
      then Inl (InvalidInputException (''Invalid role name '' @ quoted role))
      else Inr \<lparr>fd_action = action, fd_name = role, fd_privileges = DUCKLAKE_PRIVILEGE_NONE,
                fd_schema = None, fd_table = None\<rparr>)"

definition GrantBind ::
  "duckdb_string \<Rightarrow> (string \<Rightarrow> string) \<Rightarrow> (string \<Rightarrow> rbac_schema res) \<Rightarrow> (string \<Rightarrow> string \<Rightarrow> rbac_table res) \<Rightarrow>
     RbacAction \<Rightarrow> string \<Rightarrow> string \<Rightarrow> string option \<Rightarrow> string option \<Rightarrow> rbac \<Rightarrow> RbacFunctionData res" where
  "GrantBind D lower GetSchema GetTable action who privilege_list schema_param table_param rb =
     (if who = [] then Inl (InvalidInputException ''Grantee cannot be empty'')
      else bind_res (ParsePrivileges D privilege_list) (\<lambda>privileges.
        bind_res
          (if StringUtil_CIEquals D who DUCKLAKE_PUBLIC_GRANTEE then Inr DUCKLAKE_PUBLIC_GRANTEE
           else bind_res (TryGetRoleName lower rb who) (\<lambda>found.
             case found of
               Some r \<Rightarrow> Inr r
             | None \<Rightarrow> Inl (InvalidInputException (''Role '' @ quoted who @ '' does not exist - create it with ducklake_create_role first''))))
          (\<lambda>name. bind_res (ResolveGrantScope GetSchema GetTable schema_param table_param) (\<lambda>(s, t).
             Inr \<lparr>fd_action = action, fd_name = name, fd_privileges = privileges, fd_schema = s, fd_table = t\<rparr>))))"

definition RolesBind :: "duckdb_string \<Rightarrow> client_context \<Rightarrow> rbac \<Rightarrow> (nat \<times> string) list res" where
  "RolesBind D context rb =
     bind_res (CheckAdmin D context rb) (\<lambda>_.
       bind_res (rbac_run rb LookupRole ''Failed to list DuckLake roles: '' (sort_key role_id (role_rows rb))) (\<lambda>rs.
         Inr (map (\<lambda>r. (role_id r, role_name r)) rs)))"

definition GrantsBind :: "duckdb_string \<Rightarrow> client_context \<Rightarrow> rbac \<Rightarrow> (string \<times> idx option \<times> idx option \<times> string) list res" where
  "GrantsBind D context rb =
     bind_res (CheckAdmin D context rb) (\<lambda>_.
       bind_res (rbac_run rb LoadGrants ''Failed to list DuckLake grants: ''
           (sort_key grantee (sort_key grant_id (grant_rows rb)))) (\<lambda>rs.
         Inr (map (\<lambda>g. (grantee g, grant_schema g, grant_table g, PrivilegesToString D (grant_privileges g))) rs)))"

text \<open>
  The setter of the option \<^verbatim>\<open>ducklake_enable_rbac\<close> (\<^verbatim>\<open>src/src/ducklake_extension.cpp\<close>) walks the attached
  databases and updates them in place, so a throw leaves the earlier ones updated.
\<close>

fun set_enable_rbac :: "(rbac \<Rightarrow> rbac res) \<Rightarrow> bool \<Rightarrow> attached list \<Rightarrow> attached list \<times> unit res" where
  "set_enable_rbac EnsureMetadataTables enable [] = ([], Inr ())"
| "set_enable_rbac EnsureMetadataTables enable (OtherCatalog c # dbs) =
     (case set_enable_rbac EnsureMetadataTables enable dbs of (dbs', r) \<Rightarrow> (OtherCatalog c # dbs', r))"
| "set_enable_rbac EnsureMetadataTables enable (DuckLake rb # dbs) =
     (case bind_res (if enable then EnsureMetadataTables rb else Inr rb) (SetEnabled enable) of
        Inl e \<Rightarrow> (DuckLake rb # dbs, Inl e)
      | Inr rb' \<Rightarrow>
          (case set_enable_rbac EnsureMetadataTables enable dbs of (dbs', r) \<Rightarrow> (DuckLake rb' # dbs', r)))"

section \<open>Masks as sets of bits\<close>

lemma mask_contains_iff: "(m AND p = p) \<longleftrightarrow> (\<forall>n. bit p n \<longrightarrow> bit m n)" for m p :: idx
proof
  assume "m AND p = p"
  then show "\<forall>n. bit p n \<longrightarrow> bit m n" by (metis bit_and_iff)
next
  assume "\<forall>n. bit p n \<longrightarrow> bit m n"
  then show "m AND p = p" by (intro bit_word_eqI) (auto simp: bit_and_iff)
qed

lemma admin_bit_iff: "(m AND DUCKLAKE_PRIVILEGE_ADMIN = 0) \<longleftrightarrow> \<not> bit m 8"
  by (simp add: privilege_defs push_bit_eq_mult and_exp_eq_0_iff_not_bit [of m 8, simplified])

lemma mask_denies_iff:
  "mask_denies m p \<longleftrightarrow> \<not> (\<forall>n. bit p n \<longrightarrow> bit m n) \<and> \<not> bit m 8"
  by (simp add: mask_denies_def mask_contains_iff admin_bit_iff)

text \<open>The union of the masks that a predicate selects from a list of rows.\<close>

definition union_mask :: "('a \<Rightarrow> bool) \<Rightarrow> ('a \<Rightarrow> idx) \<Rightarrow> 'a list \<Rightarrow> idx" where
  "union_mask sel mk xs = fold (\<lambda>x m. if sel x then m OR mk x else m) xs 0"

lemma bit_fold_union:
  "bit (fold (\<lambda>x m. if sel x then m OR mk x else m) xs m0) n \<longleftrightarrow>
     bit (m0 :: idx) n \<or> (\<exists>x \<in> set xs. sel x \<and> bit (mk x) n)"
  by (induction xs arbitrary: m0) (auto simp: bit_or_iff)

lemma bit_union_mask [simp]: "bit (union_mask sel mk xs) n \<longleftrightarrow> (\<exists>x \<in> set xs. sel x \<and> bit (mk x) n)"
  by (simp add: union_mask_def bit_fold_union)

section \<open>Who may do what\<close>

text \<open>The scope of a grant, and the scopes that cover a request.\<close>

datatype grant_scope = Everywhere | InSchema idx | OnTable idx

fun scope_of :: "idx option \<Rightarrow> idx option \<Rightarrow> grant_scope" where
  "scope_of s (Some t) = OnTable t"
| "scope_of (Some s) None = InSchema s"
| "scope_of None None = Everywhere"

definition row_scope :: "grant_row \<Rightarrow> grant_scope" where
  "row_scope row = scope_of (grant_schema row) (grant_table row)"

definition scopes_above :: "idx option \<Rightarrow> idx option \<Rightarrow> grant_scope list" where
  "scopes_above s t = Everywhere # (case s of Some i \<Rightarrow> [InSchema i] | None \<Rightarrow> []) @
     (case t of Some i \<Rightarrow> [OnTable i] | None \<Rightarrow> [])"

lemma GrantApplies_iff:
  "GrantApplies gs gt s t \<longleftrightarrow> scope_of gs gt \<in> set (scopes_above s t)"
  by (cases gs; cases gt; cases s; cases t) (auto simp: GrantApplies_def scopes_above_def)

lemma GrantScopePredicate_iff:
  "GrantScopePredicate lower who s t row \<longleftrightarrow> lower (grantee row) = lower who \<and> row_scope row = scope_of s t"
  by (cases s; cases t; cases "grant_schema row"; cases "grant_table row")
    (auto simp: GrantScopePredicate_def RoleNamePredicate_def row_scope_def)

text \<open>
  A row speaks for a session when it names PUBLIC or the session's role; a session holds a bit on
  a request when some row that speaks for it covers the request and has the bit.
\<close>

definition speaks_for :: "client_context \<Rightarrow> grant_row \<Rightarrow> bool" where
  "speaks_for context row \<longleftrightarrow>
     ascii_lower (grantee row) = ascii_lower ''PUBLIC'' \<or>
     (GetActiveRole context \<noteq> [] \<and> ascii_lower (grantee row) = ascii_lower (GetActiveRole context))"

definition holds_bit :: "client_context \<Rightarrow> grant_row list \<Rightarrow> idx option \<Rightarrow> idx option \<Rightarrow> nat \<Rightarrow> bool" where
  "holds_bit context rs s t n \<longleftrightarrow>
     (\<exists>row \<in> set rs. speaks_for context row \<and> row_scope row \<in> set (scopes_above s t) \<and> bit (grant_privileges row) n)"

definition is_admin :: "client_context \<Rightarrow> grant_row list \<Rightarrow> bool" where
  "is_admin context rs \<longleftrightarrow>
     ascii_lower (GetActiveRole context) = ascii_lower (GetAdminRole context) \<or> holds_bit context rs None None 8"

definition may_use :: "client_context \<Rightarrow> grant_row list \<Rightarrow> idx \<Rightarrow> idx option \<Rightarrow> idx option \<Rightarrow> bool" where
  "may_use context rs p s t \<longleftrightarrow>
     is_admin context rs \<or> holds_bit context rs s t 8 \<or> (\<forall>n. bit p n \<longrightarrow> holds_bit context rs s t n)"

lemma GetPrivileges_eq:
  assumes "query_fault rb LoadGrants = None"
  shows "GetPrivileges D rb who s t =
    Inr (union_mask (\<lambda>row. StringUtil_CIEquals D (grantee row) who \<and> row_scope row \<in> set (scopes_above s t))
           grant_privileges (grant_rows rb))"
proof -
  have "GetPrivileges_step D who s t =
      (\<lambda>row m. if StringUtil_CIEquals D (grantee row) who \<and> row_scope row \<in> set (scopes_above s t)
               then m OR grant_privileges row else m)"
    by (intro ext) (simp add: GetPrivileges_step_def GrantApplies_iff row_scope_def)
  then show ?thesis
    using assms by (simp add: GetPrivileges_def rbac_run_def union_mask_def privilege_defs)
qed

context duckdb_strings
begin

lemma session_privileges_eq:
  assumes "query_fault rb LoadGrants = None"
  obtains m where "session_privileges D context rb s t = Inr m"
    and "\<And>n. bit m n \<longleftrightarrow> holds_bit context (grant_rows rb) s t n"
proof (cases "GetActiveRole context = []")
  case True
  show ?thesis
    by (rule that) (use True in \<open>auto simp: session_privileges_def GetPrivileges_eq [OF assms] holds_bit_def
      speaks_for_def DUCKLAKE_PUBLIC_GRANTEE_def CIEquals\<close>)
next
  case False
  show ?thesis
    by (rule that) (use False in \<open>auto simp: session_privileges_def GetPrivileges_eq [OF assms] holds_bit_def
      speaks_for_def DUCKLAKE_PUBLIC_GRANTEE_def CIEquals bit_or_iff\<close>)
qed

lemma HasAdminInternal_eq:
  assumes "query_fault rb LoadGrants = None"
  shows "HasAdminInternal D context rb = Inr (is_admin context (grant_rows rb))"
proof -
  obtain m where "session_privileges D context rb None None = Inr m"
    and "\<And>n. bit m n \<longleftrightarrow> holds_bit context (grant_rows rb) None None n"
    using session_privileges_eq [OF assms] by metis
  then show ?thesis
    by (simp add: HasAdminInternal_def is_admin_def admin_bit_iff CIEquals)
qed

text \<open>The common core of the three checks.\<close>

lemma privilege_check_exact:
  assumes "query_fault rb LoadGrants = None"
  shows "is_ok (bind_res (HasAdminInternal D context rb) (\<lambda>admin.
        if admin then Inr ()
        else bind_res (session_privileges D context rb s t) (\<lambda>privileges.
          if mask_denies privileges p then ThrowDenied D p role object catalog else Inr ()))) \<longleftrightarrow>
     may_use context (grant_rows rb) p s t"
proof -
  obtain m where m: "session_privileges D context rb s t = Inr m"
    and b: "\<And>n. bit m n \<longleftrightarrow> holds_bit context (grant_rows rb) s t n"
    using session_privileges_eq [OF assms] by metis
  show ?thesis
    by (auto simp: HasAdminInternal_eq [OF assms] m may_use_def mask_denies_iff b ThrowDenied_def)
qed

lemmas rbac_checks = CheckTablePrivilege_def CheckSchemaPrivilege_def CheckCatalogPrivilege_def
  IsInternalConnection_def

lemma CheckTablePrivilege_exact:
  "query_fault rb LoadGrants = None \<Longrightarrow>
   is_ok (CheckTablePrivilege D context rb p t) \<longleftrightarrow>
     \<not> rbac_enabled rb \<or> internal_connection context \<or> IsTransactionLocal (rt_id t) \<or>
     may_use context (grant_rows rb) p (Some (rs_id (rt_schema t))) (Some (rt_id t))"
  by (simp add: rbac_checks privilege_check_exact)

lemma CheckSchemaPrivilege_exact:
  "query_fault rb LoadGrants = None \<Longrightarrow>
   is_ok (CheckSchemaPrivilege D context rb p s) \<longleftrightarrow>
     \<not> rbac_enabled rb \<or> internal_connection context \<or> may_use context (grant_rows rb) p (Some (rs_id s)) None"
  by (simp add: rbac_checks privilege_check_exact)

lemma CheckCatalogPrivilege_exact:
  "query_fault rb LoadGrants = None \<Longrightarrow>
   is_ok (CheckCatalogPrivilege D context rb p) \<longleftrightarrow>
     \<not> rbac_enabled rb \<or> internal_connection context \<or> may_use context (grant_rows rb) p None None"
  by (simp add: rbac_checks privilege_check_exact)

lemma CheckAdmin_exact:
  "query_fault rb LoadGrants = None \<Longrightarrow>
   is_ok (CheckAdmin D context rb) \<longleftrightarrow>
     \<not> rbac_enabled rb \<or> internal_connection context \<or> is_admin context (grant_rows rb)"
  by (simp add: CheckAdmin_def IsInternalConnection_def HasAdminInternal_eq)

end

section \<open>Printing and parsing privilege lists\<close>

definition single_bit :: "idx \<Rightarrow> bool" where
  "single_bit b \<longleftrightarrow> (\<exists>k. b = push_bit k 1)"

lemma single_bit_and:
  assumes "single_bit b" and "p AND b \<noteq> 0"
  shows "p AND b = b"
proof -
  obtain k where b: "b = push_bit k 1" using assms(1) by (auto simp: single_bit_def)
  have "bit b n \<longleftrightarrow> n = k \<and> n < 64" for n
    by (auto simp: b bit_exp_iff push_bit_eq_mult)
  moreover from assms(2) obtain n where "bit p n" "bit b n"
    by (auto simp: bit_eq_iff bit_and_iff)
  ultimately show ?thesis by (intro bit_word_eqI) (auto simp: bit_and_iff)
qed

lemma privilege_bits_single:
  "single_bit DUCKLAKE_PRIVILEGE_SELECT" "single_bit DUCKLAKE_PRIVILEGE_INSERT"
  "single_bit DUCKLAKE_PRIVILEGE_UPDATE" "single_bit DUCKLAKE_PRIVILEGE_DELETE"
  "single_bit DUCKLAKE_PRIVILEGE_CREATE" "single_bit DUCKLAKE_PRIVILEGE_DROP"
  "single_bit DUCKLAKE_PRIVILEGE_ALTER" "single_bit DUCKLAKE_PRIVILEGE_EXECUTE"
  "single_bit DUCKLAKE_PRIVILEGE_ADMIN"
  unfolding single_bit_def privilege_defs by blast+

text \<open>The entries of a printed list, as the loop that reads them sees them.\<close>

definition privilege_entries :: "idx \<Rightarrow> string list" where
  "privilege_entries p =
     concat (map (\<lambda>(b, name). privilege_entry p b name)
       [(DUCKLAKE_PRIVILEGE_SELECT, ''SELECT''), (DUCKLAKE_PRIVILEGE_INSERT, ''INSERT''),
        (DUCKLAKE_PRIVILEGE_UPDATE, ''UPDATE''), (DUCKLAKE_PRIVILEGE_DELETE, ''DELETE''),
        (DUCKLAKE_PRIVILEGE_CREATE, ''CREATE''), (DUCKLAKE_PRIVILEGE_DROP, ''DROP''),
        (DUCKLAKE_PRIVILEGE_ALTER, ''ALTER''), (DUCKLAKE_PRIVILEGE_EXECUTE, ''EXECUTE''),
        (DUCKLAKE_PRIVILEGE_ADMIN, ''ADMIN'')])"

lemma privilege_entries_subset:
  "set (privilege_entries p) \<subseteq>
     {''SELECT'', ''INSERT'', ''UPDATE'', ''DELETE'', ''CREATE'', ''DROP'', ''ALTER'', ''EXECUTE'', ''ADMIN''}"
  by (auto simp: privilege_entries_def privilege_entry_def split: if_splits)

lemma all_privilege_bits:
  "p AND DUCKLAKE_PRIVILEGE_ALL =
    (p AND DUCKLAKE_PRIVILEGE_SELECT) OR (p AND DUCKLAKE_PRIVILEGE_INSERT) OR
    (p AND DUCKLAKE_PRIVILEGE_UPDATE) OR (p AND DUCKLAKE_PRIVILEGE_DELETE) OR
    (p AND DUCKLAKE_PRIVILEGE_CREATE) OR (p AND DUCKLAKE_PRIVILEGE_DROP) OR
    (p AND DUCKLAKE_PRIVILEGE_ALTER) OR (p AND DUCKLAKE_PRIVILEGE_EXECUTE) OR
    (p AND DUCKLAKE_PRIVILEGE_ADMIN)"
proof -
  have "DUCKLAKE_PRIVILEGE_ALL = DUCKLAKE_PRIVILEGE_SELECT OR DUCKLAKE_PRIVILEGE_INSERT OR
      DUCKLAKE_PRIVILEGE_UPDATE OR DUCKLAKE_PRIVILEGE_DELETE OR DUCKLAKE_PRIVILEGE_CREATE OR
      DUCKLAKE_PRIVILEGE_DROP OR DUCKLAKE_PRIVILEGE_ALTER OR DUCKLAKE_PRIVILEGE_EXECUTE OR
      DUCKLAKE_PRIVILEGE_ADMIN"
    by (simp add: privilege_defs)
  then show ?thesis by (auto simp: bit_eq_iff bit_and_iff bit_or_iff)
qed

context duckdb_strings
begin

lemma ParseSinglePrivilege_names:
  "ParsePrivileges_step D ''SELECT'' m = Inr (m OR DUCKLAKE_PRIVILEGE_SELECT)"
  "ParsePrivileges_step D ''INSERT'' m = Inr (m OR DUCKLAKE_PRIVILEGE_INSERT)"
  "ParsePrivileges_step D ''UPDATE'' m = Inr (m OR DUCKLAKE_PRIVILEGE_UPDATE)"
  "ParsePrivileges_step D ''DELETE'' m = Inr (m OR DUCKLAKE_PRIVILEGE_DELETE)"
  "ParsePrivileges_step D ''CREATE'' m = Inr (m OR DUCKLAKE_PRIVILEGE_CREATE)"
  "ParsePrivileges_step D ''DROP'' m = Inr (m OR DUCKLAKE_PRIVILEGE_DROP)"
  "ParsePrivileges_step D ''ALTER'' m = Inr (m OR DUCKLAKE_PRIVILEGE_ALTER)"
  "ParsePrivileges_step D ''EXECUTE'' m = Inr (m OR DUCKLAKE_PRIVILEGE_EXECUTE)"
  "ParsePrivileges_step D ''ADMIN'' m = Inr (m OR DUCKLAKE_PRIVILEGE_ADMIN)"
  "ParsePrivileges_step D ''ALL'' m = Inr (m OR DUCKLAKE_PRIVILEGE_ALL)"
  by (simp_all add: ParsePrivileges_step_def ParseSinglePrivilege_def Upper Trim trim_string_def
      ascii_upper_def char_upper_def is_space_def)

lemma fold_privilege_entry:
  assumes "single_bit b" and "\<And>m. ParsePrivileges_step D name m = Inr (m OR b)"
  shows "fold_res (ParsePrivileges_step D) (privilege_entry p b name @ rest) m =
    fold_res (ParsePrivileges_step D) rest (m OR (p AND b))"
  using single_bit_and [OF assms(1), of p]
  by (cases "p AND b = 0") (simp_all add: privilege_entry_def assms(2))

lemma fold_privilege_entries:
  "fold_res (ParsePrivileges_step D) (privilege_entries p) 0 = Inr (p AND DUCKLAKE_PRIVILEGE_ALL)"
  unfolding all_privilege_bits privilege_entries_def
  by (simp add: fold_privilege_entry privilege_bits_single ParseSinglePrivilege_names
      fold_privilege_entry [where rest = "[]", simplified] or.assoc)

lemma PrivilegesToString_eq:
  "PrivilegesToString D p = (if p = DUCKLAKE_PRIVILEGE_ALL then ''ALL'' else join_strings (privilege_entries p) '','')"
  by (simp add: PrivilegesToString_def privilege_entries_def Join)

lemma ParsePrivileges_join:
  assumes "xs \<noteq> []" and "\<forall>x \<in> set xs. x \<noteq> [] \<and> CHR '','' \<notin> set x"
  shows "StringUtil_Split D (join_strings xs '','') CHR '','' = xs"
proof -
  have l: "last xs \<noteq> []" "last (last xs) \<noteq> CHR '',''"
    using assms by (metis last_in_set)+
  show ?thesis
    using join_strings_last [of xs "'',''"] split_string_join [of xs "CHR '',''"] assms l
    by (simp add: Split)
qed

lemma ParsePrivileges_PrivilegesToString:
  assumes "p \<noteq> 0" and "p AND DUCKLAKE_PRIVILEGE_ALL = p"
  shows "ParsePrivileges D (PrivilegesToString D p) = Inr p"
proof (cases "p = DUCKLAKE_PRIVILEGE_ALL")
  case True
  then show ?thesis
    using assms(1) ParsePrivileges_join [of "[''ALL'']"]
    by (simp add: ParsePrivileges_def PrivilegesToString_def ParseSinglePrivilege_names DUCKLAKE_PRIVILEGE_NONE_def)
next
  case False
  have ne: "privilege_entries p \<noteq> []"
    using fold_privilege_entries [of p] assms by auto
  have "StringUtil_Split D (join_strings (privilege_entries p) '','') CHR '','' = privilege_entries p"
    by (rule ParsePrivileges_join [OF ne]) (use privilege_entries_subset [of p] in auto)
  then show ?thesis
    using False assms by (simp add: ParsePrivileges_def PrivilegesToString_eq fold_privilege_entries DUCKLAKE_PRIVILEGE_NONE_def)
qed

end

interpretation privilege_text: codec "\<lambda>p. Inr (PrivilegesToString duckdb_ref p)" "ParsePrivileges duckdb_ref"
  "\<lambda>p. p \<noteq> 0 \<and> p AND DUCKLAKE_PRIVILEGE_ALL = p"
  by unfold_locales (auto simp: ref.ParsePrivileges_PrivilegesToString)

section \<open>The grant store as a map from grantee and scope to masks\<close>

definition grant_map :: "(string \<Rightarrow> string) \<Rightarrow> grant_row list \<Rightarrow> string \<times> grant_scope \<Rightarrow> idx" where
  "grant_map lower rs = (\<lambda>(g, sc). union_mask (\<lambda>r. lower (grantee r) = g \<and> row_scope r = sc) grant_privileges rs)"

definition mutate_spec :: "(string \<Rightarrow> string) \<Rightarrow> RbacFunctionData \<Rightarrow> (string \<times> grant_scope \<Rightarrow> idx) \<Rightarrow> string \<times> grant_scope \<Rightarrow> idx" where
  "mutate_spec lower fd m =
     (let key = (lower (fd_name fd), scope_of (fd_schema fd) (fd_table fd)) in
      case fd_action fd of
        CREATE_ROLE \<Rightarrow> m
      | DROP_ROLE \<Rightarrow> (\<lambda>(g, sc). if g = lower (fd_name fd) then 0 else m (g, sc))
      | GRANT \<Rightarrow> m(key := m key OR fd_privileges fd)
      | REVOKE \<Rightarrow> m(key := m key AND NOT (fd_privileges fd)))"

lemma grant_map_eqI:
  "(\<And>g sc n. n < 64 \<Longrightarrow> bit (grant_map lower rs (g, sc)) n \<longleftrightarrow> bit (m (g, sc)) n) \<Longrightarrow> grant_map lower rs = m"
  by (rule ext, rule bit_word_eqI) auto

lemma bit_grant_map [simp]:
  "bit (grant_map lower rs (g, sc)) n \<longleftrightarrow>
     (\<exists>r \<in> set rs. lower (grantee r) = g \<and> row_scope r = sc \<and> bit (grant_privileges r) n)"
  by (auto simp: grant_map_def)

lemma rbac_run_Inr [simp]: "rbac_run rb q prefix x = Inr y \<longleftrightarrow> query_fault rb q = None \<and> y = x"
  by (auto simp: rbac_run_def split: option.splits)

lemma row_scope_update [simp]: "row_scope (g\<lparr>grant_privileges := p\<rparr>) = row_scope g"
  by (simp add: row_scope_def)

lemma row_scope_make [simp]:
  "row_scope \<lparr>grant_id = i, grantee = name, grant_schema = s, grant_table = t, grant_privileges = p\<rparr> = scope_of s t"
  by (simp add: row_scope_def)

text \<open>Rewriting the masks of the rows a statement selects, and deleting the rows with an empty mask.\<close>

definition set_masks :: "(grant_row \<Rightarrow> bool) \<Rightarrow> (idx \<Rightarrow> idx) \<Rightarrow> grant_row \<Rightarrow> grant_row" where
  "set_masks sel f g = (if sel g then g\<lparr>grant_privileges := f (grant_privileges g)\<rparr> else g)"

lemma set_masks_simps [simp]:
  "grantee (set_masks sel f g) = grantee g" "row_scope (set_masks sel f g) = row_scope g"
  "grant_id (set_masks sel f g) = grant_id g"
  "grant_privileges (set_masks sel f g) = (if sel g then f (grant_privileges g) else grant_privileges g)"
  by (simp_all add: set_masks_def)

text \<open>The rows after each mutation.\<close>

lemma create_role_result:
  assumes "create_role D lower name rb = Inr rb'"
  shows "rb' = rb\<lparr>role_rows := role_rows rb @ [\<lparr>role_id = fold max (map role_id (role_rows rb)) 0 + 1, role_name = name\<rparr>]\<rparr> \<and>
    (\<forall>r \<in> set (role_rows rb). lower (role_name r) \<noteq> lower name)"
  using assms
  by (auto simp: create_role_def TryGetRoleName_def NextId_def RoleNamePredicate_def bind_res_Inr_iff find_None_iff
      split: option.splits if_splits)

lemma drop_role_result:
  assumes "drop_role lower name rb = Inr rb'"
  shows "rb' = rb\<lparr>role_rows := filter (\<lambda>r. lower (role_name r) \<noteq> lower name) (role_rows rb),
                  grant_rows := filter (\<lambda>g. lower (grantee g) \<noteq> lower name) (grant_rows rb)\<rparr>"
  using assms
  by (auto simp: drop_role_def TryGetRoleName_def RoleNamePredicate_def bind_res_Inr_iff split: option.splits)

lemma grant_result:
  assumes "grant_privileges_to lower name p s t rb = Inr rb'"
  obtains (update) r where "r \<in> set (grant_rows rb)" and "GrantScopePredicate lower name s t r"
    and "rb' = rb\<lparr>grant_rows := map (set_masks (GrantScopePredicate lower name s t) (\<lambda>m. m OR p)) (grant_rows rb)\<rparr>"
  | (insert) "\<forall>r \<in> set (grant_rows rb). \<not> GrantScopePredicate lower name s t r"
    and "rb' = rb\<lparr>grant_rows := grant_rows rb @ [\<lparr>grant_id = fold max (map grant_id (grant_rows rb)) 0 + 1,
               grantee = name, grant_schema = s, grant_table = t, grant_privileges = p\<rparr>]\<rparr>"
  using assms
  by (auto simp: grant_privileges_to_def Let_def NextId_def bind_res_Inr_iff list_ex_iff set_masks_def [abs_def] split: if_splits)

lemma revoke_result:
  assumes "revoke_privileges_from lower name p s t rb = Inr rb'"
  shows "rb' = rb\<lparr>grant_rows := filter (\<lambda>g. grant_privileges g \<noteq> 0) (map (set_masks (GrantScopePredicate lower name s t) (\<lambda>m. m AND NOT p)) (grant_rows rb))\<rparr>"
  using assms by (auto simp: revoke_privileges_from_def Let_def bind_res_Inr_iff set_masks_def [abs_def])

lemma grant_map_purge: "grant_map lower (filter (\<lambda>g. grant_privileges g \<noteq> 0) rs) = grant_map lower rs"
  by (rule grant_map_eqI) auto

lemma grant_map_grant:
  assumes "grant_privileges_to lower name p s t rb = Inr rb'"
  defines "key \<equiv> (lower name, scope_of s t)"
  shows "grant_map lower (grant_rows rb') =
    (grant_map lower (grant_rows rb))(key := grant_map lower (grant_rows rb) key OR p)"
  using assms(1)
proof (cases rule: grant_result)
  case (update r)
  show ?thesis
    by (rule grant_map_eqI) (use update in \<open>auto simp: key_def bit_or_iff GrantScopePredicate_iff\<close>)
next
  case insert
  show ?thesis
    by (rule grant_map_eqI) (use insert in \<open>auto simp: key_def bit_or_iff GrantScopePredicate_iff\<close>)
qed

lemma grant_map_revoke:
  assumes "revoke_privileges_from lower name p s t rb = Inr rb'"
  defines "key \<equiv> (lower name, scope_of s t)"
  shows "grant_map lower (grant_rows rb') =
    (grant_map lower (grant_rows rb))(key := grant_map lower (grant_rows rb) key AND NOT p)"
  unfolding revoke_result [OF assms(1)]
  by (rule grant_map_eqI)
    (auto simp: key_def bit_and_iff bit_not_iff GrantScopePredicate_iff grant_map_purge split: if_splits)

lemma grant_map_drop:
  assumes "drop_role lower name rb = Inr rb'"
  shows "grant_map lower (grant_rows rb') = (\<lambda>(g, sc). if g = lower name then 0 else grant_map lower (grant_rows rb) (g, sc))"
  unfolding drop_role_result [OF assms] by (rule grant_map_eqI) auto

lemma RbacMutateExecute_refines:
  assumes "RbacMutateExecute D lower context fd rb = Inr rb'"
  shows "grant_map lower (grant_rows rb') = mutate_spec lower fd (grant_map lower (grant_rows rb)) \<and>
    query_fault rb' = query_fault rb \<and> rbac_enabled rb' = rbac_enabled rb"
proof (cases "fd_action fd")
  case CREATE_ROLE
  with assms show ?thesis
    by (auto simp: RbacMutateExecute_def bind_res_Inr_iff mutate_spec_def Let_def dest!: create_role_result)
next
  case DROP_ROLE
  with assms have "drop_role lower (fd_name fd) rb = Inr rb'"
    by (auto simp: RbacMutateExecute_def bind_res_Inr_iff)
  from grant_map_drop [OF this] drop_role_result [OF this] show ?thesis
    using DROP_ROLE by (auto simp: mutate_spec_def Let_def)
next
  case GRANT
  with assms have g: "grant_privileges_to lower (fd_name fd) (fd_privileges fd) (fd_schema fd) (fd_table fd) rb = Inr rb'"
    by (auto simp: RbacMutateExecute_def bind_res_Inr_iff)
  then have "query_fault rb' = query_fault rb \<and> rbac_enabled rb' = rbac_enabled rb"
    by (rule grant_result) auto
  with grant_map_grant [OF g] show ?thesis
    using GRANT by (simp add: mutate_spec_def Let_def)
next
  case REVOKE
  with assms have r: "revoke_privileges_from lower (fd_name fd) (fd_privileges fd) (fd_schema fd) (fd_table fd) rb = Inr rb'"
    by (auto simp: RbacMutateExecute_def bind_res_Inr_iff)
  from grant_map_revoke [OF r] revoke_result [OF r] show ?thesis
    using REVOKE by (auto simp: mutate_spec_def Let_def)
qed

section \<open>The invariant of the grant store\<close>

text \<open>
  Identifiers are unique, role names are unique up to case, a grantee has at most one row per scope,
  no row is empty and every row belongs to PUBLIC or to an existing role.
\<close>

definition grants_ok :: "(string \<Rightarrow> string) \<Rightarrow> grant_row list \<Rightarrow> bool" where
  "grants_ok lower rs \<longleftrightarrow>
     distinct (map grant_id rs) \<and> distinct (map (\<lambda>r. (lower (grantee r), row_scope r)) rs) \<and>
     (\<forall>r \<in> set rs. grant_privileges r \<noteq> 0)"

definition roles_ok :: "(string \<Rightarrow> string) \<Rightarrow> role_row list \<Rightarrow> bool" where
  "roles_ok lower rs \<longleftrightarrow> distinct (map role_id rs) \<and> distinct (map (\<lambda>r. lower (role_name r)) rs)"

definition grantee_known :: "(string \<Rightarrow> string) \<Rightarrow> rbac \<Rightarrow> string \<Rightarrow> bool" where
  "grantee_known lower rb who \<longleftrightarrow>
     lower who = lower DUCKLAKE_PUBLIC_GRANTEE \<or> lower who \<in> (\<lambda>r. lower (role_name r)) ` set (role_rows rb)"

definition rbac_ok :: "(string \<Rightarrow> string) \<Rightarrow> rbac \<Rightarrow> bool" where
  "rbac_ok lower rb \<longleftrightarrow>
     grants_ok lower (grant_rows rb) \<and> roles_ok lower (role_rows rb) \<and>
     (\<forall>r \<in> set (grant_rows rb). grantee_known lower rb (grantee r))"

lemma fold_max_fresh: "n \<in> set ns \<Longrightarrow> n < fold max ns k + 1" for n :: nat
proof -
  have ge: "k \<le> fold max ms k" for ms :: "nat list" and k
    by (induction ms arbitrary: k) (auto intro: order_trans [OF max.cobounded2])
  have "n \<in> set ns \<Longrightarrow> n \<le> fold max ns k"
  proof (induction ns arbitrary: k)
    case (Cons m ns)
    then show ?case using ge [of "max m k" ns] by auto
  qed simp
  then show "n \<in> set ns \<Longrightarrow> n < fold max ns k + 1" by simp
qed

lemma fresh_id [simp]: "Suc (fold max ns k) \<notin> set ns"
  using fold_max_fresh [of "Suc (fold max ns k)" ns k] by auto

lemma fresh_id_image [simp]: "Suc (fold max (map f xs) k) \<notin> f ` set xs"
  using fresh_id [of "map f xs" k] by simp

lemma grants_ok_grant:
  assumes ok: "grants_ok lower (grant_rows rb)" and "p \<noteq> 0"
    and "grant_privileges_to lower name p s t rb = Inr rb'"
  shows "grants_ok lower (grant_rows rb')"
  using assms(3)
proof (cases rule: grant_result)
  case (update r)
  then show ?thesis using ok \<open>p \<noteq> 0\<close> by (auto simp: grants_ok_def comp_def or_eq_0_iff)
next
  case insert
  then show ?thesis
    using ok \<open>p \<noteq> 0\<close> by (auto simp: grants_ok_def GrantScopePredicate_iff)
qed

lemma rbac_ok_mutate:
  assumes ok: "rbac_ok lower rb" and ex: "RbacMutateExecute D lower context fd rb = Inr rb'"
    and grant: "fd_action fd = GRANT \<Longrightarrow> fd_privileges fd \<noteq> 0 \<and> grantee_known lower rb (fd_name fd)"
  shows "rbac_ok lower rb'"
proof (cases "fd_action fd")
  case CREATE_ROLE
  with ex have "create_role D lower (fd_name fd) rb = Inr rb'"
    by (auto simp: RbacMutateExecute_def bind_res_Inr_iff)
  from create_role_result [OF this] show ?thesis
    using ok by (auto simp: rbac_ok_def roles_ok_def grantee_known_def)
next
  case DROP_ROLE
  with ex have "drop_role lower (fd_name fd) rb = Inr rb'"
    by (auto simp: RbacMutateExecute_def bind_res_Inr_iff)
  from drop_role_result [OF this] show ?thesis
    using ok by (auto simp: rbac_ok_def roles_ok_def grants_ok_def grantee_known_def intro: distinct_map_filter)
next
  case GRANT
  with ex have g: "grant_privileges_to lower (fd_name fd) (fd_privileges fd) (fd_schema fd) (fd_table fd) rb = Inr rb'"
    by (auto simp: RbacMutateExecute_def bind_res_Inr_iff)
  have "grants_ok lower (grant_rows rb')"
    using grants_ok_grant [OF _ _ g] grant GRANT ok by (simp add: rbac_ok_def)
  moreover have "role_rows rb' = role_rows rb \<and> (\<forall>r \<in> set (grant_rows rb'). grantee_known lower rb (grantee r))"
    using g grant GRANT ok by (cases rule: grant_result) (auto simp: rbac_ok_def)
  ultimately show ?thesis using ok by (simp add: rbac_ok_def grantee_known_def)
next
  case REVOKE
  with ex have "revoke_privileges_from lower (fd_name fd) (fd_privileges fd) (fd_schema fd) (fd_table fd) rb = Inr rb'"
    by (auto simp: RbacMutateExecute_def bind_res_Inr_iff)
  from revoke_result [OF this] show ?thesis
    using ok by (auto simp: rbac_ok_def grants_ok_def grantee_known_def comp_def filter_map intro: distinct_map_filter)
qed

lemma ParsePrivileges_nonzero: "ParsePrivileges D s = Inr p \<Longrightarrow> p \<noteq> 0"
  by (auto simp: ParsePrivileges_def bind_res_Inr_iff DUCKLAKE_PRIVILEGE_NONE_def split: if_splits)

lemma GrantBind_result:
  assumes "GrantBind D lower GetSchema GetTable action who list s t rb = Inr fd"
  shows "fd_action fd = action \<and> fd_privileges fd \<noteq> 0 \<and> grantee_known lower rb (fd_name fd)"
proof -
  from assms obtain privs name where p: "ParsePrivileges D list = Inr privs"
    and name: "fd_name fd = name" "fd_privileges fd = privs" "fd_action fd = action"
    and n: "(if StringUtil_CIEquals D who DUCKLAKE_PUBLIC_GRANTEE then Inr DUCKLAKE_PUBLIC_GRANTEE
           else bind_res (TryGetRoleName lower rb who) (\<lambda>found.
             case found of
               Some r \<Rightarrow> Inr r
             | None \<Rightarrow> Inl (InvalidInputException (''Role '' @ quoted who @ '' does not exist - create it with ducklake_create_role first''))))
        = Inr name"
    unfolding GrantBind_def by (auto simp: bind_res_Inr_iff split: if_split_asm)
  from n have "grantee_known lower rb name"
    by (auto simp: grantee_known_def TryGetRoleName_def bind_res_Inr_iff find_Some_iff
        split: if_splits option.splits)
  with p name show ?thesis by (auto dest: ParsePrivileges_nonzero)
qed

text \<open>A call of one of the four management functions: bound, then executed, in one transaction.\<close>

datatype rbac_call =
    RoleCall RbacAction string
  | GrantCall bool string string "string option" "string option"

fun run_call :: "duckdb_string \<Rightarrow> (string \<Rightarrow> string) \<Rightarrow> (string \<Rightarrow> rbac_schema res) \<Rightarrow> (string \<Rightarrow> string \<Rightarrow> rbac_table res) \<Rightarrow>
    client_context \<times> rbac_call \<Rightarrow> rbac \<Rightarrow> rbac res" where
  "run_call D lower GetSchema GetTable (context, RoleCall action name) rb =
     bind_res (RoleBind D (if action = CREATE_ROLE then CREATE_ROLE else DROP_ROLE) name) (\<lambda>fd.
       RbacMutateExecute D lower context fd rb)"
| "run_call D lower GetSchema GetTable (context, GrantCall revoke who privs s t) rb =
     bind_res (GrantBind D lower GetSchema GetTable (if revoke then REVOKE else GRANT) who privs s t rb) (\<lambda>fd.
       RbacMutateExecute D lower context fd rb)"

lemma run_call_ok:
  assumes "rbac_ok lower rb" and "run_call D lower GetSchema GetTable c rb = Inr rb'"
  shows "rbac_ok lower rb'"
proof -
  obtain ctx k where c: "c = (ctx, k)" by (cases c)
  show ?thesis
  proof (cases k)
    case (RoleCall action name)
    then show ?thesis
      using assms by (auto simp: c RoleBind_def bind_res_Inr_iff split: if_splits elim!: rbac_ok_mutate)
  next
    case (GrantCall revoke who privs s t)
    then show ?thesis
      using assms by (auto simp: c bind_res_Inr_iff dest!: GrantBind_result elim!: rbac_ok_mutate)
  qed
qed

lemma set_enable_rbac_disable:
  "set_enable_rbac E False dbs = (dbs', r) \<Longrightarrow>
     FindActiveRbacs dbs' = FindActiveRbacs dbs \<and> (is_ok r \<longleftrightarrow> FindActiveRbacs dbs = [])"
proof (induction E False dbs arbitrary: dbs' r rule: set_enable_rbac.induct)
  case (3 E rb dbs)
  then show ?case
    by (cases "rbac_enabled rb") (auto simp: SetEnabled_def FindActiveRbacs_def split: prod.splits)
qed (auto simp: FindActiveRbacs_def split: prod.splits)

section \<open>A concrete lake\<close>

definition sample_rbac :: rbac where
  "sample_rbac =
     \<lparr>rbac_catalog = ''lake'', rbac_enabled = True,
      role_rows = [\<lparr>role_id = 1, role_name = ''Analyst''\<rparr>],
      grant_rows = [\<lparr>grant_id = 1, grantee = ''Analyst'', grant_schema = Some 0, grant_table = None, grant_privileges = 1\<rparr>],
      faults = []\<rparr>"

definition sample_analyst :: client_context where
  "sample_analyst = \<lparr>role_setting = Some ''analyst'', admin_setting = None, internal_connection = False\<rparr>"

definition sample_admin :: client_context where
  "sample_admin = \<lparr>role_setting = Some ''admin'', admin_setting = None, internal_connection = False\<rparr>"

definition sample_events :: rbac_table where
  "sample_events = \<lparr>rt_id = 5, rt_name = ''events'', rt_schema = \<lparr>rs_id = 0, rs_name = ''main''\<rparr>\<rparr>"

definition sample_revoke :: RbacFunctionData where
  "sample_revoke = \<lparr>fd_action = REVOKE, fd_name = ''ANALYST'', fd_privileges = 1, fd_schema = Some 0, fd_table = None\<rparr>"

definition is_ascii :: "string \<Rightarrow> bool" where
  "is_ascii s \<longleftrightarrow> list_all (\<lambda>c. (of_char c :: nat) < 128) s"

section \<open>Properties\<close>

text \<open>
  C25. The access checks decide exactly as documented. When the grants can be read, the check of a privilege on a
  table passes if and only if enforcement is off, the connection is internal, the table was created by
  the running transaction, or the session is admin (by its role name, or by the ADMIN bit of a
  catalog-wide grant), or a row for PUBLIC or for its role that covers the table carries ADMIN, or
  every requested bit is carried by such rows. The same holds for schemas and for the catalog, where
  a narrower grant never counts.
\<close>

theorem access_checks_exact:
  assumes "duckdb_strings D" and "query_fault rb LoadGrants = None"
  shows "(is_ok (CheckTablePrivilege D context rb p t) \<longleftrightarrow>
      \<not> rbac_enabled rb \<or> internal_connection context \<or> IsTransactionLocal (rt_id t) \<or>
      may_use context (grant_rows rb) p (Some (rs_id (rt_schema t))) (Some (rt_id t))) \<and>
    (is_ok (CheckSchemaPrivilege D context rb p s) \<longleftrightarrow>
      \<not> rbac_enabled rb \<or> internal_connection context \<or> may_use context (grant_rows rb) p (Some (rs_id s)) None) \<and>
    (is_ok (CheckCatalogPrivilege D context rb p) \<longleftrightarrow>
      \<not> rbac_enabled rb \<or> internal_connection context \<or> may_use context (grant_rows rb) p None None)"
  using assms(2)
  by (simp add: duckdb_strings.CheckTablePrivilege_exact [OF assms(1)]
      duckdb_strings.CheckSchemaPrivilege_exact [OF assms(1)]
      duckdb_strings.CheckCatalogPrivilege_exact [OF assms(1)])

theorem access_checks_exact_witness:
  "is_ok (CheckTablePrivilege duckdb_ref sample_analyst sample_rbac DUCKLAKE_PRIVILEGE_SELECT sample_events) \<and>
   \<not> is_ok (CheckTablePrivilege duckdb_ref sample_analyst sample_rbac DUCKLAKE_PRIVILEGE_INSERT sample_events)"
proof -
  have "query_fault sample_rbac LoadGrants = None" by (simp add: sample_rbac_def)
  note exact = access_checks_exact [OF ref.duckdb_strings_axioms this, THEN conjunct1]
  have low: "ascii_lower ''Analyst'' = ''analyst''" "ascii_lower ''analyst'' = ''analyst''"
    "ascii_lower ''PUBLIC'' = ''public''" "ascii_lower ''admin'' = ''admin''"
    by code_simp+
  show ?thesis
    unfolding exact
    by (simp add: low sample_rbac_def sample_analyst_def sample_events_def may_use_def is_admin_def holds_bit_def
        speaks_for_def GetActiveRole_def GetAdminRole_def row_scope_def scopes_above_def index_defs privilege_defs bit_1_iff) (auto intro: exI [of _ 1])
qed

text \<open>
  C26. The grant store refines a map from (grantee, scope) to sets of privileges: a successful
  GRANT adds the privileges to exactly one entry, REVOKE removes them from exactly one entry (the
  rows left empty and deleted do not show), dropping a role clears exactly its entries, creating one
  changes nothing; and afterwards the privileges any session is found to hold on any object are
  precisely the union of the entries of PUBLIC and of its role over the scopes covering the object.
  Names are ASCII, on which SQL's lower is ASCII case folding.
\<close>

theorem grant_store_refines_map:
  assumes "duckdb_strings D" and "\<And>s. is_ascii s \<Longrightarrow> lower s = ascii_lower s"
    and "query_fault rb LoadGrants = None"
    and "RbacMutateExecute D lower context fd rb = Inr rb'"
    and "\<forall>row \<in> set (grant_rows rb'). is_ascii (grantee row)" and "is_ascii (GetActiveRole session)"
  shows "grant_map lower (grant_rows rb') = mutate_spec lower fd (grant_map lower (grant_rows rb)) \<and>
    (\<exists>m. session_privileges D session rb' s t = Inr m \<and>
      (\<forall>n. bit m n \<longleftrightarrow>
        (\<exists>sc \<in> set (scopes_above s t). bit (grant_map lower (grant_rows rb') (lower ''PUBLIC'', sc)) n \<or>
           GetActiveRole session \<noteq> [] \<and>
           bit (grant_map lower (grant_rows rb') (lower (GetActiveRole session), sc)) n)))"
proof -
  note ref = RbacMutateExecute_refines [OF assms(4)]
  have fault: "query_fault rb' LoadGrants = None" using ref assms(3) by simp
  have "is_ascii ''PUBLIC''" by (simp add: is_ascii_def)
  then have low: "lower ''PUBLIC'' = ascii_lower ''PUBLIC''"
    "lower (GetActiveRole session) = ascii_lower (GetActiveRole session)"
    "\<forall>row \<in> set (grant_rows rb'). lower (grantee row) = ascii_lower (grantee row)"
    using assms(2,5,6) by auto
  obtain m where m: "session_privileges D session rb' s t = Inr m"
    and b: "\<And>n. bit m n \<longleftrightarrow> holds_bit session (grant_rows rb') s t n"
    using duckdb_strings.session_privileges_eq [OF assms(1) fault] by metis
  have "bit m n \<longleftrightarrow> (\<exists>sc \<in> set (scopes_above s t). bit (grant_map lower (grant_rows rb') (lower ''PUBLIC'', sc)) n \<or>
      GetActiveRole session \<noteq> [] \<and> bit (grant_map lower (grant_rows rb') (lower (GetActiveRole session), sc)) n)" for n
    unfolding b holds_bit_def speaks_for_def bit_grant_map low(1,2) using low(3) by fastforce
  with ref m show ?thesis by blast
qed

theorem grant_store_refines_map_witness:
  "\<exists>rb'. RbacMutateExecute duckdb_ref ascii_lower sample_admin sample_revoke sample_rbac = Inr rb' \<and>
     grant_map ascii_lower (grant_rows rb') (''analyst'', InSchema 0) = 0"
proof -
  have ex: "RbacMutateExecute duckdb_ref ascii_lower sample_admin sample_revoke sample_rbac = Inr (sample_rbac\<lparr>grant_rows := []\<rparr>)"
    by code_simp
  have "grant_map ascii_lower (grant_rows (sample_rbac\<lparr>grant_rows := []\<rparr>)) =
      mutate_spec ascii_lower sample_revoke (grant_map ascii_lower (grant_rows sample_rbac))"
    by (rule grant_store_refines_map [OF ref.duckdb_strings_axioms refl _ ex, of sample_analyst, THEN conjunct1])
      (simp_all add: sample_rbac_def is_ascii_def sample_analyst_def GetActiveRole_def)
  moreover have "mutate_spec ascii_lower sample_revoke (grant_map ascii_lower (grant_rows sample_rbac)) (''analyst'', InSchema 0) = 0"
    by code_simp
  ultimately show ?thesis using ex by auto
qed

text \<open>
  C27. Whatever sequence of role and grant calls succeeds on a new catalog, the metadata tables keep
  unique identifiers, role names unique up to case, at most one row per grantee and scope, no row
  with an empty mask, and no row of a role that does not exist: dropping a role leaves no
  grant that a later role of the same name would inherit.
\<close>

theorem grant_store_invariant:
  assumes "fold_res (run_call D lower GetSchema GetTable) calls (DuckLakeRbac_new catalog [] []) = Inr rb"
  shows "rbac_ok lower rb"
proof (rule fold_res_invariant [OF assms])
  show "rbac_ok lower (DuckLakeRbac_new catalog [] [])"
    by (simp add: rbac_ok_def grants_ok_def roles_ok_def DuckLakeRbac_new_def)
qed (rule run_call_ok)

theorem grant_store_invariant_witness:
  "\<exists>rb. fold_res (run_call duckdb_ref ascii_lower (\<lambda>_. Inr \<lparr>rs_id = 0, rs_name = ''main''\<rparr>) (\<lambda>_ _. Inr sample_events))
     [(sample_admin, RoleCall CREATE_ROLE ''Analyst''), (sample_admin, GrantCall False ''analyst'' ''SELECT, INSERT'' None None),
      (sample_admin, GrantCall False ''ANALYST'' ''update'' None None)]
     (DuckLakeRbac_new ''lake'' [] []) = Inr rb \<and> length (grant_rows rb) = 1 \<and> rbac_ok ascii_lower rb"
proof -
  let ?calls = "[(sample_admin, RoleCall CREATE_ROLE ''Analyst''), (sample_admin, GrantCall False ''analyst'' ''SELECT, INSERT'' None None),
      (sample_admin, GrantCall False ''ANALYST'' ''update'' None None)]"
  let ?run = "run_call duckdb_ref ascii_lower (\<lambda>_. Inr \<lparr>rs_id = 0, rs_name = ''main''\<rparr>) (\<lambda>_ _. Inr sample_events)"
  let ?rb = "\<lparr>rbac_catalog = ''lake'', rbac_enabled = False, role_rows = [\<lparr>role_id = 1, role_name = ''Analyst''\<rparr>],
      grant_rows = [\<lparr>grant_id = 1, grantee = ''Analyst'', grant_schema = None, grant_table = None, grant_privileges = 7\<rparr>],
      faults = []\<rparr>"
  have "fold_res ?run ?calls (DuckLakeRbac_new ''lake'' [] []) = Inr ?rb" by code_simp
  with grant_store_invariant [OF this] show ?thesis by auto
qed

text \<open>
  C28. A privilege mask printed by the code parses back to the same mask, for every non-empty mask
  of known privileges; so a list shown by ducklake_grants can be passed to ducklake_grant.
\<close>

theorem privilege_list_round_trip:
  assumes "duckdb_strings D" and "p \<noteq> 0" and "p AND DUCKLAKE_PRIVILEGE_ALL = p"
  shows "ParsePrivileges D (PrivilegesToString D p) = Inr p"
  by (rule duckdb_strings.ParsePrivileges_PrivilegesToString [OF assms])

theorem privilege_list_round_trip_witness:
  "PrivilegesToString duckdb_ref 0x105 = ''SELECT,UPDATE,ADMIN'' \<and>
   ParsePrivileges duckdb_ref (PrivilegesToString duckdb_ref 0x105) = Inr 0x105"
proof -
  have "PrivilegesToString duckdb_ref 0x105 = ''SELECT,UPDATE,ADMIN''" by code_simp
  moreover have "ParsePrivileges duckdb_ref (PrivilegesToString duckdb_ref 0x105) = Inr 0x105"
    by (rule privilege_list_round_trip [OF ref.duckdb_strings_axioms]) (simp_all add: privilege_defs)
  ultimately show ?thesis ..
qed

text \<open>
  C29. Enforcement cannot be switched off from SQL: setting ducklake_enable_rbac to false throws exactly when some
  attached lake enforces, and in every case leaves the list of enforcing lakes as it was.
\<close>

theorem enforcement_cannot_be_disabled:
  assumes "set_enable_rbac EnsureMetadataTables False databases = (databases', result)"
  shows "FindActiveRbacs databases' = FindActiveRbacs databases \<and>
    (is_ok result \<longleftrightarrow> FindActiveRbacs databases = [])"
  by (rule set_enable_rbac_disable [OF assms])

theorem enforcement_cannot_be_disabled_witness:
  "\<not> is_ok (snd (set_enable_rbac Inr False [OtherCatalog ''memory'', DuckLake sample_rbac])) \<and>
   length (FindActiveRbacs (fst (set_enable_rbac Inr False [OtherCatalog ''memory'', DuckLake sample_rbac]))) = 1"
proof -
  let ?dbs = "[OtherCatalog ''memory'', DuckLake sample_rbac]"
  have "FindActiveRbacs ?dbs = [sample_rbac]" by (simp add: FindActiveRbacs_def sample_rbac_def)
  with enforcement_cannot_be_disabled [of Inr ?dbs "fst (set_enable_rbac Inr False ?dbs)" "snd (set_enable_rbac Inr False ?dbs)"]
  show ?thesis by simp
qed

end
