(* ===== verification/DL_DeletionVector.thy ===== *)
theory DL_DeletionVector
  imports DL_Prelude "HOL-Library.Multiset"
begin

text \<open>
  \<^verbatim>\<open>src/src/storage/ducklake_deletion_vector.cpp\<close>: the deletion-vector blob of a data file, a set of deleted
  row positions grouped by their high 32 bits into roaring bitmaps, framed by a length, magic
  bytes and a CRC-32. The roaring library is a parameter (record \<open>roaring\<close>, laws in the locale
  \<open>roaring_library\<close>), as is DuckDB's byte swap; \<^verbatim>\<open>Load\<close> and \<^verbatim>\<open>Store\<close> copy the little-endian
  representation of a word. A pointer into the blob is an offset, and an access past the end is the error
  \<open>OutOfBoundsAccess\<close>. The iteration order of the \<^verbatim>\<open>unordered_map\<close> the writer walks is a parameter too.

  The theorems: reading back what was written gives the same positions; every change of one byte
  after the length field makes the reader throw; and the reader stays inside the blob when the
  length field agrees with the blob, which it never checks.
\<close>

unbundle bit_operations_syntax

section \<open>Bytes\<close>

type_synonym byte = "8 word"

fun le_bytes :: "nat \<Rightarrow> nat \<Rightarrow> byte list" where
  "le_bytes 0 v = []"
| "le_bytes (Suc n) v = of_nat v # le_bytes n (v div 256)"

fun le_value :: "byte list \<Rightarrow> nat" where
  "le_value [] = 0"
| "le_value (b # bs) = unat b + 256 * le_value bs"

definition Store32 :: "32 word \<Rightarrow> byte list" where
  "Store32 w = le_bytes 4 (unat w)"

definition Store64 :: "64 word \<Rightarrow> byte list" where
  "Store64 w = le_bytes 8 (unat w)"

definition load_bytes :: "byte list \<Rightarrow> nat \<Rightarrow> nat \<Rightarrow> byte list res" where
  "load_bytes data off n =
     (if off + n \<le> length data then Inr (take n (drop off data)) else Inl (OutOfBoundsAccess ''read past the end of the buffer''))"

definition Load32 :: "byte list \<Rightarrow> nat \<Rightarrow> 32 word res" where
  "Load32 data off = bind_res (load_bytes data off 4) (\<lambda>bs. Inr (of_nat (le_value bs)))"

definition Load64 :: "byte list \<Rightarrow> nat \<Rightarrow> 64 word res" where
  "Load64 data off = bind_res (load_bytes data off 8) (\<lambda>bs. Inr (of_nat (le_value bs)))"

lemma length_le_bytes [simp]: "length (le_bytes n v) = n"
  by (induction n arbitrary: v) auto

lemma le_bytes_4: "le_bytes 4 v = [of_nat v, of_nat (v div 256), of_nat (v div 256 div 256), of_nat (v div 256 div 256 div 256)]"
proof -
  have "(4 :: nat) = Suc (Suc (Suc (Suc 0)))" by simp
  then show ?thesis by (simp only: le_bytes.simps)
qed

lemma length_Store [simp]: "length (Store32 w) = 4" "length (Store64 v) = 8"
  by (simp_all add: Store32_def Store64_def)

lemma Store32_nonempty [simp]: "Store32 w \<noteq> []"
  by (metis length_Store(1) list.size(3) zero_neq_numeral)

lemma le_value_le_bytes: "le_value (le_bytes n v) = v mod 256 ^ n"
proof (induction n arbitrary: v)
  case (Suc n)
  then show ?case by (simp add: unat_of_nat mod_mult2_eq)
qed simp

lemma load_bytes_at [simp]: "load_bytes (pre @ bs @ post) (length pre) (length bs) = Inr bs"
  by (simp add: load_bytes_def)

lemma Load32_Store32 [simp]:
  assumes "off = length pre"
  shows "Load32 (pre @ Store32 w @ post) off = Inr w"
proof -
  have "load_bytes (pre @ Store32 w @ post) off 4 = Inr (Store32 w)"
    using load_bytes_at [of pre "Store32 w" post] assms by simp
  moreover have "le_value (Store32 w) = unat w"
    using unsigned_less [of w, where 'a = nat] by (simp add: Store32_def le_value_le_bytes)
  ultimately show ?thesis by (simp add: Load32_def)
qed

lemma Load64_Store64 [simp]:
  assumes "off = length pre"
  shows "Load64 (pre @ Store64 w @ post) off = Inr w"
proof -
  have "load_bytes (pre @ Store64 w @ post) off 8 = Inr (Store64 w)"
    using load_bytes_at [of pre "Store64 w" post] assms by simp
  moreover have "le_value (Store64 w) = unat w"
    using unsigned_less [of w, where 'a = nat] by (simp add: Store64_def le_value_le_bytes)
  ultimately show ?thesis by (simp add: Load64_def)
qed

section \<open>The checksum\<close>

definition crc_round :: "32 word \<Rightarrow> 32 word" where
  "crc_round c = (if c AND 1 \<noteq> 0 then 0xEDB88320 XOR drop_bit 1 c else drop_bit 1 c)"

definition GetTable :: "32 word list" where
  "GetTable = map (\<lambda>i. (crc_round ^^ 8) (of_nat i)) [0..<256]"

definition Update_step :: "byte \<Rightarrow> 32 word \<Rightarrow> 32 word" where
  "Update_step b crc = (GetTable ! unat ((crc XOR ucast b) AND 0xFF)) XOR drop_bit 8 crc"

definition CRC32 :: "byte list \<Rightarrow> 32 word" where
  "CRC32 data = fold Update_step data 0xFFFFFFFF XOR 0xFFFFFFFF"

section \<open>The roaring library\<close>

record 'r roaring =
  Roaring_new :: 'r
  Roaring_add :: "32 word \<Rightarrow> 'r \<Rightarrow> 'r"
  Roaring_getSizeInBytes :: "'r \<Rightarrow> nat"
  Roaring_write :: "'r \<Rightarrow> byte list"
  Roaring_deserialize_size :: "byte list \<Rightarrow> nat \<Rightarrow> nat"
  Roaring_readSafe :: "byte list \<Rightarrow> 'r res"
  Roaring_values :: "'r \<Rightarrow> 32 word list"
  BSwap :: "32 word \<Rightarrow> 32 word"

locale roaring_library =
  fixes R :: "'r roaring"
  assumes new_values: "Roaring_values R (Roaring_new R) = []"
    and add_values: "set (Roaring_values R (Roaring_add R v r)) = insert v (set (Roaring_values R r))"
    and write_size: "length (Roaring_write R r) = Roaring_getSizeInBytes R r"
    and deserialize_bound: "Roaring_deserialize_size R bs n \<le> n"
    and deserialize_written:
      "Roaring_getSizeInBytes R r \<le> n \<Longrightarrow> Roaring_deserialize_size R (Roaring_write R r @ rest) n = Roaring_getSizeInBytes R r"
    and read_written:
      "\<exists>r'. Roaring_readSafe R (Roaring_write R r) = Inr r' \<and> set (Roaring_values R r') = set (Roaring_values R r)"
    and read_in_bounds: "Roaring_readSafe R bs \<noteq> Inl (OutOfBoundsAccess m)"
    and BSwap_involution: "BSwap R (BSwap R w) = w"

section \<open>Reading a blob\<close>

definition DELETION_VECTOR_MAGIC :: "byte list" where
  "DELETION_VECTOR_MAGIC = [0xD1, 0xD3, 0x39, 0x64]"

type_synonym 'r bitmaps = "(32 word \<times> 'r) list"

text \<open>\<^verbatim>\<open>unordered_map::emplace\<close> keeps an existing entry.\<close>

definition bitmaps_emplace :: "32 word \<Rightarrow> 'r \<Rightarrow> 'r bitmaps \<Rightarrow> 'r bitmaps" where
  "bitmaps_emplace key bitmap m = (case map_of m key of None \<Rightarrow> m @ [(key, bitmap)] | Some _ \<Rightarrow> m)"

definition corrupt :: "string \<Rightarrow> 'a res" where
  "corrupt message = Inl (InvalidInputException message)"

fun FromBlob_loop :: "'r roaring \<Rightarrow> byte list \<Rightarrow> nat \<Rightarrow> nat \<Rightarrow> nat \<Rightarrow> 32 word \<Rightarrow> 'r bitmaps \<Rightarrow> (nat \<times> 'r bitmaps) res" where
  "FromBlob_loop R blob i 0 off vector_size bitmaps = Inr (off, bitmaps)"
| "FromBlob_loop R blob i (Suc todo) off vector_size bitmaps =
     (if vector_size < 4
      then corrupt (''Deletion vector vector_size too small for bitmap key at index '' @ dec_string i)
      else bind_res (Load32 blob off) (\<lambda>key.
        let off1 = off + 4; vector_size1 = vector_size - 4 in
        if length blob \<le> off1 then corrupt (''Deletion vector blob truncated at bitmap key '' @ dec_string i)
        else let bitmap_size = Roaring_deserialize_size R (drop off1 blob) (unat vector_size1) in
          if unat vector_size1 < bitmap_size
          then corrupt (''Deletion vector bitmap '' @ dec_string i @ '' exceeds remaining data'')
          else bind_res (load_bytes blob off1 bitmap_size) (\<lambda>bs.
            bind_res (Roaring_readSafe R bs) (\<lambda>bitmap.
              let off2 = off1 + bitmap_size; vector_size2 = vector_size1 - of_nat bitmap_size in
              if length blob \<le> off2 then corrupt (''Deletion vector blob truncated after bitmap '' @ dec_string i)
              else FromBlob_loop R blob (Suc i) todo off2 vector_size2 (bitmaps_emplace key bitmap bitmaps)))))"

text \<open>The part of \<^verbatim>\<open>FromBlob\<close> after the bitmaps: the checksum of everything from the magic bytes on.\<close>

definition check_checksum :: "'r roaring \<Rightarrow> byte list \<Rightarrow> nat \<Rightarrow> 'b \<Rightarrow> 'b res" where
  "check_checksum R blob off result =
     (if length blob < off + 4 then corrupt ''Deletion vector blob truncated before checksum''
      else bind_res (Load32 blob off) (\<lambda>stored.
        let stored_checksum = BSwap R stored; off1 = off + 4 in
        if off1 \<noteq> length blob then corrupt (''Deletion vector blob has '' @ dec_string (length blob - off1) @ '' unexpected trailing bytes'')
        else let checksum = CRC32 (take (off - 4) (drop 4 blob)) in
          if checksum \<noteq> stored_checksum
          then corrupt (''Stored checksum ('' @ dec_string (unat stored_checksum) @ '') does not match computed checksum ('' @
                 dec_string (unat checksum) @ ''), the DeletionVector is corrupted'')
          else Inr result))"

definition FromBlob :: "'r roaring \<Rightarrow> byte list \<Rightarrow> 'r bitmaps res" where
  "FromBlob R blob =
     (if length blob < 12
      then corrupt (''Blob is too small (length of '' @ dec_string (length blob) @ '' bytes) to be a deletion-vector-v1'')
      else bind_res (Load32 blob 0) (\<lambda>raw_size.
        let vector_size = BSwap R raw_size in
        if length blob \<le> 4 then corrupt ''Deletion vector blob truncated after vector_size field''
        else bind_res (load_bytes blob 4 4) (\<lambda>magic.
          if vector_size < 4 then corrupt ''Deletion vector vector_size too small for magic bytes''
          else let vector_size1 = vector_size - 4 in
          if length blob \<le> 8 then corrupt ''Deletion vector blob truncated after magic bytes''
          else if magic \<noteq> DELETION_VECTOR_MAGIC then corrupt ''Magic bytes mismatch, deletion vector is corrupt!''
          else if vector_size1 < 8 then corrupt ''Deletion vector vector_size too small for bitmap count''
          else bind_res (Load64 blob 8) (\<lambda>amount_of_bitmaps.
            let vector_size2 = vector_size1 - 8 in
            if length blob \<le> 16 then corrupt ''Deletion vector blob truncated after bitmap count''
            else if sint amount_of_bitmaps < 0 then corrupt (''Deletion vector has negative bitmap count: -'' @ dec_string (nat (- sint amount_of_bitmaps)))
            else bind_res (FromBlob_loop R blob 0 (unat amount_of_bitmaps) 16 vector_size2 []) (\<lambda>(off, result).
              check_checksum R blob off result)))))"

section \<open>Writing a blob\<close>

definition high_bits :: "64 word \<Rightarrow> 32 word" where
  "high_bits row_idx = ucast (signed_drop_bit 32 row_idx)"

definition low_bits :: "64 word \<Rightarrow> 32 word" where
  "low_bits row_idx = ucast (row_idx AND 0xFFFFFFFF)"

fun bitmaps_add :: "'r roaring \<Rightarrow> 32 word \<Rightarrow> 32 word \<Rightarrow> 'r bitmaps \<Rightarrow> 'r bitmaps" where
  "bitmaps_add R key v [] = [(key, Roaring_add R v (Roaring_new R))]"
| "bitmaps_add R key v ((k, r) # m) =
     (if k = key then (k, Roaring_add R v r) # m else (k, r) # bitmaps_add R key v m)"

definition group_positions :: "'r roaring \<Rightarrow> 64 word list \<Rightarrow> 'r bitmaps" where
  "group_positions R positions = fold (\<lambda>p. bitmaps_add R (high_bits p) (low_bits p)) positions []"

definition blob_size :: "'r roaring \<Rightarrow> 'r bitmaps \<Rightarrow> 64 word" where
  "blob_size R bitmaps =
     fold (\<lambda>(k, r) total. total + 4 + of_nat (Roaring_getSizeInBytes R r)) bitmaps (4 + 4 + 8) + 4"

definition write_entry :: "'r roaring \<Rightarrow> 32 word \<times> 'r \<Rightarrow> byte list" where
  "write_entry R entry = Store32 (fst entry) @ Roaring_write R (snd entry)"

definition ToBlob :: "'r roaring \<Rightarrow> ('r bitmaps \<Rightarrow> 'r bitmaps) \<Rightarrow> 64 word list \<Rightarrow> byte list" where
  "ToBlob R iterate positions =
     (let bitmaps = iterate (group_positions R positions);
          total_size = blob_size R bitmaps;
          vector_size = BSwap R (ucast (total_size - 4 - 4));
          checksummed = DELETION_VECTOR_MAGIC @ Store64 (of_nat (length bitmaps)) @ concat (map (write_entry R) bitmaps)
      in Store32 vector_size @ checksummed @ Store32 (BSwap R (CRC32 checksummed)))"

section \<open>The set of positions\<close>

text \<open>\<^verbatim>\<open>std::set\<close>: an ascending list without repetition.\<close>

definition set_insert :: "'a::linorder \<Rightarrow> 'a list \<Rightarrow> 'a list" where
  "set_insert x xs = (if x \<in> set xs then xs else insort x xs)"

definition full_value :: "32 word \<Rightarrow> 32 word \<Rightarrow> 64 word" where
  "full_value key v = push_bit 32 (scast key) OR ucast v"

definition ToSet :: "'r roaring \<Rightarrow> 'r bitmaps \<Rightarrow> 64 word list \<Rightarrow> 64 word list" where
  "ToSet R bitmaps out =
     fold (\<lambda>(key, bitmap) out. fold (\<lambda>v. set_insert (full_value key v)) (Roaring_values R bitmap) out) bitmaps out"

section \<open>The checksum detects every change of one byte\<close>

text \<open>
  One round is linear over exclusive or and injective, because the polynomial has its top bit set;
  eight rounds of a word are eight rounds of its low byte xor the remaining bytes shifted down. So the
  table-driven step is eight rounds, and injective both in the register and in the byte.
\<close>

lemma and_one_iff: "c AND 1 \<noteq> 0 \<longleftrightarrow> bit c 0" for c :: "32 word"
  by (simp add: and_one_eq bit_0 odd_iff_mod_2_eq_one)

lemma crc_round_alt: "crc_round c = (if bit c 0 then 0xEDB88320 else 0) XOR drop_bit 1 c"
  by (simp add: crc_round_def and_one_iff)

lemma xor_eq_0: "a XOR b = 0 \<longleftrightarrow> a = b" for a b :: "'a::len word"
  by (simp add: bit_eq_iff bit_xor_iff)

lemma xor_cancel: "a XOR c = b XOR c \<longleftrightarrow> a = b" "c XOR a = c XOR b \<longleftrightarrow> a = b" for a b c :: "'a::len word"
  by (auto simp: bit_eq_iff bit_xor_iff)

lemma crc_round_xor: "crc_round (a XOR b) = crc_round a XOR crc_round b"
  by (auto simp: crc_round_alt bit_xor_iff ac_simps)

lemma crc_rounds_xor: "(crc_round ^^ n) (a XOR b) = (crc_round ^^ n) a XOR (crc_round ^^ n) b"
  by (induction n) (simp_all add: crc_round_xor)

lemma crc_round_zero:
  assumes "crc_round c = 0"
  shows "c = 0"
proof (cases "bit c 0")
  case True
  with assms have "bit (0xEDB88320 XOR drop_bit 1 c) 31 = bit (0 :: 32 word) 31"
    by (simp add: crc_round_alt)
  then have "bit (drop_bit 1 c) 31" by (simp add: bit_xor_iff)
  then have "bit c 32" by (simp add: bit_drop_bit_eq)
  then show ?thesis by (auto dest: bit_imp_le_length)
next
  case False
  with assms have z: "drop_bit 1 c = 0" by (simp add: crc_round_alt)
  have "\<not> bit c n" for n
  proof (cases n)
    case (Suc m)
    then have "bit c n \<longleftrightarrow> bit (drop_bit 1 c) m" by (simp add: bit_drop_bit_eq)
    then show ?thesis unfolding z by simp
  qed (use False in simp)
  then show ?thesis by (simp add: bit_eq_iff)
qed

lemma crc_round_inj: "crc_round a = crc_round b \<longleftrightarrow> a = b"
proof
  assume "crc_round a = crc_round b"
  then have "crc_round (a XOR b) = 0" by (simp add: crc_round_xor)
  from crc_round_zero [OF this] show "a = b" by (simp add: xor_eq_0)
qed simp

lemma crc_rounds_inj: "(crc_round ^^ n) a = (crc_round ^^ n) b \<longleftrightarrow> a = b"
  by (induction n) (simp_all add: crc_round_inj)

lemma crc_rounds_high:
  assumes "\<And>k. k < n \<Longrightarrow> \<not> bit c k"
  shows "(crc_round ^^ n) c = drop_bit n c"
  using assms
proof (induction n)
  case (Suc n)
  then have "(crc_round ^^ n) c = drop_bit n c" and "\<not> bit (drop_bit n c) 0"
    by (auto simp: bit_drop_bit_eq)
  then have "(crc_round ^^ Suc n) c = crc_round (drop_bit n c)" by simp
  also have "\<dots> = drop_bit (Suc n) c"
    using \<open>\<not> bit (drop_bit n c) 0\<close> by (simp add: crc_round_alt)
  finally show ?case .
qed simp

lemma Update_step_eq: "Update_step b crc = (crc_round ^^ 8) (crc XOR ucast b)"
proof -
  define x where "x = crc XOR ucast b"
  have ff: "(0xFF :: 32 word) = mask 8" by (simp add: mask_eq_exp_minus_1)
  have low: "unat (x AND 0xFF) < 256"
    using take_bit_nat_less_exp [of 8 "unat x"] by (simp add: ff take_bit_eq_mask [symmetric] unsigned_take_bit_eq)
  have split: "x = (x AND 0xFF) XOR (x AND NOT 0xFF)"
    unfolding ff by (rule bit_word_eqI) (auto simp: bit_simps)
  have "drop_bit 8 (x AND NOT 0xFF) = drop_bit 8 crc"
    by (rule bit_word_eqI) (auto simp: x_def ff bit_simps dest: bit_imp_le_length)
  moreover have "(crc_round ^^ 8) (x AND NOT 0xFF) = drop_bit 8 (x AND NOT 0xFF)"
    by (rule crc_rounds_high) (auto simp: ff bit_simps)
  ultimately have "(crc_round ^^ 8) x = (crc_round ^^ 8) (x AND 0xFF) XOR drop_bit 8 crc"
    by (subst split) (simp only: crc_rounds_xor)
  then show ?thesis
    using low by (simp add: Update_step_def GetTable_def x_def [symmetric])
qed

lemma Update_step_inj: "Update_step b crc = Update_step b crc' \<longleftrightarrow> crc = crc'"
  by (simp add: Update_step_eq crc_rounds_inj xor_cancel)

lemma Update_step_byte_inj: "Update_step b crc = Update_step b' crc \<longleftrightarrow> b = b'"
proof -
  have "b = b'" if e: "(ucast b :: 32 word) = ucast b'"
  proof (rule bit_word_eqI)
    fix n assume "n < LENGTH(8)"
    moreover have "bit (ucast b :: 32 word) n = bit (ucast b' :: 32 word) n" by (simp only: e)
    ultimately show "bit b n = bit b' n" by (simp add: bit_simps)
  qed
  then have "(ucast b :: 32 word) = ucast b' \<longleftrightarrow> b = b'" by blast
  then show ?thesis by (simp add: Update_step_eq crc_rounds_inj xor_cancel)
qed

lemma fold_Update_inj: "fold Update_step xs crc = fold Update_step xs crc' \<longleftrightarrow> crc = crc'"
  by (induction xs arbitrary: crc crc') (simp_all add: Update_step_inj)

lemma CRC32_one_byte:
  assumes "i < length xs" and "b \<noteq> xs ! i"
  shows "CRC32 (xs[i := b]) \<noteq> CRC32 xs"
proof -
  have xs: "xs = take i xs @ xs ! i # drop (Suc i) xs" using assms(1) by (rule id_take_nth_drop)
  have "fold Update_step (take i xs @ b # drop (Suc i) xs) c \<noteq>
      fold Update_step (take i xs @ xs ! i # drop (Suc i) xs) c" for c
    using assms(2) by (simp add: fold_Update_inj Update_step_byte_inj)
  then have "fold Update_step (xs[i := b]) c \<noteq> fold Update_step xs c" for c
    by (simp add: upd_conv_take_nth_drop [OF assms(1)] xs [symmetric])
  then show ?thesis by (simp add: CRC32_def xor_cancel)
qed

section \<open>What a successful read implies\<close>

lemma le_value_less: "le_value bs < 256 ^ length bs"
proof (induction bs)
  case (Cons b bs)
  have "unat b < 256" using unsigned_less [of b, where 'a = nat] by simp
  moreover have "256 * le_value bs + 256 \<le> 256 * 256 ^ length bs" using Cons by simp
  ultimately show ?case by simp
qed simp

lemma base_256_unique: "a < 256 \<Longrightarrow> c < 256 \<Longrightarrow> a + 256 * p = c + 256 * q \<Longrightarrow> a = c \<and> p = q" for a c p q :: nat
  using div_mult_self2 [of 256 a p] div_mult_self2 [of 256 c q] mod_mult_self2 [of a 256 p] mod_mult_self2 [of c 256 q]
  by simp

lemma le_value_inject:
  "length xs = length ys \<Longrightarrow> le_value xs = le_value ys \<longleftrightarrow> xs = ys"
proof (induction xs ys rule: list_induct2)
  case (Cons x xs y ys)
  have lt: "unat x < 256" "unat y < 256"
    using unsigned_less [of x, where 'a = nat] unsigned_less [of y, where 'a = nat] by simp_all
  have "unat x = unat y \<and> le_value xs = le_value ys" if e: "unat x + 256 * le_value xs = unat y + 256 * le_value ys"
    using base_256_unique [OF lt e] .
  then show ?case using Cons by (auto simp: word_unat_eq_iff)
qed simp

lemma Load32_inject:
  assumes "Load32 a off = Inr w" and "Load32 b off = Inr w"
  shows "take 4 (drop off a) = take 4 (drop off b)"
proof -
  let ?x = "take 4 (drop off a)" and ?y = "take 4 (drop off b)"
  have len: "off + 4 \<le> length a" "off + 4 \<le> length b"
    and eq: "(of_nat (le_value ?x) :: 32 word) = of_nat (le_value ?y)"
    using assms by (auto simp: Load32_def load_bytes_def split: if_splits)
  have four: "length ?x = 4" "length ?y = 4" using len by auto
  then have "le_value ?x < 2 ^ 32" "le_value ?y < 2 ^ 32"
    using le_value_less [of ?x] le_value_less [of ?y] by simp_all
  then have "le_value ?x = le_value ?y"
    using arg_cong [OF eq, of unat] by (simp add: unat_of_nat)
  with four show ?thesis using le_value_inject [of ?x ?y] by simp
qed

lemma check_checksum_Inr:
  "check_checksum R blob off r = Inr r' \<longleftrightarrow>
     off + 4 = length blob \<and> r' = r \<and>
     (\<exists>stored. Load32 blob off = Inr stored \<and> CRC32 (take (off - 4) (drop 4 blob)) = BSwap R stored)"
  by (auto simp: check_checksum_def corrupt_def bind_res_Inr_iff Let_def)

lemma FromBlob_checksum:
  assumes "FromBlob R blob = Inr d"
  shows "12 \<le> length blob \<and>
    (\<exists>stored. Load32 blob (length blob - 4) = Inr stored \<and>
       CRC32 (take (length blob - 8) (drop 4 blob)) = BSwap R stored)"
proof -
  from assms obtain off where "12 \<le> length blob" and "check_checksum R blob off d = Inr d"
    by (auto simp: FromBlob_def corrupt_def Let_def bind_res_Inr_iff check_checksum_Inr split: if_splits prod.splits)
  then show ?thesis
    by (auto simp: check_checksum_Inr dest!: add_implies_diff [of off 4 "length blob"])
qed

context roaring_library
begin

lemma BSwap_inject: "BSwap R a = BSwap R b \<longleftrightarrow> a = b"
  using BSwap_involution by metis

lemma one_byte_change_refused:
  assumes ok: "FromBlob R blob = Inr d" and i: "4 \<le> i" "i < length blob" and b: "b \<noteq> blob ! i"
  shows "\<not> is_ok (FromBlob R (blob[i := b]))"
proof
  let ?blob' = "blob[i := b]" and ?n = "length blob"
  assume "is_ok (FromBlob R ?blob')"
  then obtain d' where ok': "FromBlob R ?blob' = Inr d'" by (auto simp: is_ok_def)
  obtain st where n: "12 \<le> ?n" and st: "Load32 blob (?n - 4) = Inr st" "CRC32 (take (?n - 8) (drop 4 blob)) = BSwap R st"
    using FromBlob_checksum [OF ok] by auto
  obtain st' where st': "Load32 ?blob' (?n - 4) = Inr st'" "CRC32 (take (?n - 8) (drop 4 ?blob')) = BSwap R st'"
    using FromBlob_checksum [OF ok'] by auto
  show False
  proof (cases "i < ?n - 4")
    case True
    then have "Load32 ?blob' (?n - 4) = Load32 blob (?n - 4)"
      by (simp add: Load32_def load_bytes_def)
    then have "st' = st" using st st' by simp
    moreover have "take (?n - 8) (drop 4 ?blob') = (take (?n - 8) (drop 4 blob))[i - 4 := b]"
      using i by (simp add: drop_update_swap take_update_swap)
    moreover have "b \<noteq> take (?n - 8) (drop 4 blob) ! (i - 4)"
      using i b True by simp
    ultimately show False
      using CRC32_one_byte [of "i - 4" "take (?n - 8) (drop 4 blob)" b] st st' i True by simp
  next
    case False
    have "take (?n - 8) (drop 4 ?blob') = take (?n - 8) (drop 4 blob)"
      using i False n by (simp add: drop_update_swap)
    then have "st' = st" using st st' by (simp add: BSwap_inject)
    then have "take 4 (drop (?n - 4) ?blob') = take 4 (drop (?n - 4) blob)"
      using st(1) st'(1) Load32_inject by blast
    then have "take 4 (drop (?n - 4) ?blob') ! (i - (?n - 4)) = take 4 (drop (?n - 4) blob) ! (i - (?n - 4))"
      by (rule arg_cong)
    then show False using i False n b by simp
  qed
qed

text \<open>With a truthful length field every access of the reader is inside the blob.\<close>

lemma FromBlob_loop_in_bounds:
  assumes "off + unat vs + 4 = length blob"
  shows "FromBlob_loop R blob i todo off vs bms \<noteq> Inl (OutOfBoundsAccess m) \<and>
    (\<forall>off' bms'. FromBlob_loop R blob i todo off vs bms = Inr (off', bms') \<longrightarrow> off \<le> off')"
  using assms
proof (induction todo arbitrary: i off vs bms)
  case (Suc todo)
  show ?case
  proof (cases "vs < 4")
    case False
    have four: "unat (vs - 4) = unat vs - 4" "4 \<le> unat vs"
      using False by (simp_all add: unat_sub not_less word_le_nat_alt)
    define size where "size = Roaring_deserialize_size R (drop (off + 4) blob) (unat vs - 4)"
    have size: "size \<le> unat vs - 4" using deserialize_bound by (simp add: size_def)
    have rest: "unat (vs - 4 - of_nat size) = unat vs - 4 - size"
      using size four unsigned_less [of vs, where 'a = nat]
      by (subst unat_sub) (simp_all add: word_le_nat_alt unat_of_nat)
    have bound: "off + 4 + size + unat (vs - 4 - of_nat size) + 4 = length blob"
      using Suc.prems size four rest by simp
    note IH = Suc.IH [OF bound]
    obtain key where key: "Load32 blob off = Inr key"
      using Suc.prems four by (auto simp: Load32_def load_bytes_def)
    obtain bs where bs: "load_bytes blob (off + 4) size = Inr bs"
      using bound by (auto simp: load_bytes_def)
    show ?thesis
    proof (cases "Roaring_readSafe R bs")
      case (Inl e)
      then show ?thesis
        using False key bs size four read_in_bounds [of bs]
        by (simp add: Let_def corrupt_def size_def [symmetric])
    next
      case (Inr bitmap)
      with IH [of "Suc i" "bitmaps_emplace key bitmap bms"] show ?thesis
        using False key bs size four by (auto simp: Let_def corrupt_def size_def [symmetric])
    qed
  qed (simp add: corrupt_def)
qed simp

lemma FromBlob_in_bounds:
  assumes raw: "Load32 blob 0 = Inr raw" and size: "unat (BSwap R raw) + 8 = length blob"
  shows "FromBlob R blob \<noteq> Inl (OutOfBoundsAccess m)"
proof (cases "12 \<le> length blob \<and> \<not> BSwap R raw < 4 \<and> \<not> BSwap R raw - 4 < 8")
  case False
  have "load_bytes blob 4 4 = Inr (take 4 (drop 4 blob))" if "12 \<le> length blob"
    using that by (simp add: load_bytes_def)
  with False raw show ?thesis
    by (auto simp: FromBlob_def corrupt_def Let_def)
next
  case True
  define vs where "vs = BSwap R raw"
  have four: "unat (vs - 4) = unat vs - 4" "4 \<le> unat vs"
    using True by (simp_all add: vs_def unat_sub not_less word_le_nat_alt)
  have "8 \<le> unat (vs - 4)"
    using True by (simp add: vs_def not_less word_le_nat_alt)
  then have twelve: "12 \<le> unat vs" using four by linarith
  have rest: "unat (vs - 12) = unat vs - 12"
    using twelve by (simp add: unat_sub word_le_nat_alt)
  have len: "20 \<le> length blob" using size twelve by (simp add: vs_def)
  have loop: "16 + unat (vs - 12) + 4 = length blob" using rest size twelve by (simp add: vs_def)
  have chk: "check_checksum R blob off res \<noteq> Inl (OutOfBoundsAccess m)" for off and res :: "'r bitmaps"
    by (auto simp: check_checksum_def corrupt_def Load32_def load_bytes_def Let_def)
  have ld: "\<exists>x. Load64 blob 8 = Inr x" "load_bytes blob 4 4 = Inr (take 4 (drop 4 blob))"
    using len by (auto simp: Load64_def load_bytes_def)
  show ?thesis
    using True ld len raw FromBlob_loop_in_bounds [OF loop] chk
    by (auto simp: FromBlob_def Let_def corrupt_def bind_res_Inl_iff vs_def [symmetric] split: prod.splits)
qed

section \<open>Round trip\<close>

definition content :: "'r bitmaps \<Rightarrow> 64 word set" where
  "content bms = {full_value k v | k v r. (k, r) \<in> set bms \<and> v \<in> set (Roaring_values R r)}"

lemma bit_low_mask: "bit (0xFFFFFFFF :: 64 word) n \<longleftrightarrow> n < 32"
proof -
  have "(0xFFFFFFFF :: 64 word) = mask 32" by (simp add: mask_eq_exp_minus_1)
  then show ?thesis by (auto simp only: bit_mask_iff possible_bit_word) simp
qed

lemma full_value_parts: "full_value (high_bits p) (low_bits p) = p"
proof (rule bit_word_eqI)
  fix n assume n: "n < LENGTH(64)"
  have low: "bit (low_bits p) n \<longleftrightarrow> n < 32 \<and> bit p n" for n
    unfolding low_bits_def bit_ucast_iff bit_and_iff bit_low_mask by auto
  have high: "bit (high_bits p) n \<longleftrightarrow> n < 32 \<and> bit p (32 + n)" for n
    by (cases "n < 31"; cases "n = 31") (auto simp: high_bits_def bit_simps)
  show "bit (full_value (high_bits p) (low_bits p)) n = bit p n"
    using n by (cases "n < 32"; cases "n < 63"; cases "n = 63") (auto simp: full_value_def bit_simps low high)
qed

lemma content_simps:
  "content [] = {}"
  "content ((k, r) # m) = full_value k ` set (Roaring_values R r) \<union> content m"
  by (auto simp: content_def)

lemma content_add: "content (bitmaps_add R k v m) = insert (full_value k v) (content m)"
  by (induction m) (auto simp: content_simps add_values new_values split: if_splits)

lemma keys_add: "fst ` set (bitmaps_add R k v m) = insert k (fst ` set m)"
proof (induction m)
  case (Cons e m)
  then show ?case by (cases e) (simp add: insert_commute)
qed simp

lemma distinct_add: "distinct (map fst m) \<Longrightarrow> distinct (map fst (bitmaps_add R k v m))"
  by (induction m) (auto simp: keys_add)

lemma group_positions_content:
  "content (group_positions R ps) = set ps \<and> distinct (map fst (group_positions R ps))"
proof -
  have "content (fold (\<lambda>p. bitmaps_add R (high_bits p) (low_bits p)) ps m) = set ps \<union> content m \<and>
      (distinct (map fst m) \<longrightarrow> distinct (map fst (fold (\<lambda>p. bitmaps_add R (high_bits p) (low_bits p)) ps m)))" for m
    by (induction ps arbitrary: m) (auto simp: content_add full_value_parts distinct_add)
  then show ?thesis by (simp add: group_positions_def content_simps)
qed

lemma set_set_insert: "set (set_insert x xs) = insert x (set xs)"
  by (auto simp: set_insert_def set_insort_key)

lemma set_insert_ok: "sorted xs \<and> distinct xs \<Longrightarrow> sorted (set_insert x xs) \<and> distinct (set_insert x xs)"
  by (simp add: set_insert_def sorted_insort distinct_insort)

lemma fold_set_insert:
  "set (fold (\<lambda>v. set_insert (f v)) vs out) = f ` set vs \<union> set out \<and>
   (sorted out \<and> distinct out \<longrightarrow>
     sorted (fold (\<lambda>v. set_insert (f v)) vs out) \<and> distinct (fold (\<lambda>v. set_insert (f v)) vs out))"
proof (induction vs arbitrary: out)
  case (Cons v vs)
  then show ?case using set_insert_ok [of out "f v"] by (auto simp: set_set_insert)
qed simp

lemma ToSet_content:
  "set (ToSet R bms out) = content bms \<union> set out \<and>
   (sorted out \<and> distinct out \<longrightarrow> sorted (ToSet R bms out) \<and> distinct (ToSet R bms out))"
proof (induction bms arbitrary: out)
  case (Cons e bms)
  obtain k r where e: "e = (k, r)" by (cases e)
  let ?out = "fold (\<lambda>v. set_insert (full_value k v)) (Roaring_values R r) out"
  have "ToSet R (e # bms) out = ToSet R bms ?out" by (simp add: ToSet_def e)
  then show ?case
    using Cons.IH [of ?out] fold_set_insert [of "full_value k" "Roaring_values R r" out]
    by (auto simp: e content_simps)
qed (simp add: ToSet_def content_simps)

text \<open>Two collections of bitmaps with the same keys and values.\<close>

definition same_bitmaps :: "'r bitmaps \<Rightarrow> 'r bitmaps \<Rightarrow> bool" where
  "same_bitmaps = list_all2 (\<lambda>(k, r) (k', r'). k = k' \<and> set (Roaring_values R r) = set (Roaring_values R r'))"

lemma same_bitmaps_content: "same_bitmaps a b \<Longrightarrow> content a = content b \<and> map fst a = map fst b"
  unfolding same_bitmaps_def
  by (induction rule: list_all2_induct) (auto simp: content_simps split: prod.splits)

lemma write_entry_pair: "write_entry R (k, r) = Store32 k @ Roaring_write R r"
  by (simp add: write_entry_def)

lemma FromBlob_loop_step:
  assumes "\<not> vs < 4" and "Load32 blob off = Inr key"
    and "Roaring_deserialize_size R (drop (off + 4) blob) (unat (vs - 4)) = n" and "n \<le> unat (vs - 4)"
    and "off + 4 + n < length blob" and "load_bytes blob (off + 4) n = Inr bs" and "Roaring_readSafe R bs = Inr r"
  shows "FromBlob_loop R blob i (Suc todo) off vs bms =
    FromBlob_loop R blob (Suc i) todo (off + 4 + n) (vs - 4 - of_nat n) (bitmaps_emplace key r bms)"
  using assms by (simp add: Let_def)

lemma FromBlob_loop_written:
  assumes "distinct (map fst (bms @ es))" and "length (concat (map (write_entry R) es)) \<le> unat vs" and "post \<noteq> []"
  shows "\<exists>es'. same_bitmaps es es' \<and>
    FromBlob_loop R (pre @ concat (map (write_entry R) es) @ post) i (length es) (length pre) vs bms =
      Inr (length pre + length (concat (map (write_entry R) es)), bms @ es')"
  using assms
proof (induction es arbitrary: pre i vs bms)
  case Nil
  then show ?case by (simp add: same_bitmaps_def)
next
  case (Cons e es)
  obtain k r where e: "e = (k, r)" by (cases e)
  let ?w = "Roaring_write R r" and ?rest = "concat (map (write_entry R) es) @ post"
  let ?blob = "pre @ concat (map (write_entry R) (e # es)) @ post"
  have blob: "?blob = pre @ Store32 k @ (?w @ ?rest)" "?blob = (pre @ Store32 k) @ ?w @ ?rest"
    by (simp_all add: e write_entry_pair)
  have size: "4 + length ?w + length (concat (map (write_entry R) es)) \<le> unat vs"
    using Cons.prems(2) by (simp add: e write_entry_pair)
  have four: "unat (vs - 4) = unat vs - 4" "\<not> vs < 4"
    using size by (simp_all add: unat_sub not_less word_le_nat_alt)
  obtain r' where r': "Roaring_readSafe R ?w = Inr r'" "set (Roaring_values R r') = set (Roaring_values R r)"
    using read_written by blast
  have rest: "unat (vs - 4 - of_nat (length ?w)) = unat vs - 4 - length ?w"
    using size four unsigned_less [of vs, where 'a = nat]
    by (subst unat_sub) (simp_all add: word_le_nat_alt unat_of_nat)
  have new: "bitmaps_emplace k r' bms = bms @ [(k, r')]"
    using Cons.prems(1) by (simp add: bitmaps_emplace_def e map_of_eq_None_iff [THEN iffD2])
  have "distinct (map fst ((bms @ [(k, r')]) @ es))" using Cons.prems(1) by (simp add: e)
  moreover have "length (concat (map (write_entry R) es)) \<le> unat (vs - 4 - of_nat (length ?w))"
    unfolding rest using size by linarith
  ultimately obtain es' where es': "same_bitmaps es es'"
    and loop: "FromBlob_loop R ?blob (Suc i) (length es) (length pre + 4 + length ?w) (vs - 4 - of_nat (length ?w)) (bms @ [(k, r')]) =
        Inr (length pre + 4 + length ?w + length (concat (map (write_entry R) es)), (bms @ [(k, r')]) @ es')"
    using Cons.IH [OF _ _ Cons.prems(3), of "bms @ [(k, r')]" "vs - 4 - of_nat (length ?w)" "pre @ Store32 k @ ?w" "Suc i"]
    by (auto simp: e write_entry_pair add.assoc)
  have ld: "Load32 ?blob (length pre) = Inr k" unfolding blob(1) by simp
  have dsize: "Roaring_deserialize_size R (drop (length pre + 4) ?blob) (unat vs - 4) = length ?w"
    unfolding blob(2) using deserialize_written [of r "unat vs - 4" ?rest] size by (simp add: write_size)
  have bytes: "load_bytes ?blob (length pre + 4) (length ?w) = Inr ?w"
    using load_bytes_at [of "pre @ Store32 k" ?w ?rest] unfolding blob(2) by simp
  have step: "FromBlob_loop R ?blob i (Suc (length es)) (length pre) vs bms =
      FromBlob_loop R ?blob (Suc i) (length es) (length pre + 4 + length ?w) (vs - 4 - of_nat (length ?w)) (bms @ [(k, r')])"
    unfolding new [symmetric]
  proof (rule FromBlob_loop_step [OF four(2) ld _ _ _ bytes r'(1)])
    show "length pre + 4 + length ?w < length ?blob"
      unfolding blob(2) using Cons.prems(3) by (cases post) auto
  qed (use dsize four size in auto)
  show ?case
    unfolding length_Cons step loop
    by (rule exI [of _ "(k, r') # es'"]) (use es' r'(2) in \<open>simp add: same_bitmaps_def e write_entry_pair\<close>)
qed

lemma blob_size_eq:
  "blob_size R bms = of_nat (20 + length (concat (map (write_entry R) bms)))"
proof -
  have "fold (\<lambda>(k, r) total. total + 4 + of_nat (Roaring_getSizeInBytes R r)) bms (of_nat n) =
      (of_nat (n + length (concat (map (write_entry R) bms))) :: 64 word)" for n
  proof (induction bms arbitrary: n)
    case (Cons e bms)
    obtain k r where e: "e = (k, r)" by (cases e)
    have "(of_nat n + 4 + of_nat (Roaring_getSizeInBytes R r) :: 64 word) = of_nat (n + 4 + Roaring_getSizeInBytes R r)"
      by simp
    then show ?case
      using Cons.IH [of "n + 4 + Roaring_getSizeInBytes R r"]
      by (simp add: e write_entry_pair write_size add.assoc)
  qed simp
  from this [of 16] show ?thesis by (simp add: blob_size_def)
qed

lemma same_count: "same_bitmaps a b \<Longrightarrow> length a = length b"
  by (auto simp: same_bitmaps_def dest: list_all2_lengthD)

text \<open>The reader on a blob with a well-formed head.\<close>

lemma FromBlob_framed:
  assumes "blob = Store32 raw @ DELETION_VECTOR_MAGIC @ Store64 (of_nat n) @ rest" and "rest \<noteq> []"
    and "12 \<le> unat (BSwap R raw)" and "n < 2 ^ 63"
    and "FromBlob_loop R blob 0 n 16 (BSwap R raw - 12) [] = Inr (off, d)"
  shows "FromBlob R blob = check_checksum R blob off d"
proof -
  have "Load32 blob 0 = Inr raw" "load_bytes blob 4 4 = Inr DELETION_VECTOR_MAGIC" "Load64 blob 8 = Inr (of_nat n)"
    using Load32_Store32 [of 0 "[]" raw "DELETION_VECTOR_MAGIC @ Store64 (of_nat n) @ rest"]
      load_bytes_at [of "Store32 raw" DELETION_VECTOR_MAGIC "Store64 (of_nat n) @ rest"]
      Load64_Store64 [of 8 "Store32 raw @ DELETION_VECTOR_MAGIC" "of_nat n" rest] assms(1)
    by (simp_all add: DELETION_VECTOR_MAGIC_def eval_nat_numeral)
  moreover have "16 < length blob" using assms(1,2) by (cases rest) (simp_all add: DELETION_VECTOR_MAGIC_def)
  moreover have "\<not> BSwap R raw < 4" "\<not> BSwap R raw - 4 < 8"
    using assms(3) by (simp_all add: not_less word_le_nat_alt unat_sub)
  moreover have "\<not> sint (of_nat n :: 64 word) < 0" "unat (of_nat n :: 64 word) = n"
    using assms(4) by (simp_all add: signed_of_nat signed_take_bit_int_eq_self unat_of_nat)
  ultimately show ?thesis using assms(5) by (simp add: FromBlob_def Let_def)
qed

lemma FromBlob_ToBlob:
  assumes order: "mset (iterate (group_positions R ps)) = mset (group_positions R ps)"
    and small: "length (ToBlob R iterate ps) < 2 ^ 32 + 8" and count: "length (group_positions R ps) < 2 ^ 63"
  shows "\<exists>d. FromBlob R (ToBlob R iterate ps) = Inr d \<and> content d = set ps"
proof -
  define bms where "bms = iterate (group_positions R ps)"
  define body where "body = concat (map (write_entry R) bms)"
  define chk where "chk = DELETION_VECTOR_MAGIC @ Store64 (of_nat (length bms)) @ body"
  define size :: "32 word" where "size = ucast (blob_size R bms - 4 - 4)"
  let ?tail = "Store32 (BSwap R (CRC32 chk))"
  let ?blob = "Store32 (BSwap R size) @ chk @ ?tail"
  have blob: "ToBlob R iterate ps = ?blob"
    by (simp add: ToBlob_def Let_def bms_def body_def chk_def size_def)
  have distinct: "distinct (map fst bms)"
    using order group_positions_content [of ps] by (metis bms_def mset_eq_imp_distinct_iff mset_map)
  have cont: "content bms = set ps"
    using group_positions_content [of ps] mset_eq_setD [OF order] by (simp add: content_def bms_def)
  have len: "length ?blob = 20 + length body" by (simp add: chk_def DELETION_VECTOR_MAGIC_def)
  have count': "length bms < 2 ^ 63" using count order by (metis bms_def size_mset)
  have short: "12 + length body < 2 ^ 32" using small len unfolding blob by simp
  have "blob_size R bms - 4 - 4 = of_nat (12 + length body)"
    unfolding blob_size_eq body_def by simp
  then have "unat size = unat (of_nat (12 + length body) :: 64 word) mod 2 ^ 32"
    by (simp only: size_def) (simp add: unsigned_ucast_eq take_bit_eq_mod)
  also have "\<dots> = 12 + length body"
    using short by (simp only: unat_of_nat) simp
  finally have size: "unat size = 12 + length body" .
  let ?head = "Store32 (BSwap R size) @ DELETION_VECTOR_MAGIC @ Store64 (of_nat (length bms))"
  have frame: "?blob = ?head @ body @ ?tail" "length ?head = 16"
    by (simp_all add: chk_def DELETION_VECTOR_MAGIC_def)
  have "unat (size - 12) = length body" using size by (simp add: unat_sub word_le_nat_alt)
  then obtain d where d: "same_bitmaps bms d"
    and loop: "FromBlob_loop R ?blob 0 (length bms) 16 (size - 12) [] = Inr (16 + length body, d)"
    using FromBlob_loop_written [of "[]" bms "size - 12" ?tail ?head 0] distinct
    unfolding frame body_def by (auto simp: DELETION_VECTOR_MAGIC_def)
  have "length chk = 12 + length body" by (simp add: chk_def DELETION_VECTOR_MAGIC_def)
  then have "take (16 + length body - 4) (drop 4 ?blob) = chk" by simp
  moreover have "Load32 ?blob (16 + length body) = Inr (BSwap R (CRC32 chk))"
    unfolding frame(1) using Load32_Store32 [of "16 + length body" "?head @ body" "BSwap R (CRC32 chk)" "[]"]
    by (simp add: DELETION_VECTOR_MAGIC_def)
  ultimately have "check_checksum R ?blob (16 + length body) d = Inr d"
    unfolding check_checksum_Inr using len by (auto simp: BSwap_involution)
  moreover have "FromBlob R ?blob = check_checksum R ?blob (16 + length body) d"
    by (rule FromBlob_framed [of _ "BSwap R size" "length bms" "body @ ?tail"])
      (use loop size count' in \<open>simp_all add: chk_def BSwap_involution\<close>)
  ultimately show ?thesis
    using same_bitmaps_content [OF d] cont unfolding blob by auto
qed

lemma decode_written:
  assumes "mset (iterate (group_positions R ps)) = mset (group_positions R ps)"
    and "length (ToBlob R iterate ps) < 2 ^ 32 + 8" and "sorted ps" and "distinct ps"
  shows "\<exists>d. FromBlob R (ToBlob R iterate ps) = Inr d \<and> ToSet R d [] = ps"
proof -
  have "length (group_positions R ps) \<le> length (ToBlob R iterate ps)"
  proof -
    have "length m \<le> length (concat (map (write_entry R) m))" for m
      by (induction m) (auto simp: write_entry_def)
    from this [of "iterate (group_positions R ps)"] show ?thesis
      using assms(1) by (simp add: ToBlob_def Let_def) (metis add_leD2 le_add2 le_trans size_mset)
  qed
  with assms(2) have "length (group_positions R ps) < 2 ^ 63" by simp
  from FromBlob_ToBlob [OF assms(1,2) this] obtain d
    where d: "FromBlob R (ToBlob R iterate ps) = Inr d" "content d = set ps" by blast
  moreover have "ToSet R d [] = ps"
    by (rule sorted_distinct_set_unique) (use ToSet_content [of d "[]"] d(2) assms(3,4) in auto)
  ultimately show ?thesis by blast
qed

end

section \<open>A concrete bitmap library\<close>

text \<open>
  Bitmaps as lists of values; a value is written as a byte 1 and its four bytes, and a byte 0
  ends the bitmap. The byte swap reverses the four bytes.
\<close>

fun list_parse :: "byte list \<Rightarrow> 32 word list option" where
  "list_parse [] = None"
| "list_parse (t # bs) =
     (if t = 0 then Some []
      else if length bs < 4 then None
      else map_option (\<lambda>vs. of_nat (le_value (take 4 bs)) # vs) (list_parse (drop 4 bs)))"

definition list_write :: "32 word list \<Rightarrow> byte list" where
  "list_write r = concat (map (\<lambda>v. 1 # Store32 v) r) @ [0]"

definition roaring_ref :: "32 word list roaring" where
  "roaring_ref =
     \<lparr>Roaring_new = [], Roaring_add = (\<lambda>v r. if v \<in> set r then r else r @ [v]),
      Roaring_getSizeInBytes = (\<lambda>r. length (list_write r)), Roaring_write = list_write,
      Roaring_deserialize_size = (\<lambda>bs n. case list_parse (take n bs) of Some r \<Rightarrow> min n (length (list_write r)) | None \<Rightarrow> 0),
      Roaring_readSafe = (\<lambda>bs. case list_parse bs of Some r \<Rightarrow> Inr r | None \<Rightarrow> Inl (InternalException ''failed alloc while reading'')),
      Roaring_values = (\<lambda>r. r),
      BSwap = (\<lambda>w. of_nat (le_value (rev (le_bytes 4 (unat w)))))\<rparr>"

lemma le_value_Store32 [simp]: "le_value (Store32 w) = unat w"
  using unsigned_less [of w, where 'a = nat] by (simp add: Store32_def le_value_le_bytes)

lemma list_parse_write: "list_parse (list_write r @ rest) = Some r"
proof (induction r)
  case (Cons v r)
  then show ?case by (simp add: list_write_def)
qed (simp add: list_write_def)

lemma le_bytes_le_value: "le_bytes (length bs) (le_value bs) = bs"
proof (induction bs)
  case (Cons b bs)
  have "unat b < 256" using unsigned_less [of b, where 'a = nat] by simp
  moreover from this have "(of_nat (unat b + 256 * le_value bs) :: byte) = b"
    by (simp only: word_unat_eq_iff unat_of_nat) simp
  ultimately show ?case using Cons by simp
qed simp

lemma BSwap_ref: "BSwap roaring_ref (BSwap roaring_ref w) = w"
proof -
  let ?bs = "rev (le_bytes 4 (unat w))"
  have lt: "le_value ?bs < 2 ^ 32" using le_value_less [of ?bs] by simp
  have "le_bytes 4 (le_value ?bs) = ?bs" using le_bytes_le_value [of ?bs] by simp
  then have "BSwap roaring_ref (BSwap roaring_ref w) = of_nat (le_value (le_bytes 4 (unat w)))"
    using lt by (simp add: roaring_ref_def unat_of_nat)
  then show ?thesis by (simp add: Store32_def [symmetric])
qed

interpretation roaring_ref: roaring_library roaring_ref
proof
  fix bs n show "Roaring_deserialize_size roaring_ref bs n \<le> n"
    by (simp add: roaring_ref_def split: option.splits)
next
  fix r :: "32 word list" and n rest
  assume "Roaring_getSizeInBytes roaring_ref r \<le> n"
  then have "length (list_write r) \<le> n" by (simp add: roaring_ref_def)
  moreover from this have "take n (list_write r @ rest) = list_write r @ take (n - length (list_write r)) rest" by simp
  ultimately show "Roaring_deserialize_size roaring_ref (Roaring_write roaring_ref r @ rest) n = Roaring_getSizeInBytes roaring_ref r"
    by (simp add: roaring_ref_def list_parse_write min_def)
qed (use list_parse_write [where rest = "[]"] BSwap_ref in \<open>auto simp: roaring_ref_def split: option.splits\<close>)

lemma length_ToBlob:
  "length (ToBlob R iterate ps) = 20 + length (concat (map (write_entry R) (iterate (group_positions R ps))))"
  by (simp add: ToBlob_def Let_def DELETION_VECTOR_MAGIC_def)

lemma nth_ToBlob:
  assumes "i < length (concat (map (write_entry R) (iterate (group_positions R ps))))"
  shows "ToBlob R iterate ps ! (16 + i) = concat (map (write_entry R) (iterate (group_positions R ps))) ! i"
proof -
  let ?body = "concat (map (write_entry R) (iterate (group_positions R ps)))"
  obtain h t where "ToBlob R iterate ps = h @ ?body @ t" and "length h = 16"
    by (rule that [of "Store32 _ @ DELETION_VECTOR_MAGIC @ Store64 _" "Store32 _"])
      (simp_all add: ToBlob_def Let_def DELETION_VECTOR_MAGIC_def)
  with assms show ?thesis by (simp add: nth_append)
qed

lemma length_write_ref: "length (write_entry roaring_ref (k, r)) = 5 + 5 * length r"
  by (simp add: write_entry_def roaring_ref_def list_write_def length_concat sum_list_triv comp_def)

definition sample_positions :: "64 word list" where
  "sample_positions = [3, 7, 4294967296, 9223372036854775815]"

lemma sample_groups:
  "group_positions roaring_ref sample_positions = [(0, [3, 7]), (1, [0]), (0x80000000, [7])]"
proof -
  have high: "high_bits p = ucast (drop_bit 32 p)" for p
  proof (rule bit_word_eqI)
    fix n assume "n < LENGTH(32)"
    then show "bit (high_bits p) n = bit (ucast (drop_bit 32 p) :: 32 word) n"
      by (cases "n < 31"; cases "n = 31") (auto simp: high_bits_def bit_simps)
  qed
  show ?thesis
    by (simp add: group_positions_def sample_positions_def high low_bits_def roaring_ref_def)
qed

lemma sample_blob:
  "length (ToBlob roaring_ref rev sample_positions) = 55" "ToBlob roaring_ref rev sample_positions ! 19 = 0x80"
proof -
  show "length (ToBlob roaring_ref rev sample_positions) = 55"
    by (simp add: length_ToBlob sample_groups length_write_ref)
  have "Store32 0x80000000 = [0, 0, 0, 0x80]" by (simp add: Store32_def le_bytes_4)
  then show "ToBlob roaring_ref rev sample_positions ! 19 = 0x80"
    using nth_ToBlob [of 3 roaring_ref rev sample_positions]
    by (simp add: sample_groups length_write_ref) (simp add: write_entry_def nth_append)
qed

section \<open>Properties\<close>

text \<open>
  C30. Deletion vectors survive storage: reading the blob written for an ascending list of
  distinct row positions succeeds and yields exactly these positions, whatever the order in
  which the bitmaps are written, for all 64-bit positions (also those whose high half is
  negative as a 32-bit key), as long as the blob is below 4 GiB, the most its length field can express.
\<close>

theorem deletion_vector_round_trip:
  assumes "roaring_library R" and "mset (iterate (group_positions R ps)) = mset (group_positions R ps)"
    and "length (ToBlob R iterate ps) < 2 ^ 32 + 8" and "sorted ps" and "distinct ps"
  shows "\<exists>d. FromBlob R (ToBlob R iterate ps) = Inr d \<and> ToSet R d [] = ps"
  by (rule roaring_library.decode_written [OF assms])

theorem deletion_vector_round_trip_witness:
  "\<exists>d. FromBlob roaring_ref (ToBlob roaring_ref rev sample_positions) = Inr d \<and> ToSet roaring_ref d [] = sample_positions"
proof (rule deletion_vector_round_trip [OF roaring_ref.roaring_library_axioms])
  show "length (ToBlob roaring_ref rev sample_positions) < 2 ^ 32 + 8" by (simp add: sample_blob)
qed (simp_all add: sample_positions_def)

text \<open>
  C31. Corruption is noticed: if a blob is accepted, then no blob that differs from it in exactly
  one byte after the length field is, wherever the byte is: magic, count, key, bitmap or checksum.
\<close>

theorem corrupted_byte_refused:
  assumes "roaring_library R" and "FromBlob R blob = Inr d" and "4 \<le> i" and "i < length blob" and "b \<noteq> blob ! i"
  shows "\<not> is_ok (FromBlob R (blob[i := b]))"
  by (rule roaring_library.one_byte_change_refused [OF assms])

theorem corrupted_byte_refused_witness:
  "\<not> is_ok (FromBlob roaring_ref ((ToBlob roaring_ref rev sample_positions)[19 := 0]))"
proof -
  obtain d where d: "FromBlob roaring_ref (ToBlob roaring_ref rev sample_positions) = Inr d"
    using roaring_ref.decode_written [of rev sample_positions]
    by (auto simp: sample_blob) (auto simp: sample_positions_def)
  show ?thesis
    by (rule corrupted_byte_refused [OF roaring_ref.roaring_library_axioms d]) (simp_all add: sample_blob)
qed

text \<open>
  C32. The reader trusts the length field: it stays inside the blob when the field agrees with the
  blob's length, but the field is never compared with it, and a blob of 12 to 15 bytes with the right magic and
  a larger length field makes the reader load the bitmap count from beyond the end of the buffer.
\<close>

theorem reader_bounds:
  assumes "roaring_library R" and "Load32 blob 0 = Inr raw"
  shows "(unat (BSwap R raw) + 8 = length blob \<longrightarrow> FromBlob R blob \<noteq> Inl (OutOfBoundsAccess m)) \<and>
    (12 \<le> length blob \<and> length blob < 16 \<and> take 4 (drop 4 blob) = DELETION_VECTOR_MAGIC \<and> 12 \<le> unat (BSwap R raw) \<longrightarrow>
       FromBlob R blob = Inl (OutOfBoundsAccess ''read past the end of the buffer''))"
proof (intro conjI impI)
  assume "unat (BSwap R raw) + 8 = length blob"
  then show "FromBlob R blob \<noteq> Inl (OutOfBoundsAccess m)"
    by (rule roaring_library.FromBlob_in_bounds [OF assms])
next
  assume short: "12 \<le> length blob \<and> length blob < 16 \<and> take 4 (drop 4 blob) = DELETION_VECTOR_MAGIC \<and> 12 \<le> unat (BSwap R raw)"
  then have "12 \<le> unat (BSwap R raw)" by simp
  then have "\<not> BSwap R raw < 4" "\<not> BSwap R raw - 4 < 8"
    by (simp_all add: not_less word_le_nat_alt unat_sub)
  with short assms(2) show "FromBlob R blob = Inl (OutOfBoundsAccess ''read past the end of the buffer'')"
    by (simp add: FromBlob_def load_bytes_def Load64_def Let_def)
qed

theorem reader_bounds_witness:
  "FromBlob roaring_ref ([0, 0, 0, 12, 0xD1, 0xD3, 0x39, 0x64, 0, 0, 0, 0]) =
     Inl (OutOfBoundsAccess ''read past the end of the buffer'')"
proof -
  let ?blob = "[0, 0, 0, 12, 0xD1, 0xD3, 0x39, 0x64, 0, 0, 0, 0] :: byte list"
  have load: "Load32 ?blob 0 = Inr 0x0C000000"
    by (simp add: Load32_def load_bytes_def)
  have "BSwap roaring_ref 0x0C000000 = 12"
    by (simp add: roaring_ref_def le_bytes_4)
  with reader_bounds [OF roaring_ref.roaring_library_axioms load] show ?thesis
    by (simp add: DELETION_VECTOR_MAGIC_def)
qed

end
