(* ===== verification/DL_Puffin.thy ===== *)
theory DL_Puffin
  imports DL_DeletionVector DL_Index
begin

text \<open>
  \<^verbatim>\<open>src/src/storage/ducklake_puffin.cpp\<close>: the container of the deletion vectors of one data file. A single
  vector is stored bare; several are stored back to back between magic bytes, followed by a JSON footer that
  says where each one is and to which snapshot it belongs. The JSON library (yyjson) is a parameter: JSON
  values are a datatype, and the library's law is that reading what was written gives the value
  back. The file system is the function that stores the bytes.

  The theorem: whatever list of vectors is written, the reader finds them all, in order, with their
  snapshots, and each decodes to the positions that were written.
\<close>

section \<open>JSON\<close>

datatype json = JNull | JBool bool | JInt int | JReal string | JStr string | JArr "json list" | JObj "(string \<times> json) list"

record yyjson =
  yyjson_mut_write :: "json \<Rightarrow> string option"
  yyjson_read :: "string \<Rightarrow> json option"

locale yyjson_library =
  fixes Y :: yyjson
  assumes read_written: "yyjson_mut_write Y j = Some s \<Longrightarrow> yyjson_read Y s = Some j"

fun yyjson_obj_get :: "json \<Rightarrow> string \<Rightarrow> json option" where
  "yyjson_obj_get (JObj m) key = map_of m key"
| "yyjson_obj_get _ key = None"

text \<open>\<^verbatim>\<open>yyjson_get_sint\<close>: the 64-bit integer read as signed.\<close>

definition yyjson_get_sint :: "int \<Rightarrow> int" where
  "yyjson_get_sint i = sint (of_int i :: 64 word)"

section \<open>Blobs and constants\<close>

record DuckLakePuffinBlob =
  pb_snapshot :: "idx option"
  pb_offset :: idx
  pb_length :: idx

record DuckLakePuffinWriteResult =
  wr_file_size_bytes :: idx
  wr_footer_size :: idx
  wr_delete_count :: idx

record BlobInput =
  bi_snapshot :: "idx option"
  bi_positions :: "64 word list"

definition PUFFIN_MAGIC :: "byte list" where
  "PUFFIN_MAGIC = [0x50, 0x46, 0x41, 0x31]"

definition PUFFIN_MAGIC_SIZE :: nat where "PUFFIN_MAGIC_SIZE = 4"
definition PUFFIN_FOOTER_SIZE_FIELD_SIZE :: nat where "PUFFIN_FOOTER_SIZE_FIELD_SIZE = 4"
definition PUFFIN_FOOTER_FLAGS_SIZE :: nat where "PUFFIN_FOOTER_FLAGS_SIZE = 4"
definition PUFFIN_FOOTER_TAIL_SIZE :: nat where
  "PUFFIN_FOOTER_TAIL_SIZE = PUFFIN_FOOTER_SIZE_FIELD_SIZE + PUFFIN_FOOTER_FLAGS_SIZE + PUFFIN_MAGIC_SIZE"
definition PUFFIN_FOOTER_STRUCT_SIZE :: nat where
  "PUFFIN_FOOTER_STRUCT_SIZE = PUFFIN_MAGIC_SIZE + PUFFIN_FOOTER_TAIL_SIZE"
definition PUFFIN_MIN_FILE_SIZE :: nat where
  "PUFFIN_MIN_FILE_SIZE = PUFFIN_MAGIC_SIZE + PUFFIN_FOOTER_STRUCT_SIZE"
definition PUFFIN_FOOTER_COMPRESSED_FLAG :: "32 word" where "PUFFIN_FOOTER_COMPRESSED_FLAG = 1"
definition DELETION_VECTOR_BLOB_TYPE :: string where "DELETION_VECTOR_BLOB_TYPE = ''deletion-vector-v1''"
definition DUCKLAKE_SNAPSHOT_PROPERTY :: string where "DUCKLAKE_SNAPSHOT_PROPERTY = ''ducklake-snapshot-id''"

lemmas puffin_sizes = PUFFIN_MAGIC_SIZE_def PUFFIN_FOOTER_SIZE_FIELD_SIZE_def PUFFIN_FOOTER_FLAGS_SIZE_def
  PUFFIN_FOOTER_TAIL_SIZE_def PUFFIN_FOOTER_STRUCT_SIZE_def PUFFIN_MIN_FILE_SIZE_def

text \<open>The bytes of a string.\<close>

definition bytes_of :: "string \<Rightarrow> byte list" where
  "bytes_of s = map (\<lambda>c. of_nat (of_char c)) s"

definition string_of :: "byte list \<Rightarrow> string" where
  "string_of bs = map (\<lambda>b. char_of (unat b)) bs"

section \<open>The writer\<close>

definition AppendMagic :: "byte list \<Rightarrow> byte list" where
  "AppendMagic file_data = file_data @ PUFFIN_MAGIC"

fun AppendBlobs :: "'r roaring \<Rightarrow> ('r bitmaps \<Rightarrow> 'r bitmaps) \<Rightarrow> byte list \<Rightarrow> BlobInput list \<Rightarrow> byte list \<times> DuckLakePuffinBlob list" where
  "AppendBlobs R iterate file_data [] = (file_data, [])"
| "AppendBlobs R iterate file_data (blob # blobs) =
     (let blob_data = ToBlob R iterate (bi_positions blob);
          info = \<lparr>pb_snapshot = bi_snapshot blob, pb_offset = of_nat (length file_data), pb_length = of_nat (length blob_data)\<rparr>;
          (file_data', infos) = AppendBlobs R iterate (file_data @ blob_data) blobs
      in (file_data', info # infos))"

definition AddBlobMetadata :: "string \<Rightarrow> BlobInput \<Rightarrow> DuckLakePuffinBlob \<Rightarrow> json" where
  "AddBlobMetadata data_file_path input info =
     JObj [(''type'', JStr DELETION_VECTOR_BLOB_TYPE), (''fields'', JArr []), (''snapshot-id'', JInt (- 1)),
           (''sequence-number'', JInt (- 1)), (''offset'', JInt (uint (pb_offset info))), (''length'', JInt (uint (pb_length info))),
           (''properties'', JObj
             ([(''referenced-data-file'', JStr data_file_path), (''cardinality'', JStr (dec_string (length (bi_positions input))))] @
              (case bi_snapshot input of Some s \<Rightarrow> [(DUCKLAKE_SNAPSHOT_PROPERTY, JStr (to_string s))] | None \<Rightarrow> [])))]"

definition footer_document :: "string \<Rightarrow> BlobInput list \<Rightarrow> DuckLakePuffinBlob list \<Rightarrow> json" where
  "footer_document data_file_path blobs blob_infos =
     JObj [(''blobs'', JArr (map2 (AddBlobMetadata data_file_path) blobs blob_infos)),
           (''properties'', JObj [(''created-by'', JStr ''ducklake'')])]"

definition WriteFooterPayload :: "yyjson \<Rightarrow> BlobInput list \<Rightarrow> DuckLakePuffinBlob list \<Rightarrow> string \<Rightarrow> string res" where
  "WriteFooterPayload Y blobs blob_infos data_file_path =
     (case yyjson_mut_write Y (footer_document data_file_path blobs blob_infos) of
        None \<Rightarrow> Inl (InternalException ''Failed to write puffin footer payload'')
      | Some json \<Rightarrow> Inr json)"

definition AppendFooter :: "byte list \<Rightarrow> string \<Rightarrow> byte list res" where
  "AppendFooter file_data payload =
     (if 2 ^ 32 \<le> length payload then Inl (InternalException ''Information loss on integer cast'')
      else Inr (AppendMagic (AppendMagic file_data @ bytes_of payload @ Store32 (of_nat (length payload)) @ [0, 0, 0, 0])))"

definition puffin_contents :: "yyjson \<Rightarrow> 'r roaring \<Rightarrow> ('r bitmaps \<Rightarrow> 'r bitmaps) \<Rightarrow> string \<Rightarrow> BlobInput list \<Rightarrow>
    (byte list \<times> DuckLakePuffinWriteResult) res" where
  "puffin_contents Y R iterate data_file_path blobs =
     (case blobs of
        [blob] \<Rightarrow>
          let file_data = ToBlob R iterate (bi_positions blob)
          in Inr (file_data, \<lparr>wr_file_size_bytes = of_nat (length file_data), wr_footer_size = 0,
                              wr_delete_count = of_nat (length (bi_positions blob))\<rparr>)
      | _ \<Rightarrow>
          let (file_data, blob_infos) = AppendBlobs R iterate (AppendMagic []) blobs
          in bind_res (WriteFooterPayload Y blobs blob_infos data_file_path) (\<lambda>payload.
             bind_res (AppendFooter file_data payload) (\<lambda>file_data.
               Inr (file_data, \<lparr>wr_file_size_bytes = of_nat (length file_data),
                                wr_footer_size = of_nat (length payload + PUFFIN_FOOTER_STRUCT_SIZE),
                                wr_delete_count = fold (\<lambda>blob m. max m (of_nat (length (bi_positions blob)))) blobs 0\<rparr>))))"

definition Puffin_Write :: "yyjson \<Rightarrow> 'r roaring \<Rightarrow> ('r bitmaps \<Rightarrow> 'r bitmaps) \<Rightarrow> (string \<Rightarrow> byte list \<Rightarrow> unit res) \<Rightarrow>
    string \<Rightarrow> string \<Rightarrow> BlobInput list \<Rightarrow> DuckLakePuffinWriteResult res" where
  "Puffin_Write Y R iterate write_file path data_file_path blobs =
     bind_res (puffin_contents Y R iterate data_file_path blobs) (\<lambda>(file_data, result).
       bind_res (write_file path file_data) (\<lambda>_. Inr result))"

section \<open>The reader\<close>

text \<open>
  \<^verbatim>\<open>std::strtoull\<close> in base 10: leading white space, an optional sign, digits; the value saturates, a
  minus sign negates it modulo \<^verbatim>\<open>2^64\<close>, and the second result is what was not consumed (everything
  when there is no digit).
\<close>

definition strtoull :: "string \<Rightarrow> idx \<times> string" where
  "strtoull s =
     (let s1 = dropWhile is_space s;
          negative = (s1 \<noteq> [] \<and> hd s1 = CHR ''-'');
          s2 = (if s1 \<noteq> [] \<and> (hd s1 = CHR ''-'' \<or> hd s1 = CHR ''+'') then tl s1 else s1);
          digits = takeWhile is_digit s2;
          v = dec_value digits
      in if digits = [] then (0, s)
         else ((if 2 ^ 64 \<le> v then - 1 else if negative then - of_nat v else of_nat v), dropWhile is_digit s2))"

definition puffin_corrupt :: "string \<Rightarrow> string \<Rightarrow> 'a res" where
  "puffin_corrupt path what = Inl (InvalidInputException (''Puffin file '' @ [CHR 0x22] @ path @ [CHR 0x22] @ what))"

definition ParseSnapshotProperty :: "string \<Rightarrow> string \<Rightarrow> idx res" where
  "ParseSnapshotProperty value path =
     (case strtoull value of (parsed, rest) \<Rightarrow>
        if value = [] \<or> rest \<noteq> []
        then puffin_corrupt path ('' is corrupt - invalid '' @ DUCKLAKE_SNAPSHOT_PROPERTY @ '' property '' @ value)
        else Inr parsed)"

definition IsBareDeletionVector :: "byte list \<Rightarrow> bool" where
  "IsBareDeletionVector data \<longleftrightarrow> 8 \<le> length data \<and> take 4 (drop 4 data) = DELETION_VECTOR_MAGIC"

definition ValidateFooter :: "byte list \<Rightarrow> string \<Rightarrow> nat res" where
  "ValidateFooter data path =
     (let size = length data in
      bind_res (load_bytes data (size - PUFFIN_MAGIC_SIZE) PUFFIN_MAGIC_SIZE) (\<lambda>trailing.
        if trailing \<noteq> PUFFIN_MAGIC then puffin_corrupt path '' is corrupt - trailing magic mismatch''
        else bind_res (Load32 data (size - PUFFIN_MAGIC_SIZE - PUFFIN_FOOTER_FLAGS_SIZE)) (\<lambda>flags.
          if and flags PUFFIN_FOOTER_COMPRESSED_FLAG \<noteq> 0 then puffin_corrupt path '' has a compressed footer, which is not supported''
          else if flags \<noteq> 0 then puffin_corrupt path '' has unsupported footer flags''
          else bind_res (Load32 data (size - PUFFIN_FOOTER_TAIL_SIZE)) (\<lambda>stored_size.
            let payload_size = unat stored_size in
            if size - PUFFIN_MIN_FILE_SIZE < payload_size
            then puffin_corrupt path '' is corrupt - footer payload size out of range''
            else let payload_start = size - PUFFIN_FOOTER_TAIL_SIZE - payload_size in
              bind_res (load_bytes data (payload_start - PUFFIN_MAGIC_SIZE) PUFFIN_MAGIC_SIZE) (\<lambda>magic.
                if magic \<noteq> PUFFIN_MAGIC then puffin_corrupt path '' is corrupt - footer magic mismatch''
                else Inr payload_start)))))"

definition parse_snapshot :: "string \<Rightarrow> json \<Rightarrow> idx option res" where
  "parse_snapshot path blob_val =
     (case yyjson_obj_get blob_val ''properties'' of
        Some (JObj m) \<Rightarrow>
          (case yyjson_obj_get (JObj m) DUCKLAKE_SNAPSHOT_PROPERTY of
             Some (JStr s) \<Rightarrow> bind_res (ParseSnapshotProperty s path) (\<lambda>v. Inr (Some v))
           | _ \<Rightarrow> Inr None)
      | _ \<Rightarrow> Inr None)"

definition TryParseBlobMetadata :: "json \<Rightarrow> nat \<Rightarrow> string \<Rightarrow> DuckLakePuffinBlob option res" where
  "TryParseBlobMetadata blob_val blob_section_end path =
     (case yyjson_obj_get blob_val ''type'' of
        Some (JStr blob_type) \<Rightarrow>
          if blob_type \<noteq> DELETION_VECTOR_BLOB_TYPE then Inr None
          else (case (yyjson_obj_get blob_val ''offset'', yyjson_obj_get blob_val ''length'') of
             (Some (JInt offset_val), Some (JInt length_val)) \<Rightarrow>
               let raw_offset = yyjson_get_sint offset_val; raw_length = yyjson_get_sint length_val in
               if raw_offset < 0 \<or> raw_length < 0 then puffin_corrupt path '' is corrupt - blob offset/length out of range''
               else let off = nat raw_offset; len = nat raw_length in
                 if off < PUFFIN_MAGIC_SIZE \<or> blob_section_end < len \<or> blob_section_end - len < off
                 then puffin_corrupt path '' is corrupt - blob offset/length out of range''
                 else bind_res (parse_snapshot path blob_val) (\<lambda>snapshot.
                   Inr (Some \<lparr>pb_snapshot = snapshot, pb_offset = of_nat off, pb_length = of_nat len\<rparr>))
           | _ \<Rightarrow> puffin_corrupt path '' is corrupt - blob without offset/length'')
      | _ \<Rightarrow> puffin_corrupt path '' is corrupt - blob without a type'')"

definition ParseFileMetadata :: "yyjson \<Rightarrow> byte list \<Rightarrow> nat \<Rightarrow> string \<Rightarrow> DuckLakePuffinBlob list res" where
  "ParseFileMetadata Y payload blob_section_end path =
     (case yyjson_read Y (string_of payload) of
        None \<Rightarrow> puffin_corrupt path '' is corrupt - failed to parse footer payload''
      | Some root \<Rightarrow>
          (case yyjson_obj_get root ''blobs'' of
             Some (JArr blobs) \<Rightarrow>
               bind_res (map_res (\<lambda>b. TryParseBlobMetadata b blob_section_end path) blobs) (\<lambda>found.
                 Inr (List.map_filter (\<lambda>b. b) found))
           | _ \<Rightarrow> puffin_corrupt path '' is corrupt - footer has no blobs list''))"

definition ParseFooter :: "yyjson \<Rightarrow> byte list \<Rightarrow> string \<Rightarrow> DuckLakePuffinBlob list res" where
  "ParseFooter Y data path =
     (if PUFFIN_MIN_FILE_SIZE \<le> length data \<and> take PUFFIN_MAGIC_SIZE data = PUFFIN_MAGIC
      then bind_res (ValidateFooter data path) (\<lambda>payload_start.
        let payload_size = length data - PUFFIN_FOOTER_TAIL_SIZE - payload_start;
            blob_section_end = payload_start - PUFFIN_MAGIC_SIZE
        in ParseFileMetadata Y (take payload_size (drop payload_start data)) blob_section_end path)
      else if IsBareDeletionVector data
      then Inr [\<lparr>pb_snapshot = None, pb_offset = 0, pb_length = of_nat (length data)\<rparr>]
      else Inl (InvalidInputException (''File '' @ [CHR 0x22] @ path @ [CHR 0x22] @ '' is not a valid deletion vector - magic mismatch'')))"

definition DecodeBlob :: "'r roaring \<Rightarrow> byte list \<Rightarrow> DuckLakePuffinBlob \<Rightarrow> 'r bitmaps res" where
  "DecodeBlob R data blob = FromBlob R (take (unat (pb_length blob)) (drop (unat (pb_offset blob)) data))"

section \<open>Reading back the parts\<close>

lemma string_of_bytes_of [simp]: "string_of (bytes_of s) = s"
proof -
  have "char_of (unat (of_nat (of_char c) :: byte)) = c" for c :: char
    by (simp add: unat_of_nat)
  then show ?thesis by (simp add: string_of_def bytes_of_def comp_def)
qed

lemma length_bytes_of [simp]: "length (bytes_of s) = length s"
  by (simp add: bytes_of_def)

lemma digit_not_space: "is_digit c \<Longrightarrow> \<not> is_space c \<and> c \<noteq> CHR ''-'' \<and> c \<noteq> CHR ''+''"
  by (auto simp: is_digit_def is_space_def)

lemma strtoull_to_string: "strtoull (to_string n) = (n, [])"
proof -
  obtain c cs where s: "to_string n = c # cs" by (cases "to_string n") auto
  have digits: "\<forall>x \<in> set (to_string n). is_digit x" using to_string_digits by blast
  then have c: "is_digit c" by (simp add: s)
  have tw: "takeWhile is_digit (to_string n) = to_string n" "dropWhile is_digit (to_string n) = []"
    using digits by simp_all
  have v: "dec_value (to_string n) = unat n" by (simp add: to_string_def)
  have "unat n < 2 ^ 64" using unsigned_less [of n, where 'a = nat] by simp
  moreover have "dropWhile is_space (to_string n) = to_string n" "hd (to_string n) = c"
    using digit_not_space [OF c] by (simp_all add: s)
  ultimately show ?thesis
    using digit_not_space [OF c] by (simp add: strtoull_def Let_def tw v)
qed

lemma metadata_fields:
  "yyjson_obj_get (AddBlobMetadata dfp b info) ''type'' = Some (JStr DELETION_VECTOR_BLOB_TYPE)"
  "yyjson_obj_get (AddBlobMetadata dfp b info) ''offset'' = Some (JInt (uint (pb_offset info)))"
  "yyjson_obj_get (AddBlobMetadata dfp b info) ''length'' = Some (JInt (uint (pb_length info)))"
  "yyjson_obj_get (AddBlobMetadata dfp b info) ''properties'' = Some (JObj
     ([(''referenced-data-file'', JStr dfp), (''cardinality'', JStr (dec_string (length (bi_positions b))))] @
      (case bi_snapshot b of Some s \<Rightarrow> [(DUCKLAKE_SNAPSHOT_PROPERTY, JStr (to_string s))] | None \<Rightarrow> [])))"
  by (simp_all add: AddBlobMetadata_def)

lemma parse_snapshot_written:
  "parse_snapshot path (AddBlobMetadata dfp b info) = Inr (bi_snapshot b)"
proof (cases "bi_snapshot b")
  case (Some n)
  have "ParseSnapshotProperty (to_string n) path = Inr n"
    by (simp add: ParseSnapshotProperty_def strtoull_to_string)
  with Some show ?thesis
    unfolding parse_snapshot_def metadata_fields by (simp add: DUCKLAKE_SNAPSHOT_PROPERTY_def)
qed (simp add: parse_snapshot_def metadata_fields DUCKLAKE_SNAPSHOT_PROPERTY_def)

lemma get_sint_uint:
  assumes "n < 2 ^ 63"
  shows "yyjson_get_sint (uint (of_nat n :: idx)) = int n"
proof -
  have "uint (of_nat n :: idx) = int n" using assms by (simp add: unsigned_of_nat take_bit_nat_eq_self)
  then show ?thesis using assms by (simp add: yyjson_get_sint_def signed_of_nat signed_take_bit_int_eq_self)
qed

lemma TryParseBlobMetadata_written:
  assumes "pb_offset info = of_nat off" and "pb_length info = of_nat len" and "pb_snapshot info = bi_snapshot b"
    and "4 \<le> off" and "off + len \<le> blob_end" and "blob_end < 2 ^ 63"
  shows "TryParseBlobMetadata (AddBlobMetadata dfp b info) blob_end path = Inr (Some info)"
proof -
  have room: "\<not> blob_end - len < off" using assms by linarith
  have "TryParseBlobMetadata (AddBlobMetadata dfp b info) blob_end path =
      bind_res (parse_snapshot path (AddBlobMetadata dfp b info)) (\<lambda>snapshot.
        Inr (Some \<lparr>pb_snapshot = snapshot, pb_offset = of_nat off, pb_length = of_nat len\<rparr>))"
    using assms room
    by (simp add: TryParseBlobMetadata_def metadata_fields get_sint_uint PUFFIN_MAGIC_SIZE_def Let_def)
  then show ?thesis by (simp add: parse_snapshot_written assms(1-3) [symmetric])
qed

text \<open>Where the writer puts a blob.\<close>

definition placed :: "'r roaring \<Rightarrow> ('r bitmaps \<Rightarrow> 'r bitmaps) \<Rightarrow> byte list \<Rightarrow> BlobInput \<Rightarrow> DuckLakePuffinBlob \<Rightarrow> bool" where
  "placed R iterate data b info \<longleftrightarrow>
     (\<exists>pre post. data = pre @ ToBlob R iterate (bi_positions b) @ post \<and> 4 \<le> length pre \<and>
        info = \<lparr>pb_snapshot = bi_snapshot b, pb_offset = of_nat (length pre),
                pb_length = of_nat (length (ToBlob R iterate (bi_positions b)))\<rparr>)"

lemma placed_append: "placed R iterate data b info \<Longrightarrow> placed R iterate (data @ extra) b info"
  unfolding placed_def by (metis append.assoc)

lemma AppendBlobs_placed:
  assumes "AppendBlobs R iterate data blobs = (data', infos)" and "4 \<le> length data"
  shows "(\<exists>extra. data' = data @ extra) \<and> list_all2 (placed R iterate data') blobs infos"
  using assms
proof (induction blobs arbitrary: data data' infos)
  case (Cons b blobs)
  let ?blob = "ToBlob R iterate (bi_positions b)"
  obtain infos' where rest: "AppendBlobs R iterate (data @ ?blob) blobs = (data', infos')"
    and infos: "infos = \<lparr>pb_snapshot = bi_snapshot b, pb_offset = of_nat (length data), pb_length = of_nat (length ?blob)\<rparr> # infos'"
    using Cons.prems(1) by (auto simp: Let_def split: prod.splits)
  obtain extra where extra: "data' = (data @ ?blob) @ extra" and tail: "list_all2 (placed R iterate data') blobs infos'"
    using Cons.IH [OF rest] Cons.prems(2) by auto
  have "placed R iterate data' b (hd infos)"
    unfolding placed_def infos using Cons.prems(2) extra by (intro exI [of _ data] exI [of _ extra]) simp
  with extra tail show ?case by (auto simp: infos)
qed auto

lemma placed_metadata:
  assumes "list_all2 (placed R iterate data) blobs infos" and "length data < 2 ^ 63"
  shows "map_res (\<lambda>b. TryParseBlobMetadata b (length data) path) (map2 (AddBlobMetadata dfp) blobs infos) = Inr (map Some infos)"
  using assms(1)
proof (induction rule: list_all2_induct)
  case (Cons b bs info infos)
  from Cons(1) obtain pre post where "data = pre @ ToBlob R iterate (bi_positions b) @ post" and "4 \<le> length pre"
    and "info = \<lparr>pb_snapshot = bi_snapshot b, pb_offset = of_nat (length pre),
                pb_length = of_nat (length (ToBlob R iterate (bi_positions b)))\<rparr>"
    by (auto simp: placed_def)
  then have "TryParseBlobMetadata (AddBlobMetadata dfp b info) (length data) path = Inr (Some info)"
    using assms(2) by (intro TryParseBlobMetadata_written) auto
  with Cons show ?case by simp
qed simp

lemma ValidateFooter_written:
  assumes "length payload < 2 ^ 32" and "4 \<le> length pre"
    and data: "data = pre @ PUFFIN_MAGIC @ payload @ Store32 (of_nat (length payload)) @ [0, 0, 0, 0] @ PUFFIN_MAGIC"
  shows "ValidateFooter data path = Inr (length pre + 4)"
proof -
  have m: "length PUFFIN_MAGIC = 4" by (simp add: PUFFIN_MAGIC_def)
  have len: "length data = length pre + length payload + 16" by (simp add: data m)
  have t: "load_bytes data (length data - 4) 4 = Inr PUFFIN_MAGIC"
    using load_bytes_at [of "pre @ PUFFIN_MAGIC @ payload @ Store32 (of_nat (length payload)) @ [0, 0, 0, 0]" PUFFIN_MAGIC "[]"]
    by (simp add: data m ac_simps)
  have "Store32 0 = [0, 0, 0, 0]" by (simp add: Store32_def le_bytes_4)
  then have f: "Load32 data (length data - 8) = Inr 0"
    using Load32_Store32 [of "length data - 8" "pre @ PUFFIN_MAGIC @ payload @ Store32 (of_nat (length payload))" 0 PUFFIN_MAGIC]
    by (simp add: data m ac_simps)
  have p: "Load32 data (length data - 12) = Inr (of_nat (length payload))"
    using Load32_Store32 [of "length data - 12" "pre @ PUFFIN_MAGIC @ payload" "of_nat (length payload)" "[0, 0, 0, 0] @ PUFFIN_MAGIC"]
    by (simp add: data m ac_simps)
  have g: "load_bytes data (length pre) 4 = Inr PUFFIN_MAGIC"
    using load_bytes_at [of pre PUFFIN_MAGIC "payload @ Store32 (of_nat (length payload)) @ [0, 0, 0, 0] @ PUFFIN_MAGIC"]
    by (simp add: data m ac_simps)
  have "unat (of_nat (length payload) :: 32 word) = length payload" using assms(1) by (simp add: unat_of_nat)
  moreover have "\<not> length pre + length payload - 4 < length payload" using assms(2) by linarith
  ultimately show ?thesis
    using assms(2) t f p g by (simp add: ValidateFooter_def puffin_sizes Let_def len)
qed

text \<open>The writer's input: ascending positions, bitmaps written in some order, a blob below 4 GiB.\<close>

definition writable :: "'r roaring \<Rightarrow> ('r bitmaps \<Rightarrow> 'r bitmaps) \<Rightarrow> BlobInput \<Rightarrow> bool" where
  "writable R iterate b \<longleftrightarrow>
     sorted (bi_positions b) \<and> distinct (bi_positions b) \<and>
     mset (iterate (group_positions R (bi_positions b))) = mset (group_positions R (bi_positions b)) \<and>
     length (ToBlob R iterate (bi_positions b)) < 2 ^ 32 + 8"

definition decodes_to :: "'r roaring \<Rightarrow> byte list \<Rightarrow> BlobInput \<Rightarrow> DuckLakePuffinBlob \<Rightarrow> bool" where
  "decodes_to R data b info \<longleftrightarrow> (\<exists>d. DecodeBlob R data info = Inr d \<and> ToSet R d [] = bi_positions b)"

lemma placed_decodes:
  assumes "roaring_library R" and "writable R iterate b" and "placed R iterate data b info" and "length data < 2 ^ 63"
  shows "decodes_to R data b info"
proof -
  obtain pre post where data: "data = pre @ ToBlob R iterate (bi_positions b) @ post"
    and info: "info = \<lparr>pb_snapshot = bi_snapshot b, pb_offset = of_nat (length pre),
                pb_length = of_nat (length (ToBlob R iterate (bi_positions b)))\<rparr>"
    using assms(3) by (auto simp: placed_def)
  have "unat (pb_offset info) = length pre" "unat (pb_length info) = length (ToBlob R iterate (bi_positions b))"
    using assms(4) by (simp_all add: info data unat_of_nat)
  then have "DecodeBlob R data info = FromBlob R (ToBlob R iterate (bi_positions b))"
    by (simp add: DecodeBlob_def data)
  then show ?thesis
    using roaring_library.decode_written [OF assms(1), of iterate "bi_positions b"] assms(2)
    by (auto simp: decodes_to_def writable_def)
qed

lemma bare_round_trip:
  assumes "roaring_library R" and "writable R iterate b" and "length data < 2 ^ 63"
    and data: "data = ToBlob R iterate (bi_positions b)" and "take 4 data \<noteq> PUFFIN_MAGIC"
  shows "\<exists>infos. ParseFooter Y data path = Inr infos \<and> map pb_snapshot infos = [None] \<and>
    list_all2 (decodes_to R data) [b] infos"
proof -
  have "IsBareDeletionVector data"
    by (simp add: data IsBareDeletionVector_def ToBlob_def Let_def DELETION_VECTOR_MAGIC_def)
  then have "ParseFooter Y data path = Inr [\<lparr>pb_snapshot = None, pb_offset = 0, pb_length = of_nat (length data)\<rparr>]"
    using assms(5) by (simp add: ParseFooter_def PUFFIN_MAGIC_SIZE_def)
  moreover have "DecodeBlob R data \<lparr>pb_snapshot = None, pb_offset = 0, pb_length = of_nat (length data)\<rparr> = FromBlob R data"
    using assms(3) by (simp add: DecodeBlob_def unat_of_nat)
  ultimately show ?thesis
    using roaring_library.decode_written [OF assms(1), of iterate "bi_positions b"] assms(2)
    by (auto simp: decodes_to_def writable_def data)
qed

lemma map_filter_some: "List.map_filter (\<lambda>b. b) (map Some xs) = xs"
  by (induction xs) (simp_all add: List.map_filter_def)

lemma puffin_contents_many:
  assumes "length blobs \<noteq> 1" and "AppendBlobs R iterate PUFFIN_MAGIC blobs = (body, infos)"
  shows "puffin_contents Y R iterate dfp blobs =
    bind_res (WriteFooterPayload Y blobs infos dfp) (\<lambda>payload.
      bind_res (AppendFooter body payload) (\<lambda>file_data.
        Inr (file_data, \<lparr>wr_file_size_bytes = of_nat (length file_data),
                         wr_footer_size = of_nat (length payload + PUFFIN_FOOTER_STRUCT_SIZE),
                         wr_delete_count = fold (\<lambda>blob m. max m (of_nat (length (bi_positions blob)))) blobs 0\<rparr>)))"
proof -
  have "AppendBlobs R iterate (AppendMagic []) blobs = (body, infos)" using assms(2) by (simp add: AppendMagic_def)
  then show ?thesis
    using assms(1) unfolding puffin_contents_def by (cases blobs rule: remdups_adj.cases) (simp_all only: list.case Let_def prod.case, simp_all)
qed

lemma container_round_trip:
  assumes "roaring_library R" and "yyjson_library Y" and "\<forall>b \<in> set blobs. writable R iterate b"
    and "AppendBlobs R iterate PUFFIN_MAGIC blobs = (body, infos)"
    and "WriteFooterPayload Y blobs infos dfp = Inr payload" and "AppendFooter body payload = Inr data"
    and "length data < 2 ^ 63"
  shows "ParseFooter Y data path = Inr infos \<and> map pb_snapshot infos = map bi_snapshot blobs \<and>
    list_all2 (decodes_to R data) blobs infos"
proof -
  have m: "length PUFFIN_MAGIC = 4" by (simp add: PUFFIN_MAGIC_def)
  obtain extra where body: "body = PUFFIN_MAGIC @ extra" and placed: "list_all2 (placed R iterate body) blobs infos"
    using AppendBlobs_placed [OF assms(4)] m by auto
  have data: "data = body @ PUFFIN_MAGIC @ bytes_of payload @ Store32 (of_nat (length payload)) @ [0, 0, 0, 0] @ PUFFIN_MAGIC"
    and short: "length payload < 2 ^ 32"
    using assms(6) by (auto simp: AppendFooter_def AppendMagic_def split: if_splits)
  have foot: "ValidateFooter data path = Inr (length body + 4)"
    using ValidateFooter_written [of "bytes_of payload" body data path] short by (simp add: data body m)
  have json: "yyjson_read Y payload = Some (footer_document dfp blobs infos)"
    using assms(5) yyjson_library.read_written [OF assms(2)]
    by (auto simp: WriteFooterPayload_def split: option.splits)
  have slice: "take (length data - PUFFIN_FOOTER_TAIL_SIZE - (length body + 4)) (drop (length body + 4) data) = bytes_of payload"
    by (simp add: data m puffin_sizes)
  have "length body < 2 ^ 63" using assms(7) by (simp add: data)
  from placed_metadata [OF placed this]
  have "ParseFileMetadata Y (bytes_of payload) (length body) path = Inr infos"
    by (simp add: ParseFileMetadata_def json footer_document_def map_filter_some)
  moreover have "take 4 data = PUFFIN_MAGIC" "20 \<le> length data" by (simp_all add: data body m)
  ultimately have "ParseFooter Y data path = Inr infos"
    using foot slice by (simp add: ParseFooter_def Let_def puffin_sizes)
  moreover have "map pb_snapshot infos = map bi_snapshot blobs"
    using placed by (induction rule: list_all2_induct) (auto simp: placed_def)
  moreover have "list_all2 (decodes_to R data) blobs infos"
    using placed
  proof (rule list.rel_mono_strong)
    fix b info assume "b \<in> set blobs" and "placed R iterate body b info"
    then have "placed R iterate data b info" unfolding data by (intro placed_append)
    with \<open>b \<in> set blobs\<close> show "decodes_to R data b info"
      using placed_decodes [OF assms(1) _ _ assms(7)] assms(3) by blast
  qed
  ultimately show ?thesis by blast
qed

lemma written_file_reads_back:
  assumes "roaring_library R" and "yyjson_library Y" and "\<forall>b \<in> set blobs. writable R iterate b"
    and "puffin_contents Y R iterate dfp blobs = Inr (data, result)" and "length data < 2 ^ 63"
    and "length blobs = 1 \<longrightarrow> take 4 data \<noteq> PUFFIN_MAGIC"
  shows "\<exists>infos. ParseFooter Y data path = Inr infos \<and>
    map pb_snapshot infos = (if length blobs = 1 then [None] else map bi_snapshot blobs) \<and>
    list_all2 (decodes_to R data) blobs infos"
proof (cases "\<exists>b. blobs = [b]")
  case True
  then obtain b where b: "blobs = [b]" by blast
  with assms(4) have "data = ToBlob R iterate (bi_positions b)"
    by (auto simp: puffin_contents_def Let_def)
  from bare_round_trip [OF assms(1) _ assms(5) this] show ?thesis using assms(3,6) b by auto
next
  case False
  then have n: "length blobs \<noteq> 1" by (cases blobs) (auto simp: Suc_length_conv)
  obtain body infos where app: "AppendBlobs R iterate PUFFIN_MAGIC blobs = (body, infos)"
    by (cases "AppendBlobs R iterate PUFFIN_MAGIC blobs")
  obtain payload where "WriteFooterPayload Y blobs infos dfp = Inr payload" "AppendFooter body payload = Inr data"
    using assms(4) by (auto simp: puffin_contents_many [OF n app] bind_res_Inr_iff)
  from container_round_trip [OF assms(1,2,3) app this assms(5)] n show ?thesis by auto
qed

section \<open>A JSON library for a list of documents\<close>

text \<open>A library that can write the documents of a given list, as their decimal index.\<close>

fun document_index :: "json \<Rightarrow> json list \<Rightarrow> nat option" where
  "document_index j [] = None"
| "document_index j (d # ds) = (if d = j then Some 0 else map_option Suc (document_index j ds))"

definition json_table :: "json list \<Rightarrow> yyjson" where
  "json_table docs =
     \<lparr>yyjson_mut_write = (\<lambda>j. map_option dec_string (document_index j docs)),
      yyjson_read = (\<lambda>s. if dec_value s < length docs then Some (docs ! dec_value s) else None)\<rparr>"

lemma document_index_Some: "document_index j docs = Some i \<Longrightarrow> i < length docs \<and> docs ! i = j"
  by (induction docs arbitrary: i) (auto split: if_splits)

lemma json_table_law: "yyjson_library (json_table docs)"
  by unfold_locales (auto simp: json_table_def dest: document_index_Some)

definition sample_vectors :: "BlobInput list" where
  "sample_vectors = [\<lparr>bi_snapshot = Some 4, bi_positions = [3]\<rparr>, \<lparr>bi_snapshot = Some 9, bi_positions = sample_positions\<rparr>]"

definition sample_footer :: json where
  "sample_footer = footer_document ''data.parquet'' sample_vectors (snd (AppendBlobs roaring_ref rev PUFFIN_MAGIC sample_vectors))"

interpretation sample_json: yyjson_library "json_table [sample_footer]"
  by (rule json_table_law)

lemma sample_length: "length (ToBlob roaring_ref rev [3]) = 30"
proof -
  have "group_positions roaring_ref [3] = [(high_bits 3, [low_bits 3])]"
    by (simp add: group_positions_def roaring_ref_def)
  then show ?thesis by (simp add: length_ToBlob length_write_ref)
qed

lemma sample_writable: "\<forall>b \<in> set sample_vectors. writable roaring_ref rev b"
  by (auto simp: sample_vectors_def writable_def sample_blob sample_length) (auto simp: sample_positions_def)

lemma sample_contents:
  "\<exists>data result. puffin_contents (json_table [sample_footer]) roaring_ref rev ''data.parquet'' sample_vectors = Inr (data, result) \<and>
     length data < 2 ^ 63"
proof -
  let ?Y = "json_table [sample_footer]"
  obtain body infos where app: "AppendBlobs roaring_ref rev PUFFIN_MAGIC sample_vectors = (body, infos)"
    by (cases "AppendBlobs roaring_ref rev PUFFIN_MAGIC sample_vectors")
  have n: "length sample_vectors \<noteq> 1" by (simp add: sample_vectors_def)
  have "WriteFooterPayload ?Y sample_vectors infos ''data.parquet'' = Inr (dec_string 0)"
    by (simp add: WriteFooterPayload_def json_table_def sample_footer_def app)
  moreover have "length (dec_string 0) = 1" by (simp add: dec_string.simps)
  ultimately obtain data result where c: "puffin_contents ?Y roaring_ref rev ''data.parquet'' sample_vectors = Inr (data, result)"
    and len: "length data = length body + 17"
    by (auto simp: puffin_contents_many [OF n app] AppendFooter_def AppendMagic_def PUFFIN_MAGIC_def)
  have "length body = 89"
    using app sample_length by (auto simp: sample_vectors_def Let_def sample_blob PUFFIN_MAGIC_def)
  with len c show ?thesis by auto
qed

section \<open>Properties\<close>

text \<open>
  C33. Deletion vectors survive the container: for any list of vectors the writer produces a file for, the reader accepts the
  file and returns one entry per vector, in order; every entry decodes to exactly the positions
  of its vector, and carries its snapshot, except that a single vector is stored bare and its
  snapshot is not. A bare file must not begin with the container's magic bytes, which its length
  field does for a blob of one particular size of about 1.3 GB.
\<close>

theorem puffin_round_trip:
  assumes "roaring_library R" and "yyjson_library Y" and "\<forall>b \<in> set blobs. writable R iterate b"
    and "puffin_contents Y R iterate dfp blobs = Inr (data, result)" and "length data < 2 ^ 63"
    and "length blobs = 1 \<longrightarrow> take 4 data \<noteq> PUFFIN_MAGIC"
  shows "\<exists>infos. ParseFooter Y data path = Inr infos \<and>
    map pb_snapshot infos = (if length blobs = 1 then [None] else map bi_snapshot blobs) \<and>
    list_all2 (decodes_to R data) blobs infos"
  using assms by (rule written_file_reads_back)

theorem puffin_round_trip_witness:
  "\<exists>data result infos. puffin_contents (json_table [sample_footer]) roaring_ref rev ''data.parquet'' sample_vectors = Inr (data, result) \<and>
     ParseFooter (json_table [sample_footer]) data ''deletes.puffin'' = Inr infos \<and>
     map pb_snapshot infos = [Some 4, Some 9] \<and> list_all2 (decodes_to roaring_ref data) sample_vectors infos"
proof -
  obtain data result where c: "puffin_contents (json_table [sample_footer]) roaring_ref rev ''data.parquet'' sample_vectors = Inr (data, result)"
    and len: "length data < 2 ^ 63" using sample_contents by blast
  have n: "length sample_vectors \<noteq> 1" by (simp add: sample_vectors_def)
  from puffin_round_trip [OF roaring_ref.roaring_library_axioms json_table_law sample_writable c len, of "''deletes.puffin''"] n c
  show ?thesis by (auto simp: sample_vectors_def)
qed

end
