(* ===== verification/DL_DeleteFilter.thy ===== *)
theory DL_DeleteFilter
  imports DL_Puffin DL_DataFile "HOL-Library.AList"
begin

text \<open>
  \<^verbatim>\<open>src/src/storage/ducklake_delete_filter.cpp\<close> with \<^verbatim>\<open>src/src/common/parquet_file_scanner.cpp\<close> and the part of
  \<^verbatim>\<open>src/src/storage/ducklake_multi_file_reader.cpp\<close> that sets the filter up: the deleted rows of a data
  file are read from a delete file (Parquet, Vortex or Puffin) and from the metadata
  database, merged, and applied to every vector of the scan; a deletion scan inverts the filter.

  The table functions that read Parquet and Vortex files, the bytes of a Puffin file and the iteration order
  of an \<^verbatim>\<open>unordered_map\<close> are DuckDB's or the standard library's: they are the record \<open>delete_env\<close>. A
  cell of a \<^verbatim>\<open>BIGINT\<close> column is a \<open>64 word option\<close>; the other columns are never
  looked at. An \<^verbatim>\<open>int64_t\<close> is a word read by \<open>sint\<close>.

  The theorems: the filter selects exactly the rows that are not deleted at the snapshot; deletes
  written to a Puffin file hide exactly the positions of the vectors up to the snapshot read; a deletion scan
  returns exactly the rows deleted in its range.
\<close>

section \<open>Data\<close>

record DuckLakeDeleteData =
  deleted_rows :: "idx list"
  dd_snapshot_ids :: "idx list"
  scan_snapshot_map :: "(idx \<times> idx) list"
  uses_row_id :: bool

record DeleteFileScanResult =
  sr_deleted_rows :: "idx list"
  sr_snapshot_ids :: "idx list"
  sr_has_embedded_snapshots :: bool

record DuckLakeDeleteFilter =
  delete_data :: DuckLakeDeleteData
  df_max_row_count :: "idx option"
  df_snapshot_filter :: "idx option"

definition empty_delete_filter :: DuckLakeDeleteFilter where
  "empty_delete_filter =
     \<lparr>delete_data = \<lparr>deleted_rows = [], dd_snapshot_ids = [], scan_snapshot_map = [], uses_row_id = False\<rparr>,
      df_max_row_count = None, df_snapshot_filter = None\<rparr>"

record DuckLakeDeleteScanEntry =
  ds_file :: DuckLakeFileData
  ds_delete_file :: DuckLakeFileData
  ds_previous_delete_file :: DuckLakeFileData
  ds_row_count :: idx
  ds_row_id_start :: "idx option"
  ds_snapshot_id :: "idx option"
  ds_start_snapshot :: "idx option"
  ds_end_snapshot :: "idx option"
  ds_inlined_file_deletions :: "(idx \<times> idx) list"

text \<open>\<^verbatim>\<open>NumericCast<idx_t>\<close> of an \<^verbatim>\<open>int64_t\<close>.\<close>

definition NumericCast_idx :: "64 word \<Rightarrow> idx res" where
  "NumericCast_idx v = (if sint v < 0 then Inl (InternalException ''Information loss on integer cast'') else Inr v)"

definition signed_string :: "64 word \<Rightarrow> string" where
  "signed_string v = (if sint v < 0 then ''-'' @ dec_string (nat (- sint v)) else dec_string (unat v))"

section \<open>Reading files\<close>

datatype comparison_type = COMPARE_GREATERTHANOREQUALTO | COMPARE_LESSTHANOREQUALTO

record pushed_filter =
  pf_column :: nat
  pf_comparison :: comparison_type
  pf_constant :: "64 word"

type_synonym scan_row = "64 word option list"

record 'r delete_env =
  env_yyjson :: yyjson
  env_roaring :: "'r roaring"
  env_strings :: duckdb_string
  env_identifier_eq :: "string \<Rightarrow> string \<Rightarrow> bool"
  env_read :: "string \<Rightarrow> byte list res"
  env_bind :: "string \<Rightarrow> DuckLakeFileData \<Rightarrow> (string \<times> LogicalTypeId) list res"
  env_scan :: "string \<Rightarrow> DuckLakeFileData \<Rightarrow> pushed_filter list \<Rightarrow> scan_row list list"
  env_hash_order :: "(idx \<times> idx) list \<Rightarrow> (idx \<times> idx) list"
  env_vector_size :: nat

definition MakeComparisonFilter :: "nat \<Rightarrow> comparison_type \<Rightarrow> 64 word \<Rightarrow> pushed_filter" where
  "MakeComparisonFilter column comparison_type constant =
     \<lparr>pf_column = column, pf_comparison = comparison_type, pf_constant = constant\<rparr>"

fun FindColumn_from :: "(string \<Rightarrow> string \<Rightarrow> bool) \<Rightarrow> nat \<Rightarrow> (string \<times> LogicalTypeId) list \<Rightarrow> string \<Rightarrow> nat option" where
  "FindColumn_from eq i [] name = None"
| "FindColumn_from eq i ((n, t) # columns) name = (if eq n name then Some i else FindColumn_from eq (Suc i) columns name)"

definition FindColumn :: "'r delete_env \<Rightarrow> (string \<times> LogicalTypeId) list \<Rightarrow> string \<Rightarrow> nat option" where
  "FindColumn E columns name = FindColumn_from (env_identifier_eq E) 0 columns name"

text \<open>The cell of a \<^verbatim>\<open>BIGINT\<close> column; every row has a cell for every column.\<close>

definition cell :: "scan_row \<Rightarrow> nat \<Rightarrow> 64 word option" where
  "cell row c = (if c < length row then row ! c else None)"

section \<open>Deletion vectors\<close>

text \<open>
  \<^verbatim>\<open>std::sort\<close> may permute blobs of the same snapshot; the order of those has no effect on the map, because
  \<^verbatim>\<open>emplace\<close> keeps the first snapshot and theirs are equal.
\<close>

definition emplace_position :: "idx \<Rightarrow> idx \<Rightarrow> (idx, idx) omap \<Rightarrow> (idx, idx) omap" where
  "emplace_position snapshot pos m = (if map_of m pos = None then omap_insert pos snapshot m else m)"

fun collect_blobs :: "'r roaring \<Rightarrow> byte list \<Rightarrow> idx option \<Rightarrow> DuckLakePuffinBlob list \<Rightarrow> (idx, idx) omap \<Rightarrow> (idx, idx) omap res" where
  "collect_blobs R data filter_max [] m = Inr m"
| "collect_blobs R data filter_max (blob # blobs) m =
     (let snapshot = the (pb_snapshot blob) in
      if (case filter_max of Some mx \<Rightarrow> mx < snapshot | None \<Rightarrow> False) then Inr m
      else bind_res (DecodeBlob R data blob) (\<lambda>d.
             collect_blobs R data filter_max blobs (fold (emplace_position snapshot) (ToSet R d []) m)))"

definition below_min :: "idx option \<Rightarrow> idx \<Rightarrow> bool" where
  "below_min filter_min snapshot = (case filter_min of Some mn \<Rightarrow> snapshot < mn | None \<Rightarrow> False)"

definition quoted_path :: "string \<Rightarrow> string" where
  "quoted_path path = [CHR 0x22] @ path @ [CHR 0x22]"

definition ScanDeletionVectorFile :: "'r delete_env \<Rightarrow> DuckLakeFileData \<Rightarrow> idx option \<Rightarrow> idx option \<Rightarrow> DeleteFileScanResult res" where
  "ScanDeletionVectorFile E delete_file filter_min filter_max =
     bind_res (env_read E (fd_path delete_file)) (\<lambda>data.
     bind_res (ParseFooter (env_yyjson E) data (fd_path delete_file)) (\<lambda>blobs.
       if blobs = [] then Inl (InvalidInputException (''Deletion vector file '' @ quoted_path (fd_path delete_file) @
                                '' does not contain any deletion vectors''))
       else let snapshot_blob_count = length (filter (\<lambda>b. pb_snapshot b \<noteq> None) blobs) in
         if snapshot_blob_count = 0
         then bind_res (fold_res (\<lambda>blob out. bind_res (DecodeBlob (env_roaring E) data blob) (\<lambda>d. Inr (ToSet (env_roaring E) d out))) blobs [])
                (\<lambda>deleted. Inr \<lparr>sr_deleted_rows = deleted, sr_snapshot_ids = [], sr_has_embedded_snapshots = False\<rparr>)
         else if snapshot_blob_count \<noteq> length blobs
         then Inl (InvalidInputException (''Deletion vector file '' @ quoted_path (fd_path delete_file) @
                     '' is corrupt - it mixes deletion vectors with and without a snapshot''))
         else bind_res (collect_blobs (env_roaring E) data filter_max (sort_key (\<lambda>b. the (pb_snapshot b)) blobs) [])
                (\<lambda>m. let kept = filter (\<lambda>(pos, snapshot). \<not> below_min filter_min snapshot) m in
                      Inr \<lparr>sr_deleted_rows = map fst kept, sr_snapshot_ids = map snd kept, sr_has_embedded_snapshots = True\<rparr>)))"

section \<open>Delete files\<close>

definition snapshot_filters :: "idx option \<Rightarrow> idx option \<Rightarrow> pushed_filter list res" where
  "snapshot_filters filter_min filter_max =
     bind_res (case filter_min of None \<Rightarrow> Inr []
                | Some mn \<Rightarrow> if 2 ^ 63 \<le> mn then Inl (InternalException ''Information loss on integer cast'')
                             else Inr [MakeComparisonFilter 2 COMPARE_GREATERTHANOREQUALTO mn]) (\<lambda>lo.
     bind_res (case filter_max of None \<Rightarrow> Inr []
                | Some mx \<Rightarrow> if 2 ^ 63 \<le> mx then Inl (InternalException ''Information loss on integer cast'')
                             else Inr [MakeComparisonFilter 2 COMPARE_LESSTHANOREQUALTO mx]) (\<lambda>hi.
     Inr (lo @ hi)))"

text \<open>One row of the delete file; the state is \<^verbatim>\<open>result.deleted_rows\<close>, \<^verbatim>\<open>result.snapshot_ids\<close> and \<^verbatim>\<open>last_delete\<close>.\<close>

definition scan_delete_row :: "bool \<Rightarrow> bool \<Rightarrow> scan_row \<Rightarrow> idx list \<times> idx list \<times> 64 word \<Rightarrow> (idx list \<times> idx list \<times> 64 word) res" where
  "scan_delete_row is_vortex has_snapshot_id row = (\<lambda>(rs, snaps, last_delete).
     case cell row 1 of
       None \<Rightarrow> Inl (InvalidInputException ''Invalid delete data - delete data cannot have NULL values'')
     | Some row_id \<Rightarrow>
         if \<not> is_vortex \<and> sint row_id \<le> sint last_delete
         then Inl (InvalidInputException (''Invalid delete data - row ids must be sorted and strictly increasing - but found '' @
                     signed_string row_id @ '' after '' @ signed_string last_delete))
         else if \<not> has_snapshot_id then Inr (rs @ [row_id], snaps, row_id)
         else (case cell row 2 of
                 None \<Rightarrow> Inl (InvalidInputException ''Invalid delete data - snapshot_id cannot be NULL'')
               | Some s \<Rightarrow> bind_res (NumericCast_idx s) (\<lambda>s. Inr (rs @ [row_id], snaps @ [s], row_id))))"

text \<open>The pass over the sorted order of a Vortex file. Equal rows are refused, so their order is irrelevant.\<close>

fun sorted_pass :: "idx list \<Rightarrow> idx list \<Rightarrow> bool \<Rightarrow> nat list \<Rightarrow> idx list \<times> idx list \<Rightarrow> (idx list \<times> idx list) res" where
  "sorted_pass rs snaps has_snapshot_id [] acc = Inr acc"
| "sorted_pass rs snaps has_snapshot_id (i # order) (sorted_rows, sorted_snapshots) =
     (if sorted_rows \<noteq> [] \<and> last sorted_rows = rs ! i
      then Inl (InvalidInputException (''Invalid delete data - duplicate row id '' @ signed_string (rs ! i)))
      else sorted_pass rs snaps has_snapshot_id order
             (sorted_rows @ [rs ! i], if has_snapshot_id then sorted_snapshots @ [snaps ! i] else sorted_snapshots))"

definition ScanDeleteFile :: "'r delete_env \<Rightarrow> DuckLakeFileData \<Rightarrow> idx option \<Rightarrow> idx option \<Rightarrow> DeleteFileScanResult res" where
  "ScanDeleteFile E delete_file filter_min filter_max =
     (if fd_format delete_file = PUFFIN then ScanDeletionVectorFile E delete_file filter_min filter_max
      else let is_vortex = (fd_format delete_file = VORTEX);
               scan_function = (if is_vortex then ''vortex_multi_file_scan'' else ''parquet_scan'') in
        bind_res (env_bind E scan_function delete_file) (\<lambda>columns.
          let valid_two_col = (map snd columns = [VARCHAR, BIGINT]);
              valid_three_col = (length columns = 3 \<and> snd (columns ! 0) = VARCHAR \<and> snd (columns ! 1) = BIGINT) in
          if \<not> valid_two_col \<and> \<not> valid_three_col
          then Inl (InvalidInputException (''Invalid schema contained in the delete file '' @ fd_path delete_file @
                      '' - expected file_name/position/[snapshot_id or row]''))
          else let has_snapshot_id = (length columns = 3 \<and> snd (columns ! 2) = BIGINT \<and>
                                      env_identifier_eq E (fst (columns ! 2)) ''_ducklake_internal_snapshot_id'') in
            bind_res (if has_snapshot_id then snapshot_filters filter_min filter_max else Inr []) (\<lambda>filters.
            bind_res (fold_res (fold_res (scan_delete_row is_vortex has_snapshot_id)) (env_scan E scan_function delete_file filters) ([], [], - 1))
              (\<lambda>(rs, snaps, _).
                bind_res (if is_vortex \<and> 1 < length rs
                          then sorted_pass rs snaps has_snapshot_id (sort_key (\<lambda>i. rs ! i) [0..<length rs]) ([], [])
                          else Inr (rs, snaps)) (\<lambda>(rs, snaps).
                  Inr \<lparr>sr_deleted_rows = rs, sr_snapshot_ids = snaps, sr_has_embedded_snapshots = has_snapshot_id\<rparr>)))))"

section \<open>The filter\<close>

text \<open>
  \<^verbatim>\<open>std::lower_bound\<close> on a sorted vector: the position of the first element that is not below the
  value. The result is the number of selected rows and the selection vector, \<open>None\<close> when it was
  not initialised, which leaves every row selected.
\<close>

definition lower_bound :: "idx list \<Rightarrow> idx \<Rightarrow> nat" where
  "lower_bound xs v = length (takeWhile (\<lambda>x. x < v) xs)"

fun filter_loop :: "nat \<Rightarrow> DuckLakeDeleteData \<Rightarrow> idx option \<Rightarrow> 64 word \<Rightarrow> nat \<Rightarrow> nat \<Rightarrow> nat \<Rightarrow> idx list \<Rightarrow> idx list res" where
  "filter_loop V d check start i 0 delete_idx sel = Inr sel"
| "filter_loop V d check start i (Suc n) delete_idx sel =
     (let hit = (delete_idx < length (deleted_rows d) \<and> start + of_nat i = deleted_rows d ! delete_idx);
          delete_idx' = (if hit then Suc delete_idx else delete_idx) in
      bind_res (if \<not> hit then Inr False
                else case check of
                    None \<Rightarrow> Inr True
                  | Some filter_id \<Rightarrow> bind_res (vector_at (dd_snapshot_ids d) delete_idx) (\<lambda>s. Inr (s \<le> filter_id)))
        (\<lambda>is_deleted.
          if is_deleted then filter_loop V d check start (Suc i) n delete_idx' sel
          else if length sel < V then filter_loop V d check start (Suc i) n delete_idx' (sel @ [of_nat i])
          else Inl (OutOfBoundsAccess ''selection vector'')))"

definition DeleteData_Filter :: "nat \<Rightarrow> DuckLakeDeleteData \<Rightarrow> 64 word \<Rightarrow> idx \<Rightarrow> idx option \<Rightarrow> (idx \<times> idx list option) res" where
  "DeleteData_Filter V d start_row_index cnt filter_id =
     (let delete_idx = lower_bound (deleted_rows d) start_row_index in
      if delete_idx = length (deleted_rows d) then Inr (cnt, None)
      else let end_pos = start_row_index + cnt in
        if end_pos < deleted_rows d ! delete_idx then Inr (cnt, None)
        else let check = (if dd_snapshot_ids d = [] then None else filter_id) in
          bind_res (filter_loop V d check start_row_index 0 (unat cnt) delete_idx [])
            (\<lambda>sel. Inr (of_nat (length sel), Some sel)))"

definition HasEmbeddedSnapshots :: "DuckLakeDeleteData \<Rightarrow> bool" where
  "HasEmbeddedSnapshots d \<longleftrightarrow> dd_snapshot_ids d \<noteq> []"

definition GetSnapshotForRow :: "DuckLakeDeleteData \<Rightarrow> idx \<Rightarrow> idx option" where
  "GetSnapshotForRow d row_id = map_of (scan_snapshot_map d) row_id"

definition DeleteFilter_Filter :: "'r delete_env \<Rightarrow> DuckLakeDeleteFilter \<Rightarrow> 64 word \<Rightarrow> idx \<Rightarrow> (idx \<times> idx list option) res" where
  "DeleteFilter_Filter E f start_row_index cnt =
     (case df_max_row_count f of
        None \<Rightarrow> DeleteData_Filter (env_vector_size E) (delete_data f) start_row_index cnt (df_snapshot_filter f)
      | Some max_count \<Rightarrow>
          bind_res (NumericCast_idx start_row_index) (\<lambda>start.
            if max_count \<le> start then Inr (0, None)
            else DeleteData_Filter (env_vector_size E) (delete_data f) start_row_index
                   (min (max_count - start_row_index) cnt) (df_snapshot_filter f)))"

definition SetMaxRowCount :: "idx \<Rightarrow> DuckLakeDeleteFilter \<Rightarrow> DuckLakeDeleteFilter" where
  "SetMaxRowCount n f = f\<lparr>df_max_row_count := Some n\<rparr>"

definition SetSnapshotFilter :: "idx \<Rightarrow> DuckLakeDeleteFilter \<Rightarrow> DuckLakeDeleteFilter" where
  "SetSnapshotFilter s f = f\<lparr>df_snapshot_filter := Some s\<rparr>"

section \<open>Setting a filter up\<close>

definition Initialize_file :: "'r delete_env \<Rightarrow> DuckLakeFileData \<Rightarrow> DuckLakeDeleteFilter \<Rightarrow> DuckLakeDeleteFilter res" where
  "Initialize_file E delete_file f =
     bind_res (ScanDeleteFile E delete_file None None) (\<lambda>r.
       Inr (f\<lparr>delete_data := (delete_data f)\<lparr>deleted_rows := sr_deleted_rows r, dd_snapshot_ids := sr_snapshot_ids r\<rparr>\<rparr>))"

text \<open>
  \<^verbatim>\<open>std::inplace_merge\<close> of two sorted ranges; the middle is an \<^verbatim>\<open>int\<close>, so beyond \<^verbatim>\<open>2^31 - 1\<close>
  elements the iterator leaves the vector.
\<close>

fun merge_rows :: "idx list \<Rightarrow> idx list \<Rightarrow> idx list" where
  "merge_rows [] ys = ys"
| "merge_rows xs [] = xs"
| "merge_rows (x # xs) (y # ys) = (if y < x then y # merge_rows (x # xs) ys else x # merge_rows xs (y # ys))"

text \<open>The merge with snapshots; an inlined delete gets snapshot 0, so that every snapshot filter applies it.\<close>

fun merge_deletes :: "idx list \<Rightarrow> idx list \<Rightarrow> idx list \<Rightarrow> (idx \<times> idx) list res" where
  "merge_deletes [] snaps rhs = Inr (map (\<lambda>r. (r, 0)) rhs)"
| "merge_deletes (x # xs) snaps (y # ys) =
     (if x < y
      then (case snaps of
              [] \<Rightarrow> Inl (OutOfBoundsAccess ''snapshot_ids'')
            | s # snaps' \<Rightarrow> bind_res (merge_deletes xs snaps' (y # ys)) (\<lambda>m. Inr ((x, s) # m)))
      else bind_res (merge_deletes (x # xs) snaps ys) (\<lambda>m. Inr ((y, 0) # m)))"
| "merge_deletes (x # xs) snaps [] =
     (case snaps of
        [] \<Rightarrow> Inl (OutOfBoundsAccess ''snapshot_ids'')
      | s # snaps' \<Rightarrow> bind_res (merge_deletes xs snaps' []) (\<lambda>m. Inr ((x, s) # m)))"

definition Initialize_inlined :: "DuckLakeInlinedDataDeletes \<Rightarrow> DuckLakeDeleteFilter \<Rightarrow> DuckLakeDeleteFilter res" where
  "Initialize_inlined inlined_deletes f =
     (let d = delete_data f; rhs = sorted_list_of_fset (rows inlined_deletes) in
      if dd_snapshot_ids d = []
      then if 2 ^ 31 \<le> length (deleted_rows d) then Inl (OutOfBoundsAccess ''int mid_idx'')
           else Inr (f\<lparr>delete_data := d\<lparr>deleted_rows := merge_rows (deleted_rows d) rhs\<rparr>\<rparr>)
      else bind_res (merge_deletes (deleted_rows d) (dd_snapshot_ids d) rhs) (\<lambda>m.
             Inr (f\<lparr>delete_data := d\<lparr>deleted_rows := map fst m, dd_snapshot_ids := map snd m\<rparr>\<rparr>)))"

section \<open>Deletion scans\<close>

definition row_id_step :: "nat \<Rightarrow> idx set \<Rightarrow> scan_row \<Rightarrow> idx \<times> (idx \<times> idx) list \<Rightarrow> (idx \<times> (idx \<times> idx) list) res" where
  "row_id_step column file_positions row = (\<lambda>(current, result).
     if current \<in> file_positions
     then (case cell row column of
             None \<Rightarrow> Inr (current + 1, result)
           | Some v \<Rightarrow> bind_res (NumericCast_idx v) (\<lambda>v. Inr (current + 1, AList.update current v result)))
     else Inr (current + 1, result))"

definition ScanDataFileRowIds :: "'r delete_env \<Rightarrow> DuckLakeFileData \<Rightarrow> idx set \<Rightarrow> (idx \<times> idx) list res" where
  "ScanDataFileRowIds E data_file file_positions =
     (if file_positions = {} then Inr []
      else let scan_function = (if StringUtil_CIEquals (env_strings E) (fd_file_format data_file) ''vortex''
                                then ''vortex_multi_file_scan'' else ''parquet_scan'') in
        bind_res (env_bind E scan_function data_file) (\<lambda>columns.
          case FindColumn E columns ''_ducklake_internal_row_id'' of
            None \<Rightarrow> Inr []
          | Some column \<Rightarrow>
              bind_res (fold_res (fold_res (row_id_step column file_positions)) (env_scan E scan_function data_file []) (0, []))
                (\<lambda>(_, result). Inr result)))"

definition PopulateSnapshotMapFromPositions ::
  "'r delete_env \<Rightarrow> DuckLakeFileData \<Rightarrow> (idx \<times> idx) list \<Rightarrow> DuckLakeDeleteData \<Rightarrow> DuckLakeDeleteData res" where
  "PopulateSnapshotMapFromPositions E data_file position_to_snapshot d =
     (if position_to_snapshot = [] then Inr d
      else bind_res (ScanDataFileRowIds E data_file (fst ` set position_to_snapshot)) (\<lambda>file_pos_to_row_id.
        if file_pos_to_row_id \<noteq> []
        then Inr (d\<lparr>uses_row_id := True,
               scan_snapshot_map := fold (\<lambda>(pos, snapshot) m. case map_of file_pos_to_row_id pos of
                   Some row_id \<Rightarrow> AList.update row_id snapshot m | None \<Rightarrow> m)
                 (env_hash_order E position_to_snapshot) (scan_snapshot_map d)\<rparr>)
        else Inr (d\<lparr>uses_row_id := False,
               scan_snapshot_map := fold (\<lambda>(pos, snapshot). AList.update pos snapshot)
                 (env_hash_order E position_to_snapshot) (scan_snapshot_map d)\<rparr>)))"

definition out_of_range :: "DuckLakeFileData \<Rightarrow> DuckLakeFileData \<Rightarrow> error" where
  "out_of_range delete_file data_file =
     InvalidInputException (''Invalid delete data - delete index read from file '' @ fd_path delete_file @
       '' is out of range for data file '' @ fd_path data_file)"

text \<open>The loop over \<^verbatim>\<open>current_deletes\<close>; the state is \<^verbatim>\<open>rows_to_scan\<close> and \<^verbatim>\<open>all_position_to_snapshot\<close>.\<close>

definition mark_current :: "DuckLakeDeleteScanEntry \<Rightarrow> idx \<times> idx option \<Rightarrow> bool list \<times> (idx \<times> idx) list \<Rightarrow> (bool list \<times> (idx \<times> idx) list) res" where
  "mark_current scan = (\<lambda>(delete_idx, snapshot) (rows_to_scan, m).
     if ds_row_count scan \<le> delete_idx then Inl (out_of_range (ds_delete_file scan) (ds_file scan))
     else Inr (rows_to_scan[unat delete_idx := True],
               case snapshot of Some s \<Rightarrow> AList.update delete_idx s m | None \<Rightarrow> m))"

definition with_snapshots :: "DeleteFileScanResult \<Rightarrow> (idx \<times> idx option) list" where
  "with_snapshots r = map (\<lambda>i. (sr_deleted_rows r ! i, if i < length (sr_snapshot_ids r) then Some (sr_snapshot_ids r ! i) else None))
     [0..<length (sr_deleted_rows r)]"

definition primary_deletes :: "'r delete_env \<Rightarrow> DuckLakeDeleteScanEntry \<Rightarrow> (bool list \<times> (idx \<times> idx) list \<times> bool) res" where
  "primary_deletes E scan =
     (let n = unat (ds_row_count scan) in
      if fd_path (ds_delete_file scan) \<noteq> []
      then bind_res (ScanDeleteFile E (ds_delete_file scan) (ds_start_snapshot scan) (ds_end_snapshot scan)) (\<lambda>current_deletes.
             bind_res (fold_res (mark_current scan) (with_snapshots current_deletes) (replicate n False, []))
               (\<lambda>(rows_to_scan, m). Inr (rows_to_scan, m, sr_has_embedded_snapshots current_deletes)))
      else case (ds_snapshot_id scan, ds_inlined_file_deletions scan) of
          (Some s, []) \<Rightarrow> Inr (replicate n True, map (\<lambda>i. (of_nat i, s)) [0..<n], False)
        | _ \<Rightarrow> Inr (replicate n False, [], False))"

text \<open>The inlined deletes are not compared with \<^verbatim>\<open>row_count\<close>.\<close>

definition mark_inlined :: "idx \<times> idx \<Rightarrow> bool list \<times> (idx \<times> idx) list \<Rightarrow> (bool list \<times> (idx \<times> idx) list) res" where
  "mark_inlined = (\<lambda>(pos, snapshot) (rows_to_scan, m).
     if unat pos < length rows_to_scan then Inr (rows_to_scan[unat pos := True], AList.update pos snapshot m)
     else Inl (OutOfBoundsAccess ''rows_to_scan''))"

definition unmark_previous :: "DuckLakeDeleteScanEntry \<Rightarrow> idx \<Rightarrow> bool list \<Rightarrow> bool list res" where
  "unmark_previous scan delete_idx rows_to_scan =
     (if ds_row_count scan \<le> delete_idx then Inl (out_of_range (ds_previous_delete_file scan) (ds_file scan))
      else Inr (rows_to_scan[unat delete_idx := False]))"

definition Initialize_scan :: "'r delete_env \<Rightarrow> DuckLakeDeleteScanEntry \<Rightarrow> DuckLakeDeleteFilter \<Rightarrow> DuckLakeDeleteFilter res" where
  "Initialize_scan E scan f =
     bind_res (primary_deletes E scan) (\<lambda>(rows_to_scan, m, has_embedded_snapshots).
     bind_res (fold_res mark_inlined (env_hash_order E (ds_inlined_file_deletions scan)) (rows_to_scan, m)) (\<lambda>(rows_to_scan, m).
     bind_res (PopulateSnapshotMapFromPositions E (ds_file scan) m (delete_data f)) (\<lambda>d.
     bind_res (if fd_path (ds_previous_delete_file scan) \<noteq> [] \<and> \<not> has_embedded_snapshots
               then bind_res (ScanDeleteFile E (ds_previous_delete_file scan) None None) (\<lambda>previous.
                      fold_res (unmark_previous scan) (sr_deleted_rows previous) rows_to_scan)
               else Inr rows_to_scan) (\<lambda>rows_to_scan.
       Inr (f\<lparr>delete_data := d\<lparr>deleted_rows := deleted_rows d @
              map of_nat (filter (\<lambda>i. \<not> rows_to_scan ! i) [0..<unat (ds_row_count scan)])\<rparr>\<rparr>)))))"

section \<open>The filter of a regular scan\<close>

text \<open>
  The part of \<^verbatim>\<open>InitializeReader\<close> that builds the filter of a file. \<open>inlined_deletes\<close> is what
  \<^verbatim>\<open>GetInlinedDeletes\<close> returned for the file, \<open>has_local_delete\<close> the answer of \<^verbatim>\<open>HasLocalDeleteForFile\<close>; the
  second result is the delete data registered in the delete map, when there is one.
\<close>

datatype DuckLakeDataType = DATA_FILE | INLINED_DATA | TRANSACTION_LOCAL_INLINED_DATA

record DuckLakeFileListEntry =
  fl_delete_file :: DuckLakeFileData
  fl_max_row_count :: "idx option"
  fl_data_type :: DuckLakeDataType
  fl_inlined_file_deletions :: "idx fset"

definition regular_scan_filter :: "'r delete_env \<Rightarrow> DuckLakeFileListEntry \<Rightarrow> DuckLakeInlinedDataDeletes option \<Rightarrow> bool \<Rightarrow> bool \<Rightarrow> idx \<Rightarrow>
    (DuckLakeDeleteFilter option \<times> DuckLakeDeleteData option) res" where
  "regular_scan_filter E entry inlined_deletes has_delete_map has_local_delete snapshot =
     (if fl_data_type entry \<noteq> DATA_FILE
      then (case inlined_deletes of
              None \<Rightarrow> Inr (None, None)
            | Some i \<Rightarrow> bind_res (Initialize_inlined i empty_delete_filter) (\<lambda>f. Inr (Some f, None)))
      else if fd_path (fl_delete_file entry) \<noteq> [] \<or> fl_max_row_count entry \<noteq> None \<or> fl_inlined_file_deletions entry \<noteq> {||}
      then bind_res (if fd_path (fl_delete_file entry) \<noteq> [] then Initialize_file E (fl_delete_file entry) empty_delete_filter
                     else Inr empty_delete_filter) (\<lambda>f.
           let registered = (if has_delete_map \<and> fd_path (fl_delete_file entry) \<noteq> [] then Some (delete_data f) else None) in
           bind_res (if fl_inlined_file_deletions entry \<noteq> {||}
                     then Initialize_inlined \<lparr>rows = fl_inlined_file_deletions entry\<rparr> f else Inr f) (\<lambda>f.
           let f = (case fl_max_row_count entry of Some n \<Rightarrow> SetMaxRowCount n f | None \<Rightarrow> f);
               f = (if has_local_delete then f else SetSnapshotFilter snapshot f)
           in Inr (Some f, registered)))
      else Inr (None, None))"

text \<open>The key under which \<^verbatim>\<open>GatherDeletionScanSnapshots\<close> looks a row up.\<close>

definition lookup_key :: "DuckLakeDeleteData \<Rightarrow> idx option \<Rightarrow> 64 word \<Rightarrow> idx res" where
  "lookup_key d start_id row_id =
     (if uses_row_id d then Inr row_id
      else case start_id of
          Some s \<Rightarrow> bind_res (NumericCast_idx row_id) (\<lambda>r. Inr (r - s))
        | None \<Rightarrow> NumericCast_idx row_id)"

definition GatherDeletionScanSnapshots :: "DuckLakeDeleteData \<Rightarrow> idx option \<Rightarrow> 64 word list \<Rightarrow> idx list \<Rightarrow> idx list res" where
  "GatherDeletionScanSnapshots d start_id row_ids snapshot_data =
     (if scan_snapshot_map d = [] then Inr snapshot_data
      else map_res (\<lambda>(row_id, old). bind_res (lookup_key d start_id row_id) (\<lambda>key.
             Inr (case GetSnapshotForRow d key of Some s \<Rightarrow> s | None \<Rightarrow> old))) (zip row_ids snapshot_data))"

section \<open>The filter hides exactly the deleted rows\<close>

definition delete_data_ok :: "DuckLakeDeleteData \<Rightarrow> bool" where
  "delete_data_ok d \<longleftrightarrow> sorted_wrt (<) (deleted_rows d) \<and>
     (dd_snapshot_ids d = [] \<or> length (dd_snapshot_ids d) = length (deleted_rows d))"

definition row_hidden :: "DuckLakeDeleteData \<Rightarrow> idx option \<Rightarrow> idx \<Rightarrow> bool" where
  "row_hidden d filter_id r \<longleftrightarrow> (\<exists>k < length (deleted_rows d). deleted_rows d ! k = r \<and>
     (case filter_id of None \<Rightarrow> True | Some s \<Rightarrow> dd_snapshot_ids d = [] \<or> dd_snapshot_ids d ! k \<le> s))"

definition selected :: "idx \<times> idx list option \<Rightarrow> idx list" where
  "selected = (\<lambda>(n, sel). case sel of None \<Rightarrow> map of_nat [0..<unat n] | Some xs \<Rightarrow> take (unat n) xs)"

lemma unat_add_index: "unat start + i < 2 ^ 64 \<Longrightarrow> unat (start + of_nat i) = unat start + i" for start :: "64 word"
  by (simp add: unat_word_ariths unat_of_nat)

lemma row_hidden_at:
  assumes "delete_data_ok d" and "k < length (deleted_rows d)" and "deleted_rows d ! k = r"
  shows "row_hidden d filter_id r \<longleftrightarrow>
    (case filter_id of None \<Rightarrow> True | Some s \<Rightarrow> dd_snapshot_ids d = [] \<or> dd_snapshot_ids d ! k \<le> s)"
proof -
  have "distinct (deleted_rows d)" using assms(1) by (auto simp: delete_data_ok_def strict_sorted_iff)
  then have "deleted_rows d ! j = r \<longleftrightarrow> j = k" if "j < length (deleted_rows d)" for j
    using assms(2,3) that by (auto simp: nth_eq_iff_index_eq)
  then show ?thesis using assms(2) by (auto simp: row_hidden_def)
qed

lemma filter_loop_exact:
  assumes "delete_data_ok d" and "unat start + i + n < 2 ^ 64" and "length sel + n \<le> V"
    and "\<And>k. k < delete_idx \<Longrightarrow> k < length (deleted_rows d) \<Longrightarrow> unat (deleted_rows d ! k) < unat start + i"
    and "\<And>k. delete_idx \<le> k \<Longrightarrow> k < length (deleted_rows d) \<Longrightarrow> unat start + i \<le> unat (deleted_rows d ! k)"
  shows "filter_loop V d (if dd_snapshot_ids d = [] then None else filter_id) start i n delete_idx sel =
    Inr (sel @ map of_nat (filter (\<lambda>j. \<not> row_hidden d filter_id (start + of_nat j)) [i..<i + n]))"
  using assms(2-)
proof (induction n arbitrary: i delete_idx sel)
  case (Suc n)
  let ?rs = "deleted_rows d" and ?row = "start + of_nat i" and ?check = "if dd_snapshot_ids d = [] then None else filter_id"
  have row: "unat ?row = unat start + i" using Suc.prems(1) by (intro unat_add_index) simp
  have upt: "[i..<i + Suc n] = i # [Suc i..<Suc i + n]" by (simp add: upt_rec)
  show ?case
  proof (cases "delete_idx < length ?rs \<and> ?row = ?rs ! delete_idx")
    case True
    have step: "filter_loop V d ?check start (Suc i) n (Suc delete_idx) sel' =
      Inr (sel' @ map of_nat (filter (\<lambda>j. \<not> row_hidden d filter_id (start + of_nat j)) [Suc i..<Suc i + n]))"
      if "length sel' + n \<le> V" for sel'
    proof (rule Suc.IH)
      fix k assume "Suc delete_idx \<le> k" and "k < length ?rs"
      then have "?rs ! delete_idx < ?rs ! k"
        using assms(1) by (auto simp: delete_data_ok_def sorted_wrt_nth_less)
      then show "unat start + Suc i \<le> unat (?rs ! k)" using True row by (simp add: word_less_nat_alt)
    qed (use Suc.prems that True row in \<open>auto simp: less_Suc_eq\<close>)
    have "delete_idx < length (dd_snapshot_ids d)" if "dd_snapshot_ids d \<noteq> []"
      using that True assms(1) by (auto simp: delete_data_ok_def)
    then show ?thesis
      using True step [of sel] step [of "sel @ [of_nat i]"] Suc.prems(2) row_hidden_at [OF assms(1), of delete_idx ?row filter_id]
      unfolding upt by (auto simp: Let_def vector_at_def split: option.splits)
  next
    case False
    have "?rs ! k \<noteq> ?row" if k: "k < length ?rs" for k
    proof (cases "k < delete_idx")
      case True
      then show ?thesis using Suc.prems(3) [OF _ k] row by auto
    next
      case no: False
      then have "?rs ! delete_idx \<le> ?rs ! k"
        using assms(1) k by (cases "k = delete_idx") (auto simp: delete_data_ok_def sorted_wrt_nth_less less_imp_le)
      moreover have "?row < ?rs ! delete_idx"
        using False Suc.prems(4) [of delete_idx] no k row by (auto simp: word_less_nat_alt word_unat_eq_iff le_less)
      ultimately show ?thesis by auto
    qed
    then have visible: "\<not> row_hidden d filter_id ?row" and other: "\<And>k. k < length ?rs \<Longrightarrow> unat (?rs ! k) \<noteq> unat start + i"
      using row by (auto simp: row_hidden_def word_unat_eq_iff)
    have "filter_loop V d ?check start (Suc i) n delete_idx (sel @ [of_nat i]) =
      Inr ((sel @ [of_nat i]) @ map of_nat (filter (\<lambda>j. \<not> row_hidden d filter_id (start + of_nat j)) [Suc i..<Suc i + n]))"
    proof (rule Suc.IH)
      fix k assume "delete_idx \<le> k" and "k < length ?rs"
      then show "unat start + Suc i \<le> unat (?rs ! k)"
        using Suc.prems(4) [of k] other [of k] by linarith
    next
      fix k assume "k < delete_idx" and "k < length ?rs"
      then show "unat (?rs ! k) < unat start + Suc i" using Suc.prems(3) [of k] by linarith
    qed (use Suc.prems(1,2) in simp_all)
    then show ?thesis using False visible Suc.prems(2) unfolding upt by (auto simp: Let_def)
  qed
qed simp

lemma lower_bound_below: "k < lower_bound xs v \<Longrightarrow> xs ! k < v"
  unfolding lower_bound_def by (metis nth_mem set_takeWhileD takeWhile_nth)

lemma lower_bound_above:
  assumes "sorted xs" and "lower_bound xs v \<le> k" and "k < length xs"
  shows "v \<le> xs ! k"
proof -
  have "\<not> xs ! lower_bound xs v < v"
    using assms(2,3) nth_length_takeWhile [of "\<lambda>x. x < v" xs] by (auto simp: lower_bound_def)
  moreover have "xs ! lower_bound xs v \<le> xs ! k" using assms by (simp add: sorted_nth_mono)
  ultimately show ?thesis by simp
qed

lemma filter_none_hidden:
  assumes "\<And>j. j < n \<Longrightarrow> \<not> P j"
  shows "filter (\<lambda>j. \<not> P j) [0..<n] = [0..<n]"
  using assms by (auto intro: filter_True)

lemma DeleteData_Filter_exact:
  assumes ok: "delete_data_ok d" and wrap: "unat start + unat cnt < 2 ^ 64" and V: "unat cnt \<le> V"
  shows "\<exists>r. DeleteData_Filter V d start cnt filter_id = Inr r \<and>
    selected r = map of_nat (filter (\<lambda>j. \<not> row_hidden d filter_id (start + of_nat j)) [0..<unat cnt])"
proof -
  let ?rs = "deleted_rows d" and ?k = "lower_bound (deleted_rows d) start"
  have sorted: "sorted ?rs" using ok by (auto simp: delete_data_ok_def strict_sorted_iff)
  have below: "unat (?rs ! k) < unat start" if "k < ?k" for k
    using lower_bound_below [OF that] by (simp add: word_less_nat_alt)
  have above: "unat start \<le> unat (?rs ! k)" if "?k \<le> k" "k < length ?rs" for k
    using lower_bound_above [OF sorted that] by (simp add: word_le_nat_alt)
  have row: "unat (start + of_nat j) = unat start + j" if "j \<le> unat cnt" for j
    using wrap that by (intro unat_add_index) simp
  consider "?k = length ?rs" | "?k < length ?rs" "start + cnt < ?rs ! ?k" | "?k < length ?rs" "\<not> start + cnt < ?rs ! ?k"
    using length_takeWhile_le [of "\<lambda>x. x < start" ?rs] unfolding lower_bound_def by linarith
  then show ?thesis
  proof cases
    case 1
    have "\<not> row_hidden d filter_id (start + of_nat j)" if "j < unat cnt" for j
      using below row [of j] that by (force simp: row_hidden_def 1)
    then show ?thesis using 1 by (simp add: DeleteData_Filter_def selected_def filter_none_hidden)
  next
    case 2
    have "\<not> row_hidden d filter_id (start + of_nat j)" if j: "j < unat cnt" for j
    proof
      assume "row_hidden d filter_id (start + of_nat j)"
      then obtain k where k: "k < length ?rs" "?rs ! k = start + of_nat j" by (auto simp: row_hidden_def)
      with below [of k] row [of j] j have "?k \<le> k" by (cases "k < ?k") auto
      then have "?rs ! ?k \<le> ?rs ! k" using sorted k(1) by (simp add: sorted_nth_mono)
      then show False
        using 2(2) k(2) row [of j] row [of "unat cnt"] j by (simp add: word_less_nat_alt word_le_nat_alt)
    qed
    then show ?thesis using 2 by (simp add: DeleteData_Filter_def selected_def filter_none_hidden)
  next
    case 3
    have "filter_loop V d (if dd_snapshot_ids d = [] then None else filter_id) start 0 (unat cnt) ?k [] =
      Inr ([] @ map of_nat (filter (\<lambda>j. \<not> row_hidden d filter_id (start + of_nat j)) [0..<0 + unat cnt]))"
      using wrap V below above by (intro filter_loop_exact [OF ok]) auto
    moreover have "length (filter P [0..<unat cnt]) < 2 ^ 64" for P
      using length_filter_le [of P "[0..<unat cnt]"] wrap by (simp del: length_filter_le)
    ultimately show ?thesis
      using 3 by (simp add: DeleteData_Filter_def selected_def unat_of_nat)
  qed
qed

text \<open>The rows of a vector a filter lets through: those below the row limit that are not hidden.\<close>

definition visible_rows :: "DuckLakeDeleteFilter \<Rightarrow> 64 word \<Rightarrow> idx \<Rightarrow> idx list" where
  "visible_rows f start cnt =
     map of_nat (filter (\<lambda>j. (case df_max_row_count f of Some m \<Rightarrow> unat start + j < unat m | None \<Rightarrow> True) \<and>
                        \<not> row_hidden (delete_data f) (df_snapshot_filter f) (start + of_nat j)) [0..<unat cnt])"

lemma filter_below: "filter (\<lambda>j. a + j < m \<and> P j) [0..<n] = filter P [0..<min (m - a) n]" for a m n :: nat
proof -
  have "[0..<n] = [0..<min (m - a) n] @ [min (m - a) n..<n]"
    using upt_add_eq_append [of 0 "min (m - a) n" "n - min (m - a) n"] by simp
  moreover have "filter (\<lambda>j. a + j < m \<and> P j) [min (m - a) n..<n] = []" by (auto simp: filter_empty_conv)
  moreover have "filter (\<lambda>j. a + j < m \<and> P j) [0..<min (m - a) n] = filter P [0..<min (m - a) n]"
    by (rule filter_cong) auto
  ultimately show ?thesis by (metis append_Nil2 filter_append)
qed

lemma DeleteFilter_exact:
  assumes "delete_data_ok (delete_data f)" and "unat start + unat cnt < 2 ^ 63" and "unat cnt \<le> env_vector_size E"
  shows "\<exists>r. DeleteFilter_Filter E f start cnt = Inr r \<and> selected r = visible_rows f start cnt"
proof (cases "df_max_row_count f")
  case None
  then show ?thesis
    using DeleteData_Filter_exact [OF assms(1) _ assms(3), of start "df_snapshot_filter f"] assms(2)
    by (simp add: DeleteFilter_Filter_def visible_rows_def)
next
  case (Some m)
  have "unat start < 2 ^ 63" using assms(2) by simp
  then have cast: "NumericCast_idx start = Inr start"
    using sint_nonneg_iff [of start] by (simp add: NumericCast_idx_def)
  show ?thesis
  proof (cases "m \<le> start")
    case True
    then have "visible_rows f start cnt = []"
      by (simp add: visible_rows_def Some word_le_nat_alt filter_empty_conv)
    with True Some cast show ?thesis by (simp add: DeleteFilter_Filter_def selected_def)
  next
    case False
    let ?n = "min (m - start) cnt"
    have n: "unat ?n = min (unat m - unat start) (unat cnt)"
      using False by (simp add: min_def word_le_nat_alt unat_sub_if')
    have "visible_rows f start cnt =
      map of_nat (filter (\<lambda>j. \<not> row_hidden (delete_data f) (df_snapshot_filter f) (start + of_nat j)) [0..<unat ?n])"
      unfolding visible_rows_def n by (simp add: Some filter_below)
    then show ?thesis
      using DeleteData_Filter_exact [OF assms(1), of start ?n "env_vector_size E" "df_snapshot_filter f"] assms(2,3) False Some cast n
      by (simp add: DeleteFilter_Filter_def)
  qed
qed

section \<open>Adding inlined deletes\<close>

lemma set_merge_rows: "set (merge_rows xs ys) = set xs \<union> set ys"
  by (induction xs ys rule: merge_rows.induct) auto

lemma merge_rows_sorted:
  "sorted_wrt (<) xs \<Longrightarrow> sorted_wrt (<) ys \<Longrightarrow> set xs \<inter> set ys = {} \<Longrightarrow> sorted_wrt (<) (merge_rows xs ys)"
proof (induction xs ys rule: merge_rows.induct)
  case (3 x xs y ys)
  then show ?case by (force simp: set_merge_rows not_less le_less)
qed auto

lemma merge_deletes_ok:
  assumes "length snaps = length xs" and "sorted_wrt (<) xs" and "sorted_wrt (<) ys" and "set xs \<inter> set ys = {}"
  shows "\<exists>m. merge_deletes xs snaps ys = Inr m \<and> set m = set (zip xs snaps) \<union> (\<lambda>r. (r, 0)) ` set ys \<and> sorted_wrt (<) (map fst m)"
  using assms
proof (induction xs snaps ys rule: merge_deletes.induct)
  case (1 snaps rhs)
  then show ?case by (simp add: comp_def)
next
  case (2 x xs snaps y ys)
  obtain s snaps' where s: "snaps = s # snaps'" using 2(3) by (cases snaps) auto
  show ?case
  proof (cases "x < y")
    case True
    then obtain m where m: "merge_deletes xs snaps' (y # ys) = Inr m"
      "set m = set (zip xs snaps') \<union> (\<lambda>r. (r, 0)) ` set (y # ys)" "sorted_wrt (<) (map fst m)"
      using 2(1) [of s snaps'] 2(3-) s by auto
    have "x < r" if "r \<in> fst ` set m" for r
      using that True 2(4,5) unfolding m(2) by (auto dest: set_zip_leftD)
    with True m s show ?thesis by auto
  next
    case False
    then have "y < x" using 2(6) by auto
    obtain m where m: "merge_deletes (x # xs) snaps ys = Inr m"
      "set m = set (zip (x # xs) snaps) \<union> (\<lambda>r. (r, 0)) ` set ys" "sorted_wrt (<) (map fst m)"
      using 2(2) [OF False] 2(3-) by auto
    have "y < r" if "r \<in> fst ` set m" for r
      using that \<open>y < x\<close> 2(4,5) unfolding m(2) by (force dest: set_zip_leftD)
    with False m show ?thesis by auto
  qed
next
  case (3 x xs snaps)
  obtain s snaps' where s: "snaps = s # snaps'" using 3(2) by (cases snaps) auto
  obtain m where m: "merge_deletes xs snaps' [] = Inr m" "set m = set (zip xs snaps')" "sorted_wrt (<) (map fst m)"
    using 3(1) [of s snaps'] 3(2-) s by auto
  have "x < r" if "r \<in> fst ` set m" for r
    using that 3(3) unfolding m(2) by (auto dest: set_zip_leftD)
  with m s show ?case by auto
qed

lemma row_hidden_zip:
  assumes "dd_snapshot_ids d \<noteq> []" and "length (dd_snapshot_ids d) = length (deleted_rows d)"
  shows "row_hidden d filter_id r \<longleftrightarrow> (\<exists>s. (r, s) \<in> set (zip (deleted_rows d) (dd_snapshot_ids d)) \<and>
    (case filter_id of None \<Rightarrow> True | Some f \<Rightarrow> s \<le> f))"
  using assms by (fastforce simp: row_hidden_def set_zip split: option.splits)

lemma row_hidden_plain: "dd_snapshot_ids d = [] \<Longrightarrow> row_hidden d filter_id r \<longleftrightarrow> r \<in> set (deleted_rows d)"
  by (auto simp: row_hidden_def in_set_conv_nth split: option.splits)

lemma Initialize_inlined_exact:
  assumes ok: "delete_data_ok (delete_data f)" and disj: "fset (rows inlined) \<inter> set (deleted_rows (delete_data f)) = {}"
    and small: "length (deleted_rows (delete_data f)) < 2 ^ 31"
  shows "\<exists>f'. Initialize_inlined inlined f = Inr f' \<and> delete_data_ok (delete_data f') \<and>
    df_max_row_count f' = df_max_row_count f \<and> df_snapshot_filter f' = df_snapshot_filter f \<and>
    (\<forall>s r. row_hidden (delete_data f') s r \<longleftrightarrow> row_hidden (delete_data f) s r \<or> r |\<in>| rows inlined)"
proof -
  let ?d = "delete_data f" and ?ys = "sorted_list_of_fset (rows inlined)"
  have ys: "sorted_wrt (<) ?ys" "set ?ys = fset (rows inlined)"
    by (simp_all add: sorted_list_of_fset.rep_eq)
  show ?thesis
  proof (cases "dd_snapshot_ids ?d = []")
    case True
    let ?f = "f\<lparr>delete_data := ?d\<lparr>deleted_rows := merge_rows (deleted_rows ?d) ?ys\<rparr>\<rparr>"
    have "sorted_wrt (<) (merge_rows (deleted_rows ?d) ?ys)"
      using ok ys disj by (intro merge_rows_sorted) (auto simp: delete_data_ok_def)
    moreover have "Initialize_inlined inlined f = Inr ?f" using True small by (simp add: Initialize_inlined_def Let_def)
    ultimately show ?thesis
      using True ys by (intro exI [of _ ?f]) (auto simp: delete_data_ok_def row_hidden_plain set_merge_rows)
  next
    case False
    then have len: "length (dd_snapshot_ids ?d) = length (deleted_rows ?d)" using ok by (auto simp: delete_data_ok_def)
    obtain m where m: "merge_deletes (deleted_rows ?d) (dd_snapshot_ids ?d) ?ys = Inr m"
      "set m = set (zip (deleted_rows ?d) (dd_snapshot_ids ?d)) \<union> (\<lambda>r. (r, 0)) ` set ?ys" "sorted_wrt (<) (map fst m)"
      using merge_deletes_ok [OF len _ ys(1)] ok disj ys(2) by (auto simp: delete_data_ok_def)
    let ?f = "f\<lparr>delete_data := ?d\<lparr>deleted_rows := map fst m, dd_snapshot_ids := map snd m\<rparr>\<rparr>"
    have "Initialize_inlined inlined f = Inr ?f" using False m(1) by (simp add: Initialize_inlined_def Let_def)
    moreover have "m \<noteq> []" using m(2) False len by (cases "deleted_rows ?d"; cases "dd_snapshot_ids ?d") auto
    then have "row_hidden (delete_data ?f) s r \<longleftrightarrow> row_hidden ?d s r \<or> r |\<in>| rows inlined" for s r
      using False len m(2) ys(2) by (auto simp: row_hidden_zip zip_map_fst_snd split: option.splits)
    ultimately show ?thesis using m(3) by (intro exI [of _ ?f]) (auto simp: delete_data_ok_def)
  qed
qed

section \<open>What a scan of a delete file returns\<close>

lemma ToSet_sorted: "sorted out \<Longrightarrow> distinct out \<Longrightarrow> sorted (ToSet R bms out) \<and> distinct (ToSet R bms out)"
proof -
  have one: "sorted out \<and> distinct out \<Longrightarrow> sorted (fold (\<lambda>v. set_insert (g v)) vs out) \<and> distinct (fold (\<lambda>v. set_insert (g v)) vs out)"
    for g :: "32 word \<Rightarrow> 64 word" and vs out
    by (induction vs arbitrary: out) (auto simp: set_insert_def sorted_insort distinct_insort)
  show "sorted out \<Longrightarrow> distinct out \<Longrightarrow> ?thesis"
    unfolding ToSet_def using one by (induction bms arbitrary: out) (force split: prod.splits)+
qed

lemma set_ToSet: "set (ToSet R bms out) = set (ToSet R bms []) \<union> set out"
proof -
  have one: "set (fold (\<lambda>v. set_insert (g v)) vs out) = g ` set vs \<union> set out" for g :: "32 word \<Rightarrow> 64 word" and vs out
    by (induction vs arbitrary: out) (auto simp: set_insert_def set_insort_key)
  have "set (ToSet R bms out) = (\<Union>(k, r) \<in> set bms. full_value k ` set (Roaring_values R r)) \<union> set out" for out
    unfolding ToSet_def by (induction bms arbitrary: out) (auto simp: one split: prod.splits)
  then show ?thesis by simp
qed

lemma emplace_position_map_of:
  "map_of (emplace_position s p m) x = (case map_of m x of Some t \<Rightarrow> Some t | None \<Rightarrow> if x = p then Some s else None)"
  by (auto simp: emplace_position_def split: option.splits)

lemma emplace_positions:
  "map_of (fold (emplace_position s) ps m) x = (case map_of m x of Some t \<Rightarrow> Some t | None \<Rightarrow> if x \<in> set ps then Some s else None)"
  by (induction ps arbitrary: m) (auto simp: emplace_position_map_of split: option.splits)

lemma emplace_positions_ok: "omap_ok m \<Longrightarrow> omap_ok (fold (emplace_position s) ps m)"
  by (induction ps arbitrary: m) (auto simp: emplace_position_def)

lemma collect_blobs_ok: "collect_blobs R data mx blobs m = Inr m' \<Longrightarrow> omap_ok m \<Longrightarrow> omap_ok m'"
  by (induction blobs arbitrary: m) (auto simp: Let_def emplace_positions_ok bind_res_Inr_iff split: if_splits)

definition scan_result_ok :: "DeleteFileScanResult \<Rightarrow> bool" where
  "scan_result_ok r \<longleftrightarrow> sorted_wrt (<) (sr_deleted_rows r) \<and>
     (sr_snapshot_ids r = [] \<or> length (sr_snapshot_ids r) = length (sr_deleted_rows r))"

lemma sorted_wrt_map_filter: "sorted_wrt P (map g xs) \<Longrightarrow> sorted_wrt P (map g (filter Q xs))"
  by (induction xs) auto

lemma ScanDeletionVectorFile_ok:
  assumes "ScanDeletionVectorFile E file mn mx = Inr r"
  shows "scan_result_ok r"
proof -
  have plain: "sorted out' \<and> distinct out'"
    if "fold_res (\<lambda>blob out. bind_res (DecodeBlob R data blob) (\<lambda>d. Inr (ToSet R d out))) blobs out = Inr out'" "sorted out" "distinct out"
    for R :: "'a roaring" and data blobs out out'
    using that by (induction blobs arbitrary: out) (auto simp: bind_res_Inr_iff ToSet_sorted)
  have "omap_ok ([] :: (idx, idx) omap)" by (simp add: omap_ok_def)
  then show ?thesis
    using assms plain [where out = "[]"]
    by (auto simp: ScanDeletionVectorFile_def scan_result_ok_def Let_def bind_res_Inr_iff strict_sorted_iff [symmetric] omap_ok_def
        intro!: sorted_wrt_map_filter dest: collect_blobs_ok split: if_splits)
qed

text \<open>
  A Parquet delete file is accepted only when its row ids increase from 0 on, as signed numbers, so they also increase
  as unsigned ones; the rows of a Vortex file are sorted and then checked for duplicates.
\<close>

definition parquet_state_ok :: "bool \<Rightarrow> idx list \<times> idx list \<times> 64 word \<Rightarrow> bool" where
  "parquet_state_ok has_snapshot_id = (\<lambda>(rs, snaps, last_delete).
     sorted_wrt (<) rs \<and> length snaps = (if has_snapshot_id then length rs else 0) \<and>
     - 1 \<le> sint last_delete \<and> (\<forall>r \<in> set rs. 0 \<le> sint r \<and> sint r \<le> sint last_delete))"

lemma unsigned_less_of_signed: "0 \<le> sint a \<Longrightarrow> sint a < sint b \<Longrightarrow> a < b" for a b :: "64 word"
  using sint_of_nonneg [of a] sint_of_nonneg [of b] by (simp add: word_less_def)

lemma scan_delete_row_ok:
  assumes "scan_delete_row False h row st = Inr st'" and "parquet_state_ok h st"
  shows "parquet_state_ok h st'"
proof -
  obtain rs snaps last_delete where st: "st = (rs, snaps, last_delete)" by (cases st)
  obtain b snaps' where new: "st' = (rs @ [b], snaps', b)" "\<not> sint b \<le> sint last_delete" "length snaps' = (if h then Suc (length snaps) else length snaps)"
    using assms(1) by (auto simp: scan_delete_row_def st bind_res_Inr_iff split: if_splits option.splits)
  have "r < b \<and> sint r \<le> sint b" if "r \<in> set rs" for r
    using that assms(2) new(2) by (force simp: parquet_state_ok_def st intro: unsigned_less_of_signed)
  then show ?thesis using assms(2) new by (auto simp: parquet_state_ok_def st sorted_wrt_append)
qed

lemma sorted_le_last: "sorted xs \<Longrightarrow> x \<in> set xs \<Longrightarrow> x \<le> last xs" for xs :: "'a::linorder list"
  by (induction xs) auto

lemma sorted_pass_ok:
  assumes "sorted_pass rs snaps h order acc = Inr acc'"
    and "sorted (fst acc @ map ((!) rs) order)" and "distinct (fst acc)" and "length (snd acc) = (if h then length (fst acc) else 0)"
  shows "sorted_wrt (<) (fst acc') \<and> length (snd acc') = (if h then length (fst acc') else 0)"
  using assms
proof (induction rs snaps h order acc rule: sorted_pass.induct)
  case (1 rs snaps h acc)
  then show ?case by (auto simp: strict_sorted_iff)
next
  case (2 rs snaps h i order sorted_rows sorted_snapshots)
  have new: "\<not> (sorted_rows \<noteq> [] \<and> last sorted_rows = rs ! i)" using 2(2) by auto
  have "rs ! i \<notin> set sorted_rows"
  proof
    assume mem: "rs ! i \<in> set sorted_rows"
    then have ne: "sorted_rows \<noteq> []" by auto
    then have "rs ! i \<le> last sorted_rows"
      using mem 2(3) by (simp add: sorted_append sorted_le_last)
    moreover have "last sorted_rows \<le> rs ! i" using 2(3) ne by (auto simp: sorted_append)
    ultimately show False using new ne by auto
  qed
  then show ?case using 2(1) [OF new] 2(2-) new by auto
qed

lemma nested_loop_invariant:
  assumes "fold_res (fold_res f) xss s = Inr t" and "P s" and "\<And>x s t. P s \<Longrightarrow> f x s = Inr t \<Longrightarrow> P t"
  shows "P t"
proof (rule fold_res_invariant [where P = P, OF assms(1) assms(2)])
  fix xs s t assume "P s" and "fold_res f xs s = Inr t"
  then show "P t" using fold_res_invariant [where P = P and f = f] assms(3) by metis
qed

definition lengths_agree :: "bool \<Rightarrow> idx list \<times> idx list \<times> 64 word \<Rightarrow> bool" where
  "lengths_agree has_snapshot_id = (\<lambda>(rs, snaps, _). length snaps = (if has_snapshot_id then length rs else 0))"

lemma scan_delete_row_lengths: "lengths_agree h st \<Longrightarrow> scan_delete_row v h row st = Inr st' \<Longrightarrow> lengths_agree h st'"
  by (auto simp: lengths_agree_def scan_delete_row_def bind_res_Inr_iff split: if_splits option.splits prod.splits)

lemma ScanDeleteFile_ok:
  assumes "ScanDeleteFile E file mn mx = Inr r"
  shows "scan_result_ok r"
proof (cases "fd_format file = PUFFIN")
  case True
  with assms show ?thesis by (auto simp: ScanDeleteFile_def dest: ScanDeletionVectorFile_ok)
next
  case False
  let ?v = "fd_format file = VORTEX"
  obtain h chunks rs snaps l where scan: "fold_res (fold_res (scan_delete_row ?v h)) chunks ([], [], - 1) = Inr (rs, snaps, l)"
    and post: "(if ?v \<and> 1 < length rs then sorted_pass rs snaps h (sort_key (\<lambda>i. rs ! i) [0..<length rs]) ([], []) else Inr (rs, snaps)) =
      Inr (sr_deleted_rows r, sr_snapshot_ids r)"
    using assms False by (auto simp: ScanDeleteFile_def Let_def bind_res_Inr_iff split: if_splits prod.splits)
  have len: "length snaps = (if h then length rs else 0)"
    using nested_loop_invariant [OF scan, where P = "lengths_agree h"] scan_delete_row_lengths by (auto simp: lengths_agree_def)
  show ?thesis
  proof (cases "?v \<and> 1 < length rs")
    case True
    then have "sorted_wrt (<) (sr_deleted_rows r) \<and> length (sr_snapshot_ids r) = (if h then length (sr_deleted_rows r) else 0)"
      using post sorted_pass_ok [of rs snaps h "sort_key (\<lambda>i. rs ! i) [0..<length rs]" "([], [])" "(sr_deleted_rows r, sr_snapshot_ids r)"]
      by auto
    then show ?thesis by (auto simp: scan_result_ok_def split: if_splits)
  next
    case no: False
    have "sorted_wrt (<) rs"
    proof (cases ?v)
      case True
      with no show ?thesis by (cases rs) auto
    next
      case pq: False
      have "parquet_state_ok h ([], [], - 1)" by (simp add: parquet_state_ok_def)
      then have "parquet_state_ok h (rs, snaps, l)"
        using nested_loop_invariant [where P = "parquet_state_ok h", OF scan] pq scan_delete_row_ok by simp
      then show ?thesis by (simp add: parquet_state_ok_def)
    qed
    then show ?thesis using post no len by (auto simp: scan_result_ok_def split: if_splits)
  qed
qed

section \<open>Deletes in a Puffin file\<close>

text \<open>\<open>P b\<close> are the positions a blob decodes to.\<close>

lemma collect_blobs_map:
  assumes "\<forall>b \<in> set blobs. \<exists>d. DecodeBlob R data b = Inr d \<and> set (ToSet R d []) = P b"
  shows "\<exists>m'. collect_blobs R data None blobs m = Inr m' \<and>
    (\<forall>x. map_of m' x = (case map_of m x of Some s \<Rightarrow> Some s
                          | None \<Rightarrow> map_option (\<lambda>b. the (pb_snapshot b)) (find (\<lambda>b. x \<in> P b) blobs)))"
  using assms
proof (induction blobs arbitrary: m)
  case (Cons b blobs)
  then obtain d where d: "DecodeBlob R data b = Inr d" "set (ToSet R d []) = P b" by auto
  let ?m = "fold (emplace_position (the (pb_snapshot b))) (ToSet R d []) m"
  obtain m' where "collect_blobs R data None blobs ?m = Inr m'"
    "\<forall>x. map_of m' x = (case map_of ?m x of Some s \<Rightarrow> Some s | None \<Rightarrow> map_option (\<lambda>b. the (pb_snapshot b)) (find (\<lambda>b. x \<in> P b) blobs))"
    using Cons.IH [of ?m] Cons.prems by auto
  with d show ?case by (auto simp: emplace_positions split: option.splits)
qed (auto split: option.splits)

lemma find_sorted_key:
  fixes k :: "'a \<Rightarrow> 'b::linorder"
  assumes "sorted (map k bs)"
  shows "(\<exists>b. find Q bs = Some b \<and> k b \<le> s) \<longleftrightarrow> (\<exists>b \<in> set bs. Q b \<and> k b \<le> s)"
  using assms by (induction bs) (auto intro: order_trans)

lemma list_all2_bex:
  assumes "list_all2 Q xs ys" and "\<And>x y. Q x y \<Longrightarrow> A x \<longleftrightarrow> B y"
  shows "(\<exists>x \<in> set xs. A x) \<longleftrightarrow> (\<exists>y \<in> set ys. B y)"
  using assms by (induction rule: list_all2_induct) auto

definition blob_positions :: "'r roaring \<Rightarrow> byte list \<Rightarrow> DuckLakePuffinBlob \<Rightarrow> idx set" where
  "blob_positions R data b = (case DecodeBlob R data b of Inr d \<Rightarrow> set (ToSet R d []) | Inl _ \<Rightarrow> {})"

lemma decodes_to_positions: "decodes_to R data b info \<Longrightarrow> blob_positions R data info = set (bi_positions b)"
  by (auto simp: decodes_to_def blob_positions_def)

lemma decoded_blobs:
  assumes "list_all2 (decodes_to R data) blobs infos"
  shows "\<forall>b \<in> set (sort_key k infos). \<exists>d. DecodeBlob R data b = Inr d \<and> set (ToSet R d []) = blob_positions R data b"
  using assms by (auto simp: list_all2_conv_all_nth in_set_conv_nth decodes_to_def blob_positions_def) (metis sum.simps(6))

lemma plain_blobs:
  assumes "list_all2 (decodes_to R data) blobs infos"
  shows "\<exists>out'. fold_res (\<lambda>blob out. bind_res (DecodeBlob R data blob) (\<lambda>d. Inr (ToSet R d out))) infos out = Inr out' \<and>
    set out' = set out \<union> (\<Union>b \<in> set blobs. set (bi_positions b))"
  using assms
proof (induction arbitrary: out rule: list_all2_induct)
  case (Cons b blobs info infos)
  obtain d where d: "DecodeBlob R data info = Inr d" "ToSet R d [] = bi_positions b"
    using Cons(1) by (auto simp: decodes_to_def)
  show ?case using Cons(3) [of "ToSet R d out"] d set_ToSet [of R d out] by auto
qed simp

text \<open>
  A delete file that was written with \<open>puffin_contents\<close>. The writer is given either plain vectors or
  vectors that all carry a snapshot; a single vector is written without its snapshot.
\<close>

definition written_deletes :: "'r delete_env \<Rightarrow> ('r bitmaps \<Rightarrow> 'r bitmaps) \<Rightarrow> string \<Rightarrow> BlobInput list \<Rightarrow> DuckLakeFileData \<Rightarrow> bool" where
  "written_deletes E iterate dfp blobs file \<longleftrightarrow>
     blobs \<noteq> [] \<and> (\<forall>b \<in> set blobs. writable (env_roaring E) iterate b) \<and>
     ((\<forall>b \<in> set blobs. bi_snapshot b = None) \<or> (\<forall>b \<in> set blobs. bi_snapshot b \<noteq> None)) \<and>
     (\<exists>data result. puffin_contents (env_yyjson E) (env_roaring E) iterate dfp blobs = Inr (data, result) \<and>
        length data < 2 ^ 63 \<and> (length blobs = 1 \<longrightarrow> take 4 data \<noteq> PUFFIN_MAGIC) \<and>
        env_read E (fd_path file) = Inr data) \<and>
     fd_format file = PUFFIN"

definition deleted_by :: "BlobInput list \<Rightarrow> idx option \<Rightarrow> idx \<Rightarrow> bool" where
  "deleted_by blobs filter_id r \<longleftrightarrow> (\<exists>b \<in> set blobs. r \<in> set (bi_positions b) \<and>
     (length blobs = 1 \<or> (case (filter_id, bi_snapshot b) of (Some s, Some t) \<Rightarrow> t \<le> s | _ \<Rightarrow> True)))"

lemma snapshot_deletes_hidden:
  assumes "list_all2 (decodes_to R data) blobs infos" and "map pb_snapshot infos = map bi_snapshot blobs"
    and "collect_blobs R data None (sort_key (\<lambda>b. the (pb_snapshot b)) infos) [] = Inr m"
    and "\<forall>b \<in> set blobs. bi_snapshot b \<noteq> None" and "blobs \<noteq> []"
  shows "(\<exists>t. map_of m r = Some t \<and> (case filter_id of None \<Rightarrow> True | Some s \<Rightarrow> t \<le> s)) \<longleftrightarrow>
    (\<exists>b \<in> set blobs. r \<in> set (bi_positions b) \<and> (case filter_id of None \<Rightarrow> True | Some s \<Rightarrow> the (bi_snapshot b) \<le> s))"
proof -
  let ?k = "\<lambda>b. the (pb_snapshot b)" and ?P = "blob_positions R data" and ?c = "\<lambda>t. case filter_id of None \<Rightarrow> True | Some s \<Rightarrow> t \<le> s"
  have "\<forall>b \<in> set (sort_key ?k infos). \<exists>d. DecodeBlob R data b = Inr d \<and> set (ToSet R d []) = ?P b"
    by (rule decoded_blobs [OF assms(1)])
  from collect_blobs_map [OF this, of "[]"] assms(3)
  have "map_of m r = map_option ?k (find (\<lambda>b. r \<in> ?P b) (sort_key ?k infos))" by auto
  then have "(\<exists>t. map_of m r = Some t \<and> ?c t) \<longleftrightarrow> (\<exists>b. find (\<lambda>b. r \<in> ?P b) (sort_key ?k infos) = Some b \<and> ?c (?k b))" by auto
  also have "\<dots> \<longleftrightarrow> (\<exists>b \<in> set infos. r \<in> ?P b \<and> ?c (?k b))"
    using find_sorted_key [of ?k "sort_key ?k infos" "\<lambda>b. r \<in> ?P b"]
    by (cases filter_id) (auto simp: find_None_iff find_Some_iff2 intro: ccontr dest: sym)
  also have "\<dots> \<longleftrightarrow> (\<exists>b \<in> set blobs. r \<in> set (bi_positions b) \<and> ?c (the (bi_snapshot b)))"
  proof -
    have "list_all2 (\<lambda>b i. decodes_to R data b i \<and> pb_snapshot i = bi_snapshot b) blobs infos"
      using assms(1,2) by (auto simp: list_all2_conv_all_nth list_eq_iff_nth_eq)
    then show ?thesis by (rule list_all2_bex [symmetric]) (auto simp: decodes_to_positions split: option.splits)
  qed
  finally show ?thesis .
qed

lemma puffin_deletes_hidden:
  assumes libs: "roaring_library (env_roaring E)" "yyjson_library (env_yyjson E)" and "written_deletes E iterate dfp blobs file"
  shows "\<exists>r. ScanDeleteFile E file None None = Inr r \<and> scan_result_ok r \<and>
    set (sr_deleted_rows r) = (\<Union>b \<in> set blobs. set (bi_positions b)) \<and>
    (\<forall>d filter_id x. deleted_rows d = sr_deleted_rows r \<and> dd_snapshot_ids d = sr_snapshot_ids r \<longrightarrow>
       (row_hidden d filter_id x \<longleftrightarrow> deleted_by blobs filter_id x))"
proof -
  let ?R = "env_roaring E" and ?Y = "env_yyjson E"
  obtain data infos where read: "env_read E (fd_path file) = Inr data" and footer: "ParseFooter ?Y data (fd_path file) = Inr infos"
    and snaps: "map pb_snapshot infos = (if length blobs = 1 then [None] else map bi_snapshot blobs)"
    and dec: "list_all2 (decodes_to ?R data) blobs infos" and fmt: "fd_format file = PUFFIN"
    using assms(3) written_file_reads_back [OF libs] unfolding written_deletes_def by metis
  have ne: "infos \<noteq> []" "length infos = length blobs" using dec assms(3) by (auto simp: written_deletes_def dest: list_all2_lengthD)
  have elems: "pb_snapshot ` set infos = (if length blobs = 1 then {None} else bi_snapshot ` set blobs)"
    using arg_cong [OF snaps, of set] by simp
  consider "\<forall>i \<in> set infos. pb_snapshot i = None" "length blobs = 1 \<or> (\<forall>b \<in> set blobs. bi_snapshot b = None)"
    | "\<forall>i \<in> set infos. pb_snapshot i \<noteq> None" "length blobs \<noteq> 1" "\<forall>b \<in> set blobs. bi_snapshot b \<noteq> None" "map pb_snapshot infos = map bi_snapshot blobs"
  proof (cases "length blobs = 1 \<or> (\<forall>b \<in> set blobs. bi_snapshot b = None)")
    case True
    then have "pb_snapshot ` set infos \<subseteq> {None}" using elems by auto
    then show ?thesis using True that(1) by auto
  next
    case False
    then have "\<forall>b \<in> set blobs. bi_snapshot b \<noteq> None" using assms(3) unfolding written_deletes_def by blast
    moreover from this have "None \<notin> pb_snapshot ` set infos" using elems False by auto
    then have "\<forall>i \<in> set infos. pb_snapshot i \<noteq> None" by force
    ultimately show ?thesis using False snaps that(2) by auto
  qed
  then show ?thesis
  proof cases
    case 1
    obtain out where out: "fold_res (\<lambda>blob out. bind_res (DecodeBlob ?R data blob) (\<lambda>d. Inr (ToSet ?R d out))) infos [] = Inr out"
      "set out = (\<Union>b \<in> set blobs. set (bi_positions b))"
      using plain_blobs [OF dec, of "[]"] by auto
    have "filter (\<lambda>b. pb_snapshot b \<noteq> None) infos = []" using 1(1) by simp
    then have res: "ScanDeleteFile E file None None = Inr \<lparr>sr_deleted_rows = out, sr_snapshot_ids = [], sr_has_embedded_snapshots = False\<rparr>"
      using fmt read footer ne(1) out(1) by (simp add: ScanDeleteFile_def ScanDeletionVectorFile_def Let_def)
    have "deleted_by blobs filter_id x \<longleftrightarrow> x \<in> set out" for filter_id x
      using 1(2) unfolding deleted_by_def out(2) by (elim disjE; cases filter_id) auto
    then show ?thesis using res ScanDeleteFile_ok [OF res] out(2) by (auto simp: row_hidden_plain)
  next
    case 2
    have all: "filter (\<lambda>b. pb_snapshot b \<noteq> None) infos = infos" using 2(1) by simp
    have "\<forall>b \<in> set (sort_key (\<lambda>b. the (pb_snapshot b)) infos). \<exists>d. DecodeBlob ?R data b = Inr d \<and> set (ToSet ?R d []) = blob_positions ?R data b"
      by (rule decoded_blobs [OF dec])
    then obtain m where m: "collect_blobs ?R data None (sort_key (\<lambda>b. the (pb_snapshot b)) infos) [] = Inr m"
      using collect_blobs_map by blast
    let ?r = "\<lparr>sr_deleted_rows = map fst m, sr_snapshot_ids = map snd m, sr_has_embedded_snapshots = True\<rparr>"
    have res: "ScanDeleteFile E file None None = Inr ?r"
      using fmt read footer ne(1) m all by (simp add: ScanDeleteFile_def ScanDeletionVectorFile_def Let_def below_min_def)
    have "distinct (map fst m)"
      using ScanDeleteFile_ok [OF res] by (simp add: scan_result_ok_def strict_sorted_iff)
    then have mem: "(x, t) \<in> set m \<longleftrightarrow> map_of m x = Some t" for x t by (simp add: eq_commute)
    note hid = snapshot_deletes_hidden [OF dec 2(4) m 2(3)]
    have ne': "blobs \<noteq> []" using assms(3) by (simp add: written_deletes_def)
    have del: "deleted_by blobs filter_id x \<longleftrightarrow> (\<exists>t. map_of m x = Some t \<and> (case filter_id of None \<Rightarrow> True | Some s \<Rightarrow> t \<le> s))"
      for filter_id x
      unfolding hid [OF ne'] deleted_by_def using 2(2,3) by (cases filter_id) (auto intro!: bex_cong split: option.splits)
    have "x \<in> set (map fst m) \<longleftrightarrow> x \<in> (\<Union>b \<in> set blobs. set (bi_positions b))" for x
      using hid [OF ne', of x None] by (simp add: map_of_eq_None_iff [symmetric] flip: dom_map_of_conv_image_fst) (simp add: domIff)
    then have "set (map fst m) = (\<Union>b \<in> set blobs. set (bi_positions b))" by blast
    moreover have "row_hidden d filter_id x \<longleftrightarrow> deleted_by blobs filter_id x"
      if "deleted_rows d = map fst m" "dd_snapshot_ids d = map snd m" for d filter_id x
    proof (cases "m = []")
      case True
      then show ?thesis using that by (simp add: row_hidden_def del)
    next
      case False
      then have "row_hidden d filter_id x \<longleftrightarrow> (\<exists>t. map_of m x = Some t \<and> (case filter_id of None \<Rightarrow> True | Some s \<Rightarrow> t \<le> s))"
        using that by (subst row_hidden_zip) (auto simp: zip_map_fst_snd mem)
      then show ?thesis by (simp add: del)
    qed
    ultimately show ?thesis using res ScanDeleteFile_ok [OF res] by auto
  qed
qed

section \<open>The filter of a regular scan\<close>

text \<open>Everything that hides a row from a read at snapshot \<open>S\<close>.\<close>

definition hidden_at :: "DuckLakeFileListEntry \<Rightarrow> BlobInput list \<Rightarrow> idx \<Rightarrow> idx \<Rightarrow> bool" where
  "hidden_at entry blobs S r \<longleftrightarrow> deleted_by blobs (Some S) r \<or> r |\<in>| fl_inlined_file_deletions entry \<or>
     (case fl_max_row_count entry of Some m \<Rightarrow> m \<le> r | None \<Rightarrow> False)"

text \<open>What the operations rely on: the libraries keep their contracts, and a hash container iterates over its elements.\<close>

locale delete_environment =
  fixes E :: "'r delete_env"
  assumes roaring: "roaring_library (env_roaring E)"
    and yyjson: "yyjson_library (env_yyjson E)"
    and hash_order: "set (env_hash_order E xs) = set xs"
begin

lemma regular_scan_hides:
  assumes wr: "written_deletes E iterate dfp blobs (fl_delete_file entry)"
    and entry: "fl_data_type entry = DATA_FILE" "fd_path (fl_delete_file entry) \<noteq> []"
    and disj: "fset (fl_inlined_file_deletions entry) \<inter> (\<Union>b \<in> set blobs. set (bi_positions b)) = {}"
    and small: "card (\<Union>b \<in> set blobs. set (bi_positions b)) < 2 ^ 31"
  shows "\<exists>f reg. regular_scan_filter E entry inl dm False S = Inr (Some f, reg) \<and> delete_data_ok (delete_data f) \<and>
    df_max_row_count f = fl_max_row_count entry \<and>
    (\<forall>r. row_hidden (delete_data f) (df_snapshot_filter f) r \<longleftrightarrow> deleted_by blobs (Some S) r \<or> r |\<in>| fl_inlined_file_deletions entry)"
proof -
  obtain r where r: "ScanDeleteFile E (fl_delete_file entry) None None = Inr r" "scan_result_ok r"
    "set (sr_deleted_rows r) = (\<Union>b \<in> set blobs. set (bi_positions b))"
    "\<And>d filter_id x. deleted_rows d = sr_deleted_rows r \<Longrightarrow> dd_snapshot_ids d = sr_snapshot_ids r \<Longrightarrow>
       row_hidden d filter_id x \<longleftrightarrow> deleted_by blobs filter_id x"
    using puffin_deletes_hidden [OF roaring yyjson wr] by auto
  let ?f0 = "empty_delete_filter\<lparr>delete_data := (delete_data empty_delete_filter)\<lparr>deleted_rows := sr_deleted_rows r, dd_snapshot_ids := sr_snapshot_ids r\<rparr>\<rparr>"
  have init: "Initialize_file E (fl_delete_file entry) empty_delete_filter = Inr ?f0" by (simp add: Initialize_file_def r(1))
  have ok: "delete_data_ok (delete_data ?f0)" using r(2) by (simp add: delete_data_ok_def scan_result_ok_def)
  have len: "length (deleted_rows (delete_data ?f0)) < 2 ^ 31"
    using small r(2,3) by (simp add: scan_result_ok_def strict_sorted_iff flip: distinct_card)
  let ?inl = "fl_inlined_file_deletions entry"
  obtain f where f: "(if ?inl \<noteq> {||} then Initialize_inlined \<lparr>rows = ?inl\<rparr> ?f0 else Inr ?f0) = Inr f" "delete_data_ok (delete_data f)"
    "df_max_row_count f = None" "\<And>s x. row_hidden (delete_data f) s x \<longleftrightarrow> deleted_by blobs s x \<or> x |\<in>| ?inl"
  proof (cases "?inl = {||}")
    case True
    show ?thesis by (rule that [of ?f0]) (use True ok r(4) in \<open>simp_all add: empty_delete_filter_def\<close>)
  next
    case False
    obtain f' where "Initialize_inlined \<lparr>rows = ?inl\<rparr> ?f0 = Inr f'" "delete_data_ok (delete_data f')"
      "df_max_row_count f' = df_max_row_count ?f0" "\<forall>s x. row_hidden (delete_data f') s x \<longleftrightarrow> row_hidden (delete_data ?f0) s x \<or> x |\<in>| ?inl"
      using Initialize_inlined_exact [OF ok _ len, of "\<lparr>rows = ?inl\<rparr>"] disj r(3) by auto
    with False r(4) show ?thesis by (intro that [of f']) (simp_all add: empty_delete_filter_def)
  qed
  let ?g = "SetSnapshotFilter S (case fl_max_row_count entry of Some n \<Rightarrow> SetMaxRowCount n f | None \<Rightarrow> f)"
  have "regular_scan_filter E entry inl dm False S = Inr (Some ?g, if dm then Some (delete_data ?f0) else None)"
    using entry init f(1) by (simp add: regular_scan_filter_def Let_def)
  moreover have "delete_data ?g = delete_data f" "df_max_row_count ?g = fl_max_row_count entry" "df_snapshot_filter ?g = Some S"
    using f(3) by (simp_all add: SetSnapshotFilter_def SetMaxRowCount_def split: option.splits)
  ultimately show ?thesis using f(2,4) by auto
qed

lemma regular_scan_exact:
  assumes "written_deletes E iterate dfp blobs (fl_delete_file entry)"
    and "fl_data_type entry = DATA_FILE" "fd_path (fl_delete_file entry) \<noteq> []"
    and "fset (fl_inlined_file_deletions entry) \<inter> (\<Union>b \<in> set blobs. set (bi_positions b)) = {}"
    and "card (\<Union>b \<in> set blobs. set (bi_positions b)) < 2 ^ 31"
    and "unat start + unat cnt < 2 ^ 63" and "unat cnt \<le> env_vector_size E"
  shows "\<exists>f reg res. regular_scan_filter E entry inl dm False S = Inr (Some f, reg) \<and> DeleteFilter_Filter E f start cnt = Inr res \<and>
    selected res = map of_nat (filter (\<lambda>j. \<not> hidden_at entry blobs S (start + of_nat j)) [0..<unat cnt])"
proof -
  obtain f reg where f: "regular_scan_filter E entry inl dm False S = Inr (Some f, reg)" "delete_data_ok (delete_data f)"
    "df_max_row_count f = fl_max_row_count entry"
    "\<forall>r. row_hidden (delete_data f) (df_snapshot_filter f) r \<longleftrightarrow> deleted_by blobs (Some S) r \<or> r |\<in>| fl_inlined_file_deletions entry"
    using regular_scan_hides [OF assms(1-5)] by blast
  obtain res where "DeleteFilter_Filter E f start cnt = Inr res" "selected res = visible_rows f start cnt"
    using DeleteFilter_exact [OF f(2) assms(6,7)] by blast
  moreover have "visible_rows f start cnt = map of_nat (filter (\<lambda>j. \<not> hidden_at entry blobs S (start + of_nat j)) [0..<unat cnt])"
  proof -
    have "unat (start + of_nat j) = unat start + j" if "j < unat cnt" for j
      using assms(6) that by (intro unat_add_index) simp
    then show ?thesis
      unfolding visible_rows_def hidden_at_def using f(3,4)
      by (intro arg_cong [of _ _ "map of_nat"] filter_cong refl) (auto simp: word_le_nat_alt not_le split: option.splits)
  qed
  ultimately show ?thesis using f(1) by metis
qed

end

section \<open>Deletion scans return exactly the deleted rows\<close>

definition deletes_of_file :: "'r delete_env \<Rightarrow> DuckLakeFileData \<Rightarrow> idx option \<Rightarrow> idx option \<Rightarrow> idx set" where
  "deletes_of_file E file mn mx = (case ScanDeleteFile E file mn mx of Inr r \<Rightarrow> set (sr_deleted_rows r) | Inl _ \<Rightarrow> {})"

text \<open>
  The rows a deletion scan has to return: deleted by the delete file within the snapshot range, by the removal of the
  whole file, or by an inlined delete, and not already by the previous delete file.
\<close>

definition embedded_snapshots :: "'r delete_env \<Rightarrow> DuckLakeDeleteScanEntry \<Rightarrow> bool" where
  "embedded_snapshots E scan \<longleftrightarrow> fd_path (ds_delete_file scan) \<noteq> [] \<and>
     (case ScanDeleteFile E (ds_delete_file scan) (ds_start_snapshot scan) (ds_end_snapshot scan) of
        Inr r \<Rightarrow> sr_has_embedded_snapshots r | Inl _ \<Rightarrow> False)"

definition deleted_in_range :: "'r delete_env \<Rightarrow> DuckLakeDeleteScanEntry \<Rightarrow> idx \<Rightarrow> bool" where
  "deleted_in_range E scan r \<longleftrightarrow>
     ((if fd_path (ds_delete_file scan) \<noteq> [] then r \<in> deletes_of_file E (ds_delete_file scan) (ds_start_snapshot scan) (ds_end_snapshot scan)
       else ds_snapshot_id scan \<noteq> None \<and> ds_inlined_file_deletions scan = []) \<or>
      r \<in> fst ` set (ds_inlined_file_deletions scan)) \<and>
     \<not> (fd_path (ds_previous_delete_file scan) \<noteq> [] \<and> \<not> embedded_snapshots E scan \<and>
        r \<in> deletes_of_file E (ds_previous_delete_file scan) None None)"

lemma mark_step:
  "p < ds_row_count scan \<Longrightarrow> mark_current scan (p, s) (bs, m) =
     Inr (bs[unat p := True], case s of Some s \<Rightarrow> AList.update p s m | None \<Rightarrow> m)"
  "unat p < length bs \<Longrightarrow> mark_inlined (p, t) (bs, m) = Inr (bs[unat p := True], AList.update p t m)"
  "p < ds_row_count scan \<Longrightarrow> unmark_previous scan p bs = Inr (bs[unat p := False])"
  by (simp_all add: mark_current_def mark_inlined_def unmark_previous_def not_le [symmetric])

lemma mark_current_fold:
  assumes "fold_res (mark_current scan) xs (bs, m) = Inr (bs', m')" and "length bs = unat (ds_row_count scan)"
  shows "length bs' = length bs \<and> (\<forall>r < ds_row_count scan. bs' ! unat r \<longleftrightarrow> bs ! unat r \<or> r \<in> fst ` set xs)"
  using assms
proof (induction xs arbitrary: bs m)
  case (Cons x xs)
  obtain p s where x: "x = (p, s)" by (cases x)
  from Cons.prems have p: "p < ds_row_count scan" by (auto simp: x mark_current_def split: if_splits)
  then have len: "unat p < length bs" using Cons.prems(2) by (simp add: word_less_nat_alt)
  have "fold_res (mark_current scan) xs (bs[unat p := True], case s of Some s \<Rightarrow> AList.update p s m | None \<Rightarrow> m) = Inr (bs', m')"
    using Cons.prems p by (simp add: x mark_step)
  from Cons.IH [OF this] show ?case
    using Cons.prems(2) len by (auto simp: x nth_list_update word_unat_eq_iff)
qed simp

lemma mark_inlined_fold:
  assumes "fold_res mark_inlined xs (bs, m) = Inr (bs', m')"
  shows "length bs' = length bs \<and> (\<forall>(p, s) \<in> set xs. unat p < length bs) \<and>
    (\<forall>r. unat r < length bs \<longrightarrow> (bs' ! unat r \<longleftrightarrow> bs ! unat r \<or> r \<in> fst ` set xs))"
  using assms
proof (induction xs arbitrary: bs m)
  case (Cons x xs)
  obtain p s where x: "x = (p, s)" by (cases x)
  from Cons.prems have p: "unat p < length bs" by (auto simp: x mark_inlined_def split: if_splits)
  have "fold_res mark_inlined xs (bs[unat p := True], AList.update p s m) = Inr (bs', m')"
    using Cons.prems p by (simp add: x mark_step)
  from Cons.IH [OF this] show ?case
    using p by (auto simp: x nth_list_update word_unat_eq_iff)
qed simp

lemma unmark_previous_fold:
  assumes "fold_res (unmark_previous scan) xs bs = Inr bs'" and "length bs = unat (ds_row_count scan)"
  shows "length bs' = length bs \<and> (\<forall>r < ds_row_count scan. bs' ! unat r \<longleftrightarrow> bs ! unat r \<and> r \<notin> set xs)"
  using assms
proof (induction xs arbitrary: bs)
  case (Cons p xs)
  from Cons.prems have p: "p < ds_row_count scan" by (auto simp: unmark_previous_def split: if_splits)
  then have len: "unat p < length bs" using Cons.prems(2) by (simp add: word_less_nat_alt)
  have "fold_res (unmark_previous scan) xs (bs[unat p := False]) = Inr bs'"
    using Cons.prems p by (simp add: mark_step)
  from Cons.IH [OF this] show ?case
    using Cons.prems(2) len by (auto simp: nth_list_update word_unat_eq_iff)
qed simp

lemma fst_with_snapshots: "fst ` set (with_snapshots r) = set (sr_deleted_rows r)"
  by (force simp: with_snapshots_def in_set_conv_nth image_iff)

lemma primary_deletes_exact:
  assumes "primary_deletes E scan = Inr (bs, m, emb)"
  shows "length bs = unat (ds_row_count scan) \<and> emb = embedded_snapshots E scan \<and>
    (\<forall>r < ds_row_count scan. bs ! unat r \<longleftrightarrow>
      (if fd_path (ds_delete_file scan) \<noteq> [] then r \<in> deletes_of_file E (ds_delete_file scan) (ds_start_snapshot scan) (ds_end_snapshot scan)
       else ds_snapshot_id scan \<noteq> None \<and> ds_inlined_file_deletions scan = []))"
proof (cases "fd_path (ds_delete_file scan) = []")
  case True
  with assms show ?thesis
    by (auto simp: primary_deletes_def embedded_snapshots_def Let_def word_less_nat_alt split: option.splits list.splits)
next
  case False
  then obtain c where c: "ScanDeleteFile E (ds_delete_file scan) (ds_start_snapshot scan) (ds_end_snapshot scan) = Inr c"
    and "fold_res (mark_current scan) (with_snapshots c) (replicate (unat (ds_row_count scan)) False, []) = Inr (bs, m)"
    and "emb = sr_has_embedded_snapshots c"
    using assms by (auto simp: primary_deletes_def Let_def bind_res_Inr_iff)
  then show ?thesis
    using False mark_current_fold [of scan "with_snapshots c" _ "[]" bs m]
    by (auto simp: deletes_of_file_def embedded_snapshots_def fst_with_snapshots word_less_nat_alt)
qed

context delete_environment
begin

lemma Initialize_scan_exact:
  assumes "Initialize_scan E scan empty_delete_filter = Inr f"
  shows "delete_data_ok (delete_data f) \<and> df_max_row_count f = None \<and> df_snapshot_filter f = None \<and>
    (\<forall>(p, s) \<in> set (ds_inlined_file_deletions scan). p < ds_row_count scan) \<and>
    (\<forall>r < ds_row_count scan. row_hidden (delete_data f) None r \<longleftrightarrow> \<not> deleted_in_range E scan r)"
proof -
  obtain bs m emb bs1 m1 d bs2 where prim: "primary_deletes E scan = Inr (bs, m, emb)"
    and inl: "fold_res mark_inlined (env_hash_order E (ds_inlined_file_deletions scan)) (bs, m) = Inr (bs1, m1)"
    and pop: "PopulateSnapshotMapFromPositions E (ds_file scan) m1 (delete_data empty_delete_filter) = Inr d"
    and prev: "(if fd_path (ds_previous_delete_file scan) \<noteq> [] \<and> \<not> emb
       then bind_res (ScanDeleteFile E (ds_previous_delete_file scan) None None) (\<lambda>previous.
              fold_res (unmark_previous scan) (sr_deleted_rows previous) bs1)
       else Inr bs1) = Inr bs2"
    and f: "f = empty_delete_filter\<lparr>delete_data := d\<lparr>deleted_rows := deleted_rows d @
              map of_nat (filter (\<lambda>i. \<not> bs2 ! i) [0..<unat (ds_row_count scan)])\<rparr>\<rparr>"
    using assms unfolding Initialize_scan_def by (auto simp: bind_res_Inr_iff split: prod.splits)
  have d: "deleted_rows d = []" "dd_snapshot_ids d = []"
    using pop by (auto simp: PopulateSnapshotMapFromPositions_def empty_delete_filter_def bind_res_Inr_iff split: if_splits)
  note p = primary_deletes_exact [OF prim] and i = mark_inlined_fold [OF inl, unfolded hash_order]
  have bs2: "length bs2 = unat (ds_row_count scan)" "bs2 ! unat r \<longleftrightarrow> deleted_in_range E scan r" if "r < ds_row_count scan" for r
  proof -
    have "length bs2 = length bs1 \<and> (bs2 ! unat r \<longleftrightarrow> bs1 ! unat r \<and> \<not> (fd_path (ds_previous_delete_file scan) \<noteq> [] \<and> \<not> emb \<and>
        r \<in> deletes_of_file E (ds_previous_delete_file scan) None None))"
      using prev unmark_previous_fold [of scan _ bs1 bs2] p i that
      by (auto simp: bind_res_Inr_iff deletes_of_file_def split: if_splits)
    then show "length bs2 = unat (ds_row_count scan)" "bs2 ! unat r \<longleftrightarrow> deleted_in_range E scan r"
      using p i that by (auto simp: deleted_in_range_def word_less_nat_alt)
  qed
  let ?n = "unat (ds_row_count scan)"
  let ?rows = "map of_nat (filter (\<lambda>i. \<not> bs2 ! i) [0..<?n]) :: idx list"
  have small: "unat (of_nat j :: idx) = j" if "j < ?n" for j
    using that unsigned_less [of "ds_row_count scan", where 'a = nat] by (simp add: unat_of_nat)
  have "sorted_wrt (<) ?rows"
    unfolding sorted_wrt_map
    by (rule sorted_wrt_mono_rel [of _ "(<)"]) (auto simp: small word_less_nat_alt sorted_wrt_filter)
  moreover have "r \<in> set ?rows \<longleftrightarrow> \<not> deleted_in_range E scan r" if "r < ds_row_count scan" for r
    using that bs2(2) [OF that] small by (auto simp: word_less_nat_alt image_iff intro!: bexI [of _ "unat r"])
  ultimately show ?thesis
    using i p d by (auto simp: f delete_data_ok_def row_hidden_plain empty_delete_filter_def word_less_nat_alt)
qed

end

section \<open>A sample lake file\<close>

definition sample_file :: "string \<Rightarrow> DeleteFileFormat \<Rightarrow> DuckLakeFileData" where
  "sample_file path fmt = \<lparr>fd_path = path, fd_file_format = ''parquet'', fd_encryption_key = [], fd_file_size_bytes = 0,
     fd_footer_size = None, fd_format = fmt\<rparr>"

definition sample_env :: "_ delete_env" where
  "sample_env = \<lparr>env_yyjson = json_table [sample_footer], env_roaring = roaring_ref, env_strings = duckdb_ref, env_identifier_eq = (=),
     env_read = (\<lambda>_. bind_res (puffin_contents (json_table [sample_footer]) roaring_ref rev ''data.parquet'' sample_vectors) (\<lambda>(data, _). Inr data)),
     env_bind = (\<lambda>_ _. Inr [(''file_path'', VARCHAR), (''pos'', BIGINT)]),
     env_scan = (\<lambda>_ file _. if fd_path file = ''new.parquet'' then [[[None, Some 1]], [[None, Some 4]]]
                             else if fd_path file = ''old.parquet'' then [[[None, Some 1]]] else []),
     env_hash_order = rev, env_vector_size = 2048\<rparr>"

interpretation sample: delete_environment sample_env
  by unfold_locales (simp_all add: sample_env_def json_table_law [unfolded yyjson_library_def]
      roaring_ref.roaring_library_axioms [unfolded roaring_library_def])

definition sample_entry :: DuckLakeFileListEntry where
  "sample_entry = \<lparr>fl_delete_file = sample_file ''deletes.puffin'' PUFFIN, fl_max_row_count = Some 100, fl_data_type = DATA_FILE,
     fl_inlined_file_deletions = {|5|}\<rparr>"

definition sample_delete_scan :: DuckLakeDeleteScanEntry where
  "sample_delete_scan = \<lparr>ds_file = sample_file ''data.parquet'' PARQUET, ds_delete_file = sample_file ''new.parquet'' PARQUET,
     ds_previous_delete_file = sample_file ''old.parquet'' PARQUET, ds_row_count = 6, ds_row_id_start = None, ds_snapshot_id = None,
     ds_start_snapshot = None, ds_end_snapshot = None, ds_inlined_file_deletions = [(3, 7)]\<rparr>"

lemma sample_written: "written_deletes sample_env rev ''data.parquet'' sample_vectors (fl_delete_file sample_entry)"
  using sample_contents sample_writable
  by (auto simp: written_deletes_def sample_env_def sample_entry_def sample_file_def sample_vectors_def)

text \<open>The range check that the delete file has and the inlined deletes do not have.\<close>

lemma inlined_delete_out_of_bounds:
  "Initialize_scan sample_env (sample_delete_scan\<lparr>ds_delete_file := sample_file [] PARQUET, ds_inlined_file_deletions := [(6, 7)]\<rparr>)
     empty_delete_filter = Inl (OutOfBoundsAccess ''rows_to_scan'')"
  by (simp add: Initialize_scan_def primary_deletes_def sample_delete_scan_def sample_file_def sample_env_def mark_inlined_def Let_def)

lemma sample_scan_runs: "\<exists>f. Initialize_scan sample_env sample_delete_scan empty_delete_filter = Inr f"
  by (simp add: Initialize_scan_def primary_deletes_def sample_delete_scan_def sample_file_def sample_env_def mark_inlined_def Let_def
      ScanDeleteFile_def scan_delete_row_def cell_def with_snapshots_def mark_current_def PopulateSnapshotMapFromPositions_def
      ScanDataFileRowIds_def FindColumn_def unmark_previous_def word_le_nat_alt)

section \<open>Properties\<close>

text \<open>
  C10. Reads see exactly the live rows: a data file whose deletion vectors were written to a Puffin file is read at a snapshot,
  together with inlined deletes of other rows and the row limit of the file. The reader sets its filter up without an
  error, and for every vector of the scan the filter selects, in order, exactly the rows below the limit that are
  neither an inlined delete nor a position of a vector whose snapshot is at most the one read.
  A single vector is stored without its snapshot and applies to every read. Fewer than \<open>2^31\<close> positions are
  required because the position where the inlined deletes begin is an \<^verbatim>\<open>int\<close>.
\<close>

theorem reads_hide_deleted_rows:
  assumes "delete_environment E" and "written_deletes E iterate dfp blobs (fl_delete_file entry)"
    and "fl_data_type entry = DATA_FILE" and "fd_path (fl_delete_file entry) \<noteq> []"
    and "fset (fl_inlined_file_deletions entry) \<inter> (\<Union>b \<in> set blobs. set (bi_positions b)) = {}"
    and "card (\<Union>b \<in> set blobs. set (bi_positions b)) < 2 ^ 31"
    and "unat start + unat cnt < 2 ^ 63" and "unat cnt \<le> env_vector_size E"
  shows "\<exists>f reg res. regular_scan_filter E entry inl dm False S = Inr (Some f, reg) \<and> DeleteFilter_Filter E f start cnt = Inr res \<and>
    selected res = map of_nat (filter (\<lambda>j. \<not> hidden_at entry blobs S (start + of_nat j)) [0..<unat cnt])"
  using assms(2-) by (rule delete_environment.regular_scan_exact [OF assms(1)])

theorem reads_hide_deleted_rows_witness:
  "\<exists>f reg res. regular_scan_filter sample_env sample_entry None False False 4 = Inr (Some f, reg) \<and>
     DeleteFilter_Filter sample_env f 0 10 = Inr res \<and> selected res = [0, 1, 2, 4, 6, 7, 8, 9]"
proof -
  have pos: "(\<Union>b \<in> set sample_vectors. set (bi_positions b)) = set sample_positions"
    by (auto simp: sample_vectors_def sample_positions_def)
  have "\<exists>f reg res. regular_scan_filter sample_env sample_entry None False False 4 = Inr (Some f, reg) \<and>
      DeleteFilter_Filter sample_env f 0 10 = Inr res \<and>
      selected res = map of_nat (filter (\<lambda>j. \<not> hidden_at sample_entry sample_vectors 4 (0 + of_nat j)) [0..<unat (10 :: idx)])"
    by (rule reads_hide_deleted_rows [OF sample.delete_environment_axioms sample_written])
      (use pos card_length [of sample_positions] in \<open>simp_all add: sample_entry_def sample_file_def sample_env_def sample_positions_def\<close>)
  moreover have "map of_nat (filter (\<lambda>j. \<not> hidden_at sample_entry sample_vectors 4 (0 + of_nat j)) [0..<unat (10 :: idx)]) =
      ([0, 1, 2, 4, 6, 7, 8, 9] :: idx list)"
    by (simp add: hidden_at_def deleted_by_def sample_entry_def sample_vectors_def sample_positions_def upt_rec word_le_nat_alt)
  ultimately show ?thesis by metis
qed



end
