(* ===== verification/DL_Partition.thy ===== *)
theory DL_Partition
  imports DL_FieldData DL_DeletionVector Complex_Main
begin

text \<open>
  \<^verbatim>\<open>src/src/include/common/ducklake_murmur3.hpp\<close> with \<^verbatim>\<open>src/src/functions/ducklake_murmur3.cpp\<close> (the Iceberg
  bucket hash) and \<^verbatim>\<open>src/src/storage/ducklake_partition_data.cpp\<close> (partition transforms, the names and the paths of Hive partitions).
  Bound expressions are a datatype; DuckDB's binder and the SQL functions it resolves are parameters, with the
  documented integer semantics as laws of the locale \<open>sql_arithmetic\<close>.

  The theorems: the search for an unused key name ends and the keys of a path are
  pairwise different; bucket numbers are the Iceberg ones and in range; the flooring of
  nanoseconds to microseconds is the floor; the hash gives the values published with the Iceberg specification and does not depend
  on the width of an integer column.
\<close>

unbundle bit_operations_syntax

section \<open>Murmur3\<close>

definition rotl :: "nat \<Rightarrow> 32 word \<Rightarrow> 32 word" where
  "rotl n k = push_bit n k OR drop_bit (32 - n) k"

definition murmur_c1 :: "32 word" where "murmur_c1 = 0xcc9e2d51"
definition murmur_c2 :: "32 word" where "murmur_c2 = 0x1b873593"

definition load_block :: "byte list \<Rightarrow> 32 word" where
  "load_block bs = foldr (\<lambda>b acc. ucast b OR push_bit 8 acc) bs 0"

definition murmur_mix :: "32 word \<Rightarrow> 32 word" where
  "murmur_mix k1 = rotl 15 (k1 * murmur_c1) * murmur_c2"

definition murmur_body :: "byte list \<Rightarrow> nat \<Rightarrow> 32 word \<Rightarrow> 32 word" where
  "murmur_body data i h1 = rotl 13 (h1 XOR murmur_mix (load_block (take 4 (drop (4 * i) data)))) * 5 + 0xe6546b64"

text \<open>The fall-through switch over the one to three bytes that remain.\<close>

definition murmur_tail :: "byte list \<Rightarrow> 32 word \<Rightarrow> 32 word" where
  "murmur_tail tail h1 =
     (case tail of
        [] \<Rightarrow> h1
      | [t0] \<Rightarrow> h1 XOR murmur_mix (ucast t0)
      | [t0, t1] \<Rightarrow> h1 XOR murmur_mix (push_bit 8 (ucast t1) XOR ucast t0)
      | t0 # t1 # t2 # _ \<Rightarrow> h1 XOR murmur_mix (push_bit 16 (ucast t2) XOR push_bit 8 (ucast t1) XOR ucast t0))"

definition fmix32 :: "32 word \<Rightarrow> 32 word" where
  "fmix32 h =
     (let h1 = (h XOR drop_bit 16 h) * 0x85ebca6b;
          h2 = (h1 XOR drop_bit 13 h1) * 0xc2b2ae35
      in h2 XOR drop_bit 16 h2)"

definition Hash :: "byte list \<Rightarrow> 32 word \<Rightarrow> 32 word" where
  "Hash data seed =
     (let nblocks = length data div 4;
          h1 = fold (murmur_body data) [0..<nblocks] seed
      in fmix32 (murmur_tail (drop (nblocks * 4) data) h1 XOR of_nat (length data)))"

text \<open>The eight bytes of a 64-bit value.\<close>

definition bytes64 :: "64 word \<Rightarrow> byte list" where
  "bytes64 w = map (\<lambda>i. ucast (drop_bit (8 * i) w)) [0..<8]"

definition HashValue :: "64 word \<Rightarrow> 32 word" where
  "HashValue v = Hash (bytes64 v) 0"

text \<open>
  A non-NULL cell by the physical type of its column; floating-point numbers are their IEEE bit
  patterns, and the conversion of a float to a double is a parameter.
\<close>

datatype murmur_cell =
    CellBool bool
  | CellInt8 "8 word"
  | CellInt16 "16 word"
  | CellInt32 "32 word"
  | CellInt64 "64 word"
  | CellFloat "32 word"
  | CellDouble "64 word"
  | CellVarchar "byte list"
  | CellOther "byte list"

definition normalize_zero :: "64 word \<Rightarrow> 64 word" where
  "normalize_zero bits = (if bits = 0x8000000000000000 then 0 else bits)"

fun murmur_cell_hash :: "(32 word \<Rightarrow> 64 word) \<Rightarrow> murmur_cell \<Rightarrow> 32 word" where
  "murmur_cell_hash to_double (CellBool b) = HashValue (if b then 1 else 0)"
| "murmur_cell_hash to_double (CellInt8 w) = HashValue (scast w)"
| "murmur_cell_hash to_double (CellInt16 w) = HashValue (scast w)"
| "murmur_cell_hash to_double (CellInt32 w) = HashValue (scast w)"
| "murmur_cell_hash to_double (CellInt64 w) = HashValue w"
| "murmur_cell_hash to_double (CellFloat f) = HashValue (normalize_zero (to_double f))"
| "murmur_cell_hash to_double (CellDouble d) = HashValue (normalize_zero d)"
| "murmur_cell_hash to_double (CellVarchar bs) = Hash bs 0"
| "murmur_cell_hash to_double (CellOther bs) = Hash bs 0"

definition Murmur3ScalarFunction :: "(32 word \<Rightarrow> 64 word) \<Rightarrow> murmur_cell option list \<Rightarrow> 32 word option list" where
  "Murmur3ScalarFunction to_double cells = map (map_option (murmur_cell_hash to_double)) cells"

section \<open>Partitions\<close>

datatype DuckLakeTransformType = IDENTITY | BUCKET | YEAR | MONTH | DAY | HOUR
  | EPOCH_YEAR | EPOCH_MONTH | EPOCH_DAY | EPOCH_HOUR

record DuckLakeTransform =
  transform_type :: DuckLakeTransformType
  bucket_count :: idx

record DuckLakePartitionField =
  partition_key_index :: idx
  pf_field_id :: FieldIndex
  pf_transform :: DuckLakeTransform

record DuckLakePartition =
  p_partition_id :: idx
  local_partition_id :: "idx option"
  p_fields :: "DuckLakePartitionField list"

fun key_prefix :: "DuckLakeTransformType \<Rightarrow> string \<Rightarrow> string" where
  "key_prefix IDENTITY name = name"
| "key_prefix YEAR name = ''year''"
| "key_prefix MONTH name = ''month''"
| "key_prefix DAY name = ''day''"
| "key_prefix HOUR name = ''hour''"
| "key_prefix EPOCH_YEAR name = ''epoch_year''"
| "key_prefix EPOCH_MONTH name = ''epoch_month''"
| "key_prefix EPOCH_DAY name = ''epoch_day''"
| "key_prefix EPOCH_HOUR name = ''epoch_hour''"
| "key_prefix BUCKET name = ''bucket''"

text \<open>The loop that tries \<^verbatim>\<open>name_2\<close>, \<^verbatim>\<open>name_3\<close>, \<dots>; a loop that never ends is \<open>None\<close>.\<close>

partial_function (option) candidate_loop ::
  "duckdb_string \<Rightarrow> ci_set \<Rightarrow> string \<Rightarrow> string \<Rightarrow> nat \<Rightarrow> string option" where
  [code]: "candidate_loop D used base candidate counter =
     (if ci_member D used candidate
      then candidate_loop D used base (base @ ''_'' @ dec_string counter) (Suc counter)
      else Some candidate)"

definition GetPartitionKeyName :: "duckdb_string \<Rightarrow> DuckLakeTransformType \<Rightarrow> string \<Rightarrow> ci_set \<Rightarrow> string option" where
  "GetPartitionKeyName D t name used =
     (let prefix = key_prefix t name in
      if \<not> ci_member D used prefix then Some prefix
      else let base_name = prefix @ ''_'' @ name in
        if \<not> ci_member D used base_name then Some base_name
        else candidate_loop D used base_name base_name 2)"

definition IsEpochTransform :: "DuckLakeTransformType \<Rightarrow> bool" where
  "IsEpochTransform t \<longleftrightarrow> t \<in> {EPOCH_YEAR, EPOCH_MONTH, EPOCH_DAY, EPOCH_HOUR}"

fun GetEpochTransformPart :: "DuckLakeTransformType \<Rightarrow> string res" where
  "GetEpochTransformPart EPOCH_YEAR = Inr ''year''"
| "GetEpochTransformPart EPOCH_MONTH = Inr ''month''"
| "GetEpochTransformPart EPOCH_DAY = Inr ''day''"
| "GetEpochTransformPart EPOCH_HOUR = Inr ''hour''"
| "GetEpochTransformPart _ = Inl (InternalException ''Transform is not an epoch transform'')"

definition epoch_column_sql :: "string \<Rightarrow> LogicalType \<Rightarrow> string" where
  "epoch_column_sql column source_type =
     (if type_id source_type = TIMESTAMP_NS \<or> type_id source_type = TIMESTAMP_TZ_NS
      then (let nanos = ''epoch_ns('' @ column @ '')''
            in ''make_timestamp(('' @ nanos @ '' - (('' @ nanos @ '' % 1000) + 1000) % 1000) // 1000)'')
      else if type_id source_type = TIMESTAMP_TZ then ''make_timestamp(epoch_us('' @ column @ ''))''
      else column)"

definition GetPartitionSQLExpression :: "duckdb_string \<Rightarrow> DuckLakeTransform \<Rightarrow> string \<Rightarrow> LogicalType \<Rightarrow> string res" where
  "GetPartitionSQLExpression D t column source_type =
     (if transform_type t = IDENTITY then Inr column
      else if transform_type t = BUCKET
      then Inr (''(murmur3_32('' @ column @ '') & 2147483647) % '' @ to_string (bucket_count t))
      else if IsEpochTransform (transform_type t)
      then bind_res (GetEpochTransformPart (transform_type t)) (\<lambda>part.
             Inr (''date_diff('' @ [CHR 0x27] @ part @ [CHR 0x27] @ '', DATE '' @ [CHR 0x27] @ ''1970-01-01'' @ [CHR 0x27] @ '', '' @
               epoch_column_sql column source_type @ '')''))
      else (case GetPartitionKeyName D (transform_type t) column [] of
              Some func_name \<Rightarrow> Inr (func_name @ ''('' @ column @ '')'')
            | None \<Rightarrow> Inl (InternalException ''the search for a key name did not end'')))"

fun GetPartitionKeyType :: "DuckLakeTransformType \<Rightarrow> LogicalType \<Rightarrow> LogicalType" where
  "GetPartitionKeyType IDENTITY source_type = source_type"
| "GetPartitionKeyType BUCKET source_type = plain_type INTEGER"
| "GetPartitionKeyType _ source_type = plain_type BIGINT"

text \<open>\<^verbatim>\<open>Value::ToSQLString\<close> and \<^verbatim>\<open>Value::ToString\<close> are DuckDB's.\<close>

definition partition_condition :: "(Value \<Rightarrow> string) \<Rightarrow> string \<Rightarrow> Value \<Rightarrow> string" where
  "partition_condition ToSQLString e v = (if IsNull v then e @ '' IS NULL'' else e @ '' = '' @ ToSQLString v)"

definition BuildPartitionFilter :: "(Value \<Rightarrow> string) \<Rightarrow> string list \<Rightarrow> Value list \<Rightarrow> string res" where
  "BuildPartitionFilter ToSQLString exprs vals =
     (if length vals < length exprs then Inl (InternalException ''Attempted to access index within vector'')
      else Inr (fold (\<lambda>p filt. filt @ (if 0 < p then '' AND '' else []) @ partition_condition ToSQLString (exprs ! p) (vals ! p))
             [0..<length exprs] []))"

definition partition_value_string :: "(Value \<Rightarrow> string) \<Rightarrow> Value \<Rightarrow> string" where
  "partition_value_string Value_ToString v = (if IsNull v then ''__HIVE_DEFAULT_PARTITION__'' else Value_ToString v)"

fun hive_path_loop ::
  "duckdb_string \<Rightarrow> (string \<Rightarrow> string) \<Rightarrow> (Value \<Rightarrow> string) \<Rightarrow> DuckLakeFieldData \<Rightarrow> Value list \<Rightarrow> string \<Rightarrow>
     DuckLakePartitionField list \<Rightarrow> ci_set \<Rightarrow> string \<Rightarrow> string res option" where
  "hive_path_loop D Escape Value_ToString fd vals separator [] used result =
     Some (Inr (if result \<noteq> [] then result @ separator else result))"
| "hive_path_loop D Escape Value_ToString fd vals separator (f # fs) used result =
     (if length vals \<le> unat (partition_key_index f) then Some (Inl (InternalException ''DuckLake partition key index is out of range''))
      else case GetByFieldIndex fd (pf_field_id f) of
        None \<Rightarrow> Some (Inl (InternalException ''DuckLake partition field id not found''))
      | Some field \<Rightarrow>
          (case GetPartitionKeyName D (transform_type (pf_transform f)) (field_name field) used of
             None \<Rightarrow> None
           | Some key \<Rightarrow>
               hive_path_loop D Escape Value_ToString fd vals separator fs (ci_insert D key used)
                 ((if result \<noteq> [] then result @ separator else result) @
                  Escape key @ ''='' @ Escape (partition_value_string Value_ToString (vals ! unat (partition_key_index f))))))"

definition BuildHivePartitionPath ::
  "duckdb_string \<Rightarrow> (string \<Rightarrow> string) \<Rightarrow> (Value \<Rightarrow> string) \<Rightarrow> DuckLakePartition option \<Rightarrow> DuckLakeFieldData \<Rightarrow> Value list \<Rightarrow> string \<Rightarrow>
     string res option" where
  "BuildHivePartitionPath D Escape Value_ToString partition_data fd vals separator =
     (case partition_data of
        None \<Rightarrow> Some (Inr [])
      | Some p \<Rightarrow>
          if length (p_fields p) \<noteq> length vals
          then Some (Inl (InternalException ''DuckLake partition value count does not match partition spec''))
          else hive_path_loop D Escape Value_ToString fd vals separator (p_fields p) [] [])"

section \<open>Transforms as expressions\<close>

datatype sql_value = SNull | SInt int | SText string | SDate int | STimestamp int

datatype sql_expr = SColumn LogicalType | SConst sql_value | SCall string "sql_expr list"

text \<open>
  The binder either refuses a call (the error is given) or returns it; the type of an expression is its
  column type, or what the function returns.
\<close>

record sql_binder =
  bind_error :: "string \<Rightarrow> sql_expr list \<Rightarrow> error option"

definition ApplyScalarFunction :: "sql_binder \<Rightarrow> string \<Rightarrow> sql_expr \<Rightarrow> sql_expr res" where
  "ApplyScalarFunction B function_name column_expr =
     (case bind_error B function_name [column_expr] of Some e \<Rightarrow> Inl e | None \<Rightarrow> Inr (SCall function_name [column_expr]))"

definition BindBinaryOp :: "sql_binder \<Rightarrow> string \<Rightarrow> sql_expr \<Rightarrow> sql_expr \<Rightarrow> sql_expr res" where
  "BindBinaryOp B op left right =
     (case bind_error B op [left, right] of Some e \<Rightarrow> Inl e | None \<Rightarrow> Inr (SCall op [left, right]))"

definition ApplyBucketTransform :: "sql_binder \<Rightarrow> sql_expr \<Rightarrow> idx \<Rightarrow> sql_expr res" where
  "ApplyBucketTransform B column_expr n =
     bind_res (ApplyScalarFunction B ''murmur3_32'' column_expr) (\<lambda>hash_expr.
     bind_res (BindBinaryOp B ''&'' hash_expr (SConst (SInt (2 ^ 31 - 1)))) (\<lambda>and_expr.
     if 2 ^ 31 \<le> unat n then Inl (InternalException ''Information loss on integer cast'')
     else BindBinaryOp B ''%'' and_expr (SConst (SInt (uint n)))))"

definition FloorNanosToMicros :: "sql_binder \<Rightarrow> sql_expr \<Rightarrow> sql_expr res" where
  "FloorNanosToMicros B column_expr =
     bind_res (ApplyScalarFunction B ''epoch_ns'' column_expr) (\<lambda>nanos.
     bind_res (BindBinaryOp B ''%'' nanos (SConst (SInt 1000))) (\<lambda>remainder.
     bind_res (BindBinaryOp B ''+'' remainder (SConst (SInt 1000))) (\<lambda>shifted.
     bind_res (BindBinaryOp B ''%'' shifted (SConst (SInt 1000))) (\<lambda>nonneg_remainder.
     bind_res (BindBinaryOp B ''-'' nanos nonneg_remainder) (\<lambda>floored.
     bind_res (BindBinaryOp B ''//'' floored (SConst (SInt 1000))) (\<lambda>micros.
     ApplyScalarFunction B ''make_timestamp'' micros))))))"

definition ApplyEpochTransform :: "sql_binder \<Rightarrow> (sql_expr \<Rightarrow> LogicalType) \<Rightarrow> sql_expr \<Rightarrow> DuckLakeTransformType \<Rightarrow> sql_expr res" where
  "ApplyEpochTransform B ReturnType column_expr t =
     (let source_id = type_id (ReturnType column_expr) in
      bind_res
        (if source_id = TIMESTAMP_NS \<or> source_id = TIMESTAMP_TZ_NS then FloorNanosToMicros B column_expr
         else if source_id = TIMESTAMP_TZ
         then bind_res (ApplyScalarFunction B ''epoch_us'' column_expr) (ApplyScalarFunction B ''make_timestamp'')
         else Inr column_expr)
        (\<lambda>column. bind_res (GetEpochTransformPart t) (\<lambda>part.
           let children = [SConst (SText part), SConst (SDate 0), column] in
           case bind_error B ''date_diff'' children of Some e \<Rightarrow> Inl e | None \<Rightarrow> Inr (SCall ''date_diff'' children))))"

definition ApplyPartitionTransform :: "sql_binder \<Rightarrow> (sql_expr \<Rightarrow> LogicalType) \<Rightarrow> sql_expr \<Rightarrow> DuckLakePartitionField \<Rightarrow> sql_expr res" where
  "ApplyPartitionTransform B ReturnType column_expr field =
     (case transform_type (pf_transform field) of
        IDENTITY \<Rightarrow> Inr column_expr
      | YEAR \<Rightarrow> ApplyScalarFunction B ''year'' column_expr
      | MONTH \<Rightarrow> ApplyScalarFunction B ''month'' column_expr
      | DAY \<Rightarrow> ApplyScalarFunction B ''day'' column_expr
      | HOUR \<Rightarrow> ApplyScalarFunction B ''hour'' column_expr
      | BUCKET \<Rightarrow> ApplyBucketTransform B column_expr (bucket_count (pf_transform field))
      | t \<Rightarrow> ApplyEpochTransform B ReturnType column_expr t)"

section \<open>The search for a key name ends\<close>

definition numbered :: "string \<Rightarrow> nat \<Rightarrow> string" where
  "numbered base i = base @ ''_'' @ dec_string i"

lemma ascii_lower_digits: "\<forall>c \<in> set s. is_digit c \<Longrightarrow> ascii_lower s = s"
  by (induction s) (auto simp: ascii_lower_def char_lower_def is_digit_def)

lemma numbered_inject: "ascii_lower (numbered base i) = ascii_lower (numbered base j) \<longleftrightarrow> i = j"
proof
  assume "ascii_lower (numbered base i) = ascii_lower (numbered base j)"
  then have "ascii_lower (dec_string i) = ascii_lower (dec_string j)"
    by (simp add: numbered_def ascii_lower_def)
  then have "dec_string i = dec_string j" by (simp add: ascii_lower_digits dec_string_digits)
  then show "i = j" by (metis dec_value_dec_string)
qed simp

lemma candidate_loop_taken:
  "ci_member D used candidate \<Longrightarrow>
     candidate_loop D used base candidate c = candidate_loop D used base (numbered base c) (Suc c)"
  by (subst candidate_loop.simps) (simp add: numbered_def)

lemma candidate_loop_free: "\<not> ci_member D used candidate \<Longrightarrow> candidate_loop D used base candidate c = Some candidate"
  by (subst candidate_loop.simps) simp

context duckdb_strings
begin

lemma candidate_loop_numbered:
  "\<exists>name. candidate_loop D used base (numbered base c) (Suc c) = Some name \<and> \<not> ci_member D used name"
proof -
  define taken where "taken c = {i. c \<le> i \<and> ascii_lower (numbered base i) \<in> ascii_lower ` set used}" for c
  have fin: "finite (taken c)" for c
  proof (rule finite_subset)
    show "taken c \<subseteq> (\<lambda>i. ascii_lower (numbered base i)) -` (ascii_lower ` set used)" by (auto simp: taken_def)
    show "finite ((\<lambda>i. ascii_lower (numbered base i)) -` (ascii_lower ` set used))"
      by (rule finite_vimageI) (auto intro: injI simp: numbered_inject)
  qed
  show ?thesis
  proof (induction "card (taken c)" arbitrary: c rule: less_induct)
    case less
    show ?case
    proof (cases "ci_member D used (numbered base c)")
      case True
      then have "c \<in> taken c" by (auto simp: taken_def ci_member_iff)
      moreover have "taken (Suc c) = taken c - {c}" by (auto simp: taken_def)
      ultimately have "card (taken (Suc c)) < card (taken c)" using fin by (metis card_Diff1_less)
      from less [OF this] True show ?thesis by (simp add: candidate_loop_taken)
    qed (simp add: candidate_loop_free)
  qed
qed

lemma GetPartitionKeyName_ends:
  "\<exists>name. GetPartitionKeyName D t field used = Some name \<and> \<not> ci_member D used name"
proof -
  define base where "base = key_prefix t field @ ''_'' @ field"
  have "\<exists>name. candidate_loop D used base base 2 = Some name \<and> \<not> ci_member D used name"
  proof (cases "ci_member D used base")
    case True
    then show ?thesis
      using candidate_loop_numbered [of used base 2] by (simp add: candidate_loop_taken)
  qed (simp add: candidate_loop_free)
  then show ?thesis by (auto simp: GetPartitionKeyName_def Let_def base_def)
qed

lemma hive_path_loop_spec:
  assumes "\<forall>f \<in> set fs. unat (partition_key_index f) < length vals \<and> GetByFieldIndex fd (pf_field_id f) \<noteq> None"
  shows "\<exists>keys. length keys = length fs \<and> distinct (map ascii_lower keys) \<and>
    (\<forall>k \<in> set keys. \<not> ci_member D used k) \<and>
    hive_path_loop D Escape Value_ToString fd vals separator fs used result =
      Some (Inr ((if result = [] then [] else result @ separator) @
        concat (map2 (\<lambda>k f. Escape k @ ''='' @ Escape (partition_value_string Value_ToString (vals ! unat (partition_key_index f))) @ separator)
          keys fs)))"
  using assms
proof (induction fs arbitrary: used result)
  case (Cons f fs)
  obtain field where field: "GetByFieldIndex fd (pf_field_id f) = Some field" using Cons.prems by auto
  obtain key where key: "GetPartitionKeyName D (transform_type (pf_transform f)) (field_name field) used = Some key"
    and new: "\<not> ci_member D used key"
    using GetPartitionKeyName_ends by blast
  let ?result = "(if result \<noteq> [] then result @ separator else result) @
      Escape key @ ''='' @ Escape (partition_value_string Value_ToString (vals ! unat (partition_key_index f)))"
  obtain keys where keys: "length keys = length fs" "distinct (map ascii_lower keys)"
    "\<forall>k \<in> set keys. \<not> ci_member D (ci_insert D key used) k"
    and path: "hive_path_loop D Escape Value_ToString fd vals separator fs (ci_insert D key used) ?result =
      Some (Inr ((if ?result = [] then [] else ?result @ separator) @
        concat (map2 (\<lambda>k f. Escape k @ ''='' @ Escape (partition_value_string Value_ToString (vals ! unat (partition_key_index f))) @ separator)
          keys fs)))"
    using Cons.IH [of "ci_insert D key used" ?result] Cons.prems by auto
  show ?case
    by (rule exI [of _ "key # keys"])
      (use keys new path field key Cons.prems in \<open>auto simp: CIEquals not_le\<close>)
qed simp

end

section \<open>The arithmetic of the transforms\<close>

text \<open>SQL's remainder has the sign of the dividend.\<close>

definition trunc_rem :: "int \<Rightarrow> int \<Rightarrow> int" where
  "trunc_rem a b = sgn a * (\<bar>a\<bar> mod \<bar>b\<bar>)"

definition in64 :: "int \<Rightarrow> bool" where
  "in64 i \<longleftrightarrow> - (2 ^ 63) \<le> i \<and> i < 2 ^ 63"

fun sql_eval :: "(string \<Rightarrow> sql_value list \<Rightarrow> sql_value) \<Rightarrow> sql_value \<Rightarrow> sql_expr \<Rightarrow> sql_value" where
  "sql_eval F v (SColumn t) = v"
| "sql_eval F v (SConst c) = c"
| "sql_eval F v (SCall f args) = F f (map (sql_eval F v) args)"

locale sql_arithmetic =
  fixes F :: "string \<Rightarrow> sql_value list \<Rightarrow> sql_value"
  assumes sql_and: "F ''&'' [SInt a, SInt b] = SInt (a AND b)"
    and sql_rem: "b \<noteq> 0 \<Longrightarrow> F ''%'' [SInt a, SInt b] = SInt (trunc_rem a b)"
    and sql_add: "in64 (a + b) \<Longrightarrow> F ''+'' [SInt a, SInt b] = SInt (a + b)"
    and sql_sub: "in64 (a - b) \<Longrightarrow> F ''-'' [SInt a, SInt b] = SInt (a - b)"
    and sql_idiv: "b \<noteq> 0 \<Longrightarrow> b dvd a \<Longrightarrow> F ''//'' [SInt a, SInt b] = SInt (a div b)"
begin

lemma bucket_value:
  assumes "ApplyBucketTransform B column n = Inr e" and "F ''murmur3_32'' [sql_eval F v column] = SInt h" and "n \<noteq> 0"
  shows "sql_eval F v e = SInt ((h mod 2 ^ 31) mod uint n)"
proof -
  have e: "e = SCall ''%'' [SCall ''&'' [SCall ''murmur3_32'' [column], SConst (SInt (2 ^ 31 - 1))], SConst (SInt (uint n))]"
    using assms(1)
    by (auto simp: ApplyBucketTransform_def ApplyScalarFunction_def BindBinaryOp_def bind_res_Inr_iff split: option.splits if_splits)
  have "h AND (2 ^ 31 - 1) = h mod 2 ^ 31"
    using take_bit_eq_mask [of 31 h] by (simp only: mask_eq_exp_minus_1 take_bit_eq_mod)
  moreover have "0 < uint n" using assms(3) by (metis order_le_less uint_0_iff uint_ge_0)
  moreover have "trunc_rem (h mod 2 ^ 31) (uint n) = (h mod 2 ^ 31) mod uint n"
  proof -
    have "0 \<le> h mod 2 ^ 31" by simp
    then show ?thesis using \<open>0 < uint n\<close> by (cases "h mod 2 ^ 31 = 0") (simp_all add: trunc_rem_def sgn_if)
  qed
  ultimately show ?thesis
    using assms(2) by (simp add: e sql_and sql_rem)
qed

lemma floor_remainder: "trunc_rem (trunc_rem n 1000 + 1000) 1000 = n mod 1000"
proof -
  have r: "- 1000 < trunc_rem n 1000" "trunc_rem n 1000 mod 1000 = n mod 1000"
    by (auto simp: trunc_rem_def sgn_if mod_minus_eq zmod_zminus1_eq_if)
  then have "trunc_rem (trunc_rem n 1000 + 1000) 1000 = (trunc_rem n 1000 + 1000) mod 1000"
    by (simp add: trunc_rem_def [of "trunc_rem n 1000 + 1000"] sgn_if)
  with r show ?thesis by simp
qed

lemma floor_value:
  assumes "FloorNanosToMicros B column = Inr e" and "F ''epoch_ns'' [sql_eval F v column] = SInt n"
    and "- (2 ^ 63) + 1000 \<le> n" and "n < 2 ^ 63"
  shows "sql_eval F v e = F ''make_timestamp'' [SInt (n div 1000)]"
proof -
  let ?n = "SCall ''epoch_ns'' [column]" and ?k = "SConst (SInt 1000)"
  have e: "e = SCall ''make_timestamp'' [SCall ''//'' [SCall ''-'' [?n, SCall ''%'' [SCall ''+'' [SCall ''%'' [?n, ?k], ?k], ?k]], ?k]]"
    using assms(1)
    by (auto simp: FloorNanosToMicros_def ApplyScalarFunction_def BindBinaryOp_def bind_res_Inr_iff split: option.splits)
  have rem: "\<bar>trunc_rem n 1000\<bar> < 1000" by (auto simp: trunc_rem_def sgn_if abs_mult)
  have "in64 (trunc_rem n 1000 + 1000)" using rem by (auto simp: in64_def abs_less_iff)
  moreover have "in64 (n - n mod 1000)"
    unfolding in64_def using assms(3,4) pos_mod_bound [of 1000 n] pos_mod_sign [of 1000 n] by linarith
  moreover have "(1000 :: int) dvd n - n mod 1000" "(n - n mod 1000) div 1000 = n div 1000"
    by (simp_all add: minus_mod_eq_mult_div)
  ultimately show ?thesis
    using assms(2) by (simp add: e sql_rem sql_add sql_sub sql_idiv floor_remainder)
qed

end

text \<open>SQL functions on integers, with the hash of a BIGINT column.\<close>

definition sql_ref :: "string \<Rightarrow> sql_value list \<Rightarrow> sql_value" where
  "sql_ref f args =
     (case args of
        [SInt a, SInt b] \<Rightarrow>
          if f = ''&'' then SInt (a AND b)
          else if f = ''%'' then (if b = 0 then SNull else SInt (trunc_rem a b))
          else if f = ''+'' then (if in64 (a + b) then SInt (a + b) else SNull)
          else if f = ''-'' then (if in64 (a - b) then SInt (a - b) else SNull)
          else if f = ''//'' then (if b = 0 then SNull else SInt (a div b))
          else SNull
      | [SInt a] \<Rightarrow>
          if f = ''murmur3_32'' then SInt (sint (murmur_cell_hash ucast (CellInt64 (of_int a))))
          else if f = ''make_timestamp'' then STimestamp a
          else SNull
      | [STimestamp t] \<Rightarrow> if f = ''epoch_ns'' then SInt t else SNull
      | _ \<Rightarrow> SNull)"

interpretation sql_ref: sql_arithmetic sql_ref
  by unfold_locales (simp_all add: sql_ref_def)

definition any_binder :: sql_binder where
  "any_binder = \<lparr>bind_error = (\<lambda>_ _. None)\<rparr>"

section \<open>Integer widths\<close>

lemma scast_of_int:
  assumes "- (2 ^ (LENGTH('a::len) - 1)) \<le> i" and "i < 2 ^ (LENGTH('a) - 1)"
  shows "(scast (of_int i :: 'a word) :: 64 word) = of_int i"
proof -
  have "sint (of_int i :: 'a word) = i"
    using assms by (simp add: signed_of_int signed_take_bit_int_eq_self)
  then show ?thesis by (simp add: scast_eq)
qed

section \<open>A concrete table\<close>

definition sample_field :: "idx \<Rightarrow> string \<Rightarrow> DuckLakeFieldId" where
  "sample_field i name = FieldId \<lparr>cd_id = FieldIndex i, cd_initial_default = Value (plain_type BIGINT) None, cd_default_value = None\<rparr>
     name (plain_type TIMESTAMP) []"

definition sample_fields :: DuckLakeFieldData where
  "sample_fields = \<lparr>fd_field_ids = [sample_field 1 ''ts'', sample_field 2 ''year''],
     fd_field_references = [(FieldIndex 1, sample_field 1 ''ts''), (FieldIndex 2, sample_field 2 ''year'')]\<rparr>"

definition sample_partition :: DuckLakePartition where
  "sample_partition = \<lparr>p_partition_id = 1, local_partition_id = None,
     p_fields = [\<lparr>partition_key_index = 0, pf_field_id = FieldIndex 1, pf_transform = \<lparr>transform_type = YEAR, bucket_count = 0\<rparr>\<rparr>,
                 \<lparr>partition_key_index = 1, pf_field_id = FieldIndex 2, pf_transform = \<lparr>transform_type = IDENTITY, bucket_count = 0\<rparr>\<rparr>]\<rparr>"

definition sample_values :: "Value list" where
  "sample_values = [Value (plain_type BIGINT) (Some ''2024''), Value (plain_type BIGINT) None]"

section \<open>Properties\<close>

text \<open>
  C34. The Hive path of a partition is always produced and its keys are pairwise different, also up
  to case: when the values match the spec and the fields exist, the search for an unused key
  name ends for every field, whatever the column names and transforms are, and the path is the
  sequence of the parts key=value, escaped, each followed by the separator.
\<close>

theorem hive_path_keys_distinct:
  assumes "duckdb_strings D" and "length (p_fields p) = length vals"
    and "\<forall>f \<in> set (p_fields p). unat (partition_key_index f) < length vals \<and> GetByFieldIndex fd (pf_field_id f) \<noteq> None"
  shows "\<exists>keys. length keys = length vals \<and> distinct (map ascii_lower keys) \<and>
    BuildHivePartitionPath D Escape Value_ToString (Some p) fd vals separator =
      Some (Inr (concat (map2 (\<lambda>k f. Escape k @ ''='' @ Escape (partition_value_string Value_ToString (vals ! unat (partition_key_index f))) @ separator)
        keys (p_fields p))))"
  using duckdb_strings.hive_path_loop_spec [OF assms(1,3), of "[]" Escape Value_ToString separator "[]"] assms(2)
  by (auto simp: BuildHivePartitionPath_def)

theorem hive_path_keys_distinct_witness:
  "BuildHivePartitionPath duckdb_ref id (\<lambda>v. case value_text v of Some s \<Rightarrow> s | None \<Rightarrow> []) (Some sample_partition) sample_fields
     sample_values ''/'' = Some (Inr ''year=2024/year_year=__HIVE_DEFAULT_PARTITION__/'') \<and>
   (\<exists>keys. length keys = length sample_values \<and> distinct (map ascii_lower keys) \<and>
    BuildHivePartitionPath duckdb_ref id (\<lambda>v. case value_text v of Some s \<Rightarrow> s | None \<Rightarrow> []) (Some sample_partition) sample_fields sample_values ''/'' =
      Some (Inr (concat (map2 (\<lambda>k f. id k @ ''='' @ id (partition_value_string (\<lambda>v. case value_text v of Some s \<Rightarrow> s | None \<Rightarrow> [])
          (sample_values ! unat (partition_key_index f))) @ ''/'') keys (p_fields sample_partition)))))"
proof
  show "BuildHivePartitionPath duckdb_ref id (\<lambda>v. case value_text v of Some s \<Rightarrow> s | None \<Rightarrow> []) (Some sample_partition) sample_fields
     sample_values ''/'' = Some (Inr ''year=2024/year_year=__HIVE_DEFAULT_PARTITION__/'')"
    by code_simp
qed (rule hive_path_keys_distinct [OF ref.duckdb_strings_axioms];
  simp add: sample_partition_def sample_fields_def sample_values_def GetByFieldIndex_def)

text \<open>
  C35. The bucket of a value is Iceberg's: the hash without its sign bit, modulo the number of
  buckets, hence a number from 0 to one less than the number of buckets, also for a negative hash.
\<close>

theorem bucket_in_range:
  assumes "sql_arithmetic F" and "ApplyBucketTransform B column n = Inr e"
    and "F ''murmur3_32'' [sql_eval F v column] = SInt h" and "n \<noteq> 0"
  shows "sql_eval F v e = SInt ((h mod 2 ^ 31) mod uint n) \<and> 0 \<le> (h mod 2 ^ 31) mod uint n \<and> (h mod 2 ^ 31) mod uint n < uint n"
proof -
  have "0 < uint n" using assms(4) by (metis order_le_less uint_0_iff uint_ge_0)
  then show ?thesis using sql_arithmetic.bucket_value [OF assms] by simp
qed

theorem bucket_in_range_witness:
  "\<exists>e h b. ApplyBucketTransform any_binder (SColumn (plain_type BIGINT)) 16 = Inr e \<and> sql_eval sql_ref (SInt 34) e = SInt b \<and>
     b = (h mod 2 ^ 31) mod 16 \<and> 0 \<le> b \<and> b < 16"
proof -
  obtain e where e: "ApplyBucketTransform any_binder (SColumn (plain_type BIGINT)) 16 = Inr e"
    by (simp add: ApplyBucketTransform_def ApplyScalarFunction_def BindBinaryOp_def any_binder_def)
  obtain h where "sql_ref ''murmur3_32'' [sql_eval sql_ref (SInt 34) (SColumn (plain_type BIGINT))] = SInt h"
    by (simp add: sql_ref_def)
  from bucket_in_range [OF sql_ref.sql_arithmetic_axioms e this] e show ?thesis by auto
qed



text \<open>
  The bucket hash is the one Iceberg publishes, on its test values 34 (as a long) and
  "iceberg" (as a string), and an integer hashes the same in a TINYINT, SMALLINT, INTEGER and BIGINT
  column, so promoting a column to a wider integer type moves no row to another bucket.
\<close>

theorem murmur_iceberg_compatible:
  "HashValue 34 = 2017239379 \<and>
   Hash [0x69, 0x63, 0x65, 0x62, 0x65, 0x72, 0x67] 0 = 1210000089 \<and>
   (\<forall>i. - (2 ^ 7) \<le> i \<and> i < 2 ^ 7 \<longrightarrow>
      murmur_cell_hash to_double (CellInt8 (of_int i)) = murmur_cell_hash to_double (CellInt64 (of_int i))) \<and>
   (\<forall>i. - (2 ^ 15) \<le> i \<and> i < 2 ^ 15 \<longrightarrow>
      murmur_cell_hash to_double (CellInt16 (of_int i)) = murmur_cell_hash to_double (CellInt64 (of_int i))) \<and>
   (\<forall>i. - (2 ^ 31) \<le> i \<and> i < 2 ^ 31 \<longrightarrow>
      murmur_cell_hash to_double (CellInt32 (of_int i)) = murmur_cell_hash to_double (CellInt64 (of_int i)))"
proof (intro conjI)
  show "HashValue 34 = 2017239379" by code_simp
  show "Hash [0x69, 0x63, 0x65, 0x62, 0x65, 0x72, 0x67] 0 = 1210000089" by code_simp
qed (simp_all add: scast_of_int)

theorem murmur_iceberg_compatible_witness:
  "murmur_cell_hash ucast (CellInt8 (of_int (- 1))) = murmur_cell_hash ucast (CellInt64 (of_int (- 1)))"
proof -
  have "\<forall>i. - (2 ^ 7) \<le> i \<and> i < 2 ^ 7 \<longrightarrow>
      murmur_cell_hash ucast (CellInt8 (of_int i)) = murmur_cell_hash ucast (CellInt64 (of_int i))"
    using murmur_iceberg_compatible by blast
  from this [rule_format, of "- 1"] show ?thesis by simp
qed

end
