(* ===== verification/DL_TypeEvolution.thy ===== *)
theory DL_TypeEvolution
  imports DL_FieldData
begin

text \<open>
  Schema evolution of one column, from \<^verbatim>\<open>src/src/storage/ducklake_table_entry.cpp\<close>: \<^verbatim>\<open>TypePromotion\<close> and \<^verbatim>\<open>GetNestedEvolution\<close>
  compare the field tree of a column with a new type, keep the identifiers of the fields that stay, number the new ones
  and record in a \<^verbatim>\<open>ColumnChangeInfo\<close> which columns are dropped from and added to the metadata;
  \<^verbatim>\<open>ConvertColumn\<close>, \<^verbatim>\<open>AddNewColumns\<close>, \<^verbatim>\<open>RemoveColumns\<close> and \<^verbatim>\<open>RenameField\<close> build those entries.

  DuckDB's common-supertype rule, its printing of types and expressions, the name of a tuple's component and the
  iteration order of a hash map are the record \<open>evolution_env\<close>.

  The theorems: the tree that results from a promotion has the shape of the target type and keeps the root's identifier and name;
  taking the dropped columns away from the old columns and adding the new ones gives exactly the columns of the
  new tree; new identifiers are consecutive from the next free one.
\<close>

section \<open>Column changes\<close>

record evolution_env =
  ev_strings :: duckdb_string
  ev_types :: duckdb_types
  ev_exprs :: duckdb_exprs
  ev_max_type :: "LogicalType \<Rightarrow> LogicalType \<Rightarrow> LogicalType option"
  ev_type_string :: "LogicalType \<Rightarrow> string"
  ev_expr_string :: "ParsedExpression \<Rightarrow> string"
  ev_tuple_name :: "nat \<Rightarrow> string"
  ev_hash_order :: "(string \<times> nat) list \<Rightarrow> (string \<times> nat) list"

text \<open>\<^verbatim>\<open>DuckLakeColumnInfo\<close> without its tags, which these operations never set; \<open>Value()\<close> is the NULL of no type.\<close>

datatype DuckLakeColumnInfo =
  ColumnInfo (ci_id: FieldIndex) (ci_name: string) (ci_type: string) (ci_initial_default: Value) (ci_default_value: Value)
    (ci_default_value_type: string) (ci_nulls_allowed: bool) (ci_children: "DuckLakeColumnInfo list")

definition null_value :: Value where
  "null_value = Value (plain_type SQLNULL) None"

record DuckLakeNewColumn =
  nc_column_info :: DuckLakeColumnInfo
  nc_parent_idx :: "idx option"

record ColumnChangeInfo =
  new_fields :: "DuckLakeNewColumn list"
  dropped_fields :: "FieldIndex list"

fun DropField_ids :: "DuckLakeFieldId \<Rightarrow> FieldIndex list" where
  "DropField_ids (FieldId c n t cs) = cd_id c # concat (map DropField_ids cs)"

definition DropField :: "DuckLakeFieldId \<Rightarrow> ColumnChangeInfo \<Rightarrow> ColumnChangeInfo" where
  "DropField f info = info\<lparr>dropped_fields := dropped_fields info @ DropField_ids f\<rparr>"

definition TypePromotionIsAllowed :: "evolution_env \<Rightarrow> LogicalType \<Rightarrow> LogicalType \<Rightarrow> bool" where
  "TypePromotionIsAllowed X source target \<longleftrightarrow> source \<noteq> target \<and> ev_max_type X source target = Some target"

section \<open>The children of a nested type\<close>

definition evolution_unsupported :: "evolution_env \<Rightarrow> LogicalType \<Rightarrow> 'a res" where
  "evolution_unsupported X t =
     Inl (NotImplementedException (''Unimplemented nested type '' @ ev_type_string X t @ '' for DuckLake type evolution''))"

definition GetNestedChildCount :: "evolution_env \<Rightarrow> LogicalType \<Rightarrow> nat res" where
  "GetNestedChildCount X t =
     (case type_id t of
        LIST \<Rightarrow> Inr 1
      | MAP \<Rightarrow> Inr 2
      | STRUCT \<Rightarrow> Inr (length (type_children t))
      | TUPLE \<Rightarrow> Inr (length (type_children t))
      | _ \<Rightarrow> evolution_unsupported X t)"

definition GetNestedChildName :: "evolution_env \<Rightarrow> LogicalType \<Rightarrow> nat \<Rightarrow> string res" where
  "GetNestedChildName X t i =
     (case type_id t of
        LIST \<Rightarrow> Inr ''element''
      | MAP \<Rightarrow> Inr (if i = 0 then ''key'' else ''value'')
      | STRUCT \<Rightarrow> bind_res (vector_at (type_children t) i) (\<lambda>c. Inr (fst c))
      | TUPLE \<Rightarrow> Inr (ev_tuple_name X i)
      | _ \<Rightarrow> evolution_unsupported X t)"

definition GetNestedChildType :: "evolution_env \<Rightarrow> LogicalType \<Rightarrow> nat \<Rightarrow> LogicalType res" where
  "GetNestedChildType X t i =
     (case type_id t of
        LIST \<Rightarrow> bind_res (vector_at (type_children t) 0) (\<lambda>c. Inr (snd c))
      | MAP \<Rightarrow> bind_res (vector_at (type_children t) (if i = 0 then 0 else 1)) (\<lambda>c. Inr (snd c))
      | STRUCT \<Rightarrow> bind_res (vector_at (type_children t) i) (\<lambda>c. Inr (snd c))
      | TUPLE \<Rightarrow> bind_res (vector_at (type_children t) i) (\<lambda>c. Inr (snd c))
      | _ \<Rightarrow> evolution_unsupported X t)"

text \<open>The loops over \<^verbatim>\<open>[0, GetNestedChildCount)\<close>: the names of the source, names and types of the target.\<close>

definition nested_child_names :: "evolution_env \<Rightarrow> LogicalType \<Rightarrow> string list res" where
  "nested_child_names X t = bind_res (GetNestedChildCount X t) (\<lambda>n. map_res (GetNestedChildName X t) [0..<n])"

definition nested_children :: "evolution_env \<Rightarrow> LogicalType \<Rightarrow> (string \<times> LogicalType) list res" where
  "nested_children X t =
     bind_res (GetNestedChildCount X t) (\<lambda>n. map_res (\<lambda>i.
       bind_res (GetNestedChildName X t i) (\<lambda>nm. bind_res (GetNestedChildType X t i) (\<lambda>ty. Inr (nm, ty)))) [0..<n])"

section \<open>Entries for the metadata\<close>

definition ExtractDefaultValue :: "evolution_env \<Rightarrow> DuckLakeColumnData \<Rightarrow> Value \<times> Value \<times> string" where
  "ExtractDefaultValue X col_data =
     (cd_initial_default col_data,
      case cd_default_value col_data of
        None \<Rightarrow> (Value (plain_type VARCHAR) None, ''literal'')
      | Some e \<Rightarrow> (case TryGetLiteralValue (ev_exprs X) e of
                     Some v \<Rightarrow> (v, ''literal'')
                   | None \<Rightarrow> (Value (plain_type VARCHAR) (Some (ev_expr_string X e)), ''expression'')))"

text \<open>The children \<^verbatim>\<open>ConvertColumn\<close> descends into; \<open>None\<close> is its default case.\<close>

definition converted_children :: "evolution_env \<Rightarrow> LogicalType \<Rightarrow> (string \<times> LogicalType) list option res" where
  "converted_children X t =
     (case type_id t of
        STRUCT \<Rightarrow> Inr (Some (type_children t))
      | TUPLE \<Rightarrow> Inr (Some (map (\<lambda>i. (ev_tuple_name X i, snd (type_children t ! i))) [0..<length (type_children t)]))
      | LIST \<Rightarrow> bind_res (vector_at (type_children t) 0) (\<lambda>c. Inr (Some [(''element'', snd c)]))
      | ARRAY \<Rightarrow> bind_res (vector_at (type_children t) 0) (\<lambda>c. Inr (Some [(''element'', snd c)]))
      | MAP \<Rightarrow> bind_res (vector_at (type_children t) 0) (\<lambda>k. bind_res (vector_at (type_children t) 1) (\<lambda>v.
                 Inr (Some [(''key'', snd k), (''value'', snd v)])))
      | _ \<Rightarrow> Inr None)"

lemma type_child_smaller: "c \<in> set (type_children t) \<Longrightarrow> size (snd c) < size t"
  by (cases t, cases c) (auto dest!: size_list_estimation' [of _ _ _ "size_prod (\<lambda>_. 0) size", OF _ order_refl])

lemma type_child_nth_smaller: "i < length (type_children t) \<Longrightarrow> size (snd (type_children t ! i)) < size t"
  by (simp add: type_child_smaller)

lemma converted_children_smaller: "converted_children X t = Inr (Some cs) \<Longrightarrow> c \<in> set cs \<Longrightarrow> size (snd c) < size t"
  by (auto simp: converted_children_def bind_res_Inr_iff vector_at_Inr type_child_smaller type_child_nth_smaller split: LogicalTypeId.splits)

function (sequential) ConvertColumn :: "evolution_env \<Rightarrow> string \<Rightarrow> LogicalType \<Rightarrow> DuckLakeFieldId \<Rightarrow> DuckLakeColumnInfo res" where
  "ConvertColumn X nm t f =
     bind_res (ToString (ev_strings X) (ev_types X) t) (\<lambda>type_text.
     bind_res (converted_children X t) (\<lambda>r.
       case r of
         None \<Rightarrow>
           let (initial, default, default_type) = ExtractDefaultValue X (field_column_data f)
           in Inr (ColumnInfo (GetFieldIndex f) nm type_text initial default default_type True [])
       | Some cs \<Rightarrow>
           bind_res (map_res (\<lambda>i. bind_res (vector_at (field_children f) i) (\<lambda>child_id.
                       ConvertColumn X (fst (cs ! i)) (snd (cs ! i)) child_id)) [0..<length cs]) (\<lambda>children.
             Inr (ColumnInfo (GetFieldIndex f) nm type_text null_value null_value [] True children))))"
  by pat_completeness auto
termination
  by (relation "measure (\<lambda>(X, nm, t, f). size t)") (auto intro: converted_children_smaller)

declare ConvertColumn.simps [simp del]

fun AddNewColumns :: "evolution_env \<Rightarrow> DuckLakeFieldId \<Rightarrow> FieldIndex \<Rightarrow> DuckLakeNewColumn list res" where
  "AddNewColumns X (FieldId c n t cs) parent_idx =
     bind_res (ToString (ev_strings X) (ev_types X) t) (\<lambda>type_text.
       let (initial, default, default_type) = ExtractDefaultValue X c;
           new_col = \<lparr>nc_column_info = ColumnInfo (cd_id c) n type_text initial default default_type False [],
                      nc_parent_idx = Some (field_index parent_idx)\<rparr>
       in bind_res (map_res (\<lambda>child. AddNewColumns X child (cd_id c)) cs) (\<lambda>rest. Inr (new_col # concat rest)))"

fun RemoveColumns :: "DuckLakeFieldId \<Rightarrow> FieldIndex list" where
  "RemoveColumns (FieldId c n t cs) = cd_id c # concat (map RemoveColumns cs)"

definition RenameField_change :: "evolution_env \<Rightarrow> DuckLakeFieldId \<Rightarrow> DuckLakeFieldId \<Rightarrow> string \<Rightarrow> ColumnChangeInfo \<Rightarrow> ColumnChangeInfo res" where
  "RenameField_change X f parent_id new_name info =
     bind_res (ToString (ev_strings X) (ev_types X) (field_type f)) (\<lambda>type_text.
       Inr (info\<lparr>dropped_fields := dropped_fields info @ [GetFieldIndex f],
                 new_fields := new_fields info @
                   [\<lparr>nc_column_info = ColumnInfo (GetFieldIndex f) new_name type_text null_value null_value [] False [],
                     nc_parent_idx = Some (field_index (GetFieldIndex parent_id))\<rparr>]\<rparr>))"

section \<open>Columns of a table\<close>

text \<open>
  What \<^verbatim>\<open>GetColumnInfo\<close> reads of the table: its columns, its field data, and the columns with a NOT NULL constraint
  (a \<^verbatim>\<open>case_insensitive_set_t\<close>).
\<close>

record table_columns =
  tc_columns :: "ColumnDefinition list"
  tc_field_data :: DuckLakeFieldData
  tc_not_null :: ci_set

definition GetColumn :: "evolution_env \<Rightarrow> ColumnDefinition list \<Rightarrow> string \<Rightarrow> ColumnDefinition res" where
  "GetColumn X columns nm =
     (case find (\<lambda>c. Identifier_equal (ev_exprs X) (col_name c) nm) columns of
        Some c \<Rightarrow> Inr c
      | None \<Rightarrow> Inl (InternalException ''Column does not exist''))"

definition GetColumnInfo :: "evolution_env \<Rightarrow> table_columns \<Rightarrow> FieldIndex \<Rightarrow> DuckLakeColumnInfo res" where
  "GetColumnInfo X W i =
     (case GetByFieldIndex (tc_field_data W) i of
        None \<Rightarrow> Inl (InternalException ''Field id not found in table'')
      | Some f \<Rightarrow>
          bind_res (GetColumn X (tc_columns W) (field_name f)) (\<lambda>col.
          bind_res (ToString (ev_strings X) (ev_types X) (col_type col)) (\<lambda>type_text.
            let (initial, default, default_type) = ExtractDefaultValue X (field_column_data f)
            in Inr (ColumnInfo i (col_name col) type_text initial default default_type
                      (\<not> ci_member (ev_strings X) (tc_not_null W) (col_name col)) []))))"

fun set_type_text :: "string \<Rightarrow> DuckLakeColumnInfo \<Rightarrow> DuckLakeColumnInfo" where
  "set_type_text text' (ColumnInfo i n t init def dtype nulls cs) = ColumnInfo i n text' init def dtype nulls cs"

section \<open>Promotion\<close>

text \<open>
  The source names as a case-insensitive map to their index; a name that occurs twice keeps the last index. The state is
  the change record and \<^verbatim>\<open>next_column_id\<close>.
\<close>

definition source_type_map :: "evolution_env \<Rightarrow> string list \<Rightarrow> nat ci_map" where
  "source_type_map X names = fold (\<lambda>(i, nm). ci_update (ev_strings X) nm i (\<lambda>_. i)) (enumerate 0 names) []"

definition ci_erase :: "duckdb_string \<Rightarrow> string \<Rightarrow> 'v ci_map \<Rightarrow> 'v ci_map" where
  "ci_erase D k m = filter (\<lambda>(k', _). \<not> StringUtil_CIEquals D k' k) m"

type_synonym evolution_state = "ColumnChangeInfo \<times> idx option"

text \<open>The branch for a name the source does not have.\<close>

definition new_nested_field :: "evolution_env \<Rightarrow> idx \<Rightarrow> string \<Rightarrow> LogicalType \<Rightarrow> evolution_state \<Rightarrow> (DuckLakeFieldId \<times> evolution_state) res" where
  "new_nested_field X parent target_name target_type = (\<lambda>(info, next_column_id).
     case next_column_id of
       None \<Rightarrow> Inl (InternalException ''Attempting to get the index of an optional_idx that is not set'')
     | Some next_col \<Rightarrow>
         bind_res (FieldIdFromType (ev_strings X) (ev_exprs X) target_name target_type None next_col False) (\<lambda>(f, next_col).
         bind_res (ConvertColumn X target_name target_type f) (\<lambda>column_info.
           Inr (f, info\<lparr>new_fields := new_fields info @ [\<lparr>nc_column_info = column_info, nc_parent_idx = Some parent\<rparr>]\<rparr>, Some next_col))))"

text \<open>The promotion of a field without children.\<close>

definition promote_leaf :: "evolution_env \<Rightarrow> table_columns \<Rightarrow> DuckLakeFieldId \<Rightarrow> LogicalType \<Rightarrow> idx option \<Rightarrow> ColumnChangeInfo \<Rightarrow>
    (DuckLakeFieldId \<times> ColumnChangeInfo) res" where
  "promote_leaf X W src target parent_idx info =
     (let source_type = field_type src;
          cannot = ''Cannot change type of column '' @ field_name src @ '' from '' @ ev_type_string X source_type @ '' to '' @ ev_type_string X target in
      if source_type = target then Inr (src, info)
      else if \<not> TypePromotionIsAllowed X source_type target
      then Inl (CatalogException (cannot @ '' - only widening type promotions are allowed''))
      else if IsNested (ev_types X) target
      then Inl (CatalogException (cannot @ '' - promoting a NULL column to a nested type is not supported''))
      else
        let info = DropField src info; i = GetFieldIndex src in
        bind_res (case parent_idx of
                    None \<Rightarrow> GetColumnInfo X W i
                  | Some _ \<Rightarrow> Inr (ColumnInfo i (field_name src) [] null_value null_value [] False [])) (\<lambda>column_info.
        bind_res (ToString (ev_strings X) (ev_types X) target) (\<lambda>type_text.
          Inr (FieldId \<lparr>cd_id = i, cd_initial_default = null_value, cd_default_value = None\<rparr> (field_name src) target [],
               info\<lparr>new_fields := new_fields info @
                 [\<lparr>nc_column_info = set_type_text type_text column_info, nc_parent_idx = parent_idx\<rparr>]\<rparr>))))"

definition drop_leftovers :: "evolution_env \<Rightarrow> DuckLakeFieldId list \<Rightarrow> nat ci_map \<Rightarrow> ColumnChangeInfo \<Rightarrow> ColumnChangeInfo res" where
  "drop_leftovers X source_children m info =
     fold_res (\<lambda>(_, i) info. bind_res (vector_at source_children i) (\<lambda>f. Inr (DropField f info))) (ev_hash_order X m) info"

lemma child_field_size: "c \<in> set (field_children f) \<Longrightarrow> field_size c < field_size f"
  by (cases f) (auto simp: less_Suc_eq_le intro!: member_le_sum_list)

text \<open>
  \<^verbatim>\<open>TypePromotion\<close> calls \<^verbatim>\<open>GetNestedEvolution\<close> for a field with children; \<open>evolve_children\<close> is its loop over the
  children of the target, with the map of the source names that are still to be handled.
\<close>

function (sequential)
  TypePromotion :: "evolution_env \<Rightarrow> table_columns \<Rightarrow> DuckLakeFieldId \<Rightarrow> LogicalType \<Rightarrow> idx option \<Rightarrow> evolution_state \<Rightarrow>
    (DuckLakeFieldId \<times> evolution_state) res"
and GetNestedEvolution :: "evolution_env \<Rightarrow> table_columns \<Rightarrow> DuckLakeFieldId \<Rightarrow> LogicalType \<Rightarrow> evolution_state \<Rightarrow>
    (DuckLakeFieldId \<times> evolution_state) res"
and evolve_children :: "evolution_env \<Rightarrow> table_columns \<Rightarrow> DuckLakeFieldId \<Rightarrow> (string \<times> LogicalType) list \<Rightarrow> nat ci_map \<Rightarrow> evolution_state \<Rightarrow>
    (DuckLakeFieldId list \<times> nat ci_map \<times> evolution_state) res" where
  "TypePromotion X W src target parent_idx st =
     (if field_children src \<noteq> [] then GetNestedEvolution X W src target st
      else bind_res (promote_leaf X W src target parent_idx (fst st)) (\<lambda>(f, info). Inr (f, info, snd st)))"
| "GetNestedEvolution X W src target st =
     (if type_id (field_type src) \<noteq> type_id target
      then Inl (NotImplementedException (''Type evolution is not supported from type '' @ ev_type_string X (field_type src) @
                  '' to type '' @ ev_type_string X target))
      else
        bind_res (nested_child_names X (field_type src)) (\<lambda>names.
        bind_res (nested_children X target) (\<lambda>targets.
        bind_res (evolve_children X W src targets (source_type_map X names) st) (\<lambda>(children, m, info, next_column_id).
        bind_res (drop_leftovers X (field_children src) m info) (\<lambda>info.
        bind_res (DuckLakeFieldId_new (ev_strings X)
            \<lparr>cd_id = GetFieldIndex src, cd_initial_default = null_value, cd_default_value = None\<rparr> (field_name src) target children) (\<lambda>f.
          Inr (f, info, next_column_id)))))))"
| "evolve_children X W src [] m st = Inr ([], m, st)"
| "evolve_children X W src ((nm, ty) # targets) m st =
     (case ci_lookup (ev_strings X) m nm of
        None \<Rightarrow>
          bind_res (new_nested_field X (field_index (GetFieldIndex src)) nm ty st) (\<lambda>(f, st).
          bind_res (evolve_children X W src targets m st) (\<lambda>(fs, m, st). Inr (f # fs, m, st)))
      | Some i \<Rightarrow>
          bind_res (vector_at (field_children src) i) (\<lambda>child.
          bind_res (TypePromotion X W child ty (Some (field_index (GetFieldIndex src))) st) (\<lambda>(f, st).
          bind_res (evolve_children X W src targets (ci_erase (ev_strings X) nm m) st) (\<lambda>(fs, m, st). Inr (f # fs, m, st)))))"
  by pat_completeness auto
termination
proof (relation "measures [\<lambda>x. case x of Inl (X, W, src, target, p, st) \<Rightarrow> field_size src
      | Inr (Inl (X, W, src, target, st)) \<Rightarrow> field_size src | Inr (Inr (X, W, src, ts, m, st)) \<Rightarrow> field_size src,
    \<lambda>x. case x of Inl _ \<Rightarrow> 2 | Inr (Inl _) \<Rightarrow> 1 | Inr (Inr _) \<Rightarrow> 0,
    \<lambda>x. case x of Inr (Inr (X, W, src, ts, m, st)) \<Rightarrow> length ts | _ \<Rightarrow> 0]", goal_cases)
qed (auto simp: vector_at_Inr child_field_size)

declare TypePromotion.simps [simp del]
declare GetNestedEvolution.simps [simp del]

section \<open>Field trees that fit their type\<close>

text \<open>
  The children of a field are those its type nests, in order, with names that agree up to case; children have
  different names. \<open>FieldIdFromType\<close> builds such trees.
\<close>

fun conforms :: "DuckLakeFieldId \<Rightarrow> bool" where
  "conforms (FieldId c n t cs) \<longleftrightarrow>
     (case nested_fields t of
        Inl _ \<Rightarrow> False
      | Inr ts \<Rightarrow> map (\<lambda>(nm, ty). (ascii_lower nm, ty)) ts = map (\<lambda>c. (ascii_lower (field_name c), field_type c)) cs) \<and>
     distinct (map (\<lambda>c. ascii_lower (field_name c)) cs) \<and> list_all conforms cs"

definition pending :: "DuckLakeFieldId list \<Rightarrow> nat ci_map \<Rightarrow> FieldIndex multiset" where
  "pending cs m = sum_list (map (\<lambda>(_, i). mset (tree_ids (cs ! i))) m)"

definition source_map_ok :: "DuckLakeFieldId list \<Rightarrow> nat ci_map \<Rightarrow> bool" where
  "source_map_ok cs m \<longleftrightarrow> distinct (map (\<lambda>(k, _). ascii_lower k) m) \<and>
     (\<forall>(k, i) \<in> set m. i < length cs \<and> ascii_lower k = ascii_lower (field_name (cs ! i)))"

locale evolution =
  fixes X :: evolution_env
  assumes strings: "duckdb_strings (ev_strings X)"
    and not_nested: "\<not> IsNested (ev_types X) t \<Longrightarrow> type_id t \<notin> {STRUCT, LIST, ARRAY, MAP}"
    and hash_order: "mset (ev_hash_order X m) = mset m"
begin

lemma CIEquals [simp]: "StringUtil_CIEquals (ev_strings X) a b \<longleftrightarrow> ascii_lower a = ascii_lower b"
  by (rule duckdb_strings.CIEquals [OF strings])

lemma check_child_names_distinct:
  "check_child_names (ev_strings X) nm seen cs = Inr u \<Longrightarrow>
     distinct (map (\<lambda>c. ascii_lower (field_name c)) cs) \<and> ascii_lower ` set seen \<inter> (\<lambda>c. ascii_lower (field_name c)) ` set cs = {}"
proof (induction cs arbitrary: seen)
  case (Cons c cs)
  then have "ascii_lower (field_name c) \<notin> ascii_lower ` set seen"
    and "check_child_names (ev_strings X) nm (seen @ [field_name c]) cs = Inr u"
    by (auto simp: duckdb_strings.ci_member_iff [OF strings] split: if_splits)
  with Cons.IH [of "seen @ [field_name c]"] show ?case by auto
qed simp

lemma DuckLakeFieldId_new_Inr:
  assumes "DuckLakeFieldId_new (ev_strings X) c n t cs = Inr f"
  shows "f = FieldId c n t cs \<and> distinct (map (\<lambda>c. ascii_lower (field_name c)) cs)"
  using assms check_child_names_distinct [of n "[]" cs] by (auto simp: DuckLakeFieldId_new_def bind_res_Inr_iff)

lemma FieldIdFromType_conforms:
  "FieldIdFromType (ev_strings X) E nm t d i a = Inr (f, j) \<Longrightarrow> conforms f \<and> field_name f = nm \<and> field_type f = t"
  "FieldIdFromTypes (ev_strings X) E cs i a = Inr (fs, j) \<Longrightarrow>
     map (\<lambda>c. (field_name c, field_type c)) fs = cs \<and> list_all conforms fs"
proof (induction "ev_strings X" E nm t d i a and "ev_strings X" E cs i a arbitrary: f j and fs j
    rule: FieldIdFromType_FieldIdFromTypes.induct)
  case (1 E nm t d i a)
  from 1(2) obtain cs fs where cs: "nested_fields t = Inr cs" and u: "check_default t d = Inr ()"
    and fs: "FieldIdFromTypes (ev_strings X) E cs (i + 1) a = Inr (fs, j)"
    and new: "\<exists>c. DuckLakeFieldId_new (ev_strings X) c nm t fs = Inr f"
    by (subst (asm) FieldIdFromType.simps) (auto simp: bind_res_Inr_iff split: prod.splits)
  from 1(1) [OF u cs fs] new cs show ?case
    by (auto dest!: DuckLakeFieldId_new_Inr simp: comp_def)
next
  case (3 E nm t cs i a)
  from 3(3) obtain f k gs where f: "FieldIdFromType (ev_strings X) E nm t None i a = Inr (f, k)"
    and gs: "FieldIdFromTypes (ev_strings X) E cs k a = Inr (gs, j)" and fs: "fs = f # gs"
    by (auto simp: bind_res_Inr_iff split: prod.splits)
  from 3(1) [OF f] 3(2) [OF f refl gs] show ?case by (auto simp: fs)
qed auto

lemma map_res_vector_at: "map_res (\<lambda>i. bind_res (vector_at xs i) (\<lambda>c. Inr (g c))) [0..<length xs] = Inr (map g xs)"
proof -
  have "map_res (\<lambda>i. bind_res (vector_at xs i) (\<lambda>c. Inr (g c))) is = Inr (map (\<lambda>i. g (xs ! i)) is)" if "\<forall>i \<in> set is. i < length xs" for "is"
    using that by (induction "is") (auto simp: vector_at_def)
  from this [of "[0..<length xs]"] have "map_res (\<lambda>i. bind_res (vector_at xs i) (\<lambda>c. Inr (g c))) [0..<length xs] = Inr (map (\<lambda>i. g (xs ! i)) [0..<length xs])"
    by simp
  also have "map (\<lambda>i. g (xs ! i)) [0..<length xs] = map g (map ((!) xs) [0..<length xs])" by simp
  finally show ?thesis by (simp only: map_nth)
qed

lemma nested_children_fields:
  assumes "nested_children X t = Inr cs" and "type_id t \<noteq> TUPLE"
  shows "nested_fields t = Inr cs"
proof -
  consider "type_id t = STRUCT" | "type_id t = LIST" | "type_id t = MAP"
    using assms by (auto simp: nested_children_def GetNestedChildCount_def evolution_unsupported_def split: LogicalTypeId.splits)
  then show ?thesis
  proof cases
    case 1
    have "(\<lambda>i. bind_res (GetNestedChildName X t i) (\<lambda>nm. bind_res (GetNestedChildType X t i) (\<lambda>ty. Inr (nm, ty)))) =
      (\<lambda>i. bind_res (vector_at (type_children t) i) (\<lambda>c. Inr ((\<lambda>c. c) c)))"
      using 1 by (auto simp: GetNestedChildName_def GetNestedChildType_def vector_at_def)
    then show ?thesis
      using assms(1) 1 map_res_vector_at [of "type_children t" "\<lambda>c. c"]
      by (simp add: nested_children_def GetNestedChildCount_def nested_fields_def)
  next
    case 2
    then show ?thesis
      using assms(1) by (cases "type_children t")
        (auto simp: nested_children_def GetNestedChildCount_def GetNestedChildName_def GetNestedChildType_def nested_fields_def vector_at_def)
  next
    case 3
    then show ?thesis
      using assms(1) by (cases "type_children t" rule: remdups_adj.cases)
        (auto simp: nested_children_def GetNestedChildCount_def GetNestedChildName_def GetNestedChildType_def nested_fields_def vector_at_def
          upt_rec numeral_2_eq_2)
  qed
qed

lemma nested_child_names_fields:
  assumes "nested_child_names X t = Inr names" and "type_id t \<noteq> TUPLE" and "nested_fields t = Inr cs"
  shows "names = map fst cs"
proof -
  consider "type_id t = STRUCT" | "type_id t = LIST" | "type_id t = MAP"
    using assms(1,2) by (auto simp: nested_child_names_def GetNestedChildCount_def evolution_unsupported_def split: LogicalTypeId.splits)
  then show ?thesis
  proof cases
    case 1
    have "GetNestedChildName X t = (\<lambda>i. bind_res (vector_at (type_children t) i) (\<lambda>c. Inr (fst c)))"
      using 1 by (auto simp: GetNestedChildName_def)
    then show ?thesis
      using assms(1,3) 1 map_res_vector_at [of "type_children t" fst]
      by (simp add: nested_child_names_def GetNestedChildCount_def nested_fields_def)
  qed (use assms(1,3) in \<open>auto simp: nested_child_names_def GetNestedChildCount_def GetNestedChildName_def nested_fields_def
      upt_rec numeral_2_eq_2 split: list.splits\<close>)
qed

section \<open>The map of source names\<close>

lemma source_type_map_eq:
  assumes "distinct (map ascii_lower names)"
  shows "source_type_map X names = zip names [0..<length names]"
proof -
  have "fold (\<lambda>(i, nm). ci_update (ev_strings X) nm i (\<lambda>_. i)) (enumerate n names) m = m @ map (\<lambda>(i, nm). (nm, i)) (enumerate n names)"
    if "distinct (map ascii_lower names)" "ascii_lower ` fst ` set m \<inter> ascii_lower ` set names = {}" for n m
    using that
  proof (induction names arbitrary: n m)
    case (Cons nm names)
    have "ci_update (ev_strings X) nm n (\<lambda>_. n) m = m @ [(nm, n)]"
      using Cons.prems(2) by (induction m) auto
    with Cons show ?case by auto
  qed simp
  from this [of "[]" 0] assms show ?thesis
    by (simp add: source_type_map_def enumerate_eq_zip zip_commute [of names])
qed

lemma map_zip_first: "length xs = length ys \<Longrightarrow> map (\<lambda>(x, _). g x) (zip xs ys) = map g xs"
  by (induction rule: list_induct2) auto

lemma map_zip_second: "length xs = length ys \<Longrightarrow> map (\<lambda>(_, y). g y) (zip xs ys) = map g ys"
  by (induction rule: list_induct2) auto

lemma pending_initial:
  assumes "length names = length cs" and "distinct (map ascii_lower names)"
  shows "pending cs (source_type_map X names) = mset (forest_ids cs)"
proof -
  have "map (\<lambda>(_, i). mset (tree_ids (cs ! i))) (source_type_map X names) = map (\<lambda>i. mset (tree_ids (cs ! i))) [0..<length cs]"
    using assms by (simp add: source_type_map_eq map_zip_second)
  moreover have "map (\<lambda>i. mset (tree_ids (cs ! i))) [0..<length cs] = map (\<lambda>c. mset (tree_ids c)) (map ((!) cs) [0..<length cs])" by simp
  moreover have "sum_list (map (\<lambda>c. mset (tree_ids c)) cs) = mset (forest_ids cs)" by (induction cs) auto
  ultimately show ?thesis by (simp add: pending_def map_nth)
qed

lemma source_map_initial:
  assumes "map ascii_lower names = map (\<lambda>c. ascii_lower (field_name c)) cs" and "distinct (map (\<lambda>c. ascii_lower (field_name c)) cs)"
  shows "source_map_ok cs (source_type_map X names)"
proof -
  have len: "length names = length cs" using arg_cong [OF assms(1), of length] by simp
  have "ascii_lower (names ! i) = ascii_lower (field_name (cs ! i))" if "i < length cs" for i
    using arg_cong [OF assms(1), of "\<lambda>xs. xs ! i"] that len by simp
  then show ?thesis
    using assms len by (auto simp: source_map_ok_def source_type_map_eq map_zip_first set_zip)
qed

lemma source_map_lookup:
  assumes "source_map_ok cs m" and "ci_lookup (ev_strings X) m nm = Some i"
  shows "i < length cs" and "ascii_lower nm = ascii_lower (field_name (cs ! i))"
    and "source_map_ok cs (ci_erase (ev_strings X) nm m)"
    and "pending cs m = mset (tree_ids (cs ! i)) + pending cs (ci_erase (ev_strings X) nm m)"
proof -
  show "source_map_ok cs (ci_erase (ev_strings X) nm m)"
    using assms(1) by (auto simp: source_map_ok_def ci_erase_def case_prod_unfold distinct_map_filter)
  from assms show "i < length cs" "ascii_lower nm = ascii_lower (field_name (cs ! i))"
    by (induction m) (auto simp: source_map_ok_def split: if_splits)
  from assms show "pending cs m = mset (tree_ids (cs ! i)) + pending cs (ci_erase (ev_strings X) nm m)"
  proof (induction m)
    case (Cons e m)
    obtain k j where e: "e = (k, j)" by (cases e)
    show ?case
    proof (cases "ascii_lower k = ascii_lower nm")
      case True
      with Cons.prems e have "ci_erase (ev_strings X) nm m = m"
        by (force simp: source_map_ok_def ci_erase_def filter_id_conv)
      with True Cons.prems(2) show ?thesis by (simp add: e pending_def ci_erase_def)
    next
      case False
      with Cons show ?thesis by (simp add: e pending_def ci_erase_def source_map_ok_def ac_simps)
    qed
  qed simp
qed

section \<open>The result of a promotion fits the target type\<close>

lemma conforms_children:
  assumes "conforms src"
  obtains cs where "nested_fields (field_type src) = Inr cs"
    and "map (\<lambda>(nm, ty). (ascii_lower nm, ty)) cs = map (\<lambda>c. (ascii_lower (field_name c), field_type c)) (field_children src)"
    and "distinct (map (\<lambda>c. ascii_lower (field_name c)) (field_children src))" and "list_all conforms (field_children src)"
  using assms by (cases src) (auto split: sum.splits)

lemma conforms_names:
  assumes "conforms src" and "nested_child_names X (field_type src) = Inr names" and "field_children src \<noteq> []"
  shows "map ascii_lower names = map (\<lambda>c. ascii_lower (field_name c)) (field_children src)" and "type_id (field_type src) \<noteq> TUPLE"
proof -
  obtain cs where cs: "nested_fields (field_type src) = Inr cs"
    "map (\<lambda>(nm, ty). (ascii_lower nm, ty)) cs = map (\<lambda>c. (ascii_lower (field_name c), field_type c)) (field_children src)"
    using conforms_children [OF assms(1)] by metis
  show "type_id (field_type src) \<noteq> TUPLE" using cs assms(3) by (auto simp: nested_fields_def)
  from nested_child_names_fields [OF assms(2) this cs(1)] have "map ascii_lower names = map fst (map (\<lambda>(nm, ty). (ascii_lower nm, ty)) cs)"
    by (simp add: comp_def case_prod_unfold)
  also have "\<dots> = map (\<lambda>c. ascii_lower (field_name c)) (field_children src)" unfolding cs(2) by (simp add: comp_def)
  finally show "map ascii_lower names = map (\<lambda>c. ascii_lower (field_name c)) (field_children src)" .
qed

lemma promote_leaf_conforms:
  assumes "promote_leaf X W src target p info = Inr (f, info')" and "conforms src" and "field_children src = []"
  shows "conforms f \<and> field_type f = target \<and> field_name f = field_name src \<and> GetFieldIndex f = GetFieldIndex src"
proof (cases "field_type src = target")
  case True
  with assms show ?thesis by (auto simp: promote_leaf_def Let_def)
next
  case False
  then have "\<not> IsNested (ev_types X) target"
    and f: "f = FieldId \<lparr>cd_id = GetFieldIndex src, cd_initial_default = null_value, cd_default_value = None\<rparr> (field_name src) target []"
    using assms(1) by (auto simp: promote_leaf_def Let_def bind_res_Inr_iff split: if_splits)
  then have "nested_fields target = Inr []"
    using not_nested [of target] by (auto simp: nested_fields_def split: LogicalTypeId.splits)
  then show ?thesis by (simp add: f)
qed

lemma new_nested_field_conforms:
  "new_nested_field X parent nm ty st = Inr (f, st') \<Longrightarrow> conforms f \<and> field_name f = nm \<and> field_type f = ty"
  by (auto simp: new_nested_field_def bind_res_Inr_iff dest: FieldIdFromType_conforms split: option.splits prod.splits)

end

lemma promotion_conforms:
  "TypePromotion X W src target p st = Inr (f, st') \<Longrightarrow> evolution X \<Longrightarrow> conforms src \<Longrightarrow>
     conforms f \<and> field_type f = target \<and> field_name f = field_name src \<and> GetFieldIndex f = GetFieldIndex src"
  "GetNestedEvolution X W src target st = Inr (f, st') \<Longrightarrow> evolution X \<Longrightarrow> conforms src \<Longrightarrow> field_children src \<noteq> [] \<Longrightarrow>
     conforms f \<and> field_type f = target \<and> field_name f = field_name src \<and> GetFieldIndex f = GetFieldIndex src"
  "evolve_children X W src targets m st = Inr (fs, m', st') \<Longrightarrow> evolution X \<Longrightarrow> conforms src \<Longrightarrow> source_map_ok (field_children src) m \<Longrightarrow>
     map (\<lambda>c. (ascii_lower (field_name c), field_type c)) fs = map (\<lambda>(nm, ty). (ascii_lower nm, ty)) targets \<and> list_all conforms fs \<and>
     source_map_ok (field_children src) m'"
proof (induction X W src target p st and X W src target st and X W src targets m st arbitrary: f st' and f st' and fs m' st'
    rule: TypePromotion_GetNestedEvolution_evolve_children.induct)
  case (1 X W src target p st)
  show ?case
  proof (cases "field_children src = []")
    case True
    with 1(2-) show ?thesis
      using evolution.promote_leaf_conforms by (subst (asm) TypePromotion.simps) (fastforce simp: bind_res_Inr_iff)
  next
    case False
    with 1 show ?thesis by (simp add: TypePromotion.simps)
  qed
next
  case (2 X W src target st)
  from 2(2) obtain names targets children m st1 where same: "\<not> type_id (field_type src) \<noteq> type_id target"
    and names: "nested_child_names X (field_type src) = Inr names" and targets: "nested_children X target = Inr targets"
    and loop: "evolve_children X W src targets (source_type_map X names) st = Inr (children, m, st1)"
    and new: "DuckLakeFieldId_new (ev_strings X) \<lparr>cd_id = GetFieldIndex src, cd_initial_default = null_value, cd_default_value = None\<rparr>
        (field_name src) target children = Inr f"
    by (subst (asm) GetNestedEvolution.simps) (auto simp: bind_res_Inr_iff split: if_splits)
  note n = evolution.conforms_names [OF 2(3,4) names 2(5)]
  have ok: "source_map_ok (field_children src) (source_type_map X names)"
    using evolution.source_map_initial [OF 2(3) n(1)] 2(4) by (cases src) simp
  have "nested_fields target = Inr targets"
    using evolution.nested_children_fields [OF 2(3) targets] n(2) same by simp
  then show ?case
    using 2(1) [OF same names targets loop 2(3,4) ok] evolution.DuckLakeFieldId_new_Inr [OF 2(3) new] by auto
next
  case (4 X W src nm ty targets m st)
  show ?case
  proof (cases "ci_lookup (ev_strings X) m nm")
    case None
    with 4(4) obtain f st1 gs where f: "new_nested_field X (field_index (GetFieldIndex src)) nm ty st = Inr (f, st1)"
      and rest: "evolve_children X W src targets m st1 = Inr (gs, m', st')" and fs: "fs = f # gs"
      by (auto simp: bind_res_Inr_iff)
    from 4(1) [OF None f refl rest 4(5-)] evolution.new_nested_field_conforms [OF 4(5) f] show ?thesis by (simp add: fs)
  next
    case (Some i)
    with 4(4) obtain child f st1 gs where child: "vector_at (field_children src) i = Inr child"
      and f: "TypePromotion X W child ty (Some (field_index (GetFieldIndex src))) st = Inr (f, st1)"
      and rest: "evolve_children X W src targets (ci_erase (ev_strings X) nm m) st1 = Inr (gs, m', st')" and fs: "fs = f # gs"
      by (auto simp: bind_res_Inr_iff)
    note l = evolution.source_map_lookup [OF 4(5,7) Some]
    have c: "conforms child" using child 4(6) by (cases src) (auto simp: vector_at_Inr list_all_iff)
    from 4(2) [OF Some child f 4(5) c] 4(3) [OF Some child f refl rest 4(5,6) l(3)] l(2) child show ?thesis
      by (simp add: fs vector_at_Inr)
  qed
qed auto

section \<open>The recorded changes describe the difference\<close>

text \<open>The columns an entry stands for: its own and those nested in it.\<close>

fun column_ids :: "DuckLakeColumnInfo \<Rightarrow> FieldIndex list" where
  "column_ids (ColumnInfo i n t init def dtype nulls cs) = i # concat (map column_ids cs)"

definition new_column_ids :: "ColumnChangeInfo \<Rightarrow> FieldIndex list" where
  "new_column_ids info = concat (map (\<lambda>c. column_ids (nc_column_info c)) (new_fields info))"

lemma DropField_ids_eq: "DropField_ids f = tree_ids f"
  by (induction f) (auto cong: map_cong)

lemma RemoveColumns_eq: "RemoveColumns f = tree_ids f"
  by (induction f) (auto cong: map_cong)

lemma column_ids_set_type [simp]: "column_ids (set_type_text s c) = column_ids c"
  by (cases c) simp

lemma converted_children_fields:
  assumes "converted_children X t = Inr r" and "nested_fields t = Inr cs" and "type_id t \<noteq> TUPLE"
  shows "r = Some cs \<or> r = None \<and> cs = []"
  using assms
  by (auto simp: converted_children_def nested_fields_def bind_res_Inr_iff vector_at_Inr split: LogicalTypeId.splits list.splits)

lemma ConvertColumn_ids:
  assumes "ConvertColumn X nm t f = Inr ci" and "conforms f" and "field_type f = t"
  shows "column_ids ci = tree_ids f"
  using assms
proof (induction X nm t f arbitrary: ci rule: ConvertColumn.induct)
  case (1 X nm t f)
  obtain c n fs where f: "f = FieldId c n t fs" using 1(4) by (cases f) auto
  obtain ts where ts: "nested_fields t = Inr ts"
    "map (\<lambda>(nm, ty). (ascii_lower nm, ty)) ts = map (\<lambda>c. (ascii_lower (field_name c), field_type c)) fs"
    and all: "list_all conforms fs" using 1(3) by (auto simp: f split: sum.splits)
  from 1(2) obtain text' r where text': "ToString (ev_strings X) (ev_types X) t = Inr text'" and r: "converted_children X t = Inr r"
    by (subst (asm) ConvertColumn.simps) (auto simp: bind_res_Inr_iff)
  show ?case
  proof (cases r)
    case None
    have "ts = []"
      using converted_children_fields [OF _ ts(1)] r None by (cases "type_id t = TUPLE") (auto simp: converted_children_def)
    with 1(2) ts(2) show ?thesis
      by (subst (asm) ConvertColumn.simps) (auto simp: text' r None f split: prod.splits)
  next
    case (Some cs)
    from 1(2) obtain children where children: "list_all2 (\<lambda>i y. bind_res (vector_at fs i) (\<lambda>child_id.
        ConvertColumn X (fst (cs ! i)) (snd (cs ! i)) child_id) = Inr y) [0..<length cs] children"
      and ci: "ci = ColumnInfo (cd_id c) nm text' null_value null_value [] True children"
      by (subst (asm) ConvertColumn.simps) (auto simp: text' r Some f bind_res_Inr_iff map_res_Inr_iff)
    have len: "length children = length cs" using list_all2_lengthD [OF children] by simp
    have cs: "length fs = length cs \<and> (\<forall>i < length cs. field_type (fs ! i) = snd (cs ! i))"
    proof (cases "type_id t = TUPLE")
      case True
      then have "fs = []" using ts by (auto simp: nested_fields_def)
      moreover have "cs = []"
      proof (rule ccontr)
        assume "cs \<noteq> []"
        then have "0 < length [0..<length cs]" by simp
        from list_all2_nthD [OF children this] \<open>fs = []\<close> show False by (simp add: vector_at_def)
      qed
      ultimately show ?thesis by simp
    next
      case False
      then have "cs = ts" using converted_children_fields [OF r ts(1)] Some by simp
      moreover have "length ts = length fs" using arg_cong [OF ts(2), of length] by simp
      moreover have "snd (ts ! i) = field_type (fs ! i)" if "i < length fs" for i
        using arg_cong [OF ts(2), of "\<lambda>xs. snd (xs ! i)"] that calculation(2) by (simp add: case_prod_unfold)
      ultimately show ?thesis by simp
    qed
    have "column_ids (children ! i) = tree_ids (fs ! i)" if i: "i < length cs" for i
    proof -
      have conv: "ConvertColumn X (fst (cs ! i)) (snd (cs ! i)) (fs ! i) = Inr (children ! i)"
        using list_all2_nthD [OF children, of i] i cs by (simp add: vector_at_def)
      have "i \<in> set [0..<length cs]" "vector_at (field_children f) i = Inr (fs ! i)" using i cs by (auto simp: f vector_at_def)
      moreover have "conforms (fs ! i)" using all i cs by (simp add: list_all_length)
      ultimately show ?thesis using 1(1) [OF text' r _ _ _ conv] Some cs i by blast
    qed
    then have "map column_ids children = map tree_ids fs" using len cs by (simp add: list_eq_iff_nth_eq)
    then show ?thesis by (simp add: ci f)
  qed
qed

text \<open>
  Between two states of the evolution, \<open>before\<close> are the columns that were taken up, \<open>after\<close> those that came out and \<open>rest\<close> those still to be
  handled: the columns taken up and the new ones recorded are those that came out, the rest and the dropped ones recorded; what came out was
  taken up or has one of the next identifiers, all of which are used.
\<close>

definition ledger :: "FieldIndex multiset \<Rightarrow> evolution_state \<Rightarrow> FieldIndex multiset \<Rightarrow> evolution_state \<Rightarrow> bool" where
  "ledger before st after st' \<longleftrightarrow>
     before + mset (new_column_ids (fst st')) + mset (dropped_fields (fst st)) =
     after + mset (dropped_fields (fst st')) + mset (new_column_ids (fst st))"

definition numbered :: "FieldIndex multiset \<Rightarrow> evolution_state \<Rightarrow> FieldIndex multiset \<Rightarrow> FieldIndex multiset \<Rightarrow> evolution_state \<Rightarrow> bool" where
  "numbered before st after rest st' \<longleftrightarrow> (\<exists>k kept. (snd st = None \<longrightarrow> k = 0) \<and> snd st' = map_option (\<lambda>i. i + of_nat k) (snd st) \<and>
     kept + rest \<subseteq># before \<and> after = kept + mset (consecutive (case snd st of Some i \<Rightarrow> i | None \<Rightarrow> 0) k))"

definition evolves :: "FieldIndex multiset \<Rightarrow> evolution_state \<Rightarrow> FieldIndex multiset \<Rightarrow> FieldIndex multiset \<Rightarrow> evolution_state \<Rightarrow> bool" where
  "evolves before st after rest st' \<longleftrightarrow> ledger before st (after + rest) st' \<and> numbered before st after rest st'"

lemma ledger_trans:
  assumes "ledger a st b st1" and "ledger c st1 d st2"
  shows "ledger (a + c) st (b + d) st2"
  unfolding ledger_def multiset_eq_iff
proof
  fix x
  from assms have "count (a + mset (new_column_ids (fst st1)) + mset (dropped_fields (fst st))) x =
      count (b + mset (dropped_fields (fst st1)) + mset (new_column_ids (fst st))) x"
    and "count (c + mset (new_column_ids (fst st2)) + mset (dropped_fields (fst st1))) x =
      count (d + mset (dropped_fields (fst st2)) + mset (new_column_ids (fst st1))) x"
    unfolding ledger_def by simp_all
  then show "count (a + c + mset (new_column_ids (fst st2)) + mset (dropped_fields (fst st))) x =
      count (b + d + mset (dropped_fields (fst st2)) + mset (new_column_ids (fst st))) x"
    by (simp only: count_union)
qed

lemma ledger_consume:
  assumes "ledger a st (b + p) st1" and "ledger p st1 {#} st2"
  shows "ledger a st b st2"
proof -
  have "ledger (a + p) st ((b + p) + {#}) st2" using assms by (rule ledger_trans)
  then have "a + mset (new_column_ids (fst st2)) + mset (dropped_fields (fst st)) + p =
      b + mset (dropped_fields (fst st2)) + mset (new_column_ids (fst st)) + p"
    unfolding ledger_def by (simp only: ac_simps add_0_right add_0_left)
  then show ?thesis unfolding ledger_def by (rule add_right_imp_eq)
qed

lemma numberedE:
  assumes "numbered before st after rest st'"
  obtains k kept where "snd st = None \<longrightarrow> k = 0" and "snd st' = map_option (\<lambda>i. i + of_nat k) (snd st)"
    and "kept + rest \<subseteq># before" and "after = kept + mset (consecutive (case snd st of Some i \<Rightarrow> i | None \<Rightarrow> 0) k)"
  using assms unfolding numbered_def by (elim exE conjE) (rule that)

lemma numbered_trans:
  assumes "numbered a st b r st1" and "numbered c st1 d s st2"
  shows "numbered (a + c) st (b + d) (r + s) st2"
proof -
  obtain k kept where k: "snd st = None \<longrightarrow> k = 0" "snd st1 = map_option (\<lambda>i. i + of_nat k) (snd st)"
    "kept + r \<subseteq># a" "b = kept + mset (consecutive (case snd st of Some i \<Rightarrow> i | None \<Rightarrow> 0) k)"
    using assms(1) by (rule numberedE)
  obtain l kept' where l: "snd st1 = None \<longrightarrow> l = 0" "snd st2 = map_option (\<lambda>i. i + of_nat l) (snd st1)"
    "kept' + s \<subseteq># c" "d = kept' + mset (consecutive (case snd st1 of Some i \<Rightarrow> i | None \<Rightarrow> 0) l)"
    using assms(2) by (rule numberedE)
  have "(kept + r) + (kept' + s) = (kept + kept') + (r + s)" by (simp only: ac_simps)
  with subset_mset.add_mono [OF k(3) l(3)] have sub: "(kept + kept') + (r + s) \<subseteq># a + c" by simp
  show ?thesis
  proof (cases "snd st")
    case None
    with k l have "k = 0" "l = 0" "snd st1 = None" "snd st2 = None" by auto
    then show ?thesis
      using sub None k(4) l(4) unfolding numbered_def by (intro exI [of _ 0] exI [of _ "kept + kept'"]) simp
  next
    case (Some i)
    then have "b + d = (kept + mset (consecutive i k)) + (kept' + mset (consecutive (i + of_nat k) l))"
      using k(2,4) l(4) by simp
    also have "\<dots> = (kept + kept') + mset (consecutive i (k + l))" by (simp add: consecutive_add)
    finally show ?thesis
      using Some k(2) l(2) sub unfolding numbered_def
      by (intro exI [of _ "k + l"] exI [of _ "kept + kept'"]) (simp add: add.assoc)
  qed
qed

lemma evolves_trans:
  assumes "evolves a st b r st1" and "evolves c st1 d s st2"
  shows "evolves (a + c) st (b + d) (r + s) st2"
proof -
  have "ledger (a + c) st ((b + r) + (d + s)) st2" using assms ledger_trans unfolding evolves_def by blast
  moreover have "(b + r) + (d + s) = (b + d) + (r + s)" by (simp only: ac_simps)
  ultimately show ?thesis using assms numbered_trans unfolding evolves_def by metis
qed

lemma numbered_same: "snd st' = snd st \<Longrightarrow> after + rest \<subseteq># before \<Longrightarrow> numbered before st after rest st'"
  unfolding numbered_def by (intro exI [of _ 0] exI [of _ after]) (simp add: option.map_ident)

lemma evolves_refl: "evolves a st a {#} st"
  unfolding evolves_def by (simp add: numbered_same) (simp add: ledger_def)

lemma evolves_rest: "evolves a st {#} a st"
  unfolding evolves_def by (simp add: numbered_same) (simp add: ledger_def)

lemma ledger_drop: "ledger (mset (tree_ids f)) (info, n) {#} (DropField f info, n')"
  by (simp add: ledger_def DropField_def DropField_ids_eq new_column_ids_def)

lemma evolves_new:
  assumes "new_nested_field X parent nm ty st = Inr (f, st')" and "evolution X"
  shows "evolves {#} st (mset (tree_ids f)) {#} st'"
proof -
  obtain info n ci j where st: "st = (info, Some n)"
    and f: "FieldIdFromType (ev_strings X) (ev_exprs X) nm ty None n False = Inr (f, j)" and ci: "ConvertColumn X nm ty f = Inr ci"
    and st': "st' = (info\<lparr>new_fields := new_fields info @ [\<lparr>nc_column_info = ci, nc_parent_idx = Some parent\<rparr>]\<rparr>, Some j)"
    using assms(1) by (auto simp: new_nested_field_def bind_res_Inr_iff split: prod.splits option.splits)
  have "column_ids ci = tree_ids f"
    using ConvertColumn_ids [OF ci] evolution.FieldIdFromType_conforms(1) [OF assms(2) f] by blast
  then show ?thesis
    using FieldIdFromType_ids(1) [OF f] unfolding evolves_def ledger_def numbered_def
    by (auto simp: st st' new_column_ids_def intro!: exI [of _ "field_size f"])
qed

lemma evolves_leaf:
  assumes "promote_leaf X W src target p info = Inr (f, info')" and "field_children src = []"
  shows "evolves (mset (tree_ids src)) (info, n) (mset (tree_ids f)) {#} (info', n)"
proof (cases "field_type src = target")
  case True
  with assms show ?thesis by (auto simp: promote_leaf_def Let_def intro: evolves_refl)
next
  case False
  then obtain ci t where f: "f = FieldId \<lparr>cd_id = GetFieldIndex src, cd_initial_default = null_value, cd_default_value = None\<rparr> (field_name src) target []"
    and ci: "(case p of None \<Rightarrow> GetColumnInfo X W (GetFieldIndex src)
                  | Some _ \<Rightarrow> Inr (ColumnInfo (GetFieldIndex src) (field_name src) [] null_value null_value [] False [])) = Inr ci"
    and info': "info' = (DropField src info)\<lparr>new_fields := new_fields info @ [\<lparr>nc_column_info = set_type_text t ci, nc_parent_idx = p\<rparr>]\<rparr>"
    using assms(1) by (auto simp: promote_leaf_def Let_def bind_res_Inr_iff DropField_def split: if_splits)
  have "column_ids ci = [GetFieldIndex src]"
    using ci by (auto simp: GetColumnInfo_def Let_def case_prod_unfold bind_res_Inr_iff split: option.splits)
  moreover have "tree_ids src = [GetFieldIndex src]" using assms(2) by (cases src) simp
  ultimately show ?thesis
    unfolding evolves_def by (simp add: f numbered_same) (simp add: ledger_def info' DropField_def DropField_ids_eq new_column_ids_def)
qed

lemma ledger_leftovers:
  assumes "drop_leftovers X cs m info = Inr info'" and "evolution X"
  shows "ledger (pending cs m) (info, n) {#} (info', n)"
proof -
  have "ledger (pending cs es) (info, n) {#} (info', n)"
    if "fold_res (\<lambda>(_, i) info. bind_res (vector_at cs i) (\<lambda>f. Inr (DropField f info))) es info = Inr info'" for es info
    using that
  proof (induction es arbitrary: info)
    case Nil
    then show ?case by (simp add: pending_def ledger_def)
  next
    case (Cons e es)
    then obtain i where i: "snd e = i" "i < length cs"
      and rest: "fold_res (\<lambda>(_, i) info. bind_res (vector_at cs i) (\<lambda>f. Inr (DropField f info))) es (DropField (cs ! i) info) = Inr info'"
      by (cases e) (auto simp: bind_res_Inr_iff vector_at_Inr)
    from ledger_trans [OF ledger_drop [of "cs ! i" info n n] Cons.IH [OF rest]] i(1) show ?case
      by (cases e) (simp add: pending_def)
  qed
  moreover have "pending cs (ev_hash_order X m) = pending cs m"
    unfolding pending_def sum_mset_sum_list [symmetric] mset_map evolution.hash_order [OF assms(2)] ..
  ultimately show ?thesis using assms(1) unfolding drop_leftovers_def by metis
qed

lemma evolves_finish:
  assumes "evolves a st b p (info, n)" and "ledger p (info, n) {#} (info', n)"
  shows "evolves a st b {#} (info', n)"
proof -
  have "ledger a st b (info', n)" using assms ledger_consume unfolding evolves_def by blast
  moreover have "numbered a st b p (info, n)" using assms(1) unfolding evolves_def ..
  then have "numbered a st b {#} (info', n)"
  proof (rule numberedE)
    fix k kept assume k: "snd st = None \<longrightarrow> k = 0" "snd (info, n) = map_option (\<lambda>i. i + of_nat k) (snd st)"
      "kept + p \<subseteq># a" "b = kept + mset (consecutive (case snd st of Some i \<Rightarrow> i | None \<Rightarrow> 0) k)"
    have "kept \<subseteq># a" by (rule subset_mset.order_trans [OF _ k(3)]) simp
    then have "kept + {#} \<subseteq># a" by simp
    then show ?thesis unfolding numbered_def using k by (intro exI [of _ k] exI [of _ kept]) simp
  qed
  ultimately show ?thesis unfolding evolves_def by simp
qed

lemma promotion_evolves:
  "TypePromotion X W src target p st = Inr (f, st') \<Longrightarrow> evolution X \<Longrightarrow> conforms src \<Longrightarrow>
     evolves (mset (tree_ids src)) st (mset (tree_ids f)) {#} st'"
  "GetNestedEvolution X W src target st = Inr (f, st') \<Longrightarrow> evolution X \<Longrightarrow> conforms src \<Longrightarrow> field_children src \<noteq> [] \<Longrightarrow>
     evolves (mset (tree_ids src)) st (mset (tree_ids f)) {#} st'"
  "evolve_children X W src targets m st = Inr (fs, m', st') \<Longrightarrow> evolution X \<Longrightarrow> conforms src \<Longrightarrow> source_map_ok (field_children src) m \<Longrightarrow>
     evolves (pending (field_children src) m) st (mset (forest_ids fs)) (pending (field_children src) m') st'"
proof (induction X W src target p st and X W src target st and X W src targets m st arbitrary: f st' and f st' and fs m' st'
    rule: TypePromotion_GetNestedEvolution_evolve_children.induct)
  case (1 X W src target p st)
  show ?case
  proof (cases "field_children src = []")
    case True
    with 1(2) show ?thesis
      using evolves_leaf [OF _ True, of X W target p "fst st" _ _ "snd st"]
      by (subst (asm) TypePromotion.simps) (auto simp: bind_res_Inr_iff)
  next
    case False
    with 1 show ?thesis by (simp add: TypePromotion.simps)
  qed
next
  case (2 X W src target st)
  from 2(2) obtain names targets children m info n info' where same: "\<not> type_id (field_type src) \<noteq> type_id target"
    and names: "nested_child_names X (field_type src) = Inr names" and targets: "nested_children X target = Inr targets"
    and loop: "evolve_children X W src targets (source_type_map X names) st = Inr (children, m, info, n)"
    and left: "drop_leftovers X (field_children src) m info = Inr info'"
    and new: "DuckLakeFieldId_new (ev_strings X) \<lparr>cd_id = GetFieldIndex src, cd_initial_default = null_value, cd_default_value = None\<rparr>
        (field_name src) target children = Inr f" and st': "st' = (info', n)"
    by (subst (asm) GetNestedEvolution.simps) (auto simp: bind_res_Inr_iff split: if_splits)
  note nm = evolution.conforms_names [OF 2(3,4) names 2(5)]
  have dist: "distinct (map (\<lambda>c. ascii_lower (field_name c)) (field_children src))" using 2(4) by (cases src) simp
  have len: "length names = length (field_children src)" using arg_cong [OF nm(1), of length] by simp
  have pend: "pending (field_children src) (source_type_map X names) = mset (forest_ids (field_children src))"
    using evolution.pending_initial [OF 2(3) len] nm(1) dist by simp
  have "evolves (pending (field_children src) (source_type_map X names)) st (mset (forest_ids children)) (pending (field_children src) m) (info, n)"
    by (rule 2(1) [OF same names targets loop 2(3,4) evolution.source_map_initial [OF 2(3) nm(1) dist]])
  from evolves_finish [OF this ledger_leftovers [OF left 2(3)]]
  have forest: "evolves (mset (forest_ids (field_children src))) st (mset (forest_ids children)) {#} st'"
    unfolding pend st' .
  have "tree_ids f = GetFieldIndex src # forest_ids children" "tree_ids src = GetFieldIndex src # forest_ids (field_children src)"
    using evolution.DuckLakeFieldId_new_Inr [OF 2(3) new] by (cases src; simp)+
  then show ?case using evolves_trans [OF evolves_refl [of "{#GetFieldIndex src#}"] forest] by simp
next
  case (4 X W src nm ty targets m st)
  show ?case
  proof (cases "ci_lookup (ev_strings X) m nm")
    case None
    with 4(4) obtain f st1 gs where f: "new_nested_field X (field_index (GetFieldIndex src)) nm ty st = Inr (f, st1)"
      and rest: "evolve_children X W src targets m st1 = Inr (gs, m', st')" and fs: "fs = f # gs"
      by (auto simp: bind_res_Inr_iff)
    from evolves_trans [OF evolves_new [OF f 4(5)] 4(1) [OF None f refl rest 4(5-)]] show ?thesis by (simp add: fs)
  next
    case (Some i)
    with 4(4) obtain child f st1 gs where child: "vector_at (field_children src) i = Inr child"
      and f: "TypePromotion X W child ty (Some (field_index (GetFieldIndex src))) st = Inr (f, st1)"
      and rest: "evolve_children X W src targets (ci_erase (ev_strings X) nm m) st1 = Inr (gs, m', st')" and fs: "fs = f # gs"
      by (auto simp: bind_res_Inr_iff)
    note l = evolution.source_map_lookup [OF 4(5,7) Some]
    have c: "conforms child" using child 4(6) by (cases src) (auto simp: vector_at_Inr list_all_iff)
    from evolves_trans [OF 4(2) [OF Some child f 4(5) c] 4(3) [OF Some child f refl rest 4(5,6) l(3)]] l(4) child show ?thesis
      by (simp add: fs vector_at_Inr)
  qed
qed (auto intro: evolves_rest)

section \<open>Only widening changes\<close>

text \<open>
  A field without children keeps its type or is promoted; a nested field keeps its kind, and its children of the same
  name keep their identifiers and widen in turn.
\<close>

fun widens :: "evolution_env \<Rightarrow> DuckLakeFieldId \<Rightarrow> DuckLakeFieldId \<Rightarrow> bool" where
  "widens X (FieldId c n t cs) f \<longleftrightarrow>
     (if cs = [] then field_type f = t \<or> TypePromotionIsAllowed X t (field_type f)
      else type_id (field_type f) = type_id t \<and>
        (\<forall>h \<in> set cs. \<forall>g \<in> set (field_children f). ascii_lower (field_name g) = ascii_lower (field_name h) \<longrightarrow>
           GetFieldIndex g = GetFieldIndex h \<and> widens X h g))"

lemma ci_lookup_None_keys:
  "evolution X \<Longrightarrow> ci_lookup (ev_strings X) m nm = None \<Longrightarrow> (k, i) \<in> set m \<Longrightarrow> ascii_lower k \<noteq> ascii_lower nm"
  by (induction m) (auto simp: evolution.CIEquals split: if_splits)

lemma ci_lookup_unique:
  assumes "evolution X" and "ci_lookup (ev_strings X) m nm = Some i" and "source_map_ok cs m" and "(k, j) \<in> set m" and "ascii_lower k = ascii_lower nm"
  shows "j = i"
  using assms(2-)
proof (induction m)
  case (Cons e m)
  have "source_map_ok cs m" using Cons.prems(2) by (auto simp: source_map_ok_def)
  with Cons show ?case
    by (cases e) (force simp: source_map_ok_def evolution.CIEquals [OF assms(1)] split: if_splits)
qed simp

lemma promotion_widens:
  "TypePromotion X W src target p st = Inr (f, st') \<Longrightarrow> evolution X \<Longrightarrow> conforms src \<Longrightarrow> widens X src f"
  "GetNestedEvolution X W src target st = Inr (f, st') \<Longrightarrow> evolution X \<Longrightarrow> conforms src \<Longrightarrow> field_children src \<noteq> [] \<Longrightarrow> widens X src f"
  "evolve_children X W src targets m st = Inr (fs, m', st') \<Longrightarrow> evolution X \<Longrightarrow> conforms src \<Longrightarrow> source_map_ok (field_children src) m \<Longrightarrow>
     distinct (map (\<lambda>(nm, _). ascii_lower nm) targets) \<Longrightarrow>
     (\<forall>(k, i) \<in> set m. \<forall>g \<in> set fs. ascii_lower (field_name g) = ascii_lower k \<longrightarrow>
        GetFieldIndex g = GetFieldIndex (field_children src ! i) \<and> widens X (field_children src ! i) g)"
proof (induction X W src target p st and X W src target st and X W src targets m st arbitrary: f st' and f st' and fs m' st'
    rule: TypePromotion_GetNestedEvolution_evolve_children.induct)
  case (1 X W src target p st)
  show ?case
  proof (cases "field_children src = []")
    case True
    then obtain info where "promote_leaf X W src target p (fst st) = Inr (f, info)"
      using 1(2) by (subst (asm) TypePromotion.simps) (auto simp: bind_res_Inr_iff)
    then have "field_type f = field_type src \<or> TypePromotionIsAllowed X (field_type src) (field_type f)"
      by (auto simp: promote_leaf_def Let_def bind_res_Inr_iff split: if_splits)
    with True show ?thesis by (cases src) simp
  next
    case False
    with 1 show ?thesis by (simp add: TypePromotion.simps)
  qed
next
  case (2 X W src target st)
  from 2(2) obtain names targets children m st1 where same: "\<not> type_id (field_type src) \<noteq> type_id target"
    and names: "nested_child_names X (field_type src) = Inr names" and targets: "nested_children X target = Inr targets"
    and loop: "evolve_children X W src targets (source_type_map X names) st = Inr (children, m, st1)"
    and new: "DuckLakeFieldId_new (ev_strings X) \<lparr>cd_id = GetFieldIndex src, cd_initial_default = null_value, cd_default_value = None\<rparr>
        (field_name src) target children = Inr f"
    by (subst (asm) GetNestedEvolution.simps) (auto simp: bind_res_Inr_iff split: if_splits)
  note nm = evolution.conforms_names [OF 2(3,4) names 2(5)] and f = evolution.DuckLakeFieldId_new_Inr [OF 2(3) new]
  let ?cs = "field_children src"
  have dist: "distinct (map (\<lambda>c. ascii_lower (field_name c)) ?cs)" using 2(4) by (cases src) simp
  note ok = evolution.source_map_initial [OF 2(3) nm(1) dist]
  have tgt: "map (\<lambda>c. (ascii_lower (field_name c), field_type c)) children = map (\<lambda>(nm, ty). (ascii_lower nm, ty)) targets"
    using promotion_conforms(3) [OF loop 2(3,4) ok] by blast
  have "distinct (map (\<lambda>(nm, _). ascii_lower nm) targets)"
    using f arg_cong [OF tgt, of "map fst"] by (simp add: comp_def case_prod_unfold)
  from 2(1) [OF same names targets loop 2(3,4) ok this]
  have step: "\<forall>(k, i) \<in> set (source_type_map X names). \<forall>g \<in> set children. ascii_lower (field_name g) = ascii_lower k \<longrightarrow>
      GetFieldIndex g = GetFieldIndex (?cs ! i) \<and> widens X (?cs ! i) g" .
  have "GetFieldIndex g = GetFieldIndex h \<and> widens X h g"
    if hg: "h \<in> set ?cs" "g \<in> set children" "ascii_lower (field_name g) = ascii_lower (field_name h)" for g h
  proof -
    obtain i where i: "i < length ?cs" "h = ?cs ! i" using hg(1) by (auto simp: in_set_conv_nth)
    have len: "length names = length ?cs" using arg_cong [OF nm(1), of length] by simp
    have "(names ! i, i) \<in> set (source_type_map X names)"
      using evolution.source_type_map_eq [OF 2(3), of names] nm(1) dist i(1) len by (auto simp: set_zip)
    moreover have "ascii_lower (names ! i) = ascii_lower (field_name h)"
      using arg_cong [OF nm(1), of "\<lambda>xs. xs ! i"] i len by simp
    ultimately show ?thesis using step hg(2,3) i(2) by fastforce
  qed
  then show ?case using f same 2(5) by (cases src) auto
next
  case (4 X W src nm ty targets m st)
  show ?case
  proof (cases "ci_lookup (ev_strings X) m nm")
    case None
    with 4(4) obtain f st1 gs where f: "new_nested_field X (field_index (GetFieldIndex src)) nm ty st = Inr (f, st1)"
      and rest: "evolve_children X W src targets m st1 = Inr (gs, m', st')" and fs: "fs = f # gs"
      by (auto simp: bind_res_Inr_iff)
    have "distinct (map (\<lambda>(nm, _). ascii_lower nm) targets)" using 4(8) by simp
    from 4(1) [OF None f refl rest 4(5-7) this] evolution.new_nested_field_conforms [OF 4(5) f] ci_lookup_None_keys [OF 4(5) None]
    show ?thesis by (auto simp: fs) metis+
  next
    case (Some i)
    with 4(4) obtain child f st1 gs where child: "vector_at (field_children src) i = Inr child"
      and f: "TypePromotion X W child ty (Some (field_index (GetFieldIndex src))) st = Inr (f, st1)"
      and rest: "evolve_children X W src targets (ci_erase (ev_strings X) nm m) st1 = Inr (gs, m', st')" and fs: "fs = f # gs"
      by (auto simp: bind_res_Inr_iff)
    note l = evolution.source_map_lookup [OF 4(5,7) Some]
    have c: "conforms child" using child 4(6) by (cases src) (auto simp: vector_at_Inr list_all_iff)
    have d: "distinct (map (\<lambda>(nm, _). ascii_lower nm) targets)" using 4(8) by simp
    note head = promotion_conforms(1) [OF f 4(5) c] and widen = 4(2) [OF Some child f 4(5) c]
    note tail = 4(3) [OF Some child f refl rest 4(5,6) l(3) d]
    have "ascii_lower ` field_name ` set gs = fst ` set (map (\<lambda>(nm, ty). (ascii_lower nm, ty)) targets)"
      using promotion_conforms(3) [OF rest 4(5,6) l(3)] by (metis (no_types, lifting) image_image list.set_map fst_conv image_cong)
    then have other: "ascii_lower (field_name g) \<noteq> ascii_lower nm" if "g \<in> set gs" for g
      using 4(8) that by (force simp: image_iff)
    show ?thesis
    proof (clarify, goal_cases)
      case (1 k j g)
      show ?case
      proof (cases "g = f")
        case True
        then have "ascii_lower k = ascii_lower nm" using 1(3) head l(2) child by (simp add: vector_at_Inr)
        then have "j = i" using ci_lookup_unique [OF 4(5) Some 4(7) 1(1)] by simp
        with True head widen child show ?thesis by (simp add: vector_at_Inr)
      next
        case False
        then have g: "g \<in> set gs" using 1(2) fs by simp
        then have "(k, j) \<in> set (ci_erase (ev_strings X) nm m)"
          using 1(1,3) other [OF g] evolution.CIEquals [OF 4(5)] by (simp add: ci_erase_def)
        with tail g 1(3) show ?thesis by blast
      qed
    qed
  qed
qed auto

section \<open>A struct column\<close>

definition evolution_ref :: evolution_env where
  "evolution_ref = \<lparr>ev_strings = duckdb_ref, ev_types = duckdb_types_ref, ev_exprs = exprs_ref,
     ev_max_type = (\<lambda>a b. if type_id a = INTEGER \<and> type_id b = BIGINT then Some b else if a = b then Some a else None),
     ev_type_string = (\<lambda>t. ''type''), ev_expr_string = (\<lambda>e. ''expression''), ev_tuple_name = (\<lambda>i. dec_string i), ev_hash_order = rev\<rparr>"

interpretation evolution_ref: evolution evolution_ref
  by unfold_locales (auto simp: evolution_ref_def duckdb_types_ref_def ref.string_laws)

definition struct_of :: "(string \<times> LogicalType) list \<Rightarrow> LogicalType" where
  "struct_of cs = LogicalType STRUCT None [] 0 0 cs"

definition sample_struct_leaf :: "string \<Rightarrow> idx \<Rightarrow> DuckLakeFieldId" where
  "sample_struct_leaf n i = FieldId \<lparr>cd_id = FieldIndex i, cd_initial_default = Value (plain_type INTEGER) (Some ''5''),
     cd_default_value = None\<rparr> n (plain_type INTEGER) []"

text \<open>A column \<open>STRUCT(a INTEGER, b INTEGER)\<close> that becomes \<open>STRUCT(b BIGINT, c INTEGER)\<close>.\<close>

definition sample_struct :: DuckLakeFieldId where
  "sample_struct = FieldId \<lparr>cd_id = FieldIndex 1, cd_initial_default = null_value, cd_default_value = None\<rparr> ''s''
     (struct_of [(''a'', plain_type INTEGER), (''b'', plain_type INTEGER)]) [sample_struct_leaf ''a'' 2, sample_struct_leaf ''b'' 3]"

definition sample_target :: LogicalType where
  "sample_target = struct_of [(''b'', plain_type BIGINT), (''c'', plain_type INTEGER)]"

definition sample_table :: table_columns where
  "sample_table = \<lparr>tc_columns = [], tc_field_data = DuckLakeFieldData_default, tc_not_null = []\<rparr>"

definition no_changes :: ColumnChangeInfo where
  "no_changes = \<lparr>new_fields = [], dropped_fields = []\<rparr>"

lemma sample_promotion:
  "case TypePromotion evolution_ref sample_table sample_struct sample_target None (no_changes, Some 10) of
     Inr (f, info, n) \<Rightarrow> n = Some 11 \<and> tree_ids f = map FieldIndex [1, 3, 10] \<and> dropped_fields info = map FieldIndex [3, 2] \<and>
       new_column_ids info = map FieldIndex [3, 10]
   | Inl _ \<Rightarrow> False"
  by code_simp

lemma sample_struct_conforms: "conforms sample_struct"
  by code_simp

text \<open>
  A nested field that is promoted loses its initial default: neither the new field nor its new entry in the
  metadata has one, although the rows of older files that lack the field were read with it.
\<close>

lemma nested_default_lost:
  assumes "promote_leaf X W src target (Some p) info = Inr (f, info')" and "field_type src \<noteq> target"
  shows "cd_initial_default (field_column_data f) = null_value \<and> ci_initial_default (nc_column_info (last (new_fields info'))) = null_value"
  using assms by (auto simp: promote_leaf_def Let_def bind_res_Inr_iff DropField_def split: if_splits)

section \<open>Properties\<close>

text \<open>
  C38. A column type can only be widened, and the field tree follows the type: when \<^verbatim>\<open>TypePromotion\<close> accepts a target type, the new tree
  fits that type at every level (its children are those the type nests, in order, with the same names up to case and different from each other), the
  column keeps its identifier and name, fields without children keep their type or move to a type that is the common supertype of both,
  nested fields keep their kind, and children of the same name keep their identifier and are widened in turn.
\<close>

theorem type_promotion_sound:
  assumes "evolution X" and "conforms src" and "TypePromotion X W src target p st = Inr (f, st')"
  shows "field_type f = target \<and> conforms f \<and> field_name f = field_name src \<and> GetFieldIndex f = GetFieldIndex src \<and> widens X src f"
  using promotion_conforms(1) [OF assms(3,1,2)] promotion_widens(1) [OF assms(3,1,2)] by blast

theorem type_promotion_sound_witness:
  "\<exists>f st'. TypePromotion evolution_ref sample_table sample_struct sample_target None (no_changes, Some 10) = Inr (f, st') \<and>
     field_type f = sample_target \<and> conforms f \<and> widens evolution_ref sample_struct f"
proof -
  obtain f st' where f: "TypePromotion evolution_ref sample_table sample_struct sample_target None (no_changes, Some 10) = Inr (f, st')"
    using sample_promotion by (auto split: sum.splits)
  from type_promotion_sound [OF evolution_ref.evolution_axioms sample_struct_conforms f] f show ?thesis by blast
qed

text \<open>
  C39. The changes recorded for the metadata are exactly the difference between the old and the new column: counting with multiplicity, the identifiers of the old tree
  without the dropped ones and with those of the new columns (nested ones included) are the identifiers of the new tree. The identifiers that are
  not old ones are the consecutive numbers from \<^verbatim>\<open>next_column_id\<close> on, which ends up behind them.
\<close>

theorem promotion_metadata_exact:
  assumes "evolution X" and "conforms src" and "TypePromotion X W src target p (no_changes, Some n) = Inr (f, info, n')"
  shows "mset (tree_ids src) + mset (new_column_ids info) = mset (tree_ids f) + mset (dropped_fields info) \<and>
    (\<exists>k kept. kept \<subseteq># mset (tree_ids src) \<and> mset (tree_ids f) = kept + mset (consecutive n k) \<and> n' = Some (n + of_nat k))"
proof -
  have "evolves (mset (tree_ids src)) (no_changes, Some n) (mset (tree_ids f)) {#} (info, n')"
    using promotion_evolves(1) [OF assms(3,1,2)] .
  then have l: "ledger (mset (tree_ids src)) (no_changes, Some n) (mset (tree_ids f)) (info, n')"
    and num: "numbered (mset (tree_ids src)) (no_changes, Some n) (mset (tree_ids f)) {#} (info, n')" by (simp_all add: evolves_def)
  from num show ?thesis
    by (rule numberedE) (use l in \<open>auto simp: ledger_def no_changes_def new_column_ids_def\<close>)
qed

theorem promotion_metadata_exact_witness:
  "\<exists>f info k kept. TypePromotion evolution_ref sample_table sample_struct sample_target None (no_changes, Some 10) = Inr (f, info, Some 11) \<and>
     mset (tree_ids sample_struct) + mset (new_column_ids info) = mset (tree_ids f) + mset (dropped_fields info) \<and>
     mset (tree_ids f) = kept + mset (consecutive 10 k)"
proof -
  obtain f info where f: "TypePromotion evolution_ref sample_table sample_struct sample_target None (no_changes, Some 10) = Inr (f, info, Some 11)"
    using sample_promotion by (auto split: sum.splits)
  from promotion_metadata_exact [OF evolution_ref.evolution_axioms sample_struct_conforms f] f show ?thesis by blast
qed

end
