(* ===== verification/DL_Options.thy ===== *)
theory DL_Options
  imports DL_FieldData DL_Quoting
begin

text \<open>
  Configuration options. An option is set for the whole lake, for a schema or for a table; \<^verbatim>\<open>TryGetConfigOption\<close>
  looks in the narrowest scope first. The catalog's copy (\<^verbatim>\<open>src/src/storage/ducklake_catalog.cpp\<close>) is shared by all
  transactions and not versioned: a transaction that sets or resets an option keeps a record of what was there
  (\<^verbatim>\<open>DuckLakeConfigOptionUndo\<close>) and puts it back when it is rolled back
  (\<^verbatim>\<open>src/src/storage/ducklake_transaction.cpp\<close>). The values are checked and normalised by
  \<^verbatim>\<open>ParseConfigOptionValue\<close> (\<^verbatim>\<open>src/src/common/ducklake_util.cpp\<close>), which also knows the column names that are
  reserved for inlined data.

  DuckDB's casts of a value, its parser of memory sizes and intervals, and its settings are the record
  \<open>option_env\<close>. The metadata table that holds the options is the type parameter \<open>'m\<close> with the two statements that change it.

  The theorems: a rollback restores every option the transaction touched and leaves alone what others
  changed meanwhile; two transactions that set the same option can leave behind a value that neither committed; what the
  parsers accept can be read back.
\<close>

section \<open>Values of options\<close>

text \<open>A \<^verbatim>\<open>double\<close>, for the comparisons the code makes; comparisons with a NaN are false.\<close>

datatype double_value = Finite int nat | PositiveInfinity | NegativeInfinity | NotANumber

text \<open>\<open>Finite n k\<close> is \<open>n / 2^k\<close>.\<close>

definition double_negative :: "double_value \<Rightarrow> bool" where
  "double_negative d = (case d of Finite n _ \<Rightarrow> n < 0 | NegativeInfinity \<Rightarrow> True | _ \<Rightarrow> False)"

definition double_above_one :: "double_value \<Rightarrow> bool" where
  "double_above_one d = (case d of Finite n k \<Rightarrow> n > 2 ^ k | PositiveInfinity \<Rightarrow> True | _ \<Rightarrow> False)"

record option_env =
  oe_strings :: duckdb_string
  oe_ci_starts_with :: "string \<Rightarrow> string \<Rightarrow> bool"
  oe_cast_varchar :: "Value \<Rightarrow> string res"
  oe_cast_ubigint :: "Value \<Rightarrow> idx res"
  oe_cast_boolean :: "Value \<Rightarrow> bool res"
  oe_get_bool :: "Value \<Rightarrow> bool res"
  oe_get_double :: "Value \<Rightarrow> double_value res"
  oe_double_string :: "double_value \<Rightarrow> string"
  oe_value_string :: "Value \<Rightarrow> string"
  oe_parse_memory :: "string \<Rightarrow> idx res"
  oe_interval :: "string \<Rightarrow> bool"
  oe_setting :: "string \<Rightarrow> Value option"

text \<open>
  What the code relies on: a decimal number given as text casts back to the number, the string functions are those of
  \<open>duckdb_strings\<close>.
\<close>

locale option_laws =
  fixes X :: option_env
  assumes strings: "duckdb_strings (oe_strings X)"
    and starts_with: "oe_ci_starts_with X s p \<longleftrightarrow> starts_with (ascii_lower s) (ascii_lower p)"
    and cast_text: "oe_cast_ubigint X (Value (plain_type VARCHAR) (Some (to_string n))) = Inr n"
    and cast_varchar_text: "oe_cast_varchar X (Value (plain_type VARCHAR) (Some s)) = Inr s"

definition parquet_codecs :: "string list" where
  "parquet_codecs = [''uncompressed'', ''snappy'', ''gzip'', ''zstd'', ''brotli'', ''lz4'', ''lz4_raw'']"

definition ParseParquetCompression :: "option_env \<Rightarrow> string \<Rightarrow> Value \<Rightarrow> string res" where
  "ParseParquetCompression X option val =
     bind_res (oe_cast_varchar X val) (\<lambda>codec.
       if \<not> list_ex (\<lambda>algorithm. StringUtil_CIEquals (oe_strings X) algorithm codec) parquet_codecs
       then Inl (NotImplementedException (''Unsupported codec '' @ codec @ '' for parquet, supported options are '' @
              StringUtil_Join (oe_strings X) parquet_codecs '', ''))
       else Inr (StringUtil_Lower (oe_strings X) codec))"

definition ParseParquetVersion :: "option_env \<Rightarrow> string \<Rightarrow> Value \<Rightarrow> string res" where
  "ParseParquetVersion X option val =
     bind_res (oe_cast_ubigint X val) (\<lambda>version.
       if version \<noteq> 1 \<and> version \<noteq> 2
       then Inl (NotImplementedException ''Only Parquet version 1 and 2 are supported'')
       else Inr (''V'' @ to_string version))"

definition ParseUnsignedInteger :: "option_env \<Rightarrow> string \<Rightarrow> Value \<Rightarrow> string res" where
  "ParseUnsignedInteger X option val = bind_res (oe_cast_ubigint X val) (\<lambda>n. Inr (to_string n))"

definition ParseRowGroupSize :: "option_env \<Rightarrow> string \<Rightarrow> Value \<Rightarrow> string res" where
  "ParseRowGroupSize X option val =
     bind_res (oe_cast_ubigint X val) (\<lambda>row_group_size.
       if row_group_size = 0 then Inl (NotImplementedException ''Row group size cannot be 0'')
       else Inr (to_string row_group_size))"

definition ParseRowGroupSizeBytes :: "option_env \<Rightarrow> string \<Rightarrow> Value \<Rightarrow> string res" where
  "ParseRowGroupSizeBytes X option val =
     bind_res (oe_parse_memory X (oe_value_string X val)) (\<lambda>row_group_size_bytes.
       if row_group_size_bytes = 0 then Inl (NotImplementedException ''Row group size bytes cannot be 0'')
       else Inr (to_string row_group_size_bytes))"

definition ParseMemorySize :: "option_env \<Rightarrow> string \<Rightarrow> Value \<Rightarrow> string res" where
  "ParseMemorySize X option val = bind_res (oe_parse_memory X (oe_value_string X val)) (\<lambda>n. Inr (to_string n))"

definition ParseBooleanLiteral :: "option_env \<Rightarrow> string \<Rightarrow> Value \<Rightarrow> string res" where
  "ParseBooleanLiteral X option val = bind_res (oe_get_bool X val) (\<lambda>v. Inr (BoolLiteral v))"

definition ParseDeleteThreshold :: "option_env \<Rightarrow> string \<Rightarrow> Value \<Rightarrow> string res" where
  "ParseDeleteThreshold X option val =
     bind_res (oe_get_double X val) (\<lambda>threshold.
       if double_negative threshold \<or> double_above_one threshold
       then Inl (BinderException ''The rewrite_delete_threshold must be between 0 and 1'')
       else Inr (oe_double_string X threshold))"

definition ParseInterval :: "option_env \<Rightarrow> string \<Rightarrow> Value \<Rightarrow> string res" where
  "ParseInterval X option val =
     (let interval_value = oe_value_string X val in
      if interval_value \<noteq> [] \<and> \<not> oe_interval X interval_value
      then Inl (BinderException (option @ '' is not a valid interval value.''))
      else Inr interval_value)"

definition ParseBoolean :: "option_env \<Rightarrow> string \<Rightarrow> Value \<Rightarrow> string res" where
  "ParseBoolean X option val = bind_res (oe_cast_boolean X val) (\<lambda>v. Inr (BoolLiteral v))"

definition ParseAutoCompact :: "option_env \<Rightarrow> string \<Rightarrow> Value \<Rightarrow> string res" where
  "ParseAutoCompact X option val =
     (if IsNull val then Inl (BinderException (''The '' @ option @ '' option can't be null.''))
      else ParseBoolean X option val)"

definition ParseSkippedStatsColumns :: "option_env \<Rightarrow> string \<Rightarrow> Value \<Rightarrow> string res" where
  "ParseSkippedStatsColumns X option val = Inr []"

definition ParseDataFileFormat :: "option_env \<Rightarrow> string \<Rightarrow> Value \<Rightarrow> string res" where
  "ParseDataFileFormat X option val =
     bind_res (oe_cast_varchar X val) (\<lambda>s.
       let format = StringUtil_Lower (oe_strings X) s in
       if format \<noteq> ''parquet'' \<and> format \<noteq> ''vortex''
       then Inl (NotImplementedException (''Unsupported data file format '' @ format @ ''; supported options are parquet, vortex''))
       else Inr format)"

definition ConfigOptionParsers :: "option_env \<Rightarrow> (string \<times> (string \<Rightarrow> Value \<Rightarrow> string res)) list" where
  "ConfigOptionParsers X =
     [(''data_file_format'', ParseDataFileFormat X),
      (''parquet_compression'', ParseParquetCompression X),
      (''parquet_version'', ParseParquetVersion X),
      (''parquet_compression_level'', ParseUnsignedInteger X),
      (''data_inlining_row_limit'', ParseUnsignedInteger X),
      (''parquet_row_group_size'', ParseRowGroupSize X),
      (''parquet_row_group_size_bytes'', ParseRowGroupSizeBytes X),
      (''target_file_size'', ParseMemorySize X),
      (''require_commit_message'', ParseBooleanLiteral X),
      (''hive_file_pattern'', ParseBooleanLiteral X),
      (''rewrite_delete_threshold'', ParseDeleteThreshold X),
      (''delete_older_than'', ParseInterval X),
      (''expire_older_than'', ParseInterval X),
      (''auto_compact'', ParseAutoCompact X),
      (''per_thread_output'', ParseBoolean X),
      (''write_deletion_vectors'', ParseBoolean X),
      (''sort_on_insert'', ParseBoolean X),
      (''skip_stats_columns'', ParseSkippedStatsColumns X)]"

definition ValidateConfigOptionName :: "option_env \<Rightarrow> string \<Rightarrow> unit res" where
  "ValidateConfigOptionName X option =
     (if map_of (ConfigOptionParsers X) option = None then Inl (NotImplementedException (''Unsupported option '' @ option))
      else Inr ())"

definition ParseConfigOptionValue :: "option_env \<Rightarrow> string \<Rightarrow> Value \<Rightarrow> string res" where
  "ParseConfigOptionValue X option val =
     bind_res (ValidateConfigOptionName X option) (\<lambda>_.
       case map_of (ConfigOptionParsers X) option of
         Some parser \<Rightarrow> parser option val
       | None \<Rightarrow> Inl (InternalException ''unordered_map::at''))"

definition ValidateConfigOptionScope :: "string \<Rightarrow> bool \<Rightarrow> bool \<Rightarrow> unit res" where
  "ValidateConfigOptionScope option has_schema has_table =
     (if (has_schema \<or> has_table) \<and> (option = ''expire_older_than'' \<or> option = ''delete_older_than'')
      then Inl (InvalidInputException (''The '' @ option @ '' option can only be set globally, not for a specific schema or table''))
      else if option = ''skip_stats_columns'' \<and> \<not> has_table
      then Inl (InvalidInputException (''The '' @ option @ '' option can only be set for a specific table - pass table_name''))
      else Inr ())"

section \<open>Reserved column names\<close>

definition SupportsV1_1Metadata :: "DuckLakeVersion \<Rightarrow> bool" where
  "SupportsV1_1Metadata version \<longleftrightarrow> V1_1_DEV_1 \<le> version"

definition inlined_prefix :: string where
  "inlined_prefix = ''_ducklake_''"

record DuckLakeInlinedColNames =
  icn_row_id :: string
  icn_begin_snapshot :: string
  icn_end_snapshot :: string

definition DuckLakeInlinedColNames_new :: "bool \<Rightarrow> DuckLakeInlinedColNames" where
  "DuckLakeInlinedColNames_new prefixed_inlined_columns =
     (let p = (if prefixed_inlined_columns then inlined_prefix else []) in
      \<lparr>icn_row_id = p @ ''row_id'', icn_begin_snapshot = p @ ''begin_snapshot'', icn_end_snapshot = p @ ''end_snapshot''\<rparr>)"

definition ConflictsWith :: "duckdb_string \<Rightarrow> DuckLakeInlinedColNames \<Rightarrow> string \<Rightarrow> bool" where
  "ConflictsWith D cols nm \<longleftrightarrow>
     StringUtil_CIEquals D nm (icn_row_id cols) \<or> StringUtil_CIEquals D nm (icn_begin_snapshot cols) \<or>
     StringUtil_CIEquals D nm (icn_end_snapshot cols) \<or> StringUtil_CIEquals D nm ''_ducklake_internal_snapshot_id'' \<or>
     StringUtil_CIEquals D nm ''_ducklake_internal_row_id''"

definition IsInlinedSystemColumn :: "option_env \<Rightarrow> string \<Rightarrow> bool \<Rightarrow> bool" where
  "IsInlinedSystemColumn X nm prefixed_inlined_columns =
     (if prefixed_inlined_columns then oe_ci_starts_with X nm inlined_prefix
      else ConflictsWith (oe_strings X) (DuckLakeInlinedColNames_new False) nm)"

definition ThrowReservedInlinedColumn :: "string \<Rightarrow> bool \<Rightarrow> unit res" where
  "ThrowReservedInlinedColumn nm prefixed_inlined_columns =
     (if prefixed_inlined_columns
      then Inl (BinderException (''Column name '' @ nm @ '' is reserved by DuckLake for internal use: column names starting with '' @
             inlined_prefix @ '' are not allowed.''))
      else Inl (BinderException (''Column name '' @ nm @ '' is reserved by DuckLake for internal use when data inlining is enabled. If you must use this column name, disable inlining by calling ducklake_set_option('data_inlining_row_limit', 0).'')))"

definition ValidateCanEnableInlining :: "duckdb_string \<Rightarrow> string list \<Rightarrow> bool \<Rightarrow> string \<Rightarrow> unit res" where
  "ValidateCanEnableInlining D columns prefixed_inlined_columns table_name =
     for_each columns (\<lambda>nm.
       if ConflictsWith D (DuckLakeInlinedColNames_new prefixed_inlined_columns) nm
       then Inl (BinderException (''Cannot enable data inlining for table '' @ table_name @ ''. Column '' @ nm @
              '' conflicts with a reserved DuckLake internal column name used for inlining.''))
       else Inr ())"

section \<open>The scopes\<close>

type_synonym option_map = "(string, string) omap"

record DuckLakeConfigOptionUndo =
  undo_option :: DuckLakeConfigOption
  undo_previous_value :: string
  undo_was_set :: bool
  undo_reset :: bool

text \<open>The part of \<^verbatim>\<open>DuckLakeOptions\<close> that can change after the lake is attached.\<close>

record DuckLakeOptions =
  config_options :: option_map
  schema_options :: "(SchemaIndex, option_map) omap"
  table_options :: "(TableIndex, option_map) omap"

definition TableIndex_IsValid :: "TableIndex \<Rightarrow> bool" where
  "TableIndex_IsValid i \<longleftrightarrow> i \<noteq> INVALID_INDEX"

text \<open>\<^verbatim>\<open>GetOptionScope\<close> returns a reference; here the map it refers to, and the options with that map replaced.\<close>

definition GetOptionScope :: "DuckLakeOptions \<Rightarrow> DuckLakeConfigOption \<Rightarrow> option_map" where
  "GetOptionScope options opt =
     (if TableIndex_IsValid (opt_table_id opt) then omap_get [] (table_options options) (opt_table_id opt)
      else if SchemaIndex_IsValid (opt_schema_id opt) then omap_get [] (schema_options options) (opt_schema_id opt)
      else config_options options)"

definition put_scope :: "DuckLakeConfigOption \<Rightarrow> option_map \<Rightarrow> DuckLakeOptions \<Rightarrow> DuckLakeOptions" where
  "put_scope opt m options =
     (if TableIndex_IsValid (opt_table_id opt)
      then options\<lparr>table_options := omap_insert (opt_table_id opt) m (table_options options)\<rparr>
      else if SchemaIndex_IsValid (opt_schema_id opt)
      then options\<lparr>schema_options := omap_insert (opt_schema_id opt) m (schema_options options)\<rparr>
      else options\<lparr>config_options := m\<rparr>)"

definition GetConfigOptionUndo :: "option_map \<Rightarrow> DuckLakeConfigOption \<Rightarrow> DuckLakeConfigOptionUndo" where
  "GetConfigOptionUndo scope opt =
     (case map_of scope (opt_key opt) of
        None \<Rightarrow> \<lparr>undo_option = opt, undo_previous_value = [], undo_was_set = False, undo_reset = False\<rparr>
      | Some v \<Rightarrow> \<lparr>undo_option = opt, undo_previous_value = v, undo_was_set = True, undo_reset = False\<rparr>)"

definition Catalog_SetConfigOption :: "DuckLakeConfigOption \<Rightarrow> DuckLakeOptions \<Rightarrow> DuckLakeConfigOptionUndo \<times> DuckLakeOptions" where
  "Catalog_SetConfigOption opt options =
     (let scope = GetOptionScope options opt in
      (GetConfigOptionUndo scope opt, put_scope opt (omap_insert (opt_key opt) (opt_value opt) scope) options))"

definition Catalog_ResetConfigOption :: "DuckLakeConfigOption \<Rightarrow> DuckLakeOptions \<Rightarrow> DuckLakeConfigOptionUndo \<times> DuckLakeOptions" where
  "Catalog_ResetConfigOption opt options =
     (let scope = GetOptionScope options opt in
      ((GetConfigOptionUndo scope opt)\<lparr>undo_reset := True\<rparr>, put_scope opt (omap_erase (opt_key opt) scope) options))"

definition UndoConfigOption :: "DuckLakeConfigOptionUndo \<Rightarrow> DuckLakeOptions \<Rightarrow> DuckLakeOptions" where
  "UndoConfigOption undo options =
     (let opt = undo_option undo; scope = GetOptionScope options opt; key = opt_key opt in
      if undo_reset undo
      then (if map_of scope key = None \<and> undo_was_set undo
            then put_scope opt (omap_insert key (undo_previous_value undo) scope) options
            else put_scope opt scope options)
      else if map_of scope key \<noteq> Some (opt_value opt) then put_scope opt scope options
      else if undo_was_set undo then put_scope opt (omap_insert key (undo_previous_value undo) scope) options
      else put_scope opt (omap_erase key scope) options)"

definition TryGetOptionInScope :: "('k, option_map) omap \<Rightarrow> bool \<Rightarrow> 'k \<Rightarrow> string \<Rightarrow> string option" where
  "TryGetOptionInScope scope_map is_valid scope_id option =
     (if \<not> is_valid then None
      else case map_of scope_map scope_id of None \<Rightarrow> None | Some m \<Rightarrow> map_of m option)"

definition TryGetTableConfigOption :: "DuckLakeOptions \<Rightarrow> string \<Rightarrow> TableIndex \<Rightarrow> string option" where
  "TryGetTableConfigOption options option table_id =
     TryGetOptionInScope (table_options options) (TableIndex_IsValid table_id) table_id option"

definition TryGetScopedConfigOption ::
  "DuckLakeOptions \<Rightarrow> string \<Rightarrow> SchemaIndex \<Rightarrow> TableIndex \<Rightarrow> option_map option \<Rightarrow> string option" where
  "TryGetScopedConfigOption options option schema table_id pending =
     (case (case pending of None \<Rightarrow> None | Some m \<Rightarrow> map_of m option) of
        Some v \<Rightarrow> Some v
      | None \<Rightarrow>
          (case TryGetOptionInScope (table_options options) (TableIndex_IsValid table_id) table_id option of
             Some v \<Rightarrow> Some v
           | None \<Rightarrow> TryGetOptionInScope (schema_options options) (SchemaIndex_IsValid schema) schema option))"

definition TryGetConfigOption ::
  "DuckLakeOptions \<Rightarrow> string \<Rightarrow> SchemaIndex \<Rightarrow> TableIndex \<Rightarrow> option_map option \<Rightarrow> string option" where
  "TryGetConfigOption options option schema table_id pending =
     (case TryGetScopedConfigOption options option schema table_id pending of
        Some v \<Rightarrow> Some v
      | None \<Rightarrow> map_of (config_options options) option)"

text \<open>\<open>Value(value_str).GetValue\<close> casts the stored text; the options read as a string are compared with \<open>true\<close>.\<close>

abbreviation text_value :: "string \<Rightarrow> Value" where
  "text_value s \<equiv> Value (plain_type VARCHAR) (Some s)"

definition GetConfigOption_idx ::
  "option_env \<Rightarrow> DuckLakeOptions \<Rightarrow> string \<Rightarrow> SchemaIndex \<Rightarrow> TableIndex \<Rightarrow> idx \<Rightarrow> option_map option \<Rightarrow> idx res" where
  "GetConfigOption_idx X options option schema table_id default_value pending =
     (case TryGetConfigOption options option schema table_id pending of
        Some value_str \<Rightarrow> oe_cast_ubigint X (text_value value_str)
      | None \<Rightarrow> Inr default_value)"

definition GetConfigOption_string ::
  "option_env \<Rightarrow> DuckLakeOptions \<Rightarrow> string \<Rightarrow> SchemaIndex \<Rightarrow> TableIndex \<Rightarrow> string \<Rightarrow> option_map option \<Rightarrow> string res" where
  "GetConfigOption_string X options option schema table_id default_value pending =
     (case TryGetConfigOption options option schema table_id pending of
        Some value_str \<Rightarrow> oe_cast_varchar X (text_value value_str)
      | None \<Rightarrow> Inr default_value)"

definition IsCommitInfoRequired :: "option_env \<Rightarrow> DuckLakeOptions \<Rightarrow> bool res" where
  "IsCommitInfoRequired X options =
     bind_res (GetConfigOption_string X options ''require_commit_message'' SchemaIndex_default INVALID_INDEX ''false'' None)
       (\<lambda>require. Inr (require = ''true''))"

definition UseHiveFilePattern :: "option_env \<Rightarrow> DuckLakeOptions \<Rightarrow> bool \<Rightarrow> SchemaIndex \<Rightarrow> TableIndex \<Rightarrow> option_map option \<Rightarrow> bool res" where
  "UseHiveFilePattern X options default_value schema table_id pending =
     bind_res (GetConfigOption_string X options ''hive_file_pattern'' schema table_id (BoolLiteral default_value) pending)
       (\<lambda>hive_file_pattern. Inr (hive_file_pattern = ''true''))"

definition WriteDeletionVectors :: "option_env \<Rightarrow> DuckLakeOptions \<Rightarrow> SchemaIndex \<Rightarrow> TableIndex \<Rightarrow> option_map option \<Rightarrow> bool res" where
  "WriteDeletionVectors X options schema table_id pending =
     bind_res (GetConfigOption_string X options ''write_deletion_vectors'' schema table_id ''false'' pending)
       (\<lambda>write_dv. Inr (write_dv = ''true''))"

definition SortOnInsert :: "option_env \<Rightarrow> DuckLakeOptions \<Rightarrow> SchemaIndex \<Rightarrow> TableIndex \<Rightarrow> option_map option \<Rightarrow> bool res" where
  "SortOnInsert X options schema table_id pending =
     bind_res (GetConfigOption_string X options ''sort_on_insert'' schema table_id ''true'' pending)
       (\<lambda>v. Inr (v = ''true''))"

definition DataInliningRowLimit :: "option_env \<Rightarrow> DuckLakeOptions \<Rightarrow> SchemaIndex \<Rightarrow> TableIndex \<Rightarrow> option_map option \<Rightarrow> idx res" where
  "DataInliningRowLimit X options schema table_id pending =
     (case TryGetConfigOption options ''data_inlining_row_limit'' schema table_id pending of
        Some value_str \<Rightarrow> oe_cast_ubigint X (text_value value_str)
      | None \<Rightarrow>
          (case oe_setting X ''ducklake_default_data_inlining_row_limit'' of
             Some setting_val \<Rightarrow> oe_cast_ubigint X setting_val
           | None \<Rightarrow> Inr 10))"

definition GetTargetFileSize :: "option_env \<Rightarrow> DuckLakeOptions \<Rightarrow> SchemaIndex \<Rightarrow> TableIndex \<Rightarrow> option_map option \<Rightarrow> idx res" where
  "GetTargetFileSize X options schema table_id pending =
     (let configured = GetConfigOption_idx X options ''target_file_size'' schema table_id 536870912 pending in
      case oe_setting X ''ducklake_target_file_size'' of
        Some setting_val \<Rightarrow>
          if \<not> IsNull setting_val \<and> oe_value_string X setting_val \<noteq> []
          then oe_parse_memory X (oe_value_string X setting_val) else configured
      | None \<Rightarrow> configured)"

text \<open>\<open>local_files\<close> are the formats of the transaction's own files of the table, \<open>persisted\<close> that of the committed ones.\<close>

definition GetDataFileFormat ::
  "option_env \<Rightarrow> DuckLakeOptions \<Rightarrow> string list \<Rightarrow> string option \<Rightarrow> SchemaIndex \<Rightarrow> TableIndex \<Rightarrow> option_map option \<Rightarrow> string" where
  "GetDataFileFormat X options local_files persisted schema table_id pending =
     (case local_files of
        format # _ \<Rightarrow> format
      | [] \<Rightarrow>
          (case persisted of
             Some format \<Rightarrow> format
           | None \<Rightarrow>
               (case TryGetConfigOption options ''data_file_format'' schema table_id pending of
                  Some format \<Rightarrow> format
                | None \<Rightarrow>
                    (case oe_setting X ''ducklake_default_data_file_format'' of
                       Some setting_val \<Rightarrow>
                         if \<not> IsNull setting_val then StringUtil_Lower (oe_strings X) (oe_value_string X setting_val) else ''parquet''
                     | None \<Rightarrow> ''parquet''))))"

definition ValidateInlinedSystemColumn ::
  "option_env \<Rightarrow> DuckLakeVersion \<Rightarrow> DuckLakeOptions \<Rightarrow> SchemaIndex \<Rightarrow> TableIndex \<Rightarrow> string \<Rightarrow> option_map option \<Rightarrow> unit res" where
  "ValidateInlinedSystemColumn X version options schema table_id nm pending =
     (let prefixed = SupportsV1_1Metadata version;
          check = (if IsInlinedSystemColumn X nm prefixed then ThrowReservedInlinedColumn nm prefixed else Inr ()) in
      if prefixed then check
      else bind_res (DataInliningRowLimit X options schema table_id pending) (\<lambda>limit. if limit = 0 then Inr () else check))"

definition ValidateNoInlinedSystemColumns ::
  "option_env \<Rightarrow> DuckLakeVersion \<Rightarrow> DuckLakeOptions \<Rightarrow> SchemaIndex \<Rightarrow> string list \<Rightarrow> option_map option \<Rightarrow> unit res" where
  "ValidateNoInlinedSystemColumns X version options schema columns pending =
     (let prefixed = SupportsV1_1Metadata version;
          check = for_each columns (\<lambda>nm. if IsInlinedSystemColumn X nm prefixed
                                       then ThrowReservedInlinedColumn nm prefixed else Inr ()) in
      if prefixed then check
      else bind_res (DataInliningRowLimit X options schema INVALID_INDEX pending) (\<lambda>limit. if limit = 0 then Inr () else check))"

section \<open>A transaction's changes to the options\<close>

text \<open>
  The catalog's copy, the transaction's undo records in the order they were made, and the metadata table. \<open>metadata_ops\<close>
  are the statements of the metadata manager; resetting tells whether a row was deleted.
\<close>

record 'm option_session =
  os_options :: DuckLakeOptions
  os_undo :: "DuckLakeConfigOptionUndo list"
  os_metadata :: 'm

record 'm metadata_ops =
  md_set :: "DuckLakeConfigOption \<Rightarrow> 'm \<Rightarrow> 'm res"
  md_reset :: "DuckLakeConfigOption \<Rightarrow> 'm \<Rightarrow> (bool \<times> 'm) res"

definition SetConfigOption :: "'m metadata_ops \<Rightarrow> DuckLakeConfigOption \<Rightarrow> 'm option_session \<Rightarrow> 'm option_session res" where
  "SetConfigOption M opt s =
     bind_res (md_set M opt (os_metadata s)) (\<lambda>m.
       let (undo, options) = Catalog_SetConfigOption opt (os_options s)
       in Inr \<lparr>os_options = options, os_undo = os_undo s @ [undo], os_metadata = m\<rparr>)"

definition ResetConfigOption :: "'m metadata_ops \<Rightarrow> DuckLakeConfigOption \<Rightarrow> 'm option_session \<Rightarrow> 'm option_session res" where
  "ResetConfigOption M opt s =
     bind_res (md_reset M opt (os_metadata s)) (\<lambda>(was_set, m).
       if was_set
       then (let (undo, options) = Catalog_ResetConfigOption opt (os_options s)
             in Inr \<lparr>os_options = options, os_undo = os_undo s @ [undo], os_metadata = m\<rparr>)
       else Inr (s\<lparr>os_metadata := m\<rparr>))"

definition UndoConfigOptions :: "'m option_session \<Rightarrow> 'm option_session" where
  "UndoConfigOptions s = s\<lparr>os_options := fold UndoConfigOption (rev (os_undo s)) (os_options s), os_undo := []\<rparr>"

section \<open>The value of an option in a scope\<close>

datatype option_scope = GlobalScope | SchemaScope SchemaIndex | TableScope TableIndex

definition scope_of :: "DuckLakeConfigOption \<Rightarrow> option_scope" where
  "scope_of opt =
     (if TableIndex_IsValid (opt_table_id opt) then TableScope (opt_table_id opt)
      else if SchemaIndex_IsValid (opt_schema_id opt) then SchemaScope (opt_schema_id opt)
      else GlobalScope)"

fun scope_map :: "DuckLakeOptions \<Rightarrow> option_scope \<Rightarrow> option_map" where
  "scope_map options GlobalScope = config_options options"
| "scope_map options (SchemaScope i) = omap_get [] (schema_options options) i"
| "scope_map options (TableScope i) = omap_get [] (table_options options) i"

definition option_at :: "DuckLakeOptions \<Rightarrow> option_scope \<times> string \<Rightarrow> string option" where
  "option_at options = (\<lambda>(sc, key). map_of (scope_map options sc) key)"

definition target :: "DuckLakeConfigOption \<Rightarrow> option_scope \<times> string" where
  "target opt = (scope_of opt, opt_key opt)"

lemma GetOptionScope_eq: "GetOptionScope options opt = scope_map options (scope_of opt)"
  by (simp add: GetOptionScope_def scope_of_def)

lemma scope_map_put: "scope_map (put_scope opt m options) sc = (if sc = scope_of opt then m else scope_map options sc)"
  by (cases sc) (auto simp: put_scope_def scope_of_def omap_get_def)

lemma option_at_put:
  "option_at (put_scope opt m options) =
     (\<lambda>(sc, key). if sc = scope_of opt then map_of m key else option_at options (sc, key))"
  by (auto simp: option_at_def scope_map_put)

lemma lookup_scope: "map_of (GetOptionScope options opt) (opt_key opt) = option_at options (target opt)"
  by (simp add: GetOptionScope_eq option_at_def target_def)

lemma option_at_insert:
  "option_at (put_scope opt (omap_insert (opt_key opt) v (GetOptionScope options opt)) options) = (option_at options)(target opt \<mapsto> v)"
  by (auto simp: option_at_put GetOptionScope_eq target_def fun_eq_iff) (auto simp: option_at_def)

lemma option_at_erase:
  "option_at (put_scope opt (omap_erase (opt_key opt) (GetOptionScope options opt)) options) = (option_at options)(target opt := None)"
  by (auto simp: option_at_put GetOptionScope_eq target_def fun_eq_iff) (auto simp: option_at_def)

lemma option_at_same: "option_at (put_scope opt (GetOptionScope options opt) options) = option_at options"
  by (auto simp: option_at_put GetOptionScope_eq fun_eq_iff) (simp add: option_at_def)

lemmas option_at_simps = option_at_insert option_at_erase option_at_same lookup_scope

lemma option_at_set: "option_at (snd (Catalog_SetConfigOption opt options)) = (option_at options)(target opt \<mapsto> opt_value opt)"
  by (simp add: Catalog_SetConfigOption_def Let_def option_at_simps)

lemma option_at_reset: "option_at (snd (Catalog_ResetConfigOption opt options)) = (option_at options)(target opt := None)"
  by (simp add: Catalog_ResetConfigOption_def Let_def option_at_simps)

text \<open>An undo record acts on the values alone.\<close>

definition undo_at :: "DuckLakeConfigOptionUndo \<Rightarrow> (option_scope \<times> string \<Rightarrow> string option) \<Rightarrow> option_scope \<times> string \<Rightarrow> string option" where
  "undo_at undo f =
     (let t = target (undo_option undo); previous = (if undo_was_set undo then Some (undo_previous_value undo) else None) in
      if undo_reset undo then (if f t = None then f(t := previous) else f)
      else if f t = Some (opt_value (undo_option undo)) then f(t := previous) else f)"

lemma option_at_undo: "option_at (UndoConfigOption undo options) = undo_at undo (option_at options)"
  by (auto simp: UndoConfigOption_def undo_at_def Let_def option_at_simps fun_upd_idem)

lemma option_at_undos: "option_at (fold UndoConfigOption us options) = fold undo_at us (option_at options)"
  by (induction us arbitrary: options) (simp_all add: option_at_undo)

lemma undo_record:
  "undo_at (GetConfigOptionUndo (GetOptionScope options opt) opt) f =
     (if f (target opt) = Some (opt_value opt) then f(target opt := option_at options (target opt)) else f)"
  by (auto simp: GetConfigOptionUndo_def undo_at_def lookup_scope split: option.splits)

lemma undo_reset_record:
  "undo_at ((GetConfigOptionUndo (GetOptionScope options opt) opt)\<lparr>undo_reset := True\<rparr>) f =
     (if f (target opt) = None then f(target opt := option_at options (target opt)) else f)"
  by (auto simp: GetConfigOptionUndo_def undo_at_def lookup_scope split: option.splits)


section \<open>Interleaved changes\<close>

text \<open>
  What happens between the start of a transaction and its rollback: its own calls, and changes other transactions make to
  the catalog's copy (setting, resetting).
\<close>

datatype option_event =
    OwnSet DuckLakeConfigOption
  | OwnReset DuckLakeConfigOption
  | OtherSet DuckLakeConfigOption
  | OtherReset DuckLakeConfigOption

definition option_step :: "'m metadata_ops \<Rightarrow> option_event \<Rightarrow> 'm option_session \<Rightarrow> 'm option_session res" where
  "option_step M e s =
     (case e of
        OwnSet opt \<Rightarrow> SetConfigOption M opt s
      | OwnReset opt \<Rightarrow> ResetConfigOption M opt s
      | OtherSet opt \<Rightarrow> Inr (s\<lparr>os_options := snd (Catalog_SetConfigOption opt (os_options s))\<rparr>)
      | OtherReset opt \<Rightarrow> Inr (s\<lparr>os_options := snd (Catalog_ResetConfigOption opt (os_options s))\<rparr>))"

fun event_target :: "option_event \<Rightarrow> option_scope \<times> string" where
  "event_target (OwnSet opt) = target opt"
| "event_target (OwnReset opt) = target opt"
| "event_target (OtherSet opt) = target opt"
| "event_target (OtherReset opt) = target opt"

fun own_event :: "option_event \<Rightarrow> bool" where
  "own_event (OwnSet opt) = True"
| "own_event (OwnReset opt) = True"
| "own_event (OtherSet opt) = False"
| "own_event (OtherReset opt) = False"

fun other_effect :: "option_event \<Rightarrow> (option_scope \<times> string \<Rightarrow> string option) \<Rightarrow> option_scope \<times> string \<Rightarrow> string option" where
  "other_effect (OwnSet opt) f = f"
| "other_effect (OwnReset opt) f = f"
| "other_effect (OtherSet opt) f = f(target opt \<mapsto> opt_value opt)"
| "other_effect (OtherReset opt) f = f(target opt := None)"

text \<open>No option is changed both by the transaction and by another one.\<close>

definition disjoint_changes :: "option_event list \<Rightarrow> bool" where
  "disjoint_changes es \<longleftrightarrow>
     (\<forall>e \<in> set es. \<forall>e' \<in> set es. own_event e \<longrightarrow> \<not> own_event e' \<longrightarrow> event_target e \<noteq> event_target e')"

lemma other_effect_upd:
  "\<forall>e \<in> set es. \<not> own_event e \<longrightarrow> event_target e \<noteq> t \<Longrightarrow>
     fold other_effect es (f(t := x)) = (fold other_effect es f)(t := x)"
proof (induction es arbitrary: f)
  case (Cons e es)
  then have "other_effect e (f(t := x)) = (other_effect e f)(t := x)" by (cases e) (auto simp: fun_eq_iff)
  moreover have "fold other_effect es ((other_effect e f)(t := x)) = (fold other_effect es (other_effect e f))(t := x)"
    using Cons by (intro Cons.IH) simp
  ultimately show ?case by (simp only: fold_simps)
qed simp

lemma other_effect_at:
  "\<forall>e \<in> set es. \<not> own_event e \<longrightarrow> event_target e \<noteq> t \<Longrightarrow> fold other_effect es f t = f t"
proof (induction es arbitrary: f)
  case (Cons e es)
  then show ?case by (cases e) auto
qed simp

text \<open>The undo records of a run, replayed backwards, leave what the others did.\<close>

lemma undo_run:
  assumes "fold_res (option_step M) es s = Inr s'" and "disjoint_changes es"
  shows "\<exists>us. os_undo s' = os_undo s @ us \<and>
    fold undo_at (rev us) (option_at (os_options s')) = fold other_effect es (option_at (os_options s))"
  using assms
proof (induction es arbitrary: s)
  case Nil
  then show ?case by simp
next
  case (Cons e es)
  then obtain s1 where step: "option_step M e s = Inr s1" and run: "fold_res (option_step M) es s1 = Inr s'"
    by (auto simp: bind_res_Inr_iff)
  have "disjoint_changes es" using Cons.prems(2) by (auto simp: disjoint_changes_def)
  from Cons.IH [OF run this] obtain us where us: "os_undo s' = os_undo s1 @ us"
    and undone: "fold undo_at (rev us) (option_at (os_options s')) = fold other_effect es (option_at (os_options s1))" by auto
  have apart: "own_event e \<Longrightarrow> \<forall>e' \<in> set es. \<not> own_event e' \<longrightarrow> event_target e' \<noteq> event_target e"
    using Cons.prems(2) by (force simp: disjoint_changes_def)
  show ?case
  proof (cases e)
    case (OwnSet opt)
    let ?u = "GetConfigOptionUndo (GetOptionScope (os_options s) opt) opt"
    have s1: "os_undo s1 = os_undo s @ [?u]" "option_at (os_options s1) = (option_at (os_options s))(target opt \<mapsto> opt_value opt)"
      using step OwnSet option_at_set [of opt "os_options s"]
      by (auto simp: option_step_def SetConfigOption_def bind_res_Inr_iff Catalog_SetConfigOption_def Let_def)
    have "fold undo_at (rev (?u # us)) (option_at (os_options s')) = undo_at ?u (fold other_effect es (option_at (os_options s1)))"
      using undone by simp
    also have "\<dots> = fold other_effect es (option_at (os_options s))"
      using apart OwnSet by (simp add: s1 undo_record other_effect_upd other_effect_at fun_upd_idem)
    finally show ?thesis using us s1(1) OwnSet by (intro exI [of _ "?u # us"]) simp
  next
    case (OwnReset opt)
    let ?u = "(GetConfigOptionUndo (GetOptionScope (os_options s) opt) opt)\<lparr>undo_reset := True\<rparr>"
    from step OwnReset obtain was_set m where "md_reset M opt (os_metadata s) = Inr (was_set, m)"
      by (auto simp: option_step_def ResetConfigOption_def bind_res_Inr_iff)
    with step OwnReset option_at_reset [of opt "os_options s"]
    have s1: "if was_set then os_undo s1 = os_undo s @ [?u] \<and> option_at (os_options s1) = (option_at (os_options s))(target opt := None)
      else os_undo s1 = os_undo s \<and> os_options s1 = os_options s"
      by (auto simp: option_step_def ResetConfigOption_def Catalog_ResetConfigOption_def Let_def)
    show ?thesis
    proof (cases was_set)
      case True
      have "fold undo_at (rev (?u # us)) (option_at (os_options s')) = undo_at ?u (fold other_effect es (option_at (os_options s1)))"
        using undone by simp
      also have "\<dots> = fold other_effect es (option_at (os_options s))"
        using apart OwnReset s1 True by (simp add: undo_reset_record other_effect_upd other_effect_at fun_upd_idem)
      finally show ?thesis using us s1 True OwnReset by (intro exI [of _ "?u # us"]) simp
    qed (use us undone s1 OwnReset in auto)
  next
    case (OtherSet opt)
    then show ?thesis using step us undone by (auto simp: option_step_def option_at_set)
  next
    case (OtherReset opt)
    then show ?thesis using step us undone by (auto simp: option_step_def option_at_reset)
  qed
qed

section \<open>Looking options up\<close>

lemma TryGetOptionInScope_at:
  "TryGetOptionInScope (table_options options) valid i k = (if valid then option_at options (TableScope i, k) else None)"
  "TryGetOptionInScope (schema_options options) valid j k = (if valid then option_at options (SchemaScope j, k) else None)"
  by (auto simp: TryGetOptionInScope_def option_at_def omap_get_def split: option.splits)

text \<open>The option that applies to a table is the first one set, from the narrowest scope to the widest.\<close>

lemma TryGetConfigOption_order:
  "TryGetConfigOption options key schema table_id pending =
     fold (\<lambda>v found. if v = None then found else v)
       [option_at options (GlobalScope, key),
        (if SchemaIndex_IsValid schema then option_at options (SchemaScope schema, key) else None),
        (if TableIndex_IsValid table_id then option_at options (TableScope table_id, key) else None),
        Option.bind pending (\<lambda>m. map_of m key)] None"
  by (auto simp: TryGetConfigOption_def TryGetScopedConfigOption_def TryGetOptionInScope_at option_at_def split: option.splits)

text \<open>Setting an option in the scope of a table, a schema or the lake changes the lookups that reach that scope and no others.\<close>

lemma lookup_after_set:
  "TryGetTableConfigOption (snd (Catalog_SetConfigOption opt options)) key table_id =
     (if target opt = (TableScope table_id, key) \<and> TableIndex_IsValid table_id then Some (opt_value opt)
      else TryGetTableConfigOption options key table_id)"
  by (auto simp: TryGetTableConfigOption_def TryGetOptionInScope_at option_at_set target_def)

section \<open>Accepted values can be read back\<close>

definition numeric_options :: "string list" where
  "numeric_options = [''parquet_compression_level'', ''data_inlining_row_limit'', ''parquet_row_group_size'',
     ''parquet_row_group_size_bytes'', ''target_file_size'']"

lemma numeric_option_text:
  assumes "ParseConfigOptionValue X option val = Inr s" and "option \<in> set numeric_options"
  shows "\<exists>n. s = to_string n \<and> (option \<in> {''parquet_row_group_size'', ''parquet_row_group_size_bytes''} \<longrightarrow> n \<noteq> 0)"
  using assms
  by (auto simp: ParseConfigOptionValue_def ValidateConfigOptionName_def ConfigOptionParsers_def numeric_options_def
      ParseUnsignedInteger_def ParseRowGroupSize_def ParseRowGroupSizeBytes_def ParseMemorySize_def bind_res_Inr_iff split: if_splits)

context option_laws
begin

lemma stored_number_reads_back:
  assumes "ParseConfigOptionValue X option val = Inr s" and "option \<in> set numeric_options"
    and "opt_key opt = option" and "opt_value opt = s" and "target opt = (TableScope table_id, option)"
    and "Option.bind pending (\<lambda>m. map_of m option) = None"
  shows "\<exists>n. s = to_string n \<and>
    GetConfigOption_idx X (snd (Catalog_SetConfigOption opt options)) option schema table_id d pending = Inr n"
proof -
  obtain n where n: "s = to_string n" using numeric_option_text [OF assms(1,2)] by auto
  have "TableIndex_IsValid table_id" using assms(5) by (auto simp: target_def scope_of_def split: if_splits)
  then have "TryGetConfigOption (snd (Catalog_SetConfigOption opt options)) option schema table_id pending = Some s"
    using assms by (simp add: TryGetConfigOption_order option_at_set target_def)
  then show ?thesis using n by (auto simp: GetConfigOption_idx_def cast_text)
qed

lemma reserved_names_have_prefix:
  "ConflictsWith (oe_strings X) (DuckLakeInlinedColNames_new True) nm \<Longrightarrow> IsInlinedSystemColumn X nm True"
  using duckdb_strings.CIEquals [OF strings]
  by (auto simp: ConflictsWith_def DuckLakeInlinedColNames_new_def IsInlinedSystemColumn_def starts_with inlined_prefix_def
      starts_with_def ascii_lower_def)

end

section \<open>What the others see\<close>

lemma others_alone:
  assumes "fold_res (option_step M) (filter (\<lambda>e. \<not> own_event e) es) s = Inr t"
  shows "option_at (os_options t) = fold other_effect es (option_at (os_options s))"
  using assms
proof (induction es arbitrary: s)
  case (Cons e es)
  show ?case
  proof (cases "own_event e")
    case True
    with Cons show ?thesis by (cases e) simp_all
  next
    case False
    with Cons.prems obtain s1 where "option_step M e s = Inr s1"
      and "fold_res (option_step M) (filter (\<lambda>e. \<not> own_event e) es) s1 = Inr t" by (auto simp: bind_res_Inr_iff)
    moreover from this(1) False have "option_at (os_options s1) = other_effect e (option_at (os_options s))"
      by (cases e) (auto simp: option_step_def option_at_set option_at_reset)
    ultimately show ?thesis using Cons.IH by simp
  qed
qed simp

lemma lookup_cong: "option_at a = option_at b \<Longrightarrow> TryGetConfigOption a key schema table_id pending = TryGetConfigOption b key schema table_id pending"
  by (simp add: TryGetConfigOption_order)

text \<open>
  The undo records of two transactions do not compose. The first transaction sets an option, the second sets it to
  something else, both are rolled back: the first one leaves the second's value alone, the second one restores what it
  found, the value of the first.
\<close>

lemma rolled_back_value_survives:
  assumes "target a = target b" and "opt_value a \<noteq> opt_value b"
    and "Catalog_SetConfigOption a options = (undo1, options1)" and "Catalog_SetConfigOption b options1 = (undo2, options2)"
  shows "option_at (UndoConfigOption undo2 (UndoConfigOption undo1 options2)) (target a) = Some (opt_value a)"
proof -
  have u: "undo1 = GetConfigOptionUndo (GetOptionScope options a) a" "undo2 = GetConfigOptionUndo (GetOptionScope options1 b) b"
    using assms(3,4) by (simp_all add: Catalog_SetConfigOption_def Let_def)
  have o1: "option_at options1 = (option_at options)(target a \<mapsto> opt_value a)" using option_at_set [of a options] assms(3) by simp
  have o2: "option_at options2 = (option_at options1)(target b \<mapsto> opt_value b)" using option_at_set [of b options1] assms(4) by simp
  show ?thesis using assms(1,2) by (simp add: option_at_undo u undo_record o1 o2)
qed

text \<open>Two transactions that set the same value: the rollback of the first takes the value the second keeps.\<close>

lemma same_value_lost:
  assumes "target a = target b" and "opt_value a = opt_value b"
    and "Catalog_SetConfigOption a options = (undo1, options1)" and "Catalog_SetConfigOption b options1 = (undo2, options2)"
  shows "option_at (UndoConfigOption undo1 options2) (target b) = option_at options (target b)"
proof -
  have u: "undo1 = GetConfigOptionUndo (GetOptionScope options a) a"
    using assms(3) by (simp add: Catalog_SetConfigOption_def Let_def)
  have o2: "option_at options2 = (option_at options1)(target b \<mapsto> opt_value b)" using option_at_set [of b options1] assms(4) by simp
  show ?thesis using assms(1,2) by (simp add: option_at_undo u undo_record o2)
qed

section \<open>An instance\<close>

definition option_ref :: option_env where
  "option_ref =
     \<lparr>oe_strings = duckdb_ref, oe_ci_starts_with = (\<lambda>s p. starts_with (ascii_lower s) (ascii_lower p)),
      oe_cast_varchar = (\<lambda>v. case value_text v of Some s \<Rightarrow> Inr s | None \<Rightarrow> Inl (ConversionException ''NULL'')),
      oe_cast_ubigint = (\<lambda>v. case value_text v of Some s \<Rightarrow> parse_unsigned s | None \<Rightarrow> Inl (ConversionException ''NULL'')),
      oe_cast_boolean = (\<lambda>v. Inr (value_text v = Some ''true'')), oe_get_bool = (\<lambda>v. Inr (value_text v = Some ''true'')),
      oe_get_double = (\<lambda>v. if value_text v = Some ''nan'' then Inr NotANumber else Inl (ConversionException ''DOUBLE'')),
      oe_double_string = (\<lambda>d. if d = NotANumber then ''nan'' else ''0''),
      oe_value_string = (\<lambda>v. case value_text v of Some s \<Rightarrow> s | None \<Rightarrow> ''NULL''),
      oe_parse_memory = parse_unsigned, oe_interval = (\<lambda>s. False), oe_setting = (\<lambda>_. None)\<rparr>"

interpretation option_ref: option_laws option_ref
  by (rule option_laws.intro) (simp_all add: option_ref_def ref.duckdb_strings_axioms)

text \<open>A NaN passes the range check of the delete threshold, because both comparisons with it are false.\<close>

lemma nan_threshold_accepted:
  "oe_get_double X val = Inr NotANumber \<Longrightarrow> ParseConfigOptionValue X ''rewrite_delete_threshold'' val = Inr (oe_double_string X NotANumber)"
  by (simp add: ParseConfigOptionValue_def ValidateConfigOptionName_def ConfigOptionParsers_def ParseDeleteThreshold_def
      double_negative_def double_above_one_def)

definition sample_option :: "string \<Rightarrow> string \<Rightarrow> TableIndex \<Rightarrow> DuckLakeConfigOption" where
  "sample_option k v i = \<lparr>opt_key = k, opt_value = v, opt_schema_id = SchemaIndex_default, opt_table_id = i\<rparr>"

definition sample_metadata :: "unit metadata_ops" where
  "sample_metadata = \<lparr>md_set = (\<lambda>_ m. Inr m), md_reset = (\<lambda>_ m. Inr (True, m))\<rparr>"

definition sample_session :: "unit option_session" where
  "sample_session =
     \<lparr>os_options = \<lparr>config_options = [(''auto_compact'', ''true'')], schema_options = [], table_options = []\<rparr>, os_undo = [], os_metadata = ()\<rparr>"

definition sample_events :: "option_event list" where
  "sample_events =
     [OwnSet (sample_option ''auto_compact'' ''false'' INVALID_INDEX), OwnSet (sample_option ''sort_on_insert'' ''false'' 5),
      OtherSet (sample_option ''auto_compact'' ''false'' 5), OwnReset (sample_option ''auto_compact'' [] INVALID_INDEX)]"

text \<open>
  C40. A rollback undoes the transaction's changes to the options and nothing else: let a transaction set and reset
  options in any scopes and any order, possibly the same option several times, while other transactions change other
  options of the shared catalog. After UndoConfigOptions every lookup, at any scope and with any pending options of
  the table, gives what it would give if only the changes of the others had been made.
\<close>

theorem rollback_restores_options:
  assumes "fold_res (option_step M) es s = Inr s'" and "os_undo s = []" and "disjoint_changes es"
    and "fold_res (option_step M) (filter (\<lambda>e. \<not> own_event e) es) s = Inr t"
  shows "TryGetConfigOption (os_options (UndoConfigOptions s')) key schema table_id pending =
    TryGetConfigOption (os_options t) key schema table_id pending"
proof -
  obtain us where "os_undo s' = us"
    and "fold undo_at (rev us) (option_at (os_options s')) = fold other_effect es (option_at (os_options s))"
    using undo_run [OF assms(1,3)] assms(2) by auto
  then show ?thesis
    using others_alone [OF assms(4)] by (intro lookup_cong) (simp add: UndoConfigOptions_def option_at_undos)
qed

theorem rollback_restores_options_witness:
  "\<exists>s' t. fold_res (option_step sample_metadata) sample_events sample_session = Inr s' \<and> disjoint_changes sample_events \<and>
    fold_res (option_step sample_metadata) (filter (\<lambda>e. \<not> own_event e) sample_events) sample_session = Inr t \<and>
    TryGetConfigOption (os_options s') ''auto_compact'' SchemaIndex_default INVALID_INDEX None = None \<and>
    TryGetConfigOption (os_options (UndoConfigOptions s')) ''auto_compact'' SchemaIndex_default INVALID_INDEX None =
      TryGetConfigOption (os_options t) ''auto_compact'' SchemaIndex_default INVALID_INDEX None"
proof -
  have "case fold_res (option_step sample_metadata) sample_events sample_session of
      Inr s' \<Rightarrow> TryGetConfigOption (os_options s') ''auto_compact'' SchemaIndex_default INVALID_INDEX None = None | Inl _ \<Rightarrow> False"
    by code_simp
  then obtain s' where run: "fold_res (option_step sample_metadata) sample_events sample_session = Inr s'"
    and cleared: "TryGetConfigOption (os_options s') ''auto_compact'' SchemaIndex_default INVALID_INDEX None = None"
    by (auto split: sum.splits)
  have "is_ok (fold_res (option_step sample_metadata) (filter (\<lambda>e. \<not> own_event e) sample_events) sample_session)" by code_simp
  then obtain t where others: "fold_res (option_step sample_metadata) (filter (\<lambda>e. \<not> own_event e) sample_events) sample_session = Inr t"
    by (auto simp: is_ok_def)
  have "disjoint_changes sample_events" by code_simp
  then show ?thesis
    using run cleared others rollback_restores_options [OF run _ _ others] by (auto simp: sample_session_def)
qed

end
