(* ===== verification/DL_TableEntry.thy ===== *)
theory DL_TableEntry
  imports DL_TransactionState DL_Partition DL_TypeEvolution DL_Options
begin

text \<open>
  The catalog entry of a table: \<^verbatim>\<open>DuckLakeTableEntry\<close> of \<^verbatim>\<open>src/src/storage/ducklake_table_entry.cpp\<close>. An entry is immutable apart from its
  column counter; changing a table builds a new entry from a copy of the old one, with the change recorded in its
  \<^verbatim>\<open>LocalChange\<close>. A column is described three times: in the list of columns, as a root of the field data, and, by its position,
  in the constraints; the partition refers to columns by identifier and the sort order by name in a text.

  This theory has the entry and its constructors, the lookup of fields by path, the columns whose statistics are skipped, and the
  construction of partition and sort keys; \<^verbatim>\<open>DL_TableAlter\<close> has the forms of \<^verbatim>\<open>ALTER TABLE\<close>.

  DuckDB's list of columns, its parser and printer of expressions, the scan of a column and the queries of the metadata
  manager are the record \<open>alter_env\<close>.
\<close>

section \<open>Entries\<close>

datatype Constraint =
    NotNullConstraint nat
  | UniqueIndexConstraint nat bool
  | UniqueNamesConstraint "string list" bool
  | CheckConstraint
  | ForeignKeyConstraint
  | OtherConstraint

datatype OrderType = ORDER_INVALID | ORDER_TYPE_DEFAULT | ASCENDING | DESCENDING

datatype OrderByNullType = NULLS_INVALID | NULLS_ORDER_DEFAULT | NULLS_FIRST | NULLS_LAST

record OrderByNode =
  order_type :: OrderType
  order_null_order :: OrderByNullType
  order_expression :: ParsedExpression

record DuckLakeSortField =
  sort_key_index :: idx
  sort_expression :: string
  sort_dialect :: string
  sort_direction :: OrderType
  sort_null_order :: OrderByNullType

record DuckLakeSort =
  sort_id :: idx
  sort_fields :: "DuckLakeSortField list"

record CreateTableInfo =
  ct_name :: string
  ct_comment :: "string option"
  ct_columns :: "ColumnDefinition list"
  ct_constraints :: "Constraint list"

record DuckLakeTableEntry =
  te_name :: string
  te_comment :: "string option"
  te_columns :: "ColumnDefinition list"
  te_constraints :: "Constraint list"
  te_id :: TableIndex
  te_uuid :: string
  te_data_path :: string
  te_field_data :: DuckLakeFieldData
  te_next_column_id :: "idx option"
  te_inlined_data_tables :: "string list"
  te_partition :: "DuckLakePartition option"
  te_sort :: "DuckLakeSort option"
  te_options :: option_map
  te_local_change :: LocalChange
  te_changed_fields :: "ColumnChangeInfo option"
  te_added_constraint :: "(string \<times> string list) option"

text \<open>What the operations reach of the transaction: its local changes, the counter of local identifiers, the options.\<close>

record 'm alter_txn =
  at_local_changes :: LocalTableChanges
  at_local_catalog_id :: idx
  at_session :: "'m option_session"

record 'm alter_env =
  ae_evolution :: evolution_env
  ae_options :: option_env
  ae_version :: DuckLakeVersion
  ae_schema_id :: SchemaIndex
  ae_values :: "Value duckdb_value"
  ae_add_column :: "ColumnDefinition list \<Rightarrow> ColumnDefinition \<Rightarrow> ColumnDefinition list res"
  ae_parse :: "string \<Rightarrow> ParsedExpression list res"
  ae_get_int64 :: "Value \<Rightarrow> int"
  ae_list_children :: "Value \<Rightarrow> Value list"
  ae_try_cast_idx :: "string \<Rightarrow> idx option"
  ae_evaluate_option :: "string \<Rightarrow> ParsedExpression \<Rightarrow> Value res"
  ae_next_column_id :: "TableIndex \<Rightarrow> idx res"
  ae_created_with_table :: "string \<Rightarrow> string \<Rightarrow> bool res"
  ae_table_stats :: "TableIndex \<Rightarrow> DuckLakeTableStats option res"
  ae_scan_column :: "DuckLakeTableEntry \<Rightarrow> ColumnDefinition \<Rightarrow> Value list list res"
  ae_metadata :: "'m metadata_ops"

abbreviation ae_strings :: "'m alter_env \<Rightarrow> duckdb_string" where
  "ae_strings E \<equiv> ev_strings (ae_evolution E)"

abbreviation ae_exprs :: "'m alter_env \<Rightarrow> duckdb_exprs" where
  "ae_exprs E \<equiv> ev_exprs (ae_evolution E)"

abbreviation same_name :: "'m alter_env \<Rightarrow> string \<Rightarrow> string \<Rightarrow> bool" where
  "same_name E a b \<equiv> Identifier_equal (ae_exprs E) a b"

abbreviation at_options :: "'m alter_txn \<Rightarrow> DuckLakeOptions" where
  "at_options x \<equiv> os_options (at_session x)"

definition GetInfo :: "DuckLakeTableEntry \<Rightarrow> CreateTableInfo" where
  "GetInfo t = \<lparr>ct_name = te_name t, ct_comment = te_comment t, ct_columns = te_columns t, ct_constraints = te_constraints t\<rparr>"

text \<open>Columns by name: the position is both the logical and the physical index, since there are no generated columns.\<close>

fun find_index :: "('a \<Rightarrow> bool) \<Rightarrow> 'a list \<Rightarrow> nat option" where
  "find_index P [] = None"
| "find_index P (x # xs) = (if P x then Some 0 else map_option Suc (find_index P xs))"

definition column_index :: "'m alter_env \<Rightarrow> ColumnDefinition list \<Rightarrow> string \<Rightarrow> nat option" where
  "column_index E columns nm = find_index (\<lambda>c. same_name E (col_name c) nm) columns"

definition ColumnExists :: "'m alter_env \<Rightarrow> ColumnDefinition list \<Rightarrow> string \<Rightarrow> bool" where
  "ColumnExists E columns nm \<longleftrightarrow> column_index E columns nm \<noteq> None"

definition change_of :: "LocalChangeType \<Rightarrow> LocalChange" where
  "change_of ty = \<lparr>lc_type = ty, lc_field_index = FieldIndex INVALID_INDEX, lc_view_column_comment_name = []\<rparr>"

definition column_change :: "LocalChangeType \<Rightarrow> FieldIndex \<Rightarrow> LocalChange" where
  "column_change ty i = (change_of ty)\<lparr>lc_field_index := i\<rparr>"

section \<open>Constructors\<close>

definition Entry_CheckSupportedTypes :: "'m alter_env \<Rightarrow> ColumnDefinition list \<Rightarrow> unit res" where
  "Entry_CheckSupportedTypes E columns =
     CheckSupportedTypes (ae_strings E) (ev_types (ae_evolution E)) (map col_type columns) (ae_version E)"

definition check_column :: "ColumnDefinition \<Rightarrow> unit res" where
  "check_column c =
     (if col_generated c then Inl (NotImplementedException ''DuckLake does not support generated columns'')
      else if \<not> col_compression_auto c
      then Inl (NotImplementedException ''Defining a compression type for a column is not supported in DuckLake'')
      else Inr ())"

fun check_constraint :: "Constraint \<Rightarrow> unit res" where
  "check_constraint (NotNullConstraint _) = Inr ()"
| "check_constraint CheckConstraint = Inl (NotImplementedException ''CHECK constraints are not supported in DuckLake'')"
| "check_constraint (UniqueIndexConstraint _ _) = Inr ()"
| "check_constraint (UniqueNamesConstraint _ _) = Inr ()"
| "check_constraint ForeignKeyConstraint = Inl (NotImplementedException ''FOREIGN KEY constraints are not supported in DuckLake'')"
| "check_constraint OtherConstraint = Inl (NotImplementedException ''Unsupported constraint in DuckLake'')"

text \<open>The constructor the others delegate to, and what those for a changed table have in common.\<close>

definition DuckLakeTableEntry_new :: "'m alter_env \<Rightarrow> CreateTableInfo \<Rightarrow> TableIndex \<Rightarrow> string \<Rightarrow> string \<Rightarrow> DuckLakeFieldData \<Rightarrow> idx option \<Rightarrow>
    string list \<Rightarrow> LocalChange \<Rightarrow> DuckLakeTableEntry res" where
  "DuckLakeTableEntry_new E info table_id uuid path data next_id inlined local_change =
     bind_res (Entry_CheckSupportedTypes E (ct_columns info)) (\<lambda>_.
     bind_res (for_each (ct_columns info) check_column) (\<lambda>_.
     bind_res (for_each (ct_constraints info) check_constraint) (\<lambda>_.
       Inr \<lparr>te_name = ct_name info, te_comment = ct_comment info, te_columns = ct_columns info,
            te_constraints = ct_constraints info, te_id = table_id, te_uuid = uuid, te_data_path = path,
            te_field_data = data, te_next_column_id = next_id, te_inlined_data_tables = inlined, te_partition = None,
            te_sort = None, te_options = [], te_local_change = local_change, te_changed_fields = None, te_added_constraint = None\<rparr>)))"

definition entry_from_parent :: "'m alter_env \<Rightarrow> DuckLakeTableEntry \<Rightarrow> CreateTableInfo \<Rightarrow> LocalChange \<Rightarrow> DuckLakeTableEntry res" where
  "entry_from_parent E parent info local_change =
     bind_res (DuckLakeTableEntry_new E info (te_id parent) (te_uuid parent) (te_data_path parent) (te_field_data parent)
         (te_next_column_id parent) (te_inlined_data_tables parent) local_change) (\<lambda>e.
     bind_res (Entry_CheckSupportedTypes E (te_columns e)) (\<lambda>_.
       Inr (e\<lparr>te_partition := te_partition parent, te_sort := te_sort parent, te_options := te_options parent\<rparr>)))"

abbreviation no_index :: "'a res" where
  "no_index \<equiv> Inl (InternalException ''Attempting to get the index of an optional_idx that is not set'')"

definition DuckLakeTableEntry_change :: "'m alter_env \<Rightarrow> DuckLakeTableEntry \<Rightarrow> CreateTableInfo \<Rightarrow> LocalChange \<Rightarrow> DuckLakeTableEntry res" where
  "DuckLakeTableEntry_change E parent info local_change =
     bind_res (entry_from_parent E parent info local_change) (\<lambda>e.
       if lc_type local_change = LC_ADD_COLUMN
       then bind_res (vector_at (te_columns e) (length (te_columns e) - 1)) (\<lambda>new_col.
            case te_next_column_id e of
              None \<Rightarrow> no_index
            | Some next_col \<Rightarrow>
                bind_res (AddColumn (ae_strings E) (ae_exprs E) (te_field_data e) new_col next_col) (\<lambda>(data, next_col).
                  Inr (e\<lparr>te_field_data := data, te_next_column_id := Some next_col\<rparr>)))
       else if lc_type local_change = LC_REMOVE_COLUMN
       then Inr (e\<lparr>te_field_data := DropColumn (te_field_data e) (lc_field_index local_change)\<rparr>)
       else Inr e)"

definition GetColumnByFieldId :: "'m alter_env \<Rightarrow> DuckLakeTableEntry \<Rightarrow> FieldIndex \<Rightarrow> ColumnDefinition res" where
  "GetColumnByFieldId E t i =
     (case GetByFieldIndex (te_field_data t) i of
        None \<Rightarrow> Inl (InternalException (''Column with field id '' @ to_string (field_index i) @ '' not found''))
      | Some f \<Rightarrow> GetColumn (ae_evolution E) (te_columns t) (field_name f))"

definition DuckLakeTableEntry_default :: "'m alter_env \<Rightarrow> DuckLakeTableEntry \<Rightarrow> CreateTableInfo \<Rightarrow> FieldIndex \<Rightarrow> bool \<Rightarrow> DuckLakeTableEntry res" where
  "DuckLakeTableEntry_default E parent info i is_column_new =
     bind_res (entry_from_parent E parent info (column_change LC_SET_DEFAULT i)) (\<lambda>e.
     bind_res (GetColumnByFieldId E e i) (\<lambda>col.
     bind_res (FieldData_SetDefault (ae_exprs E) (te_field_data e) i col is_column_new) (\<lambda>data.
       Inr (e\<lparr>te_field_data := data\<rparr>))))"

definition DuckLakeTableEntry_constraint :: "'m alter_env \<Rightarrow> DuckLakeTableEntry \<Rightarrow> CreateTableInfo \<Rightarrow> string \<Rightarrow> string list \<Rightarrow> DuckLakeTableEntry res" where
  "DuckLakeTableEntry_constraint E parent info ty names =
     bind_res (entry_from_parent E parent info (change_of LC_ADD_CONSTRAINT)) (\<lambda>e.
       Inr (e\<lparr>te_added_constraint := Some (ty, names)\<rparr>))"

text \<open>The references to columns in an expression; a qualified one has several names and ends in that of the column.\<close>

fun column_refs :: "ParsedExpression \<Rightarrow> string list list" where
  "column_refs (ConstantExpression v) = []"
| "column_refs (CastExpression t ty e) = column_refs e"
| "column_refs (ColumnRefExpression ns) = [ns]"
| "column_refs (FunctionExpression f es) = concat (map column_refs es)"
| "column_refs (OtherExpression s es) = concat (map column_refs es)"

definition IsQualified :: "string list \<Rightarrow> bool" where
  "IsQualified names \<longleftrightarrow> 1 < length names"

fun ReplaceColumnRefName :: "'m alter_env \<Rightarrow> string \<Rightarrow> string \<Rightarrow> ParsedExpression \<Rightarrow> ParsedExpression" where
  "ReplaceColumnRefName E old_name new_name (ColumnRefExpression ns) =
     (if \<not> IsQualified ns \<and> same_name E (last ns) old_name then ColumnRefExpression (butlast ns @ [new_name])
      else ColumnRefExpression ns)"
| "ReplaceColumnRefName E old_name new_name (ConstantExpression v) = ConstantExpression v"
| "ReplaceColumnRefName E old_name new_name (CastExpression t ty e) = CastExpression t ty (ReplaceColumnRefName E old_name new_name e)"
| "ReplaceColumnRefName E old_name new_name (FunctionExpression f es) = FunctionExpression f (map (ReplaceColumnRefName E old_name new_name) es)"
| "ReplaceColumnRefName E old_name new_name (OtherExpression s es) = OtherExpression s (map (ReplaceColumnRefName E old_name new_name) es)"

definition rename_sort_field :: "'m alter_env \<Rightarrow> string \<Rightarrow> string \<Rightarrow> DuckLakeSortField \<Rightarrow> DuckLakeSortField res" where
  "rename_sort_field E old_name new_name f =
     bind_res (ae_parse E (sort_expression f)) (\<lambda>parsed.
       case parsed of
         [] \<Rightarrow> Inr f
       | e # _ \<Rightarrow> Inr (f\<lparr>sort_expression := ev_expr_string (ae_evolution E) (ReplaceColumnRefName E old_name new_name e)\<rparr>))"

definition DuckLakeTableEntry_rename :: "'m alter_env \<Rightarrow> DuckLakeTableEntry \<Rightarrow> CreateTableInfo \<Rightarrow> FieldIndex \<Rightarrow> string \<Rightarrow> DuckLakeTableEntry res" where
  "DuckLakeTableEntry_rename E parent info i new_name =
     bind_res (DuckLakeTableEntry_change E parent info (column_change LC_RENAME_COLUMN i)) (\<lambda>e.
       let e = e\<lparr>te_field_data := RenameColumn (te_field_data e) i new_name\<rparr> in
       case te_sort e of
         None \<Rightarrow> Inr e
       | Some sort_data \<Rightarrow>
           (case GetByFieldIndex (te_field_data parent) i of
              None \<Rightarrow> Inl (InternalException ''Attempting to dereference an optional pointer that is not set'')
            | Some old_field \<Rightarrow>
                bind_res (map_res (rename_sort_field E (field_name old_field) new_name) (sort_fields sort_data)) (\<lambda>fields.
                  Inr (e\<lparr>te_sort := Some (sort_data\<lparr>sort_fields := fields\<rparr>)\<rparr>))))"

definition DuckLakeTableEntry_drop :: "'m alter_env \<Rightarrow> DuckLakeTableEntry \<Rightarrow> CreateTableInfo \<Rightarrow> FieldIndex \<Rightarrow> ColumnChangeInfo \<Rightarrow> DuckLakeTableEntry res" where
  "DuckLakeTableEntry_drop E parent info i changed =
     bind_res (DuckLakeTableEntry_change E parent info (column_change LC_REMOVE_COLUMN i)) (\<lambda>e.
       Inr (e\<lparr>te_changed_fields := Some changed\<rparr>))"

definition DuckLakeTableEntry_type :: "'m alter_env \<Rightarrow> DuckLakeTableEntry \<Rightarrow> CreateTableInfo \<Rightarrow> ColumnChangeInfo \<Rightarrow> DuckLakeFieldData \<Rightarrow> DuckLakeTableEntry res" where
  "DuckLakeTableEntry_type E parent info changed new_field_data =
     bind_res (DuckLakeTableEntry_change E parent info (change_of LC_CHANGE_COLUMN_TYPE)) (\<lambda>e.
     bind_res (Entry_CheckSupportedTypes E (te_columns e)) (\<lambda>_.
       Inr (e\<lparr>te_changed_fields := Some changed, te_field_data := new_field_data\<rparr>)))"

definition DuckLakeTableEntry_partition :: "'m alter_env \<Rightarrow> DuckLakeTableEntry \<Rightarrow> CreateTableInfo \<Rightarrow> DuckLakePartition \<Rightarrow> DuckLakeTableEntry res" where
  "DuckLakeTableEntry_partition E parent info p =
     bind_res (DuckLakeTableEntry_change E parent info (change_of LC_SET_PARTITION_KEY)) (\<lambda>e. Inr (e\<lparr>te_partition := Some p\<rparr>))"

definition DuckLakeTableEntry_sort :: "'m alter_env \<Rightarrow> DuckLakeTableEntry \<Rightarrow> CreateTableInfo \<Rightarrow> DuckLakeSort option \<Rightarrow> DuckLakeTableEntry res" where
  "DuckLakeTableEntry_sort E parent info s =
     bind_res (DuckLakeTableEntry_change E parent info (change_of LC_SET_SORT_KEY)) (\<lambda>e. Inr (e\<lparr>te_sort := s\<rparr>))"

section \<open>Fields by path\<close>

definition TryGetFieldId :: "'m alter_env \<Rightarrow> ColumnDefinition list \<Rightarrow> DuckLakeFieldData \<Rightarrow> string list \<Rightarrow> bool \<Rightarrow> DuckLakeFieldId option res" where
  "TryGetFieldId E columns data names has_offset =
     bind_res (vector_at names 0) (\<lambda>root.
       case column_index E columns root of
         None \<Rightarrow> Inr None
       | Some i \<Rightarrow> bind_res (GetByNames (ae_strings E) data i names has_offset) (\<lambda>(f, _). Inr f))"

definition GetFieldId :: "'m alter_env \<Rightarrow> DuckLakeTableEntry \<Rightarrow> string list \<Rightarrow> DuckLakeFieldId res" where
  "GetFieldId E t names =
     bind_res (TryGetFieldId E (te_columns t) (te_field_data t) names False) (\<lambda>f.
       case f of
         None \<Rightarrow> Inl (BinderException (''Column '' @ StringUtil_Join (ae_strings E) names ''.'' @ '' does not exist''))
       | Some f \<Rightarrow> Inr f)"

definition GetNotNullFields :: "'m alter_env \<Rightarrow> DuckLakeTableEntry \<Rightarrow> ci_set res" where
  "GetNotNullFields E t =
     fold_res (\<lambda>c names.
       case c of
         NotNullConstraint i \<Rightarrow> bind_res (vector_at (te_columns t) i) (\<lambda>col. Inr (ci_insert (ae_strings E) (col_name col) names))
       | _ \<Rightarrow> Inr names) (te_constraints t) []"

section \<open>Columns without statistics\<close>

fun FindStatsUnsupportedField :: "DuckLakeFieldId \<Rightarrow> DuckLakeFieldId option" where
  "FindStatsUnsupportedField (FieldId c n t cs) =
     (if type_id t = GEOMETRY \<or> type_id t = VARIANT then Some (FieldId c n t cs)
      else case List.find (\<lambda>r. r \<noteq> None) (map FindStatsUnsupportedField cs) of Some r \<Rightarrow> r | None \<Rightarrow> None)"

definition ValidateStatsCanBeSkipped :: "'m alter_env \<Rightarrow> DuckLakePartition option \<Rightarrow> DuckLakeFieldId \<Rightarrow> unit res" where
  "ValidateStatsCanBeSkipped E partition_data f =
     (case FindStatsUnsupportedField f of
        Some unsupported \<Rightarrow>
          Inl (NotImplementedException
            (if type_id (field_type f) = GEOMETRY \<or> type_id (field_type f) = VARIANT
             then ''Statistics cannot be skipped for '' @ ev_type_string (ae_evolution E) (field_type f) @ '' columns''
             else ''Statistics cannot be skipped for column '' @ field_name f @ '' - it contains a '' @
               ev_type_string (ae_evolution E) (field_type unsupported) @ '' field ('' @ field_name unsupported @ '')''))
      | None \<Rightarrow>
          (case partition_data of
             None \<Rightarrow> Inr ()
           | Some p \<Rightarrow> for_each (p_fields p) (\<lambda>pf.
               if pf_field_id pf = GetFieldIndex f
               then Inl (InvalidInputException (''Statistics cannot be skipped for partition column '' @ field_name f))
               else Inr ())))"

definition skipped_column_names :: "'m alter_env \<Rightarrow> Value \<Rightarrow> string list res" where
  "skipped_column_names E val =
     (if type_id (value_type val) = LIST
      then map_res (oe_cast_varchar (ae_options E)) (filter (\<lambda>c. \<not> IsNull c) (ae_list_children E val))
      else bind_res (oe_cast_varchar (ae_options E) val) (\<lambda>column_name. Inr (if column_name = [] then [] else [column_name])))"

definition skip_column :: "'m alter_env \<Rightarrow> ColumnDefinition list \<Rightarrow> DuckLakeFieldData \<Rightarrow> DuckLakePartition option \<Rightarrow> string \<Rightarrow> string \<Rightarrow>
    idx list \<Rightarrow> idx list res" where
  "skip_column E columns data partition_data table_name column_name seen =
     bind_res (TryGetFieldId E columns data [column_name] True) (\<lambda>f.
       case f of
         None \<Rightarrow> Inl (BinderException (''Column '' @ column_name @ '' does not exist in table '' @ table_name))
       | Some f \<Rightarrow>
           bind_res (ValidateStatsCanBeSkipped E partition_data f) (\<lambda>_.
             let i = field_index (GetFieldIndex f) in Inr (if i \<in> set seen then seen else seen @ [i])))"

definition ResolveSkippedStatsColumns :: "'m alter_env \<Rightarrow> ColumnDefinition list \<Rightarrow> DuckLakeFieldData \<Rightarrow> DuckLakePartition option \<Rightarrow> string \<Rightarrow> Value \<Rightarrow>
    string res" where
  "ResolveSkippedStatsColumns E columns data partition_data table_name val =
     (if IsNull val then Inr []
      else bind_res (skipped_column_names E val) (\<lambda>column_names.
           bind_res (fold_res (skip_column E columns data partition_data table_name) column_names []) (\<lambda>ids.
             Inr (StringUtil_Join (ae_strings E) (map to_string ids) '',''))))"

fun AddFieldAndChildren :: "DuckLakeFieldId \<Rightarrow> idx list" where
  "AddFieldAndChildren (FieldId c n t cs) = field_index (cd_id c) # concat (map AddFieldAndChildren cs)"

definition skipped_entry :: "'m alter_env \<Rightarrow> DuckLakeFieldData \<Rightarrow> string \<Rightarrow> idx list" where
  "skipped_entry E data entry =
     (case ae_try_cast_idx E entry of
        None \<Rightarrow> []
      | Some i \<Rightarrow> (case GetByFieldIndex data (FieldIndex i) of None \<Rightarrow> [] | Some f \<Rightarrow> AddFieldAndChildren f))"

definition GetSkippedStatsFields :: "'m alter_env \<Rightarrow> DuckLakeOptions \<Rightarrow> DuckLakeTableEntry \<Rightarrow> idx set" where
  "GetSkippedStatsFields E options t =
     (case (case map_of (te_options t) ''skip_stats_columns'' of
              Some v \<Rightarrow> Some v
            | None \<Rightarrow> TryGetTableConfigOption options ''skip_stats_columns'' (te_id t)) of
        None \<Rightarrow> {}
      | Some v \<Rightarrow> set (concat (map (skipped_entry E (te_field_data t)) (StringUtil_Split (ae_strings E) v CHR '',''))))"

definition ValidateAddedFieldsCanSkipStats :: "'m alter_env \<Rightarrow> DuckLakeOptions \<Rightarrow> DuckLakeTableEntry \<Rightarrow> DuckLakeFieldId \<Rightarrow> DuckLakeFieldId \<Rightarrow> unit res" where
  "ValidateAddedFieldsCanSkipStats E options t parent_id new_field_id =
     (case FindStatsUnsupportedField new_field_id of
        None \<Rightarrow> Inr ()
      | Some unsupported \<Rightarrow>
          if field_index (GetFieldIndex parent_id) \<notin> GetSkippedStatsFields E options t then Inr ()
          else Inl (NotImplementedException (''Cannot give column '' @ field_name parent_id @ '' a '' @
                 ev_type_string (ae_evolution E) (field_type unsupported) @ '' field ('' @ field_name unsupported @
                 '') - it is listed in the skip_stats_columns option, and statistics cannot be skipped for that type'')))"

section \<open>Partition and sort keys\<close>

definition GetUnqualifiedColumnName :: "string list \<Rightarrow> string res" where
  "GetUnqualifiedColumnName names =
     (if IsQualified names
      then Inl (InvalidInputException ''Unexpected qualified column reference - only unqualified columns are supported'')
      else Inr (last names))"

definition GetLocalCatalogId :: "'m alter_txn \<Rightarrow> idx \<times> 'm alter_txn" where
  "GetLocalCatalogId x = (at_local_catalog_id x, x\<lparr>at_local_catalog_id := at_local_catalog_id x + 1\<rparr>)"

definition transform_names :: "(string \<times> DuckLakeTransformType) list" where
  "transform_names =
     [(''year'', YEAR), (''month'', MONTH), (''day'', DAY), (''hour'', HOUR), (''epoch_year'', EPOCH_YEAR),
      (''epoch_month'', EPOCH_MONTH), (''epoch_day'', EPOCH_DAY), (''epoch_hour'', EPOCH_HOUR)]"

definition bucket_transform :: "'m alter_env \<Rightarrow> ParsedExpression \<Rightarrow> ParsedExpression list \<Rightarrow> (string \<times> DuckLakeTransform) res" where
  "bucket_transform E expr args =
     (let expected = Inl (InvalidInputException (''Expected bucket(bucket_count, column), but got '' @ ev_expr_string (ae_evolution E) expr)) in
      case args of
        [bucket_expr, colref] \<Rightarrow>
          (case bucket_expr of
             ConstantExpression v \<Rightarrow>
               (case colref of
                  ColumnRefExpression names \<Rightarrow>
                    (case DefaultTryCastAs (ae_exprs E) v (plain_type BIGINT) of
                       None \<Rightarrow> Inl (InvalidInputException ''Bucket count must be an integer'')
                     | Some bucket_value \<Rightarrow>
                         let n = ae_get_int64 E bucket_value in
                         if n \<le> 0 then Inl (InvalidInputException ''Bucket count must be positive'')
                         else if n > 2147483647 then Inl (InvalidInputException ''Bucket count cannot exceed 2147483647'')
                         else bind_res (GetUnqualifiedColumnName names) (\<lambda>column_name.
                                Inr (column_name, \<lparr>transform_type = BUCKET, bucket_count = of_int n\<rparr>)))
                | _ \<Rightarrow> expected)
           | _ \<Rightarrow> Inl (InvalidInputException (''Bucket count must be a constant integer, got '' @ ev_expr_string (ae_evolution E) expr)))
      | _ \<Rightarrow> expected)"

definition unary_transform :: "'m alter_env \<Rightarrow> ParsedExpression \<Rightarrow> string \<Rightarrow> ParsedExpression list \<Rightarrow> (string \<times> DuckLakeTransform) res" where
  "unary_transform E expr nm args =
     (case map_of transform_names nm of
        None \<Rightarrow> Inl (NotImplementedException (''Unsupported partition function '' @ nm @
          '' - only year, month, day, hour, epoch_year, epoch_month, epoch_day, epoch_hour, and bucket are supported''))
      | Some ty \<Rightarrow>
          if IsEpochTransform ty \<and> \<not> SupportsV1_1Metadata (ae_version E)
          then ThrowUnsupportedByVersion (ae_version E) (''the '' @ nm @ '' partition transform'')
          else (case args of
                  [ColumnRefExpression names] \<Rightarrow>
                    bind_res (GetUnqualifiedColumnName names) (\<lambda>column_name.
                      Inr (column_name, \<lparr>transform_type = ty, bucket_count = 0\<rparr>))
                | _ \<Rightarrow> Inl (NotImplementedException (''Expected '' @ nm @ ''(column), but got '' @ ev_expr_string (ae_evolution E) expr))))"

definition partition_transform :: "'m alter_env \<Rightarrow> ParsedExpression \<Rightarrow> (string \<times> DuckLakeTransform) res" where
  "partition_transform E expr =
     (case expr of
        ColumnRefExpression names \<Rightarrow>
          bind_res (GetUnqualifiedColumnName names) (\<lambda>column_name.
            Inr (column_name, \<lparr>transform_type = IDENTITY, bucket_count = 0\<rparr>))
      | FunctionExpression fn args \<Rightarrow>
          (let nm = StringUtil_Lower (ae_strings E) fn in
           if nm = ''bucket'' then bucket_transform E expr args else unary_transform E expr nm args)
      | _ \<Rightarrow> Inl (NotImplementedException (''Unsupported partition key '' @ ev_expr_string (ae_evolution E) expr @
          '' - only identity columns and year/month/day/hour/epoch_year/epoch_month/epoch_day/epoch_hour/bucket are supported'')))"

definition GetPartitionField :: "'m alter_env \<Rightarrow> ColumnDefinition list \<Rightarrow> DuckLakeFieldData \<Rightarrow> ParsedExpression \<Rightarrow> DuckLakePartitionField res" where
  "GetPartitionField E columns data expr =
     bind_res (partition_transform E expr) (\<lambda>(column_name, transform).
       case column_index E columns column_name of
         None \<Rightarrow> Inl (CatalogException (''Unexpected partition key - column '' @ column_name @ '' does not exist''))
       | Some i \<Rightarrow>
           bind_res (vector_at columns i) (\<lambda>col.
             if type_id (col_type col) = SQLNULL
             then Inl (InvalidInputException (''Column '' @ column_name @ '' has type NULL and cannot be used as a partition key''))
             else bind_res (GetByRootIndex data i) (\<lambda>f.
                    Inr \<lparr>partition_key_index = 0, pf_field_id = GetFieldIndex f, pf_transform = transform\<rparr>)))"

definition PartitionFieldsMatch :: "DuckLakePartition option \<Rightarrow> DuckLakePartition \<Rightarrow> bool" where
  "PartitionFieldsMatch current requested \<longleftrightarrow>
     (case current of None \<Rightarrow> p_fields requested = [] | Some p \<Rightarrow> p_fields p = p_fields requested)"

definition add_partition_key :: "'m alter_env \<Rightarrow> ColumnDefinition list \<Rightarrow> DuckLakeFieldData \<Rightarrow> ParsedExpression \<Rightarrow> DuckLakePartitionField list \<Rightarrow>
    DuckLakePartitionField list res" where
  "add_partition_key E columns data expr keys =
     bind_res (GetPartitionField E columns data expr) (\<lambda>f.
       if list_ex (\<lambda>existing. pf_field_id existing = pf_field_id f \<and> pf_transform existing = pf_transform f) keys
       then Inl (BinderException (''Duplicate partition key: expression '' @ ev_expr_string (ae_evolution E) expr @
              '' matches an earlier partition key''))
       else Inr (keys @ [f\<lparr>partition_key_index := of_nat (length keys)\<rparr>]))"

definition BuildPartitionData :: "'m alter_env \<Rightarrow> ColumnDefinition list \<Rightarrow> DuckLakeFieldData \<Rightarrow> ParsedExpression list \<Rightarrow> 'm alter_txn \<Rightarrow>
    (DuckLakePartition \<times> 'm alter_txn) res" where
  "BuildPartitionData E columns data partition_keys x =
     (let (i, x) = GetLocalCatalogId x in
      bind_res (fold_res (add_partition_key E columns data) partition_keys []) (\<lambda>fields.
        Inr (\<lparr>p_partition_id = i, local_partition_id = Some i, p_fields = fields\<rparr>, x)))"

definition missing_column :: "'m alter_env \<Rightarrow> ColumnDefinition list \<Rightarrow> string list \<Rightarrow> string list \<Rightarrow> string list res" where
  "missing_column E columns names missing =
     bind_res (GetUnqualifiedColumnName names) (\<lambda>column_name.
       Inr (if ColumnExists E columns column_name \<or> column_name \<in> set missing then missing else missing @ [column_name]))"

definition ValidateSortExpressionColumns :: "'m alter_env \<Rightarrow> ColumnDefinition list \<Rightarrow> OrderByNode list \<Rightarrow> unit res" where
  "ValidateSortExpressionColumns E columns orders =
     bind_res (fold_res (missing_column E columns) (concat (map (\<lambda>o'. column_refs (order_expression o')) orders)) []) (\<lambda>missing.
       if missing \<noteq> []
       then Inl (BinderException (''Columns in the SET SORTED BY statement were not found in the DuckLake table. Unmatched columns were: '' @
              StringUtil_Join (ae_strings E) missing '', ''))
       else Inr ())"

definition sort_field_of :: "'m alter_env \<Rightarrow> nat \<Rightarrow> OrderByNode \<Rightarrow> DuckLakeSortField" where
  "sort_field_of E i node =
     \<lparr>sort_key_index = of_nat i, sort_expression = ev_expr_string (ae_evolution E) (order_expression node), sort_dialect = ''duckdb'',
      sort_direction = (if order_type node = DESCENDING then DESCENDING else ASCENDING), sort_null_order = order_null_order node\<rparr>"

definition BuildSortData :: "'m alter_env \<Rightarrow> ColumnDefinition list \<Rightarrow> OrderByNode list \<Rightarrow> 'm alter_txn \<Rightarrow> (DuckLakeSort option \<times> 'm alter_txn) res" where
  "BuildSortData E columns orders x =
     (if orders = [] then Inr (None, x)
      else bind_res (ValidateSortExpressionColumns E columns orders) (\<lambda>_.
             let (i, x) = GetLocalCatalogId x in
             Inr (Some \<lparr>sort_id = i, sort_fields = map (\<lambda>(i, node). sort_field_of E i node) (enumerate 0 orders)\<rparr>, x)))"

definition BuildSortData_keys :: "'m alter_env \<Rightarrow> ColumnDefinition list \<Rightarrow> ParsedExpression list \<Rightarrow> 'm alter_txn \<Rightarrow> (DuckLakeSort option \<times> 'm alter_txn) res" where
  "BuildSortData_keys E columns sort_keys x =
     BuildSortData E columns (map (\<lambda>e. \<lparr>order_type = ASCENDING, order_null_order = NULLS_ORDER_DEFAULT, order_expression = e\<rparr>) sort_keys) x"

definition ParseSortOrders :: "'m alter_env \<Rightarrow> DuckLakeSort \<Rightarrow> OrderByNode list res" where
  "ParseSortOrders E sort_data =
     map_res (\<lambda>f.
       bind_res (ae_parse E (sort_expression f)) (\<lambda>parsed.
       bind_res (vector_at parsed 0) (\<lambda>e.
         Inr \<lparr>order_type = sort_direction f, order_null_order = sort_null_order f, order_expression = e\<rparr>)))
       (filter (\<lambda>f. sort_dialect f = ''duckdb'') (sort_fields sort_data))"

end
