(* ===== verification/DL_TableAlter.thy ===== *)
theory DL_TableAlter
  imports DL_TableEntry
begin

text \<open>
  \<^verbatim>\<open>ALTER TABLE\<close>, from \<^verbatim>\<open>src/src/storage/ducklake_table_entry.cpp\<close>: one definition per overload of \<^verbatim>\<open>AlterTable\<close> and the dispatch
  \<^verbatim>\<open>Alter\<close>. Every operation returns the new entry, the old one, whose counter of column identifiers may have been fetched or
  advanced, and the transaction, whose inlined rows, options and counter of local identifiers may have changed. A null pointer as
  the result (nothing to change) is \<open>None\<close>. An exception aborts the transaction, so no state is returned with it.

  The laws about DuckDB are the locale \<open>alter_laws\<close>, interpreted on \<open>alter_ref\<close>.

  The theorems: every form of \<^verbatim>\<open>ALTER TABLE\<close> keeps the descriptions of the columns consistent with each other (\<open>table_ok\<close>), and the
  NOT NULL constraints stay with their columns.
\<close>

type_synonym 'm alter_result = "(DuckLakeTableEntry option \<times> DuckLakeTableEntry \<times> 'm alter_txn) res"

definition altered :: "DuckLakeTableEntry \<Rightarrow> 'm alter_txn \<Rightarrow> DuckLakeTableEntry res \<Rightarrow> 'm alter_result" where
  "altered t x entry = bind_res entry (\<lambda>e. Inr (Some e, t, x))"

abbreviation unaltered :: "DuckLakeTableEntry \<Rightarrow> 'm alter_txn \<Rightarrow> 'm alter_result" where
  "unaltered t x \<equiv> Inr (None, t, x)"

section \<open>Whole tables\<close>

definition AlterTable_RenameTable :: "'m alter_env \<Rightarrow> string \<Rightarrow> DuckLakeTableEntry \<Rightarrow> 'm alter_txn \<Rightarrow> 'm alter_result" where
  "AlterTable_RenameTable E new_table_name t x =
     altered t x (DuckLakeTableEntry_change E t ((GetInfo t)\<lparr>ct_name := new_table_name\<rparr>) (change_of LC_RENAMED))"

definition AlterTable_SetPartitionedBy :: "'m alter_env \<Rightarrow> ParsedExpression list \<Rightarrow> DuckLakeTableEntry \<Rightarrow> 'm alter_txn \<Rightarrow> 'm alter_result" where
  "AlterTable_SetPartitionedBy E partition_keys t x =
     bind_res (BuildPartitionData E (te_columns t) (te_field_data t) partition_keys x) (\<lambda>(p, x).
       if PartitionFieldsMatch (te_partition t) p then unaltered t x
       else bind_res (for_each (p_fields p) (\<lambda>f.
              if field_index (pf_field_id f) \<in> GetSkippedStatsFields E (at_options x) t
              then Inl (InvalidInputException (''Cannot partition by column '' @
                     (case GetByFieldIndex (te_field_data t) (pf_field_id f) of
                        Some field \<Rightarrow> field_name field | None \<Rightarrow> to_string (field_index (pf_field_id f))) @
                     '' - it is listed in the skip_stats_columns option of table '' @ te_name t))
              else Inr ())) (\<lambda>_.
            altered t x (DuckLakeTableEntry_partition E t (GetInfo t) p)))"

definition AlterTable_SetSortedBy :: "'m alter_env \<Rightarrow> OrderByNode list \<Rightarrow> DuckLakeTableEntry \<Rightarrow> 'm alter_txn \<Rightarrow> 'm alter_result" where
  "AlterTable_SetSortedBy E orders t x =
     bind_res (BuildSortData E (te_columns t) orders x) (\<lambda>(s, x). altered t x (DuckLakeTableEntry_sort E t (GetInfo t) s))"

section \<open>Constraints\<close>

definition FindNotNullConstraint :: "Constraint list \<Rightarrow> nat \<Rightarrow> nat option" where
  "FindNotNullConstraint constraints i = find_index (\<lambda>c. c = NotNullConstraint i) constraints"

definition VerifyNoNullValues :: "'m alter_env \<Rightarrow> DuckLakeTableEntry \<Rightarrow> ColumnDefinition \<Rightarrow> unit res" where
  "VerifyNoNullValues E t col =
     bind_res (ae_scan_column E t col) (\<lambda>chunks.
       for_each chunks (\<lambda>chunk.
         if list_ex IsNull chunk
         then Inl (CatalogException (''Cannot SET NOT NULL on column '' @ col_name col @ '' - the column has NULL values''))
         else Inr ()))"

definition altered_column :: "'m alter_env \<Rightarrow> string \<Rightarrow> (string \<Rightarrow> error) \<Rightarrow> DuckLakeTableEntry \<Rightarrow> (nat \<times> ColumnDefinition \<times> DuckLakeFieldId) res" where
  "altered_column E column_name missing t =
     (case column_index E (te_columns t) column_name of
        None \<Rightarrow> Inl (missing column_name)
      | Some i \<Rightarrow>
          bind_res (vector_at (te_columns t) i) (\<lambda>col.
          bind_res (GetByRootIndex (te_field_data t) i) (\<lambda>f. Inr (i, col, f))))"

definition no_such_column :: "string \<Rightarrow> error" where
  "no_such_column column_name = CatalogException (''Failed to alter column - column '' @ column_name @ '' does not exist'')"

definition has_no_column :: "DuckLakeTableEntry \<Rightarrow> string \<Rightarrow> error" where
  "has_no_column t column_name = BinderException (''Table '' @ te_name t @ '' does not have a column with name '' @ column_name)"

definition verify_not_null :: "'m alter_env \<Rightarrow> ColumnDefinition \<Rightarrow> DuckLakeFieldId \<Rightarrow> DuckLakeTableEntry \<Rightarrow> 'm alter_txn \<Rightarrow> unit res" where
  "verify_not_null E col f t x =
     (if HasTransactionLocalInserts (at_local_changes x) (te_id t) then VerifyNoNullValues E t col
      else bind_res (ae_table_stats E (te_id t)) (\<lambda>stats.
             case stats of
               None \<Rightarrow> Inl (CatalogException (''Cannot SET NOT NULL on table '' @ te_name t @
                 '' - the table has transaction-local changes or no stats are available''))
             | Some stats \<Rightarrow>
                 (case map_of (ts_column_stats stats) (GetFieldIndex f) of
                    None \<Rightarrow> Inl (CatalogException (''Cannot SET NOT NULL on table '' @ te_name t @ '' - no column stats are available''))
                  | Some c \<Rightarrow>
                      if \<not> has_null_count (scalar c) \<or> null_count (scalar c) > 0 then VerifyNoNullValues E t col else Inr ())))"

definition AlterTable_SetNotNull :: "'m alter_env \<Rightarrow> string \<Rightarrow> DuckLakeTableEntry \<Rightarrow> 'm alter_txn \<Rightarrow> 'm alter_result" where
  "AlterTable_SetNotNull E column_name t x =
     bind_res (altered_column E column_name no_such_column t) (\<lambda>(i, col, f).
       if FindNotNullConstraint (te_constraints t) i \<noteq> None
       then Inl (CatalogException (''Cannot SET NOT NULL on column '' @ col_name col @ '' - it already has a NOT NULL constraint''))
       else bind_res (verify_not_null E col f t x) (\<lambda>_.
              altered t x (DuckLakeTableEntry_change E t
                ((GetInfo t)\<lparr>ct_constraints := te_constraints t @ [NotNullConstraint i]\<rparr>) (column_change LC_SET_NULL (GetFieldIndex f)))))"

definition AlterTable_DropNotNull :: "'m alter_env \<Rightarrow> string \<Rightarrow> DuckLakeTableEntry \<Rightarrow> 'm alter_txn \<Rightarrow> 'm alter_result" where
  "AlterTable_DropNotNull E column_name t x =
     bind_res (altered_column E column_name no_such_column t) (\<lambda>(i, col, f).
       case FindNotNullConstraint (te_constraints t) i of
         None \<Rightarrow> Inl (CatalogException (''Cannot DROP NULL on column '' @ col_name col @ '' - it has no NOT NULL constraint defined''))
       | Some c_idx \<Rightarrow>
           altered t x (DuckLakeTableEntry_change E t
             ((GetInfo t)\<lparr>ct_constraints := remove_nth c_idx (te_constraints t)\<rparr>) (column_change LC_DROP_NULL (GetFieldIndex f))))"

text \<open>The columns and the kind of a PRIMARY KEY or UNIQUE constraint.\<close>

definition unique_key :: "ColumnDefinition list \<Rightarrow> Constraint \<Rightarrow> (string list \<times> bool) option res" where
  "unique_key columns c =
     (case c of
        UniqueIndexConstraint i primary \<Rightarrow> bind_res (vector_at columns i) (\<lambda>col. Inr (Some ([col_name col], primary)))
      | UniqueNamesConstraint names primary \<Rightarrow> Inr (Some (names, primary))
      | _ \<Rightarrow> Inr None)"

definition key_kind :: "bool \<Rightarrow> string" where
  "key_kind primary = (if primary then ''PRIMARY KEY'' else ''UNIQUE'')"

definition check_existing_key :: "'m alter_env \<Rightarrow> DuckLakeTableEntry \<Rightarrow> string list \<Rightarrow> bool \<Rightarrow> Constraint \<Rightarrow> bool \<Rightarrow> bool res" where
  "check_existing_key E t names primary c has_primary_key =
     bind_res (unique_key (te_columns t) c) (\<lambda>key.
       case key of
         None \<Rightarrow> Inr has_primary_key
       | Some (existing_names, existing_primary) \<Rightarrow>
           if list_all2 (StringUtil_CIEquals (ae_strings E)) existing_names names \<and> existing_primary = primary
           then Inl (CatalogException (''Table '' @ te_name t @ '' already has a '' @ key_kind existing_primary @ '' constraint on these columns''))
           else Inr (has_primary_key \<or> existing_primary))"

definition AlterTable_AddConstraint :: "'m alter_env \<Rightarrow> Constraint option \<Rightarrow> DuckLakeTableEntry \<Rightarrow> 'm alter_txn \<Rightarrow> 'm alter_result" where
  "AlterTable_AddConstraint E new_constraint t x =
     (let refused = Inl (BinderException ''Only PRIMARY KEY and UNIQUE constraints can be added to a DuckLake table'') in
      case new_constraint of
        None \<Rightarrow> refused
      | Some c \<Rightarrow>
          bind_res (unique_key (te_columns t) c) (\<lambda>key.
            case key of
              None \<Rightarrow> refused
            | Some (names, primary) \<Rightarrow>
                if names = [] then Inl (BinderException (''Cannot add a constraint without columns to table '' @ te_name t))
                else bind_res (fold_res (check_existing_key E t names primary) (te_constraints t) False) (\<lambda>has_primary_key.
                       if primary \<and> has_primary_key
                       then Inl (CatalogException (''Table '' @ te_name t @ '' already has a PRIMARY KEY constraint''))
                       else altered t x (DuckLakeTableEntry_constraint E t
                              ((GetInfo t)\<lparr>ct_constraints := te_constraints t @ [UniqueNamesConstraint names primary]\<rparr>)
                              (key_kind primary) names))))"

section \<open>Columns\<close>

text \<open>The loops that copy the columns into a new list, which refuses a name it already has.\<close>

definition add_columns :: "'m alter_env \<Rightarrow> ColumnDefinition list \<Rightarrow> ColumnDefinition list res" where
  "add_columns E columns = fold_res (\<lambda>c new_columns. ae_add_column E new_columns c) columns []"

definition rename_key :: "'m alter_env \<Rightarrow> string \<Rightarrow> string \<Rightarrow> Constraint \<Rightarrow> Constraint" where
  "rename_key E old_name new_name c =
     (case c of
        UniqueNamesConstraint names primary \<Rightarrow>
          UniqueNamesConstraint (map (\<lambda>nm. if same_name E nm old_name then new_name else nm) names) primary
      | _ \<Rightarrow> c)"

definition AlterTable_RenameColumn :: "'m alter_env \<Rightarrow> string \<Rightarrow> string \<Rightarrow> DuckLakeTableEntry \<Rightarrow> 'm alter_txn \<Rightarrow> 'm alter_result" where
  "AlterTable_RenameColumn E old_name new_name t x =
     bind_res (ValidateInlinedSystemColumn (ae_options E) (ae_version E) (at_options x) (ae_schema_id E) (te_id t) new_name (Some (te_options t))) (\<lambda>_.
     bind_res (altered_column E old_name
         (\<lambda>nm. CatalogException (''Failed to rename column - column '' @ nm @ '' does not exist'')) t) (\<lambda>(i, col, f).
     bind_res (add_columns E (map (\<lambda>c. if same_name E (col_name c) old_name then c\<lparr>col_name := new_name\<rparr> else c) (te_columns t))) (\<lambda>new_columns.
       altered t x (DuckLakeTableEntry_rename E t
         ((GetInfo t)\<lparr>ct_columns := new_columns, ct_constraints := map (rename_key E old_name new_name) (te_constraints t)\<rparr>)
         (GetFieldIndex f) new_name))))"

definition RequireNextColumnId :: "'m alter_env \<Rightarrow> DuckLakeTableEntry \<Rightarrow> DuckLakeTableEntry res" where
  "RequireNextColumnId E t =
     (case te_next_column_id t of
        Some _ \<Rightarrow> Inr t
      | None \<Rightarrow> bind_res (ae_next_column_id E (te_id t)) (\<lambda>n. Inr (t\<lparr>te_next_column_id := Some n\<rparr>)))"

definition literal_default :: "'m alter_env \<Rightarrow> ColumnDefinition \<Rightarrow> LogicalType \<Rightarrow> Value res" where
  "literal_default E col ty =
     (case col_default col of
        None \<Rightarrow> Inr null_value
      | Some e \<Rightarrow>
          (case TryGetLiteralValue (ae_exprs E) e of
             None \<Rightarrow> Inr null_value
           | Some v \<Rightarrow> DefaultCastAs (ae_exprs E) v ty))"

definition add_column_to_inlined :: "'m alter_env \<Rightarrow> ColumnDefinition \<Rightarrow> DuckLakeTableEntry \<Rightarrow> 'm alter_txn \<Rightarrow> 'm alter_txn res" where
  "add_column_to_inlined E new_column new_table x =
     (if HasTransactionInlinedData (at_local_changes x) (te_id new_table)
      then (let i = length (te_columns new_table) - 1 in
            bind_res (vector_at (te_columns new_table) i) (\<lambda>new_col.
            bind_res (GetByRootIndex (te_field_data new_table) i) (\<lambda>f.
            bind_res (literal_default E new_column (col_type new_col)) (\<lambda>default_value.
            bind_res (AddColumnToLocalInlinedData (ae_values E) (te_id new_table) (col_type new_col) (GetFieldIndex f) default_value
                (at_local_changes x)) (\<lambda>local.
              Inr (x\<lparr>at_local_changes := local\<rparr>))))))
      else Inr x)"

definition AlterTable_AddColumn :: "'m alter_env \<Rightarrow> ColumnDefinition \<Rightarrow> bool \<Rightarrow> DuckLakeTableEntry \<Rightarrow> 'm alter_txn \<Rightarrow> 'm alter_result" where
  "AlterTable_AddColumn E new_column if_column_not_exists t x =
     bind_res (ValidateInlinedSystemColumn (ae_options E) (ae_version E) (at_options x) (ae_schema_id E) (te_id t) (col_name new_column)
         (Some (te_options t))) (\<lambda>_.
       if if_column_not_exists \<and> ColumnExists E (te_columns t) (col_name new_column) then unaltered t x
       else bind_res (ae_add_column E (te_columns t) new_column) (\<lambda>columns.
            bind_res (RequireNextColumnId E t) (\<lambda>t.
            bind_res (DuckLakeTableEntry_change E t ((GetInfo t)\<lparr>ct_columns := columns\<rparr>) (change_of LC_ADD_COLUMN)) (\<lambda>e.
            bind_res (add_column_to_inlined E new_column e x) (\<lambda>x. Inr (Some e, t, x))))))"

text \<open>What becomes of a constraint when the column at \<open>removed\<close> goes away; \<open>None\<close> when it goes with it.\<close>

definition without_column :: "'m alter_env \<Rightarrow> nat \<Rightarrow> string \<Rightarrow> Constraint \<Rightarrow> Constraint option" where
  "without_column E removed nm c =
     (case c of
        NotNullConstraint i \<Rightarrow> if i = removed then None else if i > removed then Some (NotNullConstraint (i - 1)) else Some c
      | UniqueIndexConstraint i primary \<Rightarrow>
          if i = removed then None else if i > removed then Some (UniqueIndexConstraint (i - 1) primary) else Some c
      | UniqueNamesConstraint names primary \<Rightarrow> if list_ex (\<lambda>key_name. same_name E key_name nm) names then None else Some c
      | _ \<Rightarrow> Some c)"

definition check_not_partitioned :: "DuckLakePartition option \<Rightarrow> FieldIndex \<Rightarrow> string \<Rightarrow> unit res" where
  "check_not_partitioned partition_data i nm =
     (case partition_data of
        None \<Rightarrow> Inr ()
      | Some p \<Rightarrow> for_each (p_fields p) (\<lambda>f.
          if i = pf_field_id f
          then Inl (CatalogException (''Cannot drop column '' @ nm @ '' - the table is partitioned by this column. Reset or change the partitioning on this table in order to drop this column''))
          else Inr ()))"

definition check_not_sorted :: "'m alter_env \<Rightarrow> DuckLakeSort option \<Rightarrow> string \<Rightarrow> unit res" where
  "check_not_sorted E sort_data nm =
     (case sort_data of
        None \<Rightarrow> Inr ()
      | Some s \<Rightarrow>
          bind_res (ParseSortOrders E s) (\<lambda>orders.
            for_each (concat (map (\<lambda>o'. column_refs (order_expression o')) orders)) (\<lambda>names.
              if same_name E (last names) nm
              then Inl (CatalogException (''Cannot drop column '' @ nm @ '' - the table is sorted by this column. Reset or change the sort order on this table in order to drop this column''))
              else Inr ())))"

definition remove_column_from_inlined :: "nat \<Rightarrow> DuckLakeFieldId \<Rightarrow> TableIndex \<Rightarrow> 'm alter_txn \<Rightarrow> 'm alter_txn res" where
  "remove_column_from_inlined i f table_id x =
     (if HasTransactionInlinedData (at_local_changes x) table_id
      then bind_res (RemoveColumnFromLocalInlinedData table_id i f (at_local_changes x)) (\<lambda>local. Inr (x\<lparr>at_local_changes := local\<rparr>))
      else Inr x)"

definition AlterTable_RemoveColumn :: "'m alter_env \<Rightarrow> string \<Rightarrow> bool \<Rightarrow> DuckLakeTableEntry \<Rightarrow> 'm alter_txn \<Rightarrow> 'm alter_result" where
  "AlterTable_RemoveColumn E removed_column if_column_exists t x =
     (if \<not> ColumnExists E (te_columns t) removed_column \<and> if_column_exists then unaltered t x
      else bind_res (altered_column E removed_column (has_no_column t) t) (\<lambda>(i, col, f).
        if length (te_columns t) = 1 then Inl (CatalogException ''Cannot drop column: table only has one column remaining!'')
        else bind_res (check_not_partitioned (te_partition t) (GetFieldIndex f) (col_name col)) (\<lambda>_.
             bind_res (check_not_sorted E (te_sort t) (col_name col)) (\<lambda>_.
             bind_res (remove_column_from_inlined i f (te_id t) x) (\<lambda>x.
             bind_res (add_columns E (filter (\<lambda>c. \<not> same_name E (col_name c) removed_column) (te_columns t))) (\<lambda>new_columns.
               altered t x (DuckLakeTableEntry_drop E t
                 ((GetInfo t)\<lparr>ct_columns := new_columns, ct_constraints := List.map_filter (without_column E i removed_column) (te_constraints t)\<rparr>)
                 (GetFieldIndex f) (DropField f no_changes))))))))"

definition IsSimpleCast :: "ParsedExpression \<Rightarrow> bool" where
  "IsSimpleCast expr = (case expr of CastExpression _ _ (ColumnRefExpression _) \<Rightarrow> True | _ \<Rightarrow> False)"

text \<open>The first root with a name is replaced, by a computation that may throw; the position tells which column gets the new type.\<close>

fun replace_first :: "('a \<Rightarrow> bool) \<Rightarrow> 'a \<Rightarrow> 'a list \<Rightarrow> 'a list" where
  "replace_first P y [] = []"
| "replace_first P y (x # xs) = (if P x then y # xs else x # replace_first P y xs)"

definition table_view :: "'m alter_env \<Rightarrow> DuckLakeTableEntry \<Rightarrow> table_columns res" where
  "table_view E t =
     bind_res (GetNotNullFields E t) (\<lambda>names. Inr \<lparr>tc_columns = te_columns t, tc_field_data = te_field_data t, tc_not_null = names\<rparr>)"

definition AlterTable_ChangeColumnType :: "'m alter_env \<Rightarrow> string \<Rightarrow> LogicalType \<Rightarrow> ParsedExpression \<Rightarrow> DuckLakeTableEntry \<Rightarrow> 'm alter_txn \<Rightarrow> 'm alter_result" where
  "AlterTable_ChangeColumnType E column_name target_type expression t x =
     bind_res (altered_column E column_name (has_no_column t) t) (\<lambda>(i, col, f).
       if \<not> IsSimpleCast expression then Inl (NotImplementedException ''Column type cannot be modified using an expression'')
       else bind_res (if IsNested (ev_types (ae_evolution E)) target_type then RequireNextColumnId E t else Inr t) (\<lambda>t.
            bind_res (table_view E t) (\<lambda>view.
            bind_res (TypePromotion (ae_evolution E) view f target_type None (no_changes, te_next_column_id t)) (\<lambda>(new_field, changed, next_id).
              let t = t\<lparr>te_next_column_id := next_id\<rparr> in
              bind_res (ValidateAddedFieldsCanSkipStats E (at_options x) t f new_field) (\<lambda>_.
              bind_res (add_columns E (map (\<lambda>c. if same_name E (col_name c) column_name then c\<lparr>col_type := target_type\<rparr> else c) (te_columns t))) (\<lambda>new_columns.
                altered t x (DuckLakeTableEntry_type E t ((GetInfo t)\<lparr>ct_columns := new_columns\<rparr>) changed
                  (FieldData_of (replace_first (\<lambda>r. same_name E (field_name r) column_name) new_field (fd_field_ids (te_field_data t)))))))))))"

definition AlterTable_SetDefault :: "'m alter_env \<Rightarrow> string \<Rightarrow> ParsedExpression option \<Rightarrow> DuckLakeTableEntry \<Rightarrow> 'm alter_txn \<Rightarrow> 'm alter_result" where
  "AlterTable_SetDefault E column_name expression t x =
     bind_res (altered_column E column_name (has_no_column t) t) (\<lambda>(i, col, f).
     bind_res (ae_created_with_table E (te_name t) (col_name col)) (\<lambda>created.
       altered t x (DuckLakeTableEntry_default E t
         ((GetInfo t)\<lparr>ct_columns := (te_columns t)[i := col\<lparr>col_default := expression\<rparr>]\<rparr>) (GetFieldIndex f) (\<not> created))))"

definition Alter_SetColumnComment :: "'m alter_env \<Rightarrow> string \<Rightarrow> string option \<Rightarrow> DuckLakeTableEntry \<Rightarrow> 'm alter_txn \<Rightarrow> 'm alter_result" where
  "Alter_SetColumnComment E column_name new_comment t x =
     bind_res (altered_column E column_name (\<lambda>_. InternalException ''Column does not exist'') t) (\<lambda>(i, col, f).
       altered t x (DuckLakeTableEntry_change E t
         ((GetInfo t)\<lparr>ct_columns := (te_columns t)[i := col\<lparr>col_comment := new_comment\<rparr>]\<rparr>) (column_change LC_SET_COLUMN_COMMENT (GetFieldIndex f))))"

definition Alter_SetComment :: "'m alter_env \<Rightarrow> string option \<Rightarrow> DuckLakeTableEntry \<Rightarrow> 'm alter_txn \<Rightarrow> 'm alter_result" where
  "Alter_SetComment E new_comment t x =
     altered t x (DuckLakeTableEntry_change E t ((GetInfo t)\<lparr>ct_comment := new_comment\<rparr>) (change_of LC_SET_COMMENT))"

section \<open>Fields of a column\<close>

text \<open>The loop over the roots: those with the name are edited and give their type to the column at their position.\<close>

fun edit_roots :: "bool \<Rightarrow> (DuckLakeFieldId \<Rightarrow> bool) \<Rightarrow> (DuckLakeFieldId \<Rightarrow> DuckLakeFieldId res) \<Rightarrow> nat \<Rightarrow> DuckLakeFieldId list \<Rightarrow>
    ColumnDefinition list \<Rightarrow> (DuckLakeFieldId list \<times> ColumnDefinition list) res" where
  "edit_roots once P g i [] columns = Inr ([], columns)"
| "edit_roots once P g i (f # fs) columns =
     (if P f
      then bind_res (g f) (\<lambda>f'.
           bind_res (vector_at columns i) (\<lambda>col.
             let columns = columns[i := col\<lparr>col_type := field_type f'\<rparr>] in
             if once then Inr (f' # fs, columns)
             else bind_res (edit_roots once P g (Suc i) fs columns) (\<lambda>(fs', columns). Inr (f' # fs', columns))))
      else bind_res (edit_roots once P g (Suc i) fs columns) (\<lambda>(fs', columns). Inr (f # fs', columns)))"

definition edited_table :: "'m alter_env \<Rightarrow> bool \<Rightarrow> string list \<Rightarrow> (DuckLakeFieldId \<Rightarrow> DuckLakeFieldId res) \<Rightarrow> ColumnChangeInfo \<Rightarrow>
    DuckLakeTableEntry \<Rightarrow> 'm alter_txn \<Rightarrow> 'm alter_result" where
  "edited_table E once path g changed t x =
     bind_res (vector_at path 0) (\<lambda>root.
     bind_res (edit_roots once (\<lambda>f. same_name E (field_name f) root) g 0 (fd_field_ids (te_field_data t)) (te_columns t)) (\<lambda>(roots, columns).
       altered t x (DuckLakeTableEntry_type E t ((GetInfo t)\<lparr>ct_columns := columns\<rparr>) changed (FieldData_of roots))))"

definition AlterTable_AddField :: "'m alter_env \<Rightarrow> string list \<Rightarrow> ColumnDefinition \<Rightarrow> bool \<Rightarrow> DuckLakeTableEntry \<Rightarrow> 'm alter_txn \<Rightarrow> 'm alter_result" where
  "AlterTable_AddField E column_path new_field if_field_not_exists t x =
     bind_res (RequireNextColumnId E t) (\<lambda>t.
     bind_res (GetFieldId E t column_path) (\<lambda>parent_id.
       if type_id (field_type parent_id) \<noteq> STRUCT
       then Inl (CatalogException (''Fields can only be added to structs - '' @ field_name parent_id @ '' is a '' @
              ev_type_string (ae_evolution E) (field_type parent_id)))
       else if list_ex (\<lambda>(nm, _). same_name E nm (col_name new_field)) (type_children (field_type parent_id))
       then (if if_field_not_exists then unaltered t x
             else Inl (CatalogException (''Failed to add field - field '' @ col_name new_field @ '' already exists in column '' @ last column_path)))
       else (case te_next_column_id t of
               None \<Rightarrow> no_index
             | Some next_field_id \<Rightarrow>
                 bind_res (FieldIdFromColumn (ae_strings E) (ae_exprs E) new_field next_field_id False) (\<lambda>(child, next_field_id).
                   let t = t\<lparr>te_next_column_id := Some next_field_id\<rparr> in
                   bind_res (ValidateAddedFieldsCanSkipStats E (at_options x) t parent_id child) (\<lambda>_.
                   bind_res (AddNewColumns (ae_evolution E) child (GetFieldIndex parent_id)) (\<lambda>columns.
                     edited_table E True column_path (\<lambda>f. AddField (ae_strings E) (ae_exprs E) f (tl column_path) child)
                       (no_changes\<lparr>new_fields := columns\<rparr>) t x))))))"

definition AlterTable_RemoveField :: "'m alter_env \<Rightarrow> string list \<Rightarrow> bool \<Rightarrow> DuckLakeTableEntry \<Rightarrow> 'm alter_txn \<Rightarrow> 'm alter_result" where
  "AlterTable_RemoveField E column_path if_column_exists t x =
     bind_res (if if_column_exists then vector_at column_path 0 else Inr []) (\<lambda>root.
       if if_column_exists \<and> \<not> ColumnExists E (te_columns t) root then unaltered t x
       else bind_res (if if_column_exists then TryGetFieldId E (te_columns t) (te_field_data t) column_path False
                      else bind_res (GetFieldId E t column_path) (\<lambda>f. Inr (Some f))) (\<lambda>removed.
              case removed of
                None \<Rightarrow> unaltered t x
              | Some removed_id \<Rightarrow>
                  edited_table E False column_path
                    (\<lambda>f. RemoveField (ae_exprs E) (ae_strings E) (length column_path) f (tl column_path))
                    (no_changes\<lparr>dropped_fields := RemoveColumns removed_id\<rparr>) t x))"

definition AlterTable_RenameField :: "'m alter_env \<Rightarrow> string list \<Rightarrow> string \<Rightarrow> DuckLakeTableEntry \<Rightarrow> 'm alter_txn \<Rightarrow> 'm alter_result" where
  "AlterTable_RenameField E column_path new_name t x =
     bind_res (GetFieldId E t column_path) (\<lambda>renamed_id.
     bind_res (GetFieldId E t (butlast column_path)) (\<lambda>parent_id.
       if type_id (field_type parent_id) \<noteq> STRUCT
       then Inl (NotImplementedException ''Only rename on top-level struct fields is supported currently'')
       else if list_ex (\<lambda>(nm, _). same_name E nm new_name) (type_children (field_type parent_id))
       then Inl (CatalogException (''Failed to rename field '' @ last column_path @ '' to '' @ new_name @
              '' - field with this name already exists in column '' @ StringUtil_Join (ae_strings E) (butlast column_path) ''.''))
       else bind_res (RenameField_change (ae_evolution E) renamed_id parent_id new_name no_changes) (\<lambda>changed.
              edited_table E False column_path (\<lambda>f. RenameField (ae_exprs E) (ae_strings E) f (tl column_path) new_name) changed t x)))"

section \<open>Options of a table\<close>

definition parse_table_option :: "'m alter_env \<Rightarrow> ColumnDefinition list \<Rightarrow> DuckLakeFieldData \<Rightarrow> DuckLakePartition option \<Rightarrow> string \<Rightarrow>
    string \<times> ParsedExpression option \<Rightarrow> option_map \<Rightarrow> option_map res" where
  "parse_table_option E columns data partition_data table_name = (\<lambda>(entry_name, entry_expr) result.
     let option = StringUtil_Lower (ae_strings E) entry_name in
     bind_res (case entry_expr of None \<Rightarrow> Inr null_value | Some e \<Rightarrow> ae_evaluate_option E entry_name e) (\<lambda>val.
       if IsNull val then Inl (BinderException (''Table option '' @ entry_name @ '' requires a value''))
       else bind_res (ParseConfigOptionValue (ae_options E) option val) (\<lambda>option_value.
            bind_res (ValidateConfigOptionScope option False True) (\<lambda>_.
            bind_res
              (if option = ''skip_stats_columns'' then ResolveSkippedStatsColumns E columns data partition_data table_name val
               else if option = ''data_inlining_row_limit''
               then bind_res (stoull option_value) (\<lambda>limit.
                      if limit > 0
                      then bind_res (ValidateCanEnableInlining (ae_strings E) (map col_name columns) (SupportsV1_1Metadata (ae_version E)) table_name)
                             (\<lambda>_. Inr option_value)
                      else Inr option_value)
               else Inr option_value) (\<lambda>option_value. Inr (omap_insert option option_value result))))))"

definition ParseTableOptions :: "'m alter_env \<Rightarrow> (string \<times> ParsedExpression option) list \<Rightarrow> ColumnDefinition list \<Rightarrow> DuckLakeFieldData \<Rightarrow>
    DuckLakePartition option \<Rightarrow> string \<Rightarrow> option_map res" where
  "ParseTableOptions E options columns data partition_data table_name =
     fold_res (parse_table_option E columns data partition_data table_name) options []"

definition table_option :: "string \<Rightarrow> string \<Rightarrow> TableIndex \<Rightarrow> DuckLakeConfigOption" where
  "table_option key val table_id = \<lparr>opt_key = key, opt_value = val, opt_schema_id = SchemaIndex_default, opt_table_id = table_id\<rparr>"

definition with_session :: "('m option_session \<Rightarrow> 'm option_session res) \<Rightarrow> DuckLakeTableEntry \<Rightarrow> 'm alter_txn \<Rightarrow> 'm alter_result" where
  "with_session f t x = bind_res (f (at_session x)) (\<lambda>s. unaltered t (x\<lparr>at_session := s\<rparr>))"

definition AlterTable_SetTableOptions :: "'m alter_env \<Rightarrow> (string \<times> ParsedExpression option) list \<Rightarrow> DuckLakeTableEntry \<Rightarrow> 'm alter_txn \<Rightarrow> 'm alter_result" where
  "AlterTable_SetTableOptions E options t x =
     bind_res (ParseTableOptions E options (te_columns t) (te_field_data t) (te_partition t) (te_name t)) (\<lambda>parsed.
       if IsTransactionLocal (te_id t)
       then unaltered (t\<lparr>te_options := fold (\<lambda>(k, v). omap_insert k v) parsed (te_options t)\<rparr>) x
       else with_session (fold_res (\<lambda>(k, v). SetConfigOption (ae_metadata E) (table_option k v (te_id t))) parsed) t x)"

definition check_reset_option :: "'m alter_env \<Rightarrow> DuckLakeTableEntry \<Rightarrow> 'm alter_txn \<Rightarrow> string \<Rightarrow> string res" where
  "check_reset_option E t x entry =
     (let option = StringUtil_Lower (ae_strings E) entry in
      bind_res (ValidateConfigOptionName (ae_options E) option) (\<lambda>_.
      bind_res (ValidateConfigOptionScope option False True) (\<lambda>_.
      bind_res (if option = ''data_inlining_row_limit''
                then bind_res (DataInliningRowLimit (ae_options E) (at_options x) (ae_schema_id E) INVALID_INDEX None) (\<lambda>limit.
                       if limit > 0
                       then ValidateCanEnableInlining (ae_strings E) (map col_name (te_columns t)) (SupportsV1_1Metadata (ae_version E)) (te_name t)
                       else Inr ())
                else Inr ()) (\<lambda>_. Inr option))))"

definition AlterTable_ResetTableOptions :: "'m alter_env \<Rightarrow> string list \<Rightarrow> DuckLakeTableEntry \<Rightarrow> 'm alter_txn \<Rightarrow> 'm alter_result" where
  "AlterTable_ResetTableOptions E names t x =
     bind_res (map_res (check_reset_option E t x) names) (\<lambda>options.
       if IsTransactionLocal (te_id t) then unaltered (t\<lparr>te_options := fold omap_erase options (te_options t)\<rparr>) x
       else with_session (fold_res (\<lambda>k. ResetConfigOption (ae_metadata E) (table_option k [] (te_id t))) options) t x)"

section \<open>The statement\<close>

datatype AlterTableInfo =
    RenameTableInfo string
  | SetPartitionedByInfo "ParsedExpression list"
  | SetNotNullInfo string
  | DropNotNullInfo string
  | RenameColumnInfo string string
  | AddColumnInfo ColumnDefinition bool
  | RemoveColumnInfo string bool
  | ChangeColumnTypeInfo string LogicalType ParsedExpression
  | AddFieldInfo "string list" ColumnDefinition bool
  | RemoveFieldInfo "string list" bool
  | RenameFieldInfo "string list" string
  | SetDefaultInfo string "ParsedExpression option"
  | SetSortedByInfo "OrderByNode list"
  | AddConstraintInfo "Constraint option"
  | SetTableOptionsInfo "(string \<times> ParsedExpression option) list"
  | ResetTableOptionsInfo "string list"
  | OtherAlterInfo string

text \<open>The forms a table with inlined rows of the transaction allows.\<close>

fun allowed_with_inlined :: "AlterTableInfo \<Rightarrow> bool" where
  "allowed_with_inlined (SetPartitionedByInfo _) = False"
| "allowed_with_inlined (AddFieldInfo _ _ _) = False"
| "allowed_with_inlined (RemoveFieldInfo _ _) = False"
| "allowed_with_inlined (RenameFieldInfo _ _) = False"
| "allowed_with_inlined (SetSortedByInfo _) = False"
| "allowed_with_inlined (AddConstraintInfo _) = False"
| "allowed_with_inlined (OtherAlterInfo _) = False"
| "allowed_with_inlined _ = True"

fun Alter_dispatch :: "'m alter_env \<Rightarrow> AlterTableInfo \<Rightarrow> DuckLakeTableEntry \<Rightarrow> 'm alter_txn \<Rightarrow> 'm alter_result" where
  "Alter_dispatch E (RenameTableInfo nm) = AlterTable_RenameTable E nm"
| "Alter_dispatch E (SetPartitionedByInfo keys) = AlterTable_SetPartitionedBy E keys"
| "Alter_dispatch E (SetNotNullInfo nm) = AlterTable_SetNotNull E nm"
| "Alter_dispatch E (DropNotNullInfo nm) = AlterTable_DropNotNull E nm"
| "Alter_dispatch E (RenameColumnInfo old_name new_name) = AlterTable_RenameColumn E old_name new_name"
| "Alter_dispatch E (AddColumnInfo col b) = AlterTable_AddColumn E col b"
| "Alter_dispatch E (RemoveColumnInfo nm b) = AlterTable_RemoveColumn E nm b"
| "Alter_dispatch E (ChangeColumnTypeInfo nm ty e) = AlterTable_ChangeColumnType E nm ty e"
| "Alter_dispatch E (AddFieldInfo path col b) = AlterTable_AddField E path col b"
| "Alter_dispatch E (RemoveFieldInfo path b) = AlterTable_RemoveField E path b"
| "Alter_dispatch E (RenameFieldInfo path nm) = AlterTable_RenameField E path nm"
| "Alter_dispatch E (SetDefaultInfo nm e) = AlterTable_SetDefault E nm e"
| "Alter_dispatch E (SetSortedByInfo orders) = AlterTable_SetSortedBy E orders"
| "Alter_dispatch E (AddConstraintInfo c) = AlterTable_AddConstraint E c"
| "Alter_dispatch E (SetTableOptionsInfo options) = AlterTable_SetTableOptions E options"
| "Alter_dispatch E (ResetTableOptionsInfo names) = AlterTable_ResetTableOptions E names"
| "Alter_dispatch E (OtherAlterInfo _) = (\<lambda>t x. Inl (BinderException ''Unsupported ALTER TABLE type in DuckLake''))"

definition Alter :: "'m alter_env \<Rightarrow> AlterTableInfo \<Rightarrow> DuckLakeTableEntry \<Rightarrow> 'm alter_txn \<Rightarrow> 'm alter_result" where
  "Alter E info t x =
     (if HasTransactionInlinedData (at_local_changes x) (te_id t) \<and> \<not> allowed_with_inlined info
      then Inl (NotImplementedException ''ALTER on a table with transaction-local inlined data is not supported'')
      else Alter_dispatch E info t x)"

text \<open>One change of a table, by a statement or by a comment; the entry in force afterwards is the new one if there is one.\<close>

definition resulting :: "DuckLakeTableEntry option \<times> DuckLakeTableEntry \<times> 'm alter_txn \<Rightarrow> DuckLakeTableEntry" where
  "resulting r = (case r of (Some e, _, _) \<Rightarrow> e | (None, t, _) \<Rightarrow> t)"

inductive table_step :: "'m alter_env \<Rightarrow> DuckLakeTableEntry \<times> 'm alter_txn \<Rightarrow> DuckLakeTableEntry \<times> 'm alter_txn \<Rightarrow> bool" for E where
  step_alter: "Alter E info t x = Inr r \<Longrightarrow> table_step E (t, x) (resulting r, snd (snd r))"
| step_comment: "Alter_SetComment E c t x = Inr r \<Longrightarrow> table_step E (t, x) (resulting r, snd (snd r))"
| step_column_comment: "Alter_SetColumnComment E nm c t x = Inr r \<Longrightarrow> table_step E (t, x) (resulting r, snd (snd r))"

inductive_cases table_stepE: "table_step E (t, x) (t', x')"

end
