(* ===== verification/DL_TableInvariant.thy ===== *)
theory DL_TableInvariant
  imports DL_TableAlter
begin

text \<open>
  What \<^verbatim>\<open>ALTER TABLE\<close> keeps. The invariant \<open>table_ok\<close> ties the descriptions of a table's columns together: the roots of the field data
  are the columns in order, with their names and types; names differ (up to case) and identifiers differ, and all of them lie
  below the counter; the trees fit their types; constraints point at columns that exist; the partition and the sort order refer to
  columns that exist.

  The laws about DuckDB are the locale \<open>alter_laws\<close>: identifiers compare up to case, a list of columns refuses a name it
  has, and printing an expression and parsing it again gives it back.
\<close>

section \<open>Editing a tree keeps it in line with its type\<close>

text \<open>The names of the children that lists and maps prescribe.\<close>

definition kind_names :: "LogicalType \<Rightarrow> DuckLakeFieldId list \<Rightarrow> bool" where
  "kind_names t cs \<longleftrightarrow>
     (type_id t = LIST \<longrightarrow> map (\<lambda>c. ascii_lower (field_name c)) cs = [''element'']) \<and>
     (type_id t = MAP \<longrightarrow> map (\<lambda>c. ascii_lower (field_name c)) cs = [''key'', ''value''])"

lemma lower_names [simp]: "ascii_lower ''element'' = ''element''" "ascii_lower ''key'' = ''key''" "ascii_lower ''value'' = ''value''"
  by code_simp+

lemma conforms_kind_names: "conforms (FieldId c n t cs) \<Longrightarrow> kind_names t cs"
  by (auto simp: kind_names_def nested_fields_def split: list.splits sum.splits)

context evolution
begin

lemma rebuild_conforms:
  assumes "rebuild (ev_strings X) c n t cs = Inr g" and "list_all conforms cs" and "kind_names t cs"
  shows "conforms g \<and> field_name g = n"
proof -
  obtain new_type where ty: "GetNewNestedType t cs = Inr new_type" and new: "DuckLakeFieldId_new (ev_strings X) c n new_type cs = Inr g"
    using assms(1) by (auto simp: rebuild_def bind_res_Inr_iff)
  have g: "g = FieldId c n new_type cs" and d: "distinct (map (\<lambda>c. ascii_lower (field_name c)) cs)"
    using DuckLakeFieldId_new_Inr [OF new] by auto
  have "\<exists>ts. nested_fields new_type = Inr ts \<and>
      map (\<lambda>(nm, ty). (ascii_lower nm, ty)) ts = map (\<lambda>c. (ascii_lower (field_name c), field_type c)) cs"
    using ty assms(3)
    by (auto simp: GetNewNestedType_def GetStructType_def nested_fields_def kind_names_def Let_def comp_def
        split: LogicalTypeId.splits list.splits)
  then show ?thesis using d assms(2) by (auto simp: g)
qed

lemma RemoveField_conforms:
  "RemoveField E (ev_strings X) w f path = Inr g \<Longrightarrow> conforms f \<Longrightarrow> conforms g \<and> field_name g = field_name f"
  "RemoveField_children E (ev_strings X) w n t cs path = Inr (ds, found) \<Longrightarrow> list_all conforms cs \<Longrightarrow>
     list_all conforms ds \<and> length ds \<le> length cs \<and> (length ds = length cs \<longrightarrow> map field_name ds = map field_name cs)"
proof (induction E "ev_strings X" w f path and E "ev_strings X" w n t cs path arbitrary: g and ds found
    rule: RemoveField_RemoveField_children.induct)
  case (1 E w c n t cs path)
  from 1(2) obtain ds where ds: "RemoveField_children E (ev_strings X) w n t cs path = Inr (ds, True)"
    and g: "rebuild (ev_strings X) c n t ds = Inr g"
    by (auto simp: bind_res_Inr_iff split: prod.splits if_splits)
  have all: "list_all conforms cs" using 1(3) by simp
  note IH = 1(1) [OF ds all]
  have "kind_names t ds"
  proof -
    have names: "kind_names t cs" using 1(3) conforms_kind_names by blast
    have "type_id t = LIST \<Longrightarrow> ds \<noteq> []" "type_id t = MAP \<Longrightarrow> 2 \<le> length ds"
      using g by (auto simp: rebuild_def bind_res_Inr_iff GetNewNestedType_def Let_def split: list.splits)
    moreover have "type_id t = LIST \<Longrightarrow> length cs = 1" "type_id t = MAP \<Longrightarrow> length cs = 2"
      using names arg_cong [where f = length] by (fastforce simp: kind_names_def)+
    ultimately have "type_id t \<in> {LIST, MAP} \<Longrightarrow> length ds = length cs" using IH by (cases ds) auto
    then have "type_id t \<in> {LIST, MAP} \<Longrightarrow> map ascii_lower (map field_name ds) = map ascii_lower (map field_name cs)" using IH by metis
    then show ?thesis using names by (simp add: kind_names_def comp_def)
  qed
  with rebuild_conforms [OF g] IH show ?case by simp
next
  case (3 E w n t c cs path)
  from 3(4) obtain p ps where path: "path = p # ps" by (cases path) auto
  show ?case
  proof (cases "Identifier_equal E (field_name c) p")
    case True
    with 3(4) path have keep: "\<not> (w = 2 \<and> (type_id t = MAP \<or> type_id t = LIST))" by auto
    with True 3(4) path obtain kept rest f' where
      kept: "(if ps = [] then Inr [] else bind_res (RemoveField E (ev_strings X) w c ps) (\<lambda>c'. Inr [c'])) = Inr kept"
      and rest: "RemoveField_children E (ev_strings X) w n t cs path = Inr (rest, f')" and ds: "ds = kept @ rest"
      by (auto simp: bind_res_Inr_iff split: prod.splits)
    have "kept = [] \<or> (\<exists>c'. kept = [c'] \<and> conforms c' \<and> field_name c' = field_name c)"
      using kept 3(1) [OF path True keep] 3(5) by (cases "ps = []") (auto simp: bind_res_Inr_iff)
    with 3(2) [OF path True keep kept rest] 3(5) ds show ?thesis by auto
  next
    case False
    with 3(4) path obtain rest where "RemoveField_children E (ev_strings X) w n t cs path = Inr (rest, found)" "ds = c # rest"
      by (auto simp: bind_res_Inr_iff split: prod.splits)
    with 3(3) [OF path False] 3(5) show ?thesis by simp
  qed
qed auto

text \<open>The child an edit descends into is the first with the name, the one \<^verbatim>\<open>GetByNames\<close> finds.\<close>

lemma AddField_children_split:
  assumes "AddField_children D E cs p ps child = Inr (Some ds)"
  shows "\<exists>pre c c' post. cs = pre @ c # post \<and> (\<forall>b \<in> set pre. \<not> Identifier_equal E (field_name b) p) \<and>
    Identifier_equal E (field_name c) p \<and> AddField D E c ps child = Inr c' \<and> ds = pre @ c' # post"
  using assms
proof (induction cs arbitrary: ds)
  case (Cons b cs)
  show ?case
  proof (cases "Identifier_equal E (field_name b) p")
    case True
    with Cons.prems obtain c' where "AddField D E b ps child = Inr c'" "ds = c' # cs" by (auto simp: bind_res_Inr_iff)
    with True show ?thesis by (intro exI [of _ "[]"] exI [of _ b] exI [of _ c'] exI [of _ cs]) simp
  next
    case False
    with Cons.prems obtain es where es: "AddField_children D E cs p ps child = Inr (Some es)" "ds = b # es"
      by (auto simp: bind_res_Inr_iff)
    from Cons.IH [OF es(1)] obtain pre c c' post where "cs = pre @ c # post" "\<forall>b \<in> set pre. \<not> Identifier_equal E (field_name b) p"
      "Identifier_equal E (field_name c) p" "AddField D E c ps child = Inr c'" "es = pre @ c' # post" by blast
    with False es(2) show ?thesis by (intro exI [of _ "b # pre"] exI [of _ c] exI [of _ c'] exI [of _ post]) simp
  qed
qed simp

lemma find_first: "(\<forall>b \<in> set pre. \<not> P b) \<Longrightarrow> P c \<Longrightarrow> find P (pre @ c # post) = Some c"
  by (induction pre) auto

lemma AddField_conforms:
  assumes same: "\<And>a b. Identifier_equal E a b \<longleftrightarrow> ascii_lower a = ascii_lower b"
    and "GetByNames_loop (ev_strings X) False i path f = Inr (Some p, off)" and "type_id (field_type p) = STRUCT"
    and "AddField (ev_strings X) E f path child = Inr g" and "conforms f" and "conforms child"
  shows "conforms g \<and> field_name g = field_name f"
  using assms(2-5)
proof (induction path arbitrary: i f g)
  case Nil
  obtain c n t cs where f: "f = FieldId c n t cs" by (cases f)
  have "p = f" using Nil.prems(1) by (simp add: f split: if_splits)
  then have "kind_names t (cs @ [child])" using Nil.prems(2) by (simp add: f kind_names_def)
  moreover have "rebuild (ev_strings X) c n t (cs @ [child]) = Inr g" using Nil.prems(3) by (simp add: f)
  ultimately show ?case using rebuild_conforms [of c n t "cs @ [child]" g] Nil.prems(4) assms(6) by (simp add: f)
next
  case (Cons nm path)
  obtain c n t cs where f: "f = FieldId c n t cs" by (cases f)
  from Cons.prems(3) obtain ds where ds: "AddField_children (ev_strings X) E cs nm path child = Inr (Some ds)"
    and g: "rebuild (ev_strings X) c n t ds = Inr g"
    by (auto simp: f bind_res_Inr_iff split: option.splits)
  from AddField_children_split [OF ds] obtain pre b b' post where cs: "cs = pre @ b # post"
    and pre: "\<forall>a \<in> set pre. \<not> Identifier_equal E (field_name a) nm" and b: "Identifier_equal E (field_name b) nm"
    and add: "AddField (ev_strings X) E b path child = Inr b'" and ds': "ds = pre @ b' # post" by blast
  have "GetChildByName (ev_strings X) f nm = Some b"
    using pre b unfolding GetChildByName_def f DuckLakeFieldId.sel cs by (intro find_first) (simp_all add: same)
  then have "GetByNames_loop (ev_strings X) False (Suc i) path b = Inr (Some p, off)"
    using Cons.prems(1) by (simp split: if_splits)
  moreover have "conforms b" using Cons.prems(4) by (simp add: f cs)
  ultimately have b': "conforms b' \<and> field_name b' = field_name b" using Cons.IH [OF _ Cons.prems(2) add] by blast
  have "kind_names t cs" using Cons.prems(4) conforms_kind_names by (simp add: f)
  then have "kind_names t ds" using b' by (simp add: kind_names_def cs ds')
  then show ?case using rebuild_conforms [OF g] Cons.prems(4) b' by (simp add: f cs ds')
qed

lemma RenameField_children_split:
  assumes "RenameField_children E D cs (p # ps) nm = Inr (ds, True)"
    and same: "\<And>a b. Identifier_equal E a b \<longleftrightarrow> ascii_lower a = ascii_lower b"
    and "distinct (map (\<lambda>c. ascii_lower (field_name c)) cs)"
  shows "\<exists>pre c c' post. cs = pre @ c # post \<and> (\<forall>b \<in> set pre. ascii_lower (field_name b) \<noteq> ascii_lower p) \<and>
    ascii_lower (field_name c) = ascii_lower p \<and>
    (if ps = [] then Inr (Rename c nm) else RenameField E D c ps nm) = Inr c' \<and> ds = pre @ c' # post"
proof -
  have other: "RenameField_children E D es (p # ps) nm = Inr (es, False)"
    if "\<forall>e \<in> set es. ascii_lower (field_name e) \<noteq> ascii_lower p" for es
    using that by (induction es) (auto simp: same)
  show ?thesis
    using assms(1,3)
  proof (induction cs arbitrary: ds)
    case (Cons b cs)
    show ?case
    proof (cases "Identifier_equal E (field_name b) p")
      case True
      have "RenameField_children E D cs (p # ps) nm = Inr (cs, False)"
        using Cons.prems(2) True by (intro other) (auto simp: same image_iff)
      with True Cons.prems obtain c' where "(if ps = [] then Inr (Rename b nm) else RenameField E D b ps nm) = Inr c'" "ds = c' # cs"
        by (auto simp: bind_res_Inr_iff)
      with True show ?thesis by (intro exI [of _ "[]"] exI [of _ b] exI [of _ c'] exI [of _ cs]) (simp add: same)
    next
      case False
      with Cons.prems obtain es where es: "RenameField_children E D cs (p # ps) nm = Inr (es, True)" "ds = b # es"
        by (auto simp: bind_res_Inr_iff)
      from Cons.IH [OF es(1)] Cons.prems(2) obtain pre c c' post where "cs = pre @ c # post"
        "\<forall>b \<in> set pre. ascii_lower (field_name b) \<noteq> ascii_lower p" "ascii_lower (field_name c) = ascii_lower p"
        "(if ps = [] then Inr (Rename c nm) else RenameField E D c ps nm) = Inr c'" "es = pre @ c' # post" by auto
      with False es(2) show ?thesis by (intro exI [of _ "b # pre"] exI [of _ c] exI [of _ c'] exI [of _ post]) (simp add: same)
    qed
  qed simp
qed

lemma conforms_Rename [simp]: "conforms (Rename f n) \<longleftrightarrow> conforms f"
  by (cases f) simp

lemma RenameField_conforms:
  assumes same: "\<And>a b. Identifier_equal E a b \<longleftrightarrow> ascii_lower a = ascii_lower b"
    and "GetByNames_loop (ev_strings X) False i (butlast path) f = Inr (Some p, off)" and "type_id (field_type p) = STRUCT"
    and "RenameField E (ev_strings X) f path nm = Inr g" and "conforms f" and "path \<noteq> []"
  shows "conforms g \<and> field_name g = field_name f"
  using assms(2-6)
proof (induction path arbitrary: i f g)
  case (Cons q path)
  obtain c n t cs where f: "f = FieldId c n t cs" by (cases f)
  from Cons.prems(3) obtain ds where ds: "RenameField_children E (ev_strings X) cs (q # path) nm = Inr (ds, True)"
    and g: "rebuild (ev_strings X) c n t ds = Inr g"
    by (auto simp: f bind_res_Inr_iff split: if_splits)
  have dist: "distinct (map (\<lambda>c. ascii_lower (field_name c)) cs)" using Cons.prems(4) by (simp add: f)
  from RenameField_children_split [OF ds same dist] obtain pre b b' post where cs: "cs = pre @ b # post"
    and pre: "\<forall>a \<in> set pre. ascii_lower (field_name a) \<noteq> ascii_lower q" and b: "ascii_lower (field_name b) = ascii_lower q"
    and ren: "(if path = [] then Inr (Rename b nm) else RenameField E (ev_strings X) b path nm) = Inr b'"
    and ds': "ds = pre @ b' # post" by blast
  have conf: "conforms b" "kind_names t cs" using Cons.prems(4) conforms_kind_names by (simp_all add: f cs)
  show ?case
  proof (cases "path = []")
    case True
    then have "p = f" using Cons.prems(1) by (simp add: f split: if_splits)
    then have "kind_names t ds" using Cons.prems(2) by (simp add: f kind_names_def)
    then show ?thesis using rebuild_conforms [OF g] Cons.prems(4) ren True by (auto simp: f cs ds')
  next
    case False
    have "GetChildByName (ev_strings X) f q = Some b"
      using pre b unfolding GetChildByName_def f DuckLakeFieldId.sel cs by (intro find_first) simp_all
    then have "GetByNames_loop (ev_strings X) False (Suc i) (butlast path) b = Inr (Some p, off)"
      using Cons.prems(1) False by (simp split: if_splits)
    with ren False have b': "conforms b' \<and> field_name b' = field_name b"
      using Cons.IH [OF _ Cons.prems(2) _ conf(1) False] by simp
    then have "kind_names t ds" using conf(2) by (simp add: kind_names_def cs ds')
    then show ?thesis using rebuild_conforms [OF g] Cons.prems(4) b' by (simp add: f cs ds')
  qed
qed simp

end

section \<open>The invariant\<close>

abbreviation roots :: "DuckLakeTableEntry \<Rightarrow> DuckLakeFieldId list" where
  "roots t \<equiv> fd_field_ids (te_field_data t)"

abbreviation lower_name :: "ColumnDefinition \<Rightarrow> string" where
  "lower_name c \<equiv> ascii_lower (col_name c)"

definition columns_ok :: "ColumnDefinition list \<Rightarrow> DuckLakeFieldData \<Rightarrow> bool" where
  "columns_ok columns d \<longleftrightarrow> d = FieldData_of (fd_field_ids d) \<and>
     map (\<lambda>c. (col_name c, col_type c)) columns = map (\<lambda>f. (field_name f, field_type f)) (fd_field_ids d) \<and>
     distinct (map lower_name columns) \<and> list_all conforms (fd_field_ids d) \<and> distinct (forest_ids (fd_field_ids d))"

text \<open>The counter in force: the entry's own, or the one the metadata gives.\<close>

definition counter :: "'m alter_env \<Rightarrow> DuckLakeTableEntry \<Rightarrow> idx option" where
  "counter E t =
     (case te_next_column_id t of
        Some n \<Rightarrow> Some n
      | None \<Rightarrow> (case ae_next_column_id E (te_id t) of Inr n \<Rightarrow> Some n | Inl _ \<Rightarrow> None))"

definition counter_ok :: "'m alter_env \<Rightarrow> DuckLakeTableEntry \<Rightarrow> bool" where
  "counter_ok E t \<longleftrightarrow> (case counter E t of None \<Rightarrow> True | Some n \<Rightarrow> list_all (\<lambda>i. field_index i < n) (forest_ids (roots t)))"

lemma counter_ok_iff: "counter_ok E t \<longleftrightarrow> (\<forall>n. counter E t = Some n \<longrightarrow> (\<forall>i \<in> set (forest_ids (roots t)). field_index i < n))"
  by (auto simp: counter_ok_def list_all_iff split: option.splits)

definition not_null_indexes :: "Constraint list \<Rightarrow> nat list" where
  "not_null_indexes cs = concat (map (\<lambda>c. case c of NotNullConstraint i \<Rightarrow> [i] | _ \<Rightarrow> []) cs)"

fun constraint_ok :: "nat \<Rightarrow> Constraint \<Rightarrow> bool" where
  "constraint_ok n (NotNullConstraint i) = (i < n)"
| "constraint_ok n (UniqueIndexConstraint i _) = (i < n)"
| "constraint_ok n (UniqueNamesConstraint _ _) = True"
| "constraint_ok n _ = False"

definition constraints_ok :: "nat \<Rightarrow> Constraint list \<Rightarrow> bool" where
  "constraints_ok n cs \<longleftrightarrow> list_all (constraint_ok n) cs \<and> distinct (not_null_indexes cs)"

definition partition_ok :: "DuckLakeFieldId list \<Rightarrow> DuckLakePartition option \<Rightarrow> bool" where
  "partition_ok fs p \<longleftrightarrow>
     (case p of None \<Rightarrow> True | Some p \<Rightarrow> list_all (\<lambda>k. pf_field_id k \<in> GetFieldIndex ` set fs) (p_fields p))"

definition refs_exist :: "ColumnDefinition list \<Rightarrow> ParsedExpression \<Rightarrow> bool" where
  "refs_exist columns e \<longleftrightarrow>
     list_all (\<lambda>ns. \<not> IsQualified ns \<and> ascii_lower (last ns) \<in> set (map lower_name columns)) (column_refs e)"

definition sort_field_ok :: "'m alter_env \<Rightarrow> ColumnDefinition list \<Rightarrow> DuckLakeSortField \<Rightarrow> bool" where
  "sort_field_ok E columns f \<longleftrightarrow> sort_dialect f = ''duckdb'' \<and>
     (case ae_parse E (sort_expression f) of Inr [e] \<Rightarrow> refs_exist columns e | _ \<Rightarrow> False)"

definition sort_ok :: "'m alter_env \<Rightarrow> ColumnDefinition list \<Rightarrow> DuckLakeSort option \<Rightarrow> bool" where
  "sort_ok E columns s \<longleftrightarrow> (case s of None \<Rightarrow> True | Some s \<Rightarrow> list_all (sort_field_ok E columns) (sort_fields s))"

definition table_ok :: "'m alter_env \<Rightarrow> DuckLakeTableEntry \<Rightarrow> bool" where
  "table_ok E t \<longleftrightarrow> columns_ok (te_columns t) (te_field_data t) \<and> counter_ok E t \<and>
     constraints_ok (length (te_columns t)) (te_constraints t) \<and> partition_ok (roots t) (te_partition t) \<and>
     sort_ok E (te_columns t) (te_sort t)"

text \<open>The identifiers that an operation may use up do not wrap around.\<close>

definition room :: "'m alter_env \<Rightarrow> DuckLakeTableEntry \<Rightarrow> DuckLakeTableEntry \<Rightarrow> bool" where
  "room E t t' \<longleftrightarrow> (case counter E t of None \<Rightarrow> True | Some n \<Rightarrow> unat n + length (forest_ids (roots t')) < 2 ^ 64)"

section \<open>Lists with one matching element\<close>

lemma map_unique:
  assumes "i < length xs" and "\<And>j. j < length xs \<Longrightarrow> P (xs ! j) \<longleftrightarrow> j = i"
  shows "map (\<lambda>x. if P x then g x else x) xs = xs[i := g (xs ! i)]"
  by (rule nth_equalityI) (auto simp: assms nth_list_update)

lemma filter_unique:
  assumes "i < length xs" and "\<And>j. j < length xs \<Longrightarrow> P (xs ! j) \<longleftrightarrow> j = i"
  shows "filter (\<lambda>x. \<not> P x) xs = remove_nth i xs"
proof -
  have "filter (\<lambda>x. \<not> P x) (take i xs) = take i xs" "filter (\<lambda>x. \<not> P x) (drop (Suc i) xs) = drop (Suc i) xs"
    using assms by (auto simp: filter_id_conv in_set_conv_nth)
  moreover have "xs = take i xs @ xs ! i # drop (Suc i) xs" using assms(1) by (rule id_take_nth_drop)
  ultimately show ?thesis using assms by (metis (no_types, lifting) filter.simps(2) filter_append remove_nth_def)
qed

lemma replace_first_unique:
  assumes "i < length xs" and "\<And>j. j < length xs \<Longrightarrow> P (xs ! j) \<longleftrightarrow> j = i"
  shows "replace_first P y xs = xs[i := y]"
  using assms
proof (induction xs arbitrary: i)
  case (Cons x xs)
  show ?case
  proof (cases i)
    case 0
    then show ?thesis using Cons.prems(2) [of 0] by simp
  next
    case (Suc k)
    have "P (xs ! j) \<longleftrightarrow> j = k" if "j < length xs" for j using Cons.prems(2) [of "Suc j"] that Suc by simp
    then show ?thesis using Cons.IH [of k] Cons.prems(1) Cons.prems(2) [of 0] Suc by simp
  qed
qed simp

lemma find_index_Some: "find_index P xs = Some i \<Longrightarrow> i < length xs \<and> P (xs ! i)"
  by (induction xs arbitrary: i) (auto split: if_splits)

lemma find_index_None: "find_index P xs = None \<longleftrightarrow> (\<forall>x \<in> set xs. \<not> P x)"
  by (induction xs) auto

lemma remove_nth_map: "map g (remove_nth i xs) = remove_nth i (map g xs)"
  by (simp add: remove_nth_def take_map drop_map)

lemma set_remove_nth: "set (remove_nth i xs) \<subseteq> set xs"
  by (auto simp: remove_nth_def dest: in_set_takeD in_set_dropD)

lemma distinct_remove_nth: "distinct xs \<Longrightarrow> distinct (remove_nth i xs)"
  by (auto simp: remove_nth_def dest: set_take_disj_set_drop_if_distinct [of _ i "Suc i"])

lemma length_remove_nth: "i < length xs \<Longrightarrow> length (remove_nth i xs) = length xs - 1"
  by (simp add: remove_nth_def)

text \<open>Replacing one tree in a forest.\<close>

lemma forest_split: "i < length fs \<Longrightarrow> forest_ids fs = forest_ids (take i fs) @ tree_ids (fs ! i) @ forest_ids (drop (Suc i) fs)"
  using arg_cong [OF id_take_nth_drop [of i fs], of forest_ids] by simp

lemma forest_update: "i < length fs \<Longrightarrow> forest_ids (fs[i := f]) = forest_ids (take i fs) @ tree_ids f @ forest_ids (drop (Suc i) fs)"
  by (simp add: upd_conv_take_nth_drop)

lemma forest_remove: "forest_ids (remove_nth i fs) = forest_ids (take i fs) @ forest_ids (drop (Suc i) fs)"
  by (simp add: remove_nth_def)

lemma GetFieldIndex_in_ids: "GetFieldIndex f \<in> set (tree_ids f)"
  by (cases f) simp

lemma root_ids_distinct: "distinct (forest_ids fs) \<Longrightarrow> distinct (map GetFieldIndex fs)"
proof (induction fs)
  case (Cons f fs)
  have "GetFieldIndex f \<noteq> GetFieldIndex g" if "g \<in> set fs" for g
  proof -
    have "GetFieldIndex g \<in> set (forest_ids fs)" using that GetFieldIndex_in_ids [of g] by auto
    with Cons.prems show ?thesis using GetFieldIndex_in_ids [of f] by (metis concat.simps(2) disjoint_iff distinct_append list.simps(9))
  qed
  with Cons show ?case by auto
qed simp

lemma FieldData_of_ids [simp]: "fd_field_ids (FieldData_of fs) = fs"
proof -
  have "fd_field_ids (fold FieldData_Add fs d) = fd_field_ids d @ fs" for d by (induction fs arbitrary: d) simp_all
  then show ?thesis by (simp add: FieldData_of_def DuckLakeFieldData_default_def)
qed

section \<open>Laws\<close>

locale alter_laws =
  fixes E :: "'m alter_env"
  assumes evolution: "evolution (ae_evolution E)"
    and same_name: "same_name E a b \<longleftrightarrow> ascii_lower a = ascii_lower b"
    and add_column: "ae_add_column E cs c = Inr cs' \<longleftrightarrow> ascii_lower (col_name c) \<notin> lower_name ` set cs \<and> cs' = cs @ [c]"
    and parse_print: "ae_parse E (ev_expr_string (ae_evolution E) e) = Inr [e]"
begin

lemma add_columns_Inr:
  assumes "add_columns E cs = Inr cs'"
  shows "cs' = cs \<and> distinct (map lower_name cs)"
proof -
  have "fold_res (\<lambda>c new_columns. ae_add_column E new_columns c) cs acc = Inr cs' \<Longrightarrow> distinct (map lower_name acc) \<Longrightarrow>
      cs' = acc @ cs \<and> distinct (map lower_name (acc @ cs))" for acc
  proof (induction cs arbitrary: acc)
    case (Cons c cs)
    then have "fold_res (\<lambda>c new_columns. ae_add_column E new_columns c) cs (acc @ [c]) = Inr cs'" "distinct (map lower_name (acc @ [c]))"
      by (auto simp: bind_res_Inr_iff add_column)
    from Cons.IH [OF this] show ?case by simp
  qed simp
  from this [of "[]"] assms show ?thesis by (simp add: add_columns_def)
qed

text \<open>A name finds one column, and the root at the same position.\<close>

lemma column_facts:
  assumes "columns_ok cols d" and "column_index E cols nm = Some i"
  shows "i < length cols" and "length (fd_field_ids d) = length cols"
    and "j < length cols \<Longrightarrow> same_name E (col_name (cols ! j)) nm \<longleftrightarrow> j = i"
    and "j < length cols \<Longrightarrow> same_name E (field_name (fd_field_ids d ! j)) nm \<longleftrightarrow> j = i"
    and "j < length cols \<Longrightarrow> GetFieldIndex (fd_field_ids d ! j) = GetFieldIndex (fd_field_ids d ! i) \<longleftrightarrow> j = i"
proof -
  have i: "i < length cols" "same_name E (col_name (cols ! i)) nm"
    using find_index_Some assms(2) unfolding column_index_def by fastforce+
  have names: "map (\<lambda>c. (col_name c, col_type c)) cols = map (\<lambda>f. (field_name f, field_type f)) (fd_field_ids d)"
    and dist: "distinct (map lower_name cols)" and ids: "distinct (map GetFieldIndex (fd_field_ids d))"
    using assms(1) root_ids_distinct by (auto simp: columns_ok_def)
  show len: "length (fd_field_ids d) = length cols" using arg_cong [OF names, of length] by simp
  show "i < length cols" by (rule i(1))
  show col: "same_name E (col_name (cols ! j)) nm \<longleftrightarrow> j = i" if "j < length cols" for j
    using that i nth_eq_iff_index_eq [OF dist, of j i] by (auto simp: same_name)
  show "same_name E (field_name (fd_field_ids d ! j)) nm \<longleftrightarrow> j = i" if "j < length cols" for j
    using arg_cong [OF names, of "\<lambda>l. fst (l ! j)"] that col [OF that] len by simp
  show "GetFieldIndex (fd_field_ids d ! j) = GetFieldIndex (fd_field_ids d ! i) \<longleftrightarrow> j = i" if "j < length cols" for j
    using that i nth_eq_iff_index_eq [OF ids, of j i] len by auto
qed

lemma column_exists: "ColumnExists E cols nm \<longleftrightarrow> ascii_lower nm \<in> lower_name ` set cols"
  by (auto simp: ColumnExists_def column_index_def find_index_None same_name image_iff) metis

lemma columns_ok_names:
  "columns_ok cols d \<Longrightarrow> j < length cols \<Longrightarrow> field_name (fd_field_ids d ! j) = col_name (cols ! j) \<and> field_type (fd_field_ids d ! j) = col_type (cols ! j)"
proof -
  assume ok: "columns_ok cols d" and j: "j < length cols"
  have m: "map (\<lambda>c. (col_name c, col_type c)) cols = map (\<lambda>f. (field_name f, field_type f)) (fd_field_ids d)" using ok by (simp add: columns_ok_def)
  from arg_cong [OF m, of length] arg_cong [OF m, of "\<lambda>l. l ! j"] j show ?thesis by simp
qed

lemma columns_ok_update:
  assumes "columns_ok cols d" and "i < length cols" and "col_name c = field_name f" and "col_type c = field_type f"
    and "distinct (map lower_name (cols[i := c]))" and "conforms f" and "distinct (forest_ids ((fd_field_ids d)[i := f]))"
  shows "columns_ok (cols[i := c]) (FieldData_of ((fd_field_ids d)[i := f]))"
proof -
  have "list_all conforms ((fd_field_ids d)[i := f])"
    using assms(1,6) set_update_subset_insert [of "fd_field_ids d" i f] by (auto simp: columns_ok_def list_all_iff)
  then show ?thesis using assms by (simp add: columns_ok_def map_update)
qed

lemma columns_ok_same_name:
  "columns_ok cols d \<Longrightarrow> i < length cols \<Longrightarrow> col_name c = col_name (cols ! i) \<Longrightarrow> distinct (map lower_name (cols[i := c]))"
proof -
  assume ok: "columns_ok cols d" and i: "i < length cols" and c: "col_name c = col_name (cols ! i)"
  have "map lower_name (cols[i := c]) = (map lower_name cols)[i := map lower_name cols ! i]" using i c by (simp add: map_update)
  then have "map lower_name (cols[i := c]) = map lower_name cols" by (simp only: list_update_id)
  then show ?thesis using ok by (simp only: columns_ok_def)
qed

end

section \<open>Entries derived from entries\<close>

lemma altered_Inr: "altered t x entry = Inr r \<longleftrightarrow> (\<exists>e. entry = Inr e \<and> r = (Some e, t, x))"
  by (auto simp: altered_def bind_res_Inr_iff)

lemma resulting_simps [simp]: "resulting (Some e, t, x) = e" "resulting (None, t, x) = t"
  by (simp_all add: resulting_def)

definition entry_with :: "DuckLakeTableEntry \<Rightarrow> CreateTableInfo \<Rightarrow> LocalChange \<Rightarrow> DuckLakeTableEntry" where
  "entry_with p info ch = p\<lparr>te_name := ct_name info, te_comment := ct_comment info, te_columns := ct_columns info,
     te_constraints := ct_constraints info, te_local_change := ch, te_changed_fields := None, te_added_constraint := None\<rparr>"

lemma entry_from_parent_Inr: "entry_from_parent E p info ch = Inr e \<Longrightarrow> e = entry_with p info ch"
  by (auto simp: entry_from_parent_def DuckLakeTableEntry_new_def entry_with_def bind_res_Inr_iff)

lemma change_Inr:
  "DuckLakeTableEntry_change E p info ch = Inr e \<Longrightarrow> lc_type ch \<notin> {LC_ADD_COLUMN, LC_REMOVE_COLUMN} \<Longrightarrow> e = entry_with p info ch"
  by (auto simp: DuckLakeTableEntry_change_def bind_res_Inr_iff dest: entry_from_parent_Inr)

lemma change_remove_Inr:
  "DuckLakeTableEntry_change E p info (column_change LC_REMOVE_COLUMN i) = Inr e \<Longrightarrow>
     e = (entry_with p info (column_change LC_REMOVE_COLUMN i))\<lparr>te_field_data := DropColumn (te_field_data p) i\<rparr>"
  by (auto simp: DuckLakeTableEntry_change_def bind_res_Inr_iff column_change_def change_of_def entry_with_def dest: entry_from_parent_Inr)

lemma change_add_Inr:
  assumes "DuckLakeTableEntry_change E p info (change_of LC_ADD_COLUMN) = Inr e"
  obtains n d n' where "te_next_column_id p = Some n" and "ct_columns info \<noteq> []"
    and "AddColumn (ae_strings E) (ae_exprs E) (te_field_data p) (last (ct_columns info)) n = Inr (d, n')"
    and "e = (entry_with p info (change_of LC_ADD_COLUMN))\<lparr>te_field_data := d, te_next_column_id := Some n'\<rparr>"
proof -
  from assms obtain e0 where e0: "entry_from_parent E p info (change_of LC_ADD_COLUMN) = Inr e0"
    and rest: "bind_res (vector_at (te_columns e0) (length (te_columns e0) - 1)) (\<lambda>new_col. case te_next_column_id e0 of
        None \<Rightarrow> no_index
      | Some next_col \<Rightarrow> bind_res (AddColumn (ae_strings E) (ae_exprs E) (te_field_data e0) new_col next_col) (\<lambda>(data, next_col).
          Inr (e0\<lparr>te_field_data := data, te_next_column_id := Some next_col\<rparr>))) = Inr e"
    by (auto simp: DuckLakeTableEntry_change_def bind_res_Inr_iff change_of_def)
  note e0 = entry_from_parent_Inr [OF e0]
  from rest have "ct_columns info \<noteq> []" by (auto simp: bind_res_Inr_iff vector_at_Inr e0 entry_with_def)
  with rest that show thesis
    by (auto simp: bind_res_Inr_iff vector_at_Inr e0 entry_with_def last_conv_nth split: option.splits)
qed

lemma entry_with_simps [simp]:
  "te_columns (entry_with p info ch) = ct_columns info" "te_constraints (entry_with p info ch) = ct_constraints info"
  "te_field_data (entry_with p info ch) = te_field_data p" "te_next_column_id (entry_with p info ch) = te_next_column_id p"
  "te_partition (entry_with p info ch) = te_partition p" "te_sort (entry_with p info ch) = te_sort p" "te_id (entry_with p info ch) = te_id p"
  by (simp_all add: entry_with_def)

lemma GetInfo_simps [simp]:
  "ct_columns (GetInfo t) = te_columns t" "ct_constraints (GetInfo t) = te_constraints t"
  by (simp_all add: GetInfo_def)

lemma counter_cong: "te_next_column_id e = te_next_column_id t \<Longrightarrow> te_id e = te_id t \<Longrightarrow> counter E e = counter E t"
  by (auto simp: counter_def split: option.split)

section \<open>Changes that leave the columns alone\<close>

lemma not_null_indexes_iff: "i \<in> set (not_null_indexes cs) \<longleftrightarrow> NotNullConstraint i \<in> set cs"
proof -
  have "i \<in> set (case c of NotNullConstraint j \<Rightarrow> [j] | _ \<Rightarrow> []) \<longleftrightarrow> c = NotNullConstraint i" for c by (cases c) auto
  then show ?thesis by (auto simp: not_null_indexes_def)
qed

lemma not_null_indexes_append [simp]: "not_null_indexes (as @ bs) = not_null_indexes as @ not_null_indexes bs"
  by (simp add: not_null_indexes_def)

lemma not_null_indexes_Cons [simp]: "not_null_indexes (c # cs) = (case c of NotNullConstraint i \<Rightarrow> [i] | _ \<Rightarrow> []) @ not_null_indexes cs"
  by (simp add: not_null_indexes_def)

lemma not_null_indexes_Nil [simp]: "not_null_indexes [] = []"
  by (simp add: not_null_indexes_def)

lemma constraints_ok_add:
  "constraints_ok n cs \<Longrightarrow> i < n \<Longrightarrow> FindNotNullConstraint cs i = None \<Longrightarrow> constraints_ok n (cs @ [NotNullConstraint i])"
  by (auto simp: constraints_ok_def not_null_indexes_iff FindNotNullConstraint_def find_index_None)

lemma constraints_ok_key: "constraints_ok n cs \<Longrightarrow> constraints_ok n (cs @ [UniqueNamesConstraint names primary])"
  by (simp add: constraints_ok_def)

lemma constraints_ok_remove: "constraints_ok n cs \<Longrightarrow> constraints_ok n (remove_nth k cs)"
proof -
  assume ok: "constraints_ok n cs"
  have "cs = take k cs @ drop k cs" by simp
  then have "not_null_indexes cs = not_null_indexes (take k cs) @ not_null_indexes (drop k cs)" by (metis not_null_indexes_append)
  moreover have "not_null_indexes (drop (Suc k) cs) = not_null_indexes (drop k cs) \<or>
      (\<exists>i. not_null_indexes (drop k cs) = i # not_null_indexes (drop (Suc k) cs))"
    by (cases "k < length cs") (auto simp: Cons_nth_drop_Suc [symmetric] split: Constraint.splits)
  ultimately show ?thesis using ok set_remove_nth [of k cs]
    by (auto simp: constraints_ok_def list_all_iff remove_nth_def)
qed

lemma not_null_removed:
  assumes "constraints_ok n cs" and "FindNotNullConstraint cs i = Some k"
  shows "NotNullConstraint j \<in> set (remove_nth k cs) \<longleftrightarrow> NotNullConstraint j \<in> set cs \<and> j \<noteq> i"
proof -
  have k: "k < length cs" "cs ! k = NotNullConstraint i" using assms(2) find_index_Some unfolding FindNotNullConstraint_def by fastforce+
  have split: "cs = take k cs @ cs ! k # drop (Suc k) cs" using k(1) by (rule id_take_nth_drop)
  have "not_null_indexes cs = not_null_indexes (take k cs) @ i # not_null_indexes (drop (Suc k) cs)"
    using arg_cong [OF split, of not_null_indexes] k(2) by simp
  then have "i \<notin> set (not_null_indexes (remove_nth k cs))" "set (not_null_indexes cs) = insert i (set (not_null_indexes (remove_nth k cs)))"
    using assms(1) by (auto simp: constraints_ok_def remove_nth_def)
  then show ?thesis by (auto simp: not_null_indexes_iff [symmetric])
qed

lemma table_ok_same:
  assumes "table_ok E t" and "te_columns e = te_columns t" and "te_field_data e = te_field_data t" and "te_next_column_id e = te_next_column_id t"
    and "te_id e = te_id t" and "constraints_ok (length (te_columns t)) (te_constraints e)" and "partition_ok (roots t) (te_partition e)"
    and "sort_ok E (te_columns t) (te_sort e)"
  shows "table_ok E e"
  using assms counter_cong [of e t E] by (simp add: table_ok_def counter_ok_iff)

text \<open>The result of a form that leaves columns and field data as they are and sets the constraints.\<close>

definition kept_columns :: "'m alter_env \<Rightarrow> DuckLakeTableEntry \<Rightarrow> DuckLakeTableEntry \<Rightarrow> Constraint list \<Rightarrow> bool" where
  "kept_columns E t e cs \<longleftrightarrow> table_ok E e \<and> te_columns e = te_columns t \<and> te_field_data e = te_field_data t \<and> te_constraints e = cs"

lemma table_okD:
  assumes "table_ok E t"
  shows "columns_ok (te_columns t) (te_field_data t)" and "constraints_ok (length (te_columns t)) (te_constraints t)"
    and "partition_ok (roots t) (te_partition t)" and "sort_ok E (te_columns t) (te_sort t)" and "counter_ok E t"
  using assms by (simp_all add: table_ok_def)

context alter_laws
begin

lemma altered_column_Inr:
  assumes "altered_column E nm missing t = Inr (i, col, f)"
  shows "column_index E (te_columns t) nm = Some i" and "col = te_columns t ! i" and "f = roots t ! i"
  using assms by (auto simp: altered_column_def bind_res_Inr_iff vector_at_Inr GetByRootIndex_def split: option.splits if_splits)

lemma partition_keys_ok:
  assumes "BuildPartitionData E columns d keys x = Inr (p, x')"
  shows "partition_ok (fd_field_ids d) (Some p)"
proof -
  from assms obtain fs where fs: "fold_res (add_partition_key E columns d) keys [] = Inr fs" and p: "p_fields p = fs"
    by (auto simp: BuildPartitionData_def GetLocalCatalogId_def bind_res_Inr_iff)
  have "list_all (\<lambda>k. pf_field_id k \<in> GetFieldIndex ` set (fd_field_ids d)) fs"
    by (rule fold_res_invariant [OF fs])
      (auto simp: add_partition_key_def GetPartitionField_def GetByRootIndex_def bind_res_Inr_iff split: if_splits option.splits)
  then show ?thesis by (simp add: partition_ok_def p)
qed

lemma missing_none:
  assumes "fold_res (missing_column E columns) refs m = Inr []"
  shows "m = [] \<and> list_all (\<lambda>ns. \<not> IsQualified ns \<and> ascii_lower (last ns) \<in> set (map lower_name columns)) refs"
  using assms
proof (induction refs arbitrary: m)
  case (Cons ns refs)
  then obtain m1 where m1: "missing_column E columns ns m = Inr m1" and rest: "fold_res (missing_column E columns) refs m1 = Inr []"
    by (auto simp: bind_res_Inr_iff)
  from Cons.IH [OF rest] m1 show ?case
    by (auto simp: missing_column_def GetUnqualifiedColumnName_def bind_res_Inr_iff column_exists split: if_splits)
qed simp

lemma sort_keys_ok:
  assumes "BuildSortData E columns orders x = Inr (s, x')"
  shows "sort_ok E columns s"
proof (cases "orders = []")
  case True
  then show ?thesis using assms by (simp add: BuildSortData_def sort_ok_def)
next
  case False
  with assms have v: "ValidateSortExpressionColumns E columns orders = Inr ()"
    and s: "\<exists>i. s = Some \<lparr>sort_id = i, sort_fields = map (\<lambda>(i, node). sort_field_of E i node) (enumerate 0 orders)\<rparr>"
    by (auto simp: BuildSortData_def GetLocalCatalogId_def bind_res_Inr_iff)
  from v have "\<forall>node \<in> set orders. refs_exist columns (order_expression node)"
    by (auto simp: ValidateSortExpressionColumns_def bind_res_Inr_iff refs_exist_def list_all_iff dest!: missing_none split: if_splits)
  then have "sort_field_ok E columns (sort_field_of E i node)" if "node \<in> set orders" for i node
    using that by (simp add: sort_field_ok_def sort_field_of_def parse_print)
  then show ?thesis using s by (auto simp: sort_ok_def list_all_iff in_set_enumerate_eq)
qed

text \<open>The forms that change neither columns nor field data.\<close>

lemma change_plain:
  "DuckLakeTableEntry_change E t info (change_of ty) = Inr e \<Longrightarrow> ty \<notin> {LC_ADD_COLUMN, LC_REMOVE_COLUMN} \<Longrightarrow> e = entry_with t info (change_of ty)"
  by (rule change_Inr) (auto simp: change_of_def)

lemma change_column_plain:
  "DuckLakeTableEntry_change E t info (column_change ty i) = Inr e \<Longrightarrow> ty \<notin> {LC_ADD_COLUMN, LC_REMOVE_COLUMN} \<Longrightarrow>
     e = entry_with t info (column_change ty i)"
  by (rule change_Inr) (auto simp: column_change_def change_of_def)

lemma kept_columns_refl: "table_ok E t \<Longrightarrow> kept_columns E t t (te_constraints t)"
  by (simp add: kept_columns_def)

lemma kept_columnsI:
  assumes "table_ok E t" and "te_columns e = te_columns t" and "te_field_data e = te_field_data t" and "te_next_column_id e = te_next_column_id t"
    and "te_id e = te_id t" and "te_constraints e = cs" and "constraints_ok (length (te_columns t)) cs" and "partition_ok (roots t) (te_partition e)"
    and "sort_ok E (te_columns t) (te_sort e)"
  shows "kept_columns E t e cs"
  using assms table_ok_same [OF assms(1-5)] by (simp add: kept_columns_def)

lemma RenameTable_keeps:
  assumes "table_ok E t" and "AlterTable_RenameTable E nm t x = Inr r"
  shows "kept_columns E t (resulting r) (te_constraints t)"
proof -
  from assms(2) obtain e where "DuckLakeTableEntry_change E t ((GetInfo t)\<lparr>ct_name := nm\<rparr>) (change_of LC_RENAMED) = Inr e" and r: "r = (Some e, t, x)"
    by (auto simp: AlterTable_RenameTable_def altered_Inr)
  from change_plain [OF this(1)] show ?thesis
    using table_okD [OF assms(1)] by (simp add: r kept_columnsI [OF assms(1)])
qed

lemma SetComment_keeps:
  assumes "table_ok E t" and "Alter_SetComment E c t x = Inr r"
  shows "kept_columns E t (resulting r) (te_constraints t)"
proof -
  from assms(2) obtain e where "DuckLakeTableEntry_change E t ((GetInfo t)\<lparr>ct_comment := c\<rparr>) (change_of LC_SET_COMMENT) = Inr e" and r: "r = (Some e, t, x)"
    by (auto simp: Alter_SetComment_def altered_Inr)
  from change_plain [OF this(1)] show ?thesis
    using table_okD [OF assms(1)] by (simp add: r kept_columnsI [OF assms(1)])
qed

lemma SetPartitionedBy_keeps:
  assumes "table_ok E t" and "AlterTable_SetPartitionedBy E keys t x = Inr r"
  shows "kept_columns E t (resulting r) (te_constraints t)"
proof -
  from assms(2) obtain p x' where p: "BuildPartitionData E (te_columns t) (te_field_data t) keys x = Inr (p, x')"
    and r: "r = (None, t, x') \<or> (\<exists>e. DuckLakeTableEntry_partition E t (GetInfo t) p = Inr e \<and> r = (Some e, t, x'))"
    by (auto simp: AlterTable_SetPartitionedBy_def bind_res_Inr_iff altered_Inr split: if_splits)
  from r show ?thesis
  proof
    assume "\<exists>e. DuckLakeTableEntry_partition E t (GetInfo t) p = Inr e \<and> r = (Some e, t, x')"
    then obtain e where "DuckLakeTableEntry_change E t (GetInfo t) (change_of LC_SET_PARTITION_KEY) = Inr e"
      and r: "resulting r = e\<lparr>te_partition := Some p\<rparr>"
      by (auto simp: DuckLakeTableEntry_partition_def bind_res_Inr_iff)
    from change_plain [OF this(1)] show ?thesis
      using table_okD [OF assms(1)] partition_keys_ok [OF p] by (simp add: r kept_columnsI [OF assms(1)])
  qed (simp add: kept_columns_refl assms(1))
qed

lemma SetSortedBy_keeps:
  assumes "table_ok E t" and "AlterTable_SetSortedBy E orders t x = Inr r"
  shows "kept_columns E t (resulting r) (te_constraints t)"
proof -
  from assms(2) obtain s x' e where s: "BuildSortData E (te_columns t) orders x = Inr (s, x')"
    and "DuckLakeTableEntry_change E t (GetInfo t) (change_of LC_SET_SORT_KEY) = Inr e" and r: "resulting r = e\<lparr>te_sort := s\<rparr>"
    by (auto simp: AlterTable_SetSortedBy_def DuckLakeTableEntry_sort_def bind_res_Inr_iff altered_Inr)
  from change_plain [OF this(2)] show ?thesis
    using table_okD [OF assms(1)] sort_keys_ok [OF s] by (simp add: r kept_columnsI [OF assms(1)])
qed

lemma AddConstraint_keeps:
  assumes "table_ok E t" and "AlterTable_AddConstraint E con t x = Inr r"
  shows "\<exists>names b. kept_columns E t (resulting r) (te_constraints t @ [UniqueNamesConstraint names b])"
proof -
  from assms(2) obtain c where con: "con = Some c" by (cases con) (auto simp: AlterTable_AddConstraint_def)
  from assms(2) obtain names b where "unique_key (te_columns t) c = Inr (Some (names, b))"
    by (auto simp: AlterTable_AddConstraint_def con bind_res_Inr_iff split: option.splits)
  with assms(2) have "\<exists>e. DuckLakeTableEntry_constraint E t
      ((GetInfo t)\<lparr>ct_constraints := te_constraints t @ [UniqueNamesConstraint names b]\<rparr>) (key_kind b) names = Inr e \<and> r = (Some e, t, x)"
    by (auto simp: AlterTable_AddConstraint_def con bind_res_Inr_iff altered_Inr split: if_splits)
  then obtain e where "entry_from_parent E t
      ((GetInfo t)\<lparr>ct_constraints := te_constraints t @ [UniqueNamesConstraint names b]\<rparr>) (change_of LC_ADD_CONSTRAINT) = Inr e"
    and r: "resulting r = e\<lparr>te_added_constraint := Some (key_kind b, names)\<rparr>"
    by (auto simp: DuckLakeTableEntry_constraint_def bind_res_Inr_iff)
  from entry_from_parent_Inr [OF this(1)] have "kept_columns E t (resulting r) (te_constraints t @ [UniqueNamesConstraint names b])"
    using table_okD [OF assms(1)] by (simp add: r kept_columnsI [OF assms(1)] constraints_ok_key)
  then show ?thesis by blast
qed

lemma with_session_resulting: "with_session f t x = Inr r \<Longrightarrow> resulting r = t"
  by (auto simp: with_session_def bind_res_Inr_iff)

lemma options_keep:
  assumes "table_ok E t" and "(if IsTransactionLocal (te_id t) then unaltered (t\<lparr>te_options := o'\<rparr>) x else with_session f t x) = Inr r"
  shows "kept_columns E t (resulting r) (te_constraints t)"
proof (cases "IsTransactionLocal (te_id t)")
  case True
  with assms(2) have "(None, t\<lparr>te_options := o'\<rparr>, x) = r" by (simp only: if_True sum.inject)
  then have "resulting r = t\<lparr>te_options := o'\<rparr>" by (auto simp only: resulting_simps)
  then show ?thesis using table_okD [OF assms(1)] by (intro kept_columnsI [OF assms(1)]) simp_all
next
  case False
  with assms(2) have "with_session f t x = Inr r" by simp
  from with_session_resulting [OF this] show ?thesis by (simp add: kept_columns_refl assms(1))
qed

lemma SetTableOptions_keeps:
  assumes "table_ok E t" and "AlterTable_SetTableOptions E options t x = Inr r"
  shows "kept_columns E t (resulting r) (te_constraints t)"
  using assms(2) options_keep [OF assms(1)] unfolding AlterTable_SetTableOptions_def bind_res_Inr_iff by blast

lemma ResetTableOptions_keeps:
  assumes "table_ok E t" and "AlterTable_ResetTableOptions E names t x = Inr r"
  shows "kept_columns E t (resulting r) (te_constraints t)"
  using assms(2) options_keep [OF assms(1)] unfolding AlterTable_ResetTableOptions_def bind_res_Inr_iff by blast

lemma SetNotNull_keeps:
  assumes "table_ok E t" and "AlterTable_SetNotNull E nm t x = Inr r"
  shows "\<exists>i. column_index E (te_columns t) nm = Some i \<and> kept_columns E t (resulting r) (te_constraints t @ [NotNullConstraint i])"
proof -
  from assms(2) obtain i col f e where c: "altered_column E nm no_such_column t = Inr (i, col, f)"
    and new: "FindNotNullConstraint (te_constraints t) i = None"
    and ch: "DuckLakeTableEntry_change E t ((GetInfo t)\<lparr>ct_constraints := te_constraints t @ [NotNullConstraint i]\<rparr>)
        (column_change LC_SET_NULL (GetFieldIndex f)) = Inr e" and r: "resulting r = e"
    by (auto simp: AlterTable_SetNotNull_def bind_res_Inr_iff altered_Inr split: if_splits)
  note ok = table_okD [OF assms(1)]
  from change_column_plain [OF ch] have "kept_columns E t (resulting r) (te_constraints t @ [NotNullConstraint i])"
    using ok column_facts(1) [OF ok(1) altered_column_Inr(1) [OF c]] new by (simp add: r kept_columnsI [OF assms(1)] constraints_ok_add)
  then show ?thesis using altered_column_Inr(1) [OF c] by blast
qed

lemma DropNotNull_keeps:
  assumes "table_ok E t" and "AlterTable_DropNotNull E nm t x = Inr r"
  shows "\<exists>i k. column_index E (te_columns t) nm = Some i \<and> FindNotNullConstraint (te_constraints t) i = Some k \<and>
    kept_columns E t (resulting r) (remove_nth k (te_constraints t))"
proof -
  from assms(2) obtain i col f k e where c: "altered_column E nm no_such_column t = Inr (i, col, f)"
    and k: "FindNotNullConstraint (te_constraints t) i = Some k"
    and ch: "DuckLakeTableEntry_change E t ((GetInfo t)\<lparr>ct_constraints := remove_nth k (te_constraints t)\<rparr>)
        (column_change LC_DROP_NULL (GetFieldIndex f)) = Inr e" and r: "resulting r = e"
    by (auto simp: AlterTable_DropNotNull_def bind_res_Inr_iff altered_Inr split: option.splits)
  note ok = table_okD [OF assms(1)]
  from change_column_plain [OF ch] have "kept_columns E t (resulting r) (remove_nth k (te_constraints t))"
    using ok by (simp add: r kept_columnsI [OF assms(1)] constraints_ok_remove)
  then show ?thesis using altered_column_Inr(1) [OF c] k by blast
qed

end

end
