(* ===== verification/DL_AlterColumns.thy ===== *)
theory DL_AlterColumns
  imports DL_TableInvariant
begin

text \<open>
  The forms of \<^verbatim>\<open>ALTER TABLE\<close> that change columns: what each makes of the columns, the roots and the constraints, and that the invariant
  \<open>table_ok\<close> holds of the result. The section on properties puts all forms together: \<open>table_ok\<close> is kept by every change of
  a table, and the list of columns with their identifiers, names, types and NOT NULL flags changes as \<open>alter_view\<close> says.
\<close>

section \<open>Replacing one column\<close>

lemma map_update_same: "i < length xs \<Longrightarrow> g y = g (xs ! i) \<Longrightarrow> map g (xs[i := y]) = map g xs"
  by (metis list_update_id map_update)

lemma partition_ok_cong:
  assumes "map GetFieldIndex fs = map GetFieldIndex gs"
  shows "partition_ok fs p = partition_ok gs p"
proof -
  have "GetFieldIndex ` set fs = GetFieldIndex ` set gs" using assms by (metis set_map)
  then show ?thesis by (cases p) (simp_all add: partition_ok_def)
qed

lemma Rename_simps [simp]:
  "GetFieldIndex (Rename f n) = GetFieldIndex f" "field_type (Rename f n) = field_type f" "field_name (Rename f n) = n"
  by (cases f; simp)+

lemma sort_field_okE:
  assumes "sort_field_ok E cs f"
  obtains e where "sort_dialect f = ''duckdb''" and "ae_parse E (sort_expression f) = Inr [e]" and "refs_exist cs e"
  using assms by (auto simp: sort_field_ok_def split: sum.splits list.splits)

lemma sort_field_ok_mono:
  assumes "set (map lower_name cs) \<subseteq> set (map lower_name cs')" and "sort_field_ok E cs f"
  shows "sort_field_ok E cs' f"
proof -
  from assms(2) obtain e where e: "sort_dialect f = ''duckdb''" "ae_parse E (sort_expression f) = Inr [e]" "refs_exist cs e"
    by (rule sort_field_okE)
  moreover have "refs_exist cs' e" using e(3) assms(1) by (auto simp: refs_exist_def list_all_iff)
  ultimately show ?thesis by (simp add: sort_field_ok_def)
qed

lemma sort_ok_mono: "set (map lower_name cs) \<subseteq> set (map lower_name cs') \<Longrightarrow> sort_ok E cs s \<Longrightarrow> sort_ok E cs' s"
  using sort_field_ok_mono [of cs cs'] by (cases s) (auto simp: sort_ok_def list_all_iff simp del: set_map)

text \<open>A result that uses no new identifiers.\<close>

lemma table_ok_fewer:
  assumes "table_ok E t" and "te_id e = te_id t" and "te_next_column_id e = te_next_column_id t"
    and "set (forest_ids (roots e)) \<subseteq> set (forest_ids (roots t))" and "columns_ok (te_columns e) (te_field_data e)"
    and "constraints_ok (length (te_columns e)) (te_constraints e)" and "partition_ok (roots e) (te_partition e)"
    and "sort_ok E (te_columns e) (te_sort e)"
  shows "table_ok E e"
  using assms counter_cong [OF assms(3,2), of E] by (fastforce simp: table_ok_def counter_ok_iff)

section \<open>Renaming a column\<close>

lemma references_FieldData_of: "distinct (forest_ids fs) \<Longrightarrow> references_ok (FieldData_of fs)"
proof (induction fs rule: rev_induct)
  case (snoc f fs)
  then have "references_ok (FieldData_of fs)" by simp
  moreover have "FieldData_of (fs @ [f]) = FieldData_Add f (FieldData_of fs)" by (simp add: FieldData_of_def)
  ultimately show ?case using snoc.prems FieldData_Add_references [of "FieldData_of fs" f] by simp
qed (simp add: FieldData_of_def references_ok_default)

lemma GetByFieldIndex_root:
  assumes "columns_ok cols d" and "f \<in> set (fd_field_ids d)"
  shows "GetByFieldIndex d (GetFieldIndex f) = Some f"
proof -
  have "d = FieldData_of (fd_field_ids d)" "distinct (forest_ids (fd_field_ids d))" using assms(1) by (simp_all add: columns_ok_def)
  then have "references_ok d" using references_FieldData_of by metis
  moreover have "f \<in> set (forest_fields (fd_field_ids d))" proof -
    have "f \<in> set (tree_fields f)" by (cases f) simp
    then show ?thesis using assms(2) by auto
  qed
  ultimately show ?thesis
    using find_forest_member assms(1) by (simp add: GetByFieldIndex_def references_ok_def columns_ok_def)
qed

lemma column_refs_replaced:
  "column_refs (ReplaceColumnRefName E old_name new_name e) =
     map (\<lambda>ns. if \<not> IsQualified ns \<and> same_name E (last ns) old_name then butlast ns @ [new_name] else ns) (column_refs e)"
  by (induction e) (auto simp: map_concat comp_def intro!: arg_cong [where f = concat])

context alter_laws
begin

lemma refs_exist_renamed:
  assumes "refs_exist cols e" and "i < length cols"
  shows "refs_exist (cols[i := (cols ! i)\<lparr>col_name := new_name\<rparr>]) (ReplaceColumnRefName E (col_name (cols ! i)) new_name e)"
  unfolding refs_exist_def list_all_iff column_refs_replaced
proof
  let ?cols = "cols[i := (cols ! i)\<lparr>col_name := new_name\<rparr>]"
  fix ns' assume "ns' \<in> set (map (\<lambda>ns. if \<not> IsQualified ns \<and> same_name E (last ns) (col_name (cols ! i)) then butlast ns @ [new_name] else ns) (column_refs e))"
  then obtain ns where ns: "ns \<in> set (column_refs e)"
    and ns': "ns' = (if \<not> IsQualified ns \<and> same_name E (last ns) (col_name (cols ! i)) then butlast ns @ [new_name] else ns)" by auto
  have q: "\<not> IsQualified ns" and "ascii_lower (last ns) \<in> set (map lower_name cols)" using assms(1) ns by (auto simp: refs_exist_def list_all_iff)
  then obtain j where j: "j < length cols" "ascii_lower (last ns) = lower_name (cols ! j)" by (auto simp: in_set_conv_nth)
  show "\<not> IsQualified ns' \<and> ascii_lower (last ns') \<in> set (map lower_name ?cols)"
  proof (cases "same_name E (last ns) (col_name (cols ! i))")
    case True
    then have "ns' = butlast ns @ [new_name]" using ns' q by simp
    moreover have "?cols ! i \<in> set ?cols" using assms(2) by (intro nth_mem) simp
    ultimately show ?thesis using q assms(2) by (force simp: IsQualified_def)
  next
    case False
    then have "ns' = ns" "j \<noteq> i" using ns' j by (auto simp: same_name)
    moreover have "?cols ! j \<in> set ?cols" using j(1) by (intro nth_mem) simp
    ultimately show ?thesis using q j by force
  qed
qed

lemma rename_sort_field_ok:
  assumes "rename_sort_field E (col_name (cols ! i)) new_name f = Inr g" and "sort_field_ok E cols f" and "i < length cols"
  shows "sort_field_ok E (cols[i := (cols ! i)\<lparr>col_name := new_name\<rparr>]) g"
proof -
  from assms(2) obtain e where e: "sort_dialect f = ''duckdb''" "ae_parse E (sort_expression f) = Inr [e]" "refs_exist cols e"
    by (rule sort_field_okE)
  then have "g = f\<lparr>sort_expression := ev_expr_string (ae_evolution E) (ReplaceColumnRefName E (col_name (cols ! i)) new_name e)\<rparr>"
    using assms(1) by (simp add: rename_sort_field_def)
  then show ?thesis using refs_exist_renamed [OF e(3) assms(3)] e(1) by (simp add: sort_field_ok_def parse_print)
qed

lemma rename_sort_ok:
  assumes "map_res (rename_sort_field E (col_name (cols ! i)) new_name) fs = Inr gs" and "list_all (sort_field_ok E cols) fs" and "i < length cols"
  shows "list_all (sort_field_ok E (cols[i := (cols ! i)\<lparr>col_name := new_name\<rparr>])) gs"
proof -
  have "list_all2 (\<lambda>f g. rename_sort_field E (col_name (cols ! i)) new_name f = Inr g) fs gs" using assms(1) by (simp add: map_res_Inr_iff)
  then show ?thesis
    using assms(2) by (induction rule: list_all2_induct) (auto intro: rename_sort_field_ok [OF _ _ assms(3)])
qed

lemma constraints_ok_map:
  assumes "constraints_ok n cs"
  shows "constraints_ok n (map (rename_key E old_name new_name) cs)"
    and "NotNullConstraint i \<in> set (map (rename_key E old_name new_name) cs) \<longleftrightarrow> NotNullConstraint i \<in> set cs"
proof -
  have one: "constraint_ok n (rename_key E old_name new_name c) \<longleftrightarrow> constraint_ok n c"
    "(case rename_key E old_name new_name c of NotNullConstraint i \<Rightarrow> [i] | _ \<Rightarrow> []) = (case c of NotNullConstraint i \<Rightarrow> [i] | _ \<Rightarrow> [])" for c
    by (cases c; simp add: rename_key_def)+
  have idx: "not_null_indexes (map (rename_key E old_name new_name) cs) = not_null_indexes cs"
    by (simp add: not_null_indexes_def comp_def one)
  show "constraints_ok n (map (rename_key E old_name new_name) cs)"
    using assms idx by (simp add: constraints_ok_def list_all_iff one)
  show "NotNullConstraint i \<in> set (map (rename_key E old_name new_name) cs) \<longleftrightarrow> NotNullConstraint i \<in> set cs"
    using idx by (metis not_null_indexes_iff)
qed

lemma RenameColumn_result:
  assumes "table_ok E t" and "AlterTable_RenameColumn E old_name new_name t x = Inr r"
  shows "\<exists>i. column_index E (te_columns t) old_name = Some i \<and> table_ok E (resulting r) \<and>
    te_columns (resulting r) = (te_columns t)[i := (te_columns t ! i)\<lparr>col_name := new_name\<rparr>] \<and>
    roots (resulting r) = (roots t)[i := Rename (roots t ! i) new_name] \<and>
    te_constraints (resulting r) = map (rename_key E old_name new_name) (te_constraints t)"
proof -
  note ok = table_okD [OF assms(1)]
  from assms(2) obtain i col f new_columns e where c: "altered_column E old_name
        (\<lambda>nm. CatalogException (''Failed to rename column - column '' @ nm @ '' does not exist'')) t = Inr (i, col, f)"
    and cols: "add_columns E (map (\<lambda>c. if same_name E (col_name c) old_name then c\<lparr>col_name := new_name\<rparr> else c) (te_columns t)) = Inr new_columns"
    and e: "DuckLakeTableEntry_rename E t ((GetInfo t)\<lparr>ct_columns := new_columns,
        ct_constraints := map (rename_key E old_name new_name) (te_constraints t)\<rparr>) (GetFieldIndex f) new_name = Inr e"
    and r: "resulting r = e"
    by (auto simp: AlterTable_RenameColumn_def bind_res_Inr_iff altered_Inr)
  note i = altered_column_Inr [OF c]
  note facts = column_facts [OF ok(1) i(1)]
  let ?cols = "(te_columns t)[i := (te_columns t ! i)\<lparr>col_name := new_name\<rparr>]"
  have new: "new_columns = ?cols" and dist: "distinct (map lower_name ?cols)"
    using add_columns_Inr [OF cols] facts map_unique [of i "te_columns t" "\<lambda>c. same_name E (col_name c) old_name" "\<lambda>c. c\<lparr>col_name := new_name\<rparr>"] by simp_all
  let ?roots = "(roots t)[i := Rename (roots t ! i) new_name]"
  have roots: "RenameColumn (te_field_data t) (GetFieldIndex f) new_name = FieldData_of ?roots"
    unfolding RenameColumn_def i(3) using facts by (subst map_unique [of i]) auto
  let ?info = "(GetInfo t)\<lparr>ct_columns := new_columns, ct_constraints := map (rename_key E old_name new_name) (te_constraints t)\<rparr>"
  let ?e = "(entry_with t ?info (column_change LC_RENAME_COLUMN (GetFieldIndex f)))\<lparr>te_field_data := FieldData_of ?roots\<rparr>"
  have nm: "field_name f = col_name (te_columns t ! i)" using columns_ok_names [OF ok(1) facts(1)] i(3) by simp
  have get: "GetByFieldIndex (te_field_data t) (GetFieldIndex f) = Some f"
    using GetByFieldIndex_root [OF ok(1)] i(3) facts(1,2) by simp
  obtain e0 where "DuckLakeTableEntry_change E t ?info (column_change LC_RENAME_COLUMN (GetFieldIndex f)) = Inr e0"
    using e by (auto simp: DuckLakeTableEntry_rename_def bind_res_Inr_iff)
  then have ch: "DuckLakeTableEntry_change E t ?info (column_change LC_RENAME_COLUMN (GetFieldIndex f)) =
      Inr (entry_with t ?info (column_change LC_RENAME_COLUMN (GetFieldIndex f)))"
    using change_column_plain by fastforce
  have cok: "columns_ok ?cols (FieldData_of ?roots)"
  proof (rule columns_ok_update [OF ok(1) facts(1)])
    have conf: "conforms (roots t ! i)" using ok(1) facts(1,2) by (simp add: columns_ok_def list_all_length)
    show "conforms (Rename (roots t ! i) new_name)" using conf evolution.conforms_Rename [OF evolution] by simp
    show "col_type ((te_columns t ! i)\<lparr>col_name := new_name\<rparr>) = field_type (Rename (roots t ! i) new_name)"
      using columns_ok_names [OF ok(1) facts(1)] by simp
    show "distinct (forest_ids ?roots)" using ok(1) facts(1,2) forest_split [of i "roots t"] by (simp add: forest_update columns_ok_def)
  qed (use dist in simp_all)
  have ids: "forest_ids ?roots = forest_ids (roots t)" using facts(1,2) forest_split [of i "roots t"] by (simp add: forest_update)
  have part: "partition_ok ?roots (te_partition t)"
    using ok(3) facts(1,2) partition_ok_cong [OF map_update_same [of i "roots t" GetFieldIndex "Rename (roots t ! i) new_name"]] by simp
  have common: "table_ok E (?e\<lparr>te_sort := s\<rparr>)" if "sort_ok E ?cols s" for s
    using cok part that constraints_ok_map(1) [OF ok(2)] ids by (intro table_ok_fewer [OF assms(1)]) (simp_all add: new)
  have "\<exists>s. e = ?e\<lparr>te_sort := s\<rparr> \<and> sort_ok E ?cols s"
  proof (cases "te_sort t")
    case None
    then show ?thesis using e by (auto simp: DuckLakeTableEntry_rename_def ch roots sort_ok_def intro!: exI [of _ None])
  next
    case (Some sort)
    with e obtain fields where f: "map_res (rename_sort_field E (col_name (te_columns t ! i)) new_name) (sort_fields sort) = Inr fields"
      and e: "e = ?e\<lparr>te_sort := Some (sort\<lparr>sort_fields := fields\<rparr>)\<rparr>"
      by (auto simp: DuckLakeTableEntry_rename_def ch roots get nm bind_res_Inr_iff)
    then show ?thesis
      using rename_sort_ok [OF f _ facts(1)] ok(4) Some by (auto simp: sort_ok_def)
  qed
  with common i(1) show ?thesis by (auto simp: r new)
qed

end

section \<open>Adding a column\<close>

lemma unat_plus_of_nat: "unat (n :: idx) + k < 2 ^ 64 \<Longrightarrow> unat (n + of_nat k) = unat n + k"
proof -
  assume room: "unat n + k < 2 ^ 64"
  then have "unat (of_nat k :: idx) = k" by (simp add: unsigned_of_nat take_bit_nat_eq_self)
  with room unat_add_lem [of n "of_nat k"] show ?thesis by simp
qed

lemma consecutive_fresh:
  assumes "unat n + k < 2 ^ 64"
  shows "i \<in> set (consecutive n k) \<Longrightarrow> n \<le> field_index i \<and> field_index i < n + of_nat k" and "n \<le> n + of_nat k"
    and "distinct (consecutive n k)"
proof -
  have all: "unat (n + of_nat j) = unat n + j" if "j \<le> k" for j using assms that by (intro unat_plus_of_nat) simp
  show "i \<in> set (consecutive n k) \<Longrightarrow> n \<le> field_index i \<and> field_index i < n + of_nat k"
    by (auto simp: consecutive_def word_le_nat_alt word_less_nat_alt all)
  show "n \<le> n + of_nat k" using all [of k] by (simp add: word_le_nat_alt)
  show "distinct (consecutive n k)" using assms by (intro consecutive_distinct) simp
qed

text \<open>New identifiers from the counter are new, and the counter moves behind them.\<close>

lemma fresh_forest:
  assumes "\<forall>i \<in> set old. field_index i < n" and "distinct stay" and "set stay \<subseteq> set old" and "unat n + k < 2 ^ 64"
    and "mset ids = mset stay + mset (consecutive n k)"
  shows "distinct ids" and "\<forall>i \<in> set ids. field_index i < n + of_nat k"
proof -
  note fresh = consecutive_fresh [OF assms(4)]
  have "set ids = set stay \<union> set (consecutive n k)" using assms(5) by (metis set_mset_mset set_mset_union)
  moreover have disj: "set stay \<inter> set (consecutive n k) = {}" using assms(1,3) fresh(1) by fastforce
  ultimately show "\<forall>i \<in> set ids. field_index i < n + of_nat k" using assms(1,3) fresh(1,2) by fastforce
  have "mset ids = mset (stay @ consecutive n k)" using assms(5) by simp
  moreover have "distinct (stay @ consecutive n k)" using assms(2) disj fresh(3) by simp
  ultimately show "distinct ids" by (metis mset_eq_imp_distinct_iff)
qed

lemma constraint_ok_Suc: "constraint_ok n c \<Longrightarrow> constraint_ok (Suc n) c"
  by (cases c) simp_all

lemma RequireNextColumnId_Inr:
  assumes "RequireNextColumnId E t = Inr t'"
  obtains n where "t' = t\<lparr>te_next_column_id := Some n\<rparr>" and "counter E t = Some n"
  using assms by (auto simp: RequireNextColumnId_def counter_def bind_res_Inr_iff split: option.splits)

lemma AddColumn_counter:
  assumes "table_ok E t" and "counter E t = Some n"
  shows "table_ok E (t\<lparr>te_next_column_id := Some n\<rparr>)"
  using assms by (simp add: table_ok_def counter_ok_iff) (simp add: counter_def)

context alter_laws
begin

lemma FieldIdFromColumn_facts:
  assumes "FieldIdFromColumn (ae_strings E) X c n a = Inr (f, n')"
  shows "conforms f" and "field_name f = col_name c" and "field_type f = col_type c" and "GetFieldIndex f = FieldIndex n"
    and "tree_ids f = consecutive n (field_size f)" and "n' = n + of_nat (field_size f)"
proof -
  have f: "FieldIdFromType (ae_strings E) X (col_name c) (col_type c) (col_default c) n a = Inr (f, n')"
    using assms by (simp add: FieldIdFromColumn_def)
  show "conforms f" "field_name f = col_name c" "field_type f = col_type c"
    using evolution.FieldIdFromType_conforms(1) [OF evolution f] by simp_all
  show ids: "tree_ids f = consecutive n (field_size f)" and "n' = n + of_nat (field_size f)"
    using FieldIdFromType_ids(1) [OF f] by simp_all
  show "GetFieldIndex f = FieldIndex n" using ids by (cases f) (simp add: consecutive_Suc)
qed

lemma AddColumn_result:
  assumes "table_ok E t" and "AlterTable_AddColumn E c b t x = Inr r" and "room E t (resulting r)"
  shows "resulting r = t \<and> b \<and> ColumnExists E (te_columns t) (col_name c) \<or>
    (\<exists>n f. counter E t = Some n \<and> GetFieldIndex f = FieldIndex n \<and> table_ok E (resulting r) \<and>
       te_columns (resulting r) = te_columns t @ [c] \<and> roots (resulting r) = roots t @ [f] \<and> te_constraints (resulting r) = te_constraints t)"
proof (cases "b \<and> ColumnExists E (te_columns t) (col_name c)")
  case True
  with assms(2) show ?thesis by (auto simp: AlterTable_AddColumn_def bind_res_Inr_iff)
next
  case False
  note ok = table_okD [OF assms(1)]
  from assms(2) False obtain columns t1 e where add: "ae_add_column E (te_columns t) c = Inr columns" and "RequireNextColumnId E t = Inr t1"
    and ch: "DuckLakeTableEntry_change E t1 ((GetInfo t1)\<lparr>ct_columns := columns\<rparr>) (change_of LC_ADD_COLUMN) = Inr e" and r: "resulting r = e"
    by (auto simp: AlterTable_AddColumn_def bind_res_Inr_iff split: if_splits)
  from this(2) obtain n where t1: "t1 = t\<lparr>te_next_column_id := Some n\<rparr>" and n: "counter E t = Some n" by (rule RequireNextColumnId_Inr)
  from add have cols: "columns = te_columns t @ [c]" and new: "ascii_lower (col_name c) \<notin> lower_name ` set (te_columns t)" by (auto simp: add_column)
  from ch obtain d n' where "AddColumn (ae_strings E) (ae_exprs E) (te_field_data t) c n = Inr (d, n')"
    and e: "e = (entry_with t1 ((GetInfo t1)\<lparr>ct_columns := columns\<rparr>) (change_of LC_ADD_COLUMN))\<lparr>te_field_data := d, te_next_column_id := Some n'\<rparr>"
    by (rule change_add_Inr) (auto simp: t1 cols)
  from this(1) obtain f where f: "FieldIdFromColumn (ae_strings E) (ae_exprs E) c n True = Inr (f, n')" and d: "d = FieldData_of (roots t @ [f])"
    by (auto simp: AddColumn_def bind_res_Inr_iff)
  note ff = FieldIdFromColumn_facts [OF f]
  have "unat n + field_size f < 2 ^ 64"
    using assms(3) n arg_cong [OF ff(5), of length] by (simp add: room_def r e d consecutive_def)
  note fresh = fresh_forest [where stay = "forest_ids (roots t)" and ids = "forest_ids (roots t @ [f])", OF _ _ subset_refl this]
  have old: "\<forall>i \<in> set (forest_ids (roots t)). field_index i < n" "distinct (forest_ids (roots t))"
    using ok(1,5) n by (auto simp: columns_ok_def counter_ok_iff)
  have dist: "distinct (forest_ids (roots t @ [f]))" and below: "\<forall>i \<in> set (forest_ids (roots t @ [f])). field_index i < n'"
    using fresh [OF old] ff(5) unfolding ff(6) by simp_all
  have "columns_ok (te_columns t @ [c]) d" using ok(1) new dist ff(1-3) by (simp add: columns_ok_def d)
  moreover have "constraints_ok (Suc (length (te_columns t))) (te_constraints t)"
    using ok(2) constraint_ok_Suc by (auto simp: constraints_ok_def list_all_iff)
  moreover have "partition_ok (roots t @ [f]) (te_partition t)" using ok(3) by (auto simp: partition_ok_def list_all_iff split: option.splits)
  moreover have "sort_ok E (te_columns t @ [c]) (te_sort t)" using ok(4) by (rule sort_ok_mono [rotated]) auto
  ultimately have "table_ok E e" using below by (simp add: table_ok_def counter_ok_iff counter_def e cols d t1)
  then show ?thesis using n ff(4) by (simp add: r e cols d t1)
qed

end

section \<open>Replacing a column under its name\<close>

lemma distinct_mset_sub: "mset xs \<subseteq># mset ys \<Longrightarrow> distinct ys \<Longrightarrow> distinct xs"
  unfolding distinct_count_atmost_1 by (metis count_mset_0_iff less_one mset_subset_eq_count nat_less_le not_le set_mset_mset mset_subset_eqD)

text \<open>The identifiers of a forest in which one tree keeps some of its own and gets the next ones of the counter.\<close>

lemma replaced_ids:
  assumes "i < length fs" and "distinct (forest_ids fs)" and "stay \<subseteq># mset (tree_ids (fs ! i))"
    and "mset (tree_ids f) = stay + mset (consecutive n k)"
    and "k = 0 \<or> (\<forall>j \<in> set (forest_ids fs). field_index j < n) \<and> unat n + k < 2 ^ 64"
  shows "distinct (forest_ids (fs[i := f]))"
    and "(\<forall>j \<in> set (forest_ids fs). field_index j < n) \<Longrightarrow> (\<forall>j \<in> set (forest_ids (fs[i := f])). field_index j < n + of_nat k)"
proof -
  obtain own where own: "mset own = stay" by (metis ex_mset)
  let ?stay = "forest_ids (take i fs) @ own @ forest_ids (drop (Suc i) fs)"
  have sub: "mset ?stay \<subseteq># mset (forest_ids fs)"
    unfolding forest_split [OF assms(1)] using assms(3) own by (simp add: subset_mset.add_mono)
  have stay: "distinct ?stay" "set ?stay \<subseteq> set (forest_ids fs)"
    using distinct_mset_sub [OF sub assms(2)] set_mset_mono [OF sub] by simp_all
  have ids: "mset (forest_ids (fs[i := f])) = mset ?stay + mset (consecutive n k)"
    unfolding forest_update [OF assms(1)] using assms(4) own by simp
  show "distinct (forest_ids (fs[i := f]))"
  proof (cases "k = 0")
    case True
    then have "mset (forest_ids (fs[i := f])) = mset ?stay" using ids by simp
    then show ?thesis using stay(1) by (metis mset_eq_imp_distinct_iff)
  qed (use assms(5) fresh_forest(1) [OF _ stay _ ids] in blast)
  assume below: "\<forall>j \<in> set (forest_ids fs). field_index j < n"
  moreover have "unat n + k < 2 ^ 64" using assms(5) unsigned_less [of n] by auto
  ultimately show "\<forall>j \<in> set (forest_ids (fs[i := f])). field_index j < n + of_nat k" using fresh_forest(2) [OF _ stay _ ids] by blast
qed

context alter_laws
begin

lemma replaced_column:
  assumes ok: "table_ok E t" and i: "i < length (te_columns t)"
    and e: "te_columns e = (te_columns t)[i := c]" "te_field_data e = FieldData_of ((roots t)[i := f])" "te_constraints e = te_constraints t"
      "te_partition e = te_partition t" "te_sort e = te_sort t"
    and c: "col_name c = col_name (te_columns t ! i)" "field_name f = col_name c" "col_type c = field_type f" "conforms f"
      "GetFieldIndex f = GetFieldIndex (roots t ! i)"
    and ids: "stay \<subseteq># mset (tree_ids (roots t ! i))" "mset (tree_ids f) = stay + mset (consecutive n k)"
    and next_id: "counter E t = Some n \<and> counter E e = Some (n + of_nat k) \<or> k = 0 \<and> counter E e = counter E t"
    and room: "k = 0 \<or> room E t e"
  shows "table_ok E e"
proof -
  note tk = table_okD [OF ok]
  have len: "length (roots t) = length (te_columns t)" using tk(1) unfolding columns_ok_def by (metis length_map)
  have dist: "distinct (forest_ids (roots t))" using tk(1) by (simp add: columns_ok_def)
  have below: "\<forall>j \<in> set (forest_ids (roots t)). field_index j < m" if "counter E t = Some m" for m
    using tk(5) that by (simp add: counter_ok_iff)
  have "k \<le> length (forest_ids ((roots t)[i := f]))"
    using arg_cong [OF ids(2), of size] i len by (simp add: forest_update consecutive_def)
  then have fit: "unat n + k < 2 ^ 64" if "counter E t = Some n" "k \<noteq> 0" using room that by (simp add: room_def e)
  have il: "i < length (roots t)" using i len by simp
  have "k = 0 \<or> (\<forall>j \<in> set (forest_ids (roots t)). field_index j < n) \<and> unat n + k < 2 ^ 64"
    using next_id below fit by blast
  note new = replaced_ids [OF il dist ids this]
  have cnt: "\<forall>j \<in> set (forest_ids ((roots t)[i := f])). field_index j < m" if m: "counter E e = Some m" for m
    using next_id
  proof
    assume "counter E t = Some n \<and> counter E e = Some (n + of_nat k)"
    then show ?thesis using new(2) below m by simp
  next
    assume k: "k = 0 \<and> counter E e = counter E t"
    then have "mset (tree_ids f) \<subseteq># mset (tree_ids (roots t ! i))" using ids by simp
    then have "set (tree_ids f) \<subseteq> set (tree_ids (roots t ! i))" by (metis set_mset_mono set_mset_mset)
    then have "set (forest_ids ((roots t)[i := f])) \<subseteq> set (forest_ids (roots t))"
      unfolding forest_update [OF il] forest_split [OF il] by auto
    then show ?thesis using below m k by auto
  qed
  have cols: "columns_ok (te_columns e) (te_field_data e)"
    unfolding e using columns_ok_same_name [OF tk(1) i] c new(1) by (intro columns_ok_update [OF tk(1) i]) simp_all
  have names: "map lower_name (te_columns e) = map lower_name (te_columns t)"
    unfolding e using i c(1) by (simp add: map_update_same)
  have "partition_ok (roots e) (te_partition e)"
    unfolding e using tk(3) partition_ok_cong [OF map_update_same [OF il, of GetFieldIndex f]] c(5) by simp
  moreover have "sort_ok E (te_columns e) (te_sort e)" unfolding e(5) using tk(4) by (rule sort_ok_mono [rotated]) (simp only: names)
  moreover have "constraints_ok (length (te_columns e)) (te_constraints e)" using tk(2) by (simp add: e)
  moreover have "counter_ok E e" using cnt by (simp add: counter_ok_iff e)
  ultimately show ?thesis using cols by (simp add: table_ok_def)
qed

end

section \<open>Defaults, comments and types\<close>


lemma map_res_unique:
  assumes "i < length xs" and "\<And>j. j < length xs \<Longrightarrow> P (xs ! j) \<longleftrightarrow> j = i" and "map_res (\<lambda>x. if P x then g x else Inr x) xs = Inr ys"
  shows "\<exists>y. g (xs ! i) = Inr y \<and> ys = xs[i := y]"
proof -
  have all: "list_all2 (\<lambda>x y. (if P x then g x else Inr x) = Inr y) xs ys" using assms(3) by (simp add: map_res_Inr_iff)
  have len: "length ys = length xs" using list_all2_lengthD [OF all] by simp
  have nth: "(if j = i then g (xs ! j) else Inr (xs ! j)) = Inr (ys ! j)" if "j < length xs" for j
    using list_all2_nthD [OF all that] assms(2) [OF that] by simp
  have "ys ! j = xs[i := ys ! i] ! j" if "j < length xs" for j using nth [OF that] that by (cases "j = i") simp_all
  then have "ys = xs[i := ys ! i]" using len by (intro nth_equalityI) simp_all
  moreover have "g (xs ! i) = Inr (ys ! i)" using nth [OF assms(1)] by simp
  ultimately show ?thesis by blast
qed

lemma FieldId_SetDefault_same:
  assumes "FieldId_SetDefault X f d = Inr g"
  shows "field_name g = field_name f" and "field_type g = field_type f" and "GetFieldIndex g = GetFieldIndex f" and "tree_ids g = tree_ids f"
    and "conforms g \<longleftrightarrow> conforms f"
  using assms by (cases f; auto simp: bind_res_Inr_iff)+

text \<open>What the result has in common when one column is replaced under its name.\<close>

definition replaced :: "'m alter_env \<Rightarrow> DuckLakeTableEntry \<Rightarrow> DuckLakeTableEntry \<Rightarrow> nat \<Rightarrow> LogicalType \<Rightarrow> bool" where
  "replaced E t e i ty \<longleftrightarrow> table_ok E e \<and>
     (\<exists>c f. te_columns e = (te_columns t)[i := c] \<and> roots e = (roots t)[i := f] \<and> col_name c = col_name (te_columns t ! i) \<and>
        col_type c = ty \<and> GetFieldIndex f = GetFieldIndex (roots t ! i)) \<and> te_constraints e = te_constraints t"

lemma replacedI:
  assumes "table_ok E e" and "te_columns e = (te_columns t)[i := c]" and "te_field_data e = FieldData_of ((roots t)[i := f])"
    and "te_constraints e = te_constraints t" and "col_name c = col_name (te_columns t ! i)" and "col_type c = ty"
    and "GetFieldIndex f = GetFieldIndex (roots t ! i)"
  shows "replaced E t e i ty"
  using assms unfolding replaced_def by (intro conjI exI [of _ c] exI [of _ f]) simp_all

context alter_laws
begin

lemma column_root:
  assumes "table_ok E t" and "i < length (te_columns t)"
  shows "conforms (roots t ! i)" and "field_name (roots t ! i) = col_name (te_columns t ! i)" and "field_type (roots t ! i) = col_type (te_columns t ! i)"
    and "i < length (roots t)"
proof -
  note ok = table_okD(1) [OF assms(1)]
  show "i < length (roots t)" using ok assms(2) unfolding columns_ok_def by (metis length_map)
  then show "conforms (roots t ! i)" using ok by (simp add: columns_ok_def list_all_length)
qed (use columns_ok_names [OF table_okD(1) [OF assms(1)] assms(2)] in simp_all)

lemma replaced_column_fewer:
  assumes ok: "table_ok E t" and i: "i < length (te_columns t)"
    and e: "te_columns e = (te_columns t)[i := c]" "te_field_data e = FieldData_of ((roots t)[i := f])" "te_constraints e = te_constraints t"
      "te_partition e = te_partition t" "te_sort e = te_sort t"
    and c: "col_name c = col_name (te_columns t ! i)" "field_name f = col_name c" "col_type c = field_type f" "conforms f"
      "GetFieldIndex f = GetFieldIndex (roots t ! i)"
    and ids: "mset (tree_ids f) \<subseteq># mset (tree_ids (roots t ! i))" and next_id: "counter E e = counter E t"
  shows "table_ok E e"
  by (rule replaced_column [OF assms(1-13), where k = 0]) (simp_all add: next_id)

lemma SetDefault_result:
  assumes "table_ok E t" and "AlterTable_SetDefault E nm d t x = Inr r"
  shows "\<exists>i. column_index E (te_columns t) nm = Some i \<and> replaced E t (resulting r) i (col_type (te_columns t ! i))"
proof -
  note ok = table_okD [OF assms(1)]
  from assms(2) obtain i col f new e where c: "altered_column E nm (has_no_column t) t = Inr (i, col, f)"
    and e: "DuckLakeTableEntry_default E t ((GetInfo t)\<lparr>ct_columns := (te_columns t)[i := col\<lparr>col_default := d\<rparr>]\<rparr>) (GetFieldIndex f) new = Inr e"
    and r: "resulting r = e"
    by (auto simp: AlterTable_SetDefault_def bind_res_Inr_iff altered_Inr)
  note i = altered_column_Inr [OF c]
  note facts = column_facts [OF ok(1) i(1)]
  note root = column_root [OF assms(1) facts(1)]
  let ?info = "(GetInfo t)\<lparr>ct_columns := (te_columns t)[i := col\<lparr>col_default := d\<rparr>]\<rparr>"
  from e obtain e0 col' data where "entry_from_parent E t ?info (column_change LC_SET_DEFAULT (GetFieldIndex f)) = Inr e0"
    and data: "FieldData_SetDefault (ae_exprs E) (te_field_data e0) (GetFieldIndex f) col' new = Inr data" and e': "e = e0\<lparr>te_field_data := data\<rparr>"
    by (auto simp: DuckLakeTableEntry_default_def bind_res_Inr_iff)
  from entry_from_parent_Inr [OF this(1)] have e0: "e0 = entry_with t ?info (column_change LC_SET_DEFAULT (GetFieldIndex f))" .
  from data obtain fs where fs: "map_res (\<lambda>g. if GetFieldIndex g = GetFieldIndex f then FieldId_SetDefault (ae_exprs E) g (col_default col') else Inr g)
      (roots t) = Inr fs" and d: "data = FieldData_of fs"
    by (auto simp: FieldData_SetDefault_def e0 bind_res_Inr_iff split: if_splits)
  obtain f' where f': "FieldId_SetDefault (ae_exprs E) (roots t ! i) (col_default col') = Inr f'" and fs': "fs = (roots t)[i := f']"
    using map_res_unique [OF root(4) _ fs] facts(2,5) i(3) by auto
  note same = FieldId_SetDefault_same [OF f']
  have en: "te_columns e = (te_columns t)[i := col\<lparr>col_default := d\<rparr>]" "te_field_data e = FieldData_of ((roots t)[i := f'])"
    "te_constraints e = te_constraints t" "te_partition e = te_partition t" "te_sort e = te_sort t"
    by (simp_all add: e' e0 d fs')
  have cnt: "counter E e = counter E t" by (rule counter_cong) (simp_all add: e' e0)
  have "table_ok E e"
    by (rule replaced_column_fewer [OF assms(1) facts(1) en _ _ _ _ _ _ cnt]) (use same root i in simp_all)
  then have "replaced E t e i (col_type (te_columns t ! i))"
    by (rule replacedI [OF _ en(1-3)]) (simp_all add: i(2) same(3))
  with i(1) show ?thesis by (auto simp: r)
qed

lemma SetColumnComment_result:
  assumes "table_ok E t" and "Alter_SetColumnComment E nm d t x = Inr r"
  shows "\<exists>i. column_index E (te_columns t) nm = Some i \<and> replaced E t (resulting r) i (col_type (te_columns t ! i))"
proof -
  note ok = table_okD [OF assms(1)]
  from assms(2) obtain i col f e where c: "altered_column E nm (\<lambda>_. InternalException ''Column does not exist'') t = Inr (i, col, f)"
    and "DuckLakeTableEntry_change E t ((GetInfo t)\<lparr>ct_columns := (te_columns t)[i := col\<lparr>col_comment := d\<rparr>]\<rparr>)
        (column_change LC_SET_COLUMN_COMMENT (GetFieldIndex f)) = Inr e" and r: "resulting r = e"
    by (auto simp: Alter_SetColumnComment_def bind_res_Inr_iff altered_Inr)
  note i = altered_column_Inr [OF c]
  note facts = column_facts [OF ok(1) i(1)]
  note root = column_root [OF assms(1) facts(1)]
  from change_column_plain [OF \<open>DuckLakeTableEntry_change E t _ _ = Inr e\<close>]
  have e: "te_columns e = (te_columns t)[i := col\<lparr>col_comment := d\<rparr>]" "te_field_data e = te_field_data t"
    "te_constraints e = te_constraints t" "te_partition e = te_partition t" "te_sort e = te_sort t" "te_next_column_id e = te_next_column_id t" "te_id e = te_id t"
    by simp_all
  have data: "te_field_data e = FieldData_of ((roots t)[i := roots t ! i])" using ok(1) unfolding e list_update_id columns_ok_def by (elim conjE)
  note e = e(1) data e(3-5) counter_cong [OF e(6,7)]
  have "table_ok E e"
    by (rule replaced_column_fewer [OF assms(1) facts(1) e(1-5) _ _ _ _ _ _ e(6)]) (use root i in simp_all)
  then have "replaced E t e i (col_type (te_columns t ! i))" by (rule replacedI [OF _ e(1-3)]) (simp_all add: i(2))
  with i(1) show ?thesis by (auto simp: r)
qed

lemma ChangeColumnType_result:
  assumes "table_ok E t" and "AlterTable_ChangeColumnType E nm ty expr t x = Inr r" and "room E t (resulting r)"
  shows "\<exists>i. column_index E (te_columns t) nm = Some i \<and> replaced E t (resulting r) i ty"
proof -
  note ok = table_okD [OF assms(1)]
  from assms(2) obtain i col f t1 view f' changed next_id cols e where c: "altered_column E nm (has_no_column t) t = Inr (i, col, f)"
    and "(if IsNested (ev_types (ae_evolution E)) ty then RequireNextColumnId E t else Inr t) = Inr t1"
    and f': "TypePromotion (ae_evolution E) view f ty None (no_changes, te_next_column_id t1) = Inr (f', changed, next_id)"
    and cols: "add_columns E (map (\<lambda>c. if same_name E (col_name c) nm then c\<lparr>col_type := ty\<rparr> else c) (te_columns t1)) = Inr cols"
    and e: "DuckLakeTableEntry_type E (t1\<lparr>te_next_column_id := next_id\<rparr>) ((GetInfo (t1\<lparr>te_next_column_id := next_id\<rparr>))\<lparr>ct_columns := cols\<rparr>) changed
        (FieldData_of (replace_first (\<lambda>r. same_name E (field_name r) nm) f' (roots t1))) = Inr e" and r: "resulting r = e"
    by (auto simp: AlterTable_ChangeColumnType_def bind_res_Inr_iff altered_Inr Let_def split: if_splits)
  from this(2) obtain m where t1: "t1 = t\<lparr>te_next_column_id := m\<rparr>" and m: "m = te_next_column_id t \<or> m = counter E t \<and> m \<noteq> None"
  proof (cases "IsNested (ev_types (ae_evolution E)) ty")
    case False
    with \<open>(if _ then _ else _) = Inr t1\<close> have "t1 = t\<lparr>te_next_column_id := te_next_column_id t\<rparr>" by simp
    then show thesis by (rule that) simp
  qed (auto elim!: RequireNextColumnId_Inr)
  note i = altered_column_Inr [OF c]
  note facts = column_facts [OF ok(1) i(1)]
  note root = column_root [OF assms(1) facts(1)]
  let ?c = "(te_columns t ! i)\<lparr>col_type := ty\<rparr>"
  have new: "cols = (te_columns t)[i := ?c]"
    using add_columns_Inr [OF cols] facts map_unique [of i "te_columns t" "\<lambda>c. same_name E (col_name c) nm" "\<lambda>c. c\<lparr>col_type := ty\<rparr>"] by (simp add: t1)
  have roots': "replace_first (\<lambda>r. same_name E (field_name r) nm) f' (roots t1) = (roots t)[i := f']"
    using replace_first_unique [OF root(4), of "\<lambda>r. same_name E (field_name r) nm" f'] facts(2,4) by (simp add: t1)
  have src: "conforms f" using root(1) i(3) by simp
  have conf: "conforms f'" "field_type f' = ty" "field_name f' = field_name f" "GetFieldIndex f' = GetFieldIndex f"
    using promotion_conforms(1) [OF f' evolution src] by simp_all
  from promotion_evolves(1) [OF f' evolution src]
  have "numbered (mset (tree_ids f)) (no_changes, m) (mset (tree_ids f')) {#} (changed, next_id)" by (simp add: evolves_def t1)
  then obtain k stay where k: "m = None \<longrightarrow> k = 0" "next_id = map_option (\<lambda>i. i + of_nat k) m"
    and ids: "stay \<subseteq># mset (tree_ids f)" "mset (tree_ids f') = stay + mset (consecutive (case m of Some i \<Rightarrow> i | None \<Rightarrow> 0) k)"
    by (rule numberedE) auto
  from e obtain e0 where "DuckLakeTableEntry_change E (t1\<lparr>te_next_column_id := next_id\<rparr>) ((GetInfo (t1\<lparr>te_next_column_id := next_id\<rparr>))\<lparr>ct_columns := cols\<rparr>)
      (change_of LC_CHANGE_COLUMN_TYPE) = Inr e0" and "e = e0\<lparr>te_changed_fields := Some changed, te_field_data := FieldData_of ((roots t)[i := f'])\<rparr>"
    by (auto simp: DuckLakeTableEntry_type_def bind_res_Inr_iff roots')
  with change_plain [OF this(1)]
  have e': "te_columns e = (te_columns t)[i := ?c]" "te_field_data e = FieldData_of ((roots t)[i := f'])" "te_constraints e = te_constraints t"
    "te_partition e = te_partition t" "te_sort e = te_sort t" "te_id e = te_id t" "te_next_column_id e = next_id"
    by (simp_all add: new t1)
  have cnt: "counter E t = Some (case m of Some i \<Rightarrow> i | None \<Rightarrow> 0) \<and> counter E e = Some ((case m of Some i \<Rightarrow> i | None \<Rightarrow> 0) + of_nat k) \<or>
      k = 0 \<and> counter E e = counter E t"
    using m k by (cases m) (auto simp: counter_def e' split: option.splits)
  have "table_ok E e"
    by (rule replaced_column [OF assms(1) facts(1) e'(1-5) _ _ _ conf(1) _ _ ids(2) cnt]) (use root i conf ids(1) assms(3) r in simp_all)
  then have "replaced E t e i ty" by (rule replacedI [OF _ e'(1-3)]) (simp_all add: conf(4) i(3))
  with i(1) show ?thesis by (auto simp: r)
qed

end

section \<open>Editing the fields of a column\<close>

lemma edit_roots_none: "(\<forall>f \<in> set fs. \<not> P f) \<Longrightarrow> edit_roots once P g i fs columns = Inr (fs, columns)"
  by (induction fs arbitrary: i) auto

lemma edit_roots_unique:
  assumes "edit_roots once P g o' fs columns = Inr (fs', columns')" and "i < length fs" and "\<And>j. j < length fs \<Longrightarrow> P (fs ! j) \<longleftrightarrow> j = i"
  shows "\<exists>f. g (fs ! i) = Inr f \<and> fs' = fs[i := f] \<and> columns' = columns[o' + i := (columns ! (o' + i))\<lparr>col_type := field_type f\<rparr>]"
  using assms
proof (induction fs arbitrary: o' i fs')
  case (Cons f fs)
  show ?case
  proof (cases i)
    case 0
    have rest: "\<forall>h \<in> set fs. \<not> P h"
    proof
      fix h assume "h \<in> set fs"
      then obtain j where "j < length fs" "h = fs ! j" by (auto simp: in_set_conv_nth)
      then show "\<not> P h" using Cons.prems(3) [of "Suc j"] 0 by simp
    qed
    have "P f" using Cons.prems(3) [of 0] 0 by simp
    with Cons.prems(1) 0 show ?thesis by (auto simp: bind_res_Inr_iff vector_at_Inr Let_def edit_roots_none [OF rest] split: if_splits)
  next
    case (Suc k)
    have no: "\<not> P f" and other: "P (fs ! j) \<longleftrightarrow> j = k" if "j < length fs" for j
      using Cons.prems(3) [of 0] Cons.prems(3) [of "Suc j"] Suc that by simp_all
    have k: "k < length fs" using Cons.prems(2) Suc by simp
    from no [OF k] Cons.prems(1) obtain fs1 where "edit_roots once P g (Suc o') fs columns = Inr (fs1, columns')" "fs' = f # fs1"
      by (auto simp: bind_res_Inr_iff)
    with Cons.IH [OF this(1) k other] show ?thesis by (auto simp: Suc)
  qed
qed simp

lemma edits_keep_root:
  "AddField D X f path c = Inr g \<Longrightarrow> GetFieldIndex g = GetFieldIndex f"
  "RemoveField X D w f path = Inr g \<Longrightarrow> GetFieldIndex g = GetFieldIndex f"
  "RenameField X D f path nm = Inr g \<Longrightarrow> GetFieldIndex g = GetFieldIndex f"
proof -
  have root: "rebuild D c n t cs = Inr g \<Longrightarrow> GetFieldIndex g = cd_id c" for c n t cs
    using rebuild_ids [of D c n t cs g] by (cases g) simp
  show "AddField D X f path c = Inr g \<Longrightarrow> GetFieldIndex g = GetFieldIndex f"
    by (cases f) (auto simp: bind_res_Inr_iff root split: list.splits option.splits)
  show "RemoveField X D w f path = Inr g \<Longrightarrow> GetFieldIndex g = GetFieldIndex f" "RenameField X D f path nm = Inr g \<Longrightarrow> GetFieldIndex g = GetFieldIndex f"
    by (cases f; auto simp: bind_res_Inr_iff root split: if_splits)+
qed

lemma TryGetFieldId_Some:
  assumes "TryGetFieldId E cols d names False = Inr (Some p)"
  obtains rname rest i off where "names = rname # rest" and "column_index E cols rname = Some i"
    and "GetByNames_loop (ae_strings E) False 1 rest (fd_field_ids d ! i) = Inr (Some p, off)"
  using assms
  by (cases names) (auto simp: TryGetFieldId_def vector_at_def GetByNames_def GetByRootIndex_def bind_res_Inr_iff
      simp del: GetByNames_loop.simps split: option.splits if_splits)

lemma GetFieldId_Some:
  assumes "GetFieldId E t names = Inr p"
  obtains rname rest i off where "names = rname # rest" and "column_index E (te_columns t) rname = Some i"
    and "GetByNames_loop (ae_strings E) False 1 rest (roots t ! i) = Inr (Some p, off)"
proof -
  from assms have "TryGetFieldId E (te_columns t) (te_field_data t) names False = Inr (Some p)"
    by (auto simp: GetFieldId_def bind_res_Inr_iff split: option.splits)
  then show thesis by (rule TryGetFieldId_Some) (rule that)
qed

context alter_laws
begin

lemma edited_table_Inr:
  assumes "columns_ok (te_columns t) (te_field_data t)" and "edited_table E once (rname # rest) g changed t x = Inr r"
    and i: "column_index E (te_columns t) rname = Some i"
  obtains f e where "g (roots t ! i) = Inr f" and "resulting r = e"
    and "te_columns e = (te_columns t)[i := (te_columns t ! i)\<lparr>col_type := field_type f\<rparr>]" and "te_field_data e = FieldData_of ((roots t)[i := f])"
    and "te_constraints e = te_constraints t" and "te_partition e = te_partition t" and "te_sort e = te_sort t" and "te_id e = te_id t"
    and "te_next_column_id e = te_next_column_id t"
proof -
  note facts = column_facts [OF assms(1) i]
  from assms(2) obtain fs cols e where ed: "edit_roots once (\<lambda>f. same_name E (field_name f) rname) g 0 (roots t) (te_columns t) = Inr (fs, cols)"
    and e: "DuckLakeTableEntry_type E t ((GetInfo t)\<lparr>ct_columns := cols\<rparr>) changed (FieldData_of fs) = Inr e" and r: "resulting r = e"
    by (auto simp: edited_table_def vector_at_def bind_res_Inr_iff altered_Inr)
  from edit_roots_unique [OF ed, of i] facts obtain f where f: "g (roots t ! i) = Inr f" and fs: "fs = (roots t)[i := f]"
    and cols: "cols = (te_columns t)[i := (te_columns t ! i)\<lparr>col_type := field_type f\<rparr>]" by auto
  from e obtain e0 where "DuckLakeTableEntry_change E t ((GetInfo t)\<lparr>ct_columns := cols\<rparr>) (change_of LC_CHANGE_COLUMN_TYPE) = Inr e0"
    and "e = e0\<lparr>te_changed_fields := Some changed, te_field_data := FieldData_of fs\<rparr>"
    by (auto simp: DuckLakeTableEntry_type_def bind_res_Inr_iff)
  with change_plain [OF this(1)] that [OF f r] show thesis by (simp add: fs cols)
qed

lemma edited_fewer:
  assumes "table_ok E t" and "edited_table E once (rname # rest) g changed t x = Inr r" and i: "column_index E (te_columns t) rname = Some i"
    and g: "\<And>f. g (roots t ! i) = Inr f \<Longrightarrow> conforms f \<and> field_name f = field_name (roots t ! i) \<and> GetFieldIndex f = GetFieldIndex (roots t ! i) \<and>
      mset (tree_ids f) \<subseteq># mset (tree_ids (roots t ! i))"
  shows "\<exists>ty. replaced E t (resulting r) i ty"
proof -
  note ok = table_okD(1) [OF assms(1)]
  note facts = column_facts [OF ok i]
  note root = column_root [OF assms(1) facts(1)]
  obtain f e where f: "g (roots t ! i) = Inr f" and r: "resulting r = e"
    and e: "te_columns e = (te_columns t)[i := (te_columns t ! i)\<lparr>col_type := field_type f\<rparr>]" "te_field_data e = FieldData_of ((roots t)[i := f])"
      "te_constraints e = te_constraints t" "te_partition e = te_partition t" "te_sort e = te_sort t" "te_id e = te_id t"
      "te_next_column_id e = te_next_column_id t"
    using edited_table_Inr [OF ok assms(2) i] by metis
  have "table_ok E e"
    by (rule replaced_column_fewer [OF assms(1) facts(1) e(1-5) _ _ _ _ _ _ counter_cong [OF e(7,6)]]) (use g [OF f] root in simp_all)
  then have "replaced E t e i (field_type f)" by (rule replacedI [OF _ e(1-3)]) (use g [OF f] in simp_all)
  then show ?thesis using r by blast
qed

lemma RemoveField_result:
  assumes "table_ok E t" and "AlterTable_RemoveField E path b t x = Inr r"
  shows "resulting r = t \<or> (\<exists>i ty. column_index E (te_columns t) (hd path) = Some i \<and> replaced E t (resulting r) i ty)"
proof (cases "resulting r = t")
  case False
  from assms(2) obtain removed where
    tried: "(if b then TryGetFieldId E (te_columns t) (te_field_data t) path False
       else bind_res (GetFieldId E t path) (\<lambda>f. Inr (Some f))) = Inr removed"
    and rest: "(case removed of None \<Rightarrow> unaltered t x
       | Some removed_id \<Rightarrow> edited_table E False path (\<lambda>f. RemoveField (ae_exprs E) (ae_strings E) (length path) f (tl path))
           (no_changes\<lparr>dropped_fields := RemoveColumns removed_id\<rparr>) t x) = Inr r"
    using False by (auto simp: AlterTable_RemoveField_def bind_res_Inr_iff split: if_splits)
  from rest False obtain p where p: "removed = Some p" by (cases removed) auto
  obtain rname names i where path: "path = rname # names" and i: "column_index E (te_columns t) rname = Some i"
    using tried p by (cases b) (auto simp: bind_res_Inr_iff elim: TryGetFieldId_Some GetFieldId_Some)
  have ed: "edited_table E False (rname # names) (\<lambda>f. RemoveField (ae_exprs E) (ae_strings E) (length path) f names)
      (no_changes\<lparr>dropped_fields := RemoveColumns p\<rparr>) t x = Inr r" using rest by (simp add: p path)
  have conf: "conforms (roots t ! i)" using column_root(1) [OF assms(1)] column_facts(1) [OF table_okD(1) [OF assms(1)] i] by blast
  have "\<exists>ty. replaced E t (resulting r) i ty"
    by (rule edited_fewer [OF assms(1) ed i])
      (auto dest: edits_keep_root(2) RemoveField_ids(1) evolution.RemoveField_conforms(1) [OF evolution _ conf])
  then show ?thesis using i path by simp
qed simp

lemma RenameField_result:
  assumes "table_ok E t" and "AlterTable_RenameField E path nm t x = Inr r"
  shows "\<exists>i ty. column_index E (te_columns t) (hd path) = Some i \<and> replaced E t (resulting r) i ty"
proof -
  from assms(2) obtain p changed where p: "GetFieldId E t (butlast path) = Inr p" "type_id (field_type p) = STRUCT"
    and ed: "edited_table E False path (\<lambda>f. RenameField (ae_exprs E) (ae_strings E) f (tl path) nm) changed t x = Inr r"
    by (auto simp: AlterTable_RenameField_def bind_res_Inr_iff split: if_splits)
  from p(1) obtain rname names i off where path: "butlast path = rname # names" and i: "column_index E (te_columns t) rname = Some i"
    and loop: "GetByNames_loop (ae_strings E) False 1 names (roots t ! i) = Inr (Some p, off)" by (rule GetFieldId_Some)
  from path obtain rest where rest: "path = rname # rest" "butlast rest = names" "rest \<noteq> []"
    by (cases path) (auto split: if_splits)
  have conf: "conforms (roots t ! i)" using column_root(1) [OF assms(1)] column_facts(1) [OF table_okD(1) [OF assms(1)] i] by blast
  have ed: "edited_table E False (rname # rest) (\<lambda>f. RenameField (ae_exprs E) (ae_strings E) f rest nm) changed t x = Inr r"
    using ed by (simp add: rest)
  have "\<exists>ty. replaced E t (resulting r) i ty"
    using evolution.RenameField_conforms [OF evolution same_name loop [folded rest(2)] p(2) _ conf rest(3)]
    by (intro edited_fewer [OF assms(1) ed i]) (auto dest: edits_keep_root(3) RenameField_ids(1))
  then show ?thesis using i rest by auto
qed

lemma AddField_result:
  assumes "table_ok E t" and "AlterTable_AddField E path c b t x = Inr r" and "room E t (resulting r)"
  shows "(\<exists>n. resulting r = t\<lparr>te_next_column_id := Some n\<rparr> \<and> counter E t = Some n) \<or>
    (\<exists>i ty. column_index E (te_columns t) (hd path) = Some i \<and> replaced E t (resulting r) i ty)"
proof -
  from assms(2) obtain t1 where "RequireNextColumnId E t = Inr t1" by (auto simp: AlterTable_AddField_def bind_res_Inr_iff)
  then obtain n where t1: "RequireNextColumnId E t = Inr (t\<lparr>te_next_column_id := Some n\<rparr>)" and n: "counter E t = Some n"
    using RequireNextColumnId_Inr by metis
  let ?t = "t\<lparr>te_next_column_id := Some n\<rparr>"
  from assms(2) obtain p where p: "GetFieldId E ?t path = Inr p" "type_id (field_type p) = STRUCT"
    by (auto simp: AlterTable_AddField_def t1 bind_res_Inr_iff split: if_splits)
  from p(1) obtain rname rest i off where path: "path = rname # rest" and i: "column_index E (te_columns ?t) rname = Some i"
    and loop: "GetByNames_loop (ae_strings E) False 1 rest (roots ?t ! i) = Inr (Some p, off)" by (rule GetFieldId_Some)
  show ?thesis
  proof (cases "list_ex (\<lambda>(nm, _). same_name E nm (col_name c)) (type_children (field_type p))")
    case True
    with assms(2) p have "resulting r = ?t" by (auto simp: AlterTable_AddField_def t1 split: if_splits)
    then show ?thesis using n by blast
  next
    case False
    with assms(2) p obtain child n' changed where child: "FieldIdFromColumn (ae_strings E) (ae_exprs E) c n False = Inr (child, n')"
      and ed: "edited_table E True path (\<lambda>f. AddField (ae_strings E) (ae_exprs E) f (tl path) child) changed
          (t\<lparr>te_next_column_id := Some n'\<rparr>) x = Inr r"
      by (auto simp: AlterTable_AddField_def t1 Let_def bind_res_Inr_iff)
    note child = FieldIdFromColumn_facts [OF child]
    note ok = table_okD(1) [OF assms(1)]
    have i: "column_index E (te_columns t) rname = Some i" using i by simp
    note facts = column_facts [OF ok i]
    note root = column_root [OF assms(1) facts(1)]
    let ?t = "t\<lparr>te_next_column_id := Some n'\<rparr>"
    have cols: "columns_ok (te_columns ?t) (te_field_data ?t)" "column_index E (te_columns ?t) rname = Some i" using ok i by simp_all
    obtain f e where f: "AddField (ae_strings E) (ae_exprs E) (roots t ! i) rest child = Inr f"
      and r: "resulting r = e" and e: "te_columns e = (te_columns t)[i := (te_columns t ! i)\<lparr>col_type := field_type f\<rparr>]"
      "te_field_data e = FieldData_of ((roots t)[i := f])" "te_constraints e = te_constraints t" "te_partition e = te_partition t" "te_sort e = te_sort t"
      and next_id: "te_next_column_id e = Some n'"
      by (rule edited_table_Inr [OF cols(1) ed [unfolded path] cols(2)]) (rule that, simp_all)
    have conf: "conforms f \<and> field_name f = field_name (roots t ! i)"
      using evolution.AddField_conforms [OF evolution same_name loop p(2)] f root(1) child(1) by simp
    have ids: "mset (tree_ids f) = mset (tree_ids (roots t ! i)) + mset (consecutive n (field_size child))"
      using AddField_ids(1) [OF f] child(5) by simp
    have cnt: "counter E e = Some (n + of_nat (field_size child))" using next_id child(6) by (simp add: counter_def)
    have "table_ok E e"
      by (rule replaced_column [OF assms(1) facts(1) e _ _ _ _ _ subset_mset.order_refl ids])
        (use conf root n cnt edits_keep_root(1) [OF f] assms(3) r in simp_all)
    then have "replaced E t e i (field_type f)" by (rule replacedI [OF _ e(1-3)]) (use edits_keep_root(1) [OF f] in simp_all)
    then show ?thesis using i path r by auto
  qed
qed

end

section \<open>Dropping a column\<close>

text \<open>The position of a column after the one at \<open>i\<close> is gone.\<close>

definition shifted :: "nat \<Rightarrow> nat \<Rightarrow> nat" where
  "shifted i j = (if j > i then j - 1 else j)"

lemma shifted_inj: "inj_on (shifted i) {j. j \<noteq> i}"
  by (auto simp: inj_on_def shifted_def)

lemma not_null_without: "not_null_indexes (List.map_filter (without_column E i nm) cs) = map (shifted i) (filter (\<lambda>j. j \<noteq> i) (not_null_indexes cs))"
proof (induction cs)
  case (Cons c cs)
  then show ?case by (cases c) (auto simp: without_column_def shifted_def)
qed simp

lemma constraint_ok_without: "without_column E i nm c = Some c' \<Longrightarrow> constraint_ok n c \<Longrightarrow> i < n \<Longrightarrow> constraint_ok (n - 1) c'"
  by (cases c) (auto simp: without_column_def split: if_splits)

lemma constraints_ok_without:
  assumes "constraints_ok n cs" and "i < n"
  shows "constraints_ok (n - 1) (List.map_filter (without_column E i nm) cs)"
proof -
  have "distinct (map (shifted i) (filter (\<lambda>j. j \<noteq> i) (not_null_indexes cs)))"
    unfolding distinct_map using assms(1) by (auto simp: constraints_ok_def intro: inj_on_subset [OF shifted_inj])
  moreover have "constraint_ok (n - 1) c'" if c': "c' \<in> set (List.map_filter (without_column E i nm) cs)" for c'
  proof -
    from c' obtain c where "c \<in> set cs" "without_column E i nm c = Some c'" by (auto simp: List.map_filter_def)
    then show ?thesis using assms constraint_ok_without by (metis constraints_ok_def list_all_iff)
  qed
  ultimately show ?thesis by (simp add: constraints_ok_def not_null_without list_all_iff)
qed

lemma for_each_Inr: "for_each xs f = Inr u \<longleftrightarrow> (\<forall>x \<in> set xs. f x = Inr ())"
  by (induction xs) (auto simp: bind_res_Inr_iff)

lemma map_res_member: "map_res g xs = Inr ys \<Longrightarrow> x \<in> set xs \<Longrightarrow> \<exists>y \<in> set ys. g x = Inr y"
  by (induction xs arbitrary: ys) (auto simp: bind_res_Inr_iff)

lemma set_remove_nth_other: "x \<in> set xs \<Longrightarrow> x \<noteq> xs ! i \<Longrightarrow> x \<in> set (remove_nth i xs)"
proof -
  assume x: "x \<in> set xs" "x \<noteq> xs ! i"
  show ?thesis
  proof (cases "i < length xs")
    case True
    then show ?thesis using x id_take_nth_drop [OF True] by (metis Un_iff remove_nth_def set_ConsD set_append)
  next
    case False
    then show ?thesis using x(1) by (simp add: remove_nth_def)
  qed
qed

context alter_laws
begin

lemma sort_ok_without:
  assumes "check_not_sorted E s (col_name (cols ! i)) = Inr ()" and "sort_ok E cols s" and "i < length cols"
  shows "sort_ok E (remove_nth i cols) s"
proof (cases s)
  case (Some st)
  have "sort_field_ok E (remove_nth i cols) f" if f: "f \<in> set (sort_fields st)" for f
  proof -
    from f assms(2) Some have "sort_field_ok E cols f" by (simp add: sort_ok_def list_all_iff)
    then obtain e where e: "sort_dialect f = ''duckdb''" "ae_parse E (sort_expression f) = Inr [e]" "refs_exist cols e"
      by (rule sort_field_okE)
    from assms(1) Some obtain orders where orders: "ParseSortOrders E st = Inr orders"
      and no: "\<forall>node \<in> set orders. \<forall>ns \<in> set (column_refs (order_expression node)). \<not> same_name E (last ns) (col_name (cols ! i))"
      by (auto simp: check_not_sorted_def bind_res_Inr_iff for_each_Inr split: if_splits)
    have "f \<in> set (filter (\<lambda>f. sort_dialect f = ''duckdb'') (sort_fields st))" using f e(1) by simp
    from map_res_member [OF orders [unfolded ParseSortOrders_def] this] e(2) have "\<exists>node \<in> set orders. order_expression node = e"
      by (auto simp: bind_res_Inr_iff vector_at_def intro: bexI [rotated])
    then have "ascii_lower (last ns) \<noteq> lower_name (cols ! i)" if "ns \<in> set (column_refs e)" for ns using no that by (auto simp: same_name)
    then have "refs_exist (remove_nth i cols) e"
      using e(3) assms(3) set_remove_nth_other [of _ "map lower_name cols" i]
      by (auto simp: refs_exist_def list_all_iff remove_nth_map simp del: set_map)
    then show ?thesis using e by (simp add: sort_field_ok_def)
  qed
  then show ?thesis by (simp add: Some sort_ok_def list_all_iff)
qed (simp add: sort_ok_def)

lemma RemoveColumn_result:
  assumes "table_ok E t" and "AlterTable_RemoveColumn E nm b t x = Inr r"
  shows "resulting r = t \<and> b \<and> \<not> ColumnExists E (te_columns t) nm \<or>
    (\<exists>i. column_index E (te_columns t) nm = Some i \<and> table_ok E (resulting r) \<and>
       te_columns (resulting r) = remove_nth i (te_columns t) \<and> roots (resulting r) = remove_nth i (roots t) \<and>
       te_constraints (resulting r) = List.map_filter (without_column E i nm) (te_constraints t))"
proof (cases "\<not> ColumnExists E (te_columns t) nm \<and> b")
  case True
  with assms(2) show ?thesis by (auto simp: AlterTable_RemoveColumn_def)
next
  case False
  note ok = table_okD [OF assms(1)]
  from assms(2) False obtain i col f cols e x1 where c: "altered_column E nm (has_no_column t) t = Inr (i, col, f)"
    and part: "check_not_partitioned (te_partition t) (GetFieldIndex f) (col_name col) = Inr ()"
    and sorted: "check_not_sorted E (te_sort t) (col_name col) = Inr ()"
    and cols: "add_columns E (filter (\<lambda>c. \<not> same_name E (col_name c) nm) (te_columns t)) = Inr cols"
    and e: "DuckLakeTableEntry_drop E t ((GetInfo t)\<lparr>ct_columns := cols, ct_constraints := List.map_filter (without_column E i nm) (te_constraints t)\<rparr>)
        (GetFieldIndex f) (DropField f no_changes) = Inr e" and r: "r = (Some e, t, x1)"
    unfolding AlterTable_RemoveColumn_def if_not_P [OF False] bind_res_Inr_iff altered_Inr by (auto split: if_splits simp: bind_res_Inr_iff altered_Inr)
  note i = altered_column_Inr [OF c]
  note facts = column_facts [OF ok(1) i(1)]
  note root = column_root [OF assms(1) facts(1)]
  have cols: "cols = remove_nth i (te_columns t)"
    using add_columns_Inr [OF cols] filter_unique [OF facts(1,3)] by simp
  have data: "DropColumn (te_field_data t) (GetFieldIndex f) = FieldData_of (remove_nth i (roots t))"
    unfolding DropColumn_def i(3) using facts by (subst filter_unique [OF root(4)]) auto
  from e obtain e0 where "DuckLakeTableEntry_change E t ((GetInfo t)\<lparr>ct_columns := cols, ct_constraints := List.map_filter (without_column E i nm) (te_constraints t)\<rparr>)
      (column_change LC_REMOVE_COLUMN (GetFieldIndex f)) = Inr e0" and "e = e0\<lparr>te_changed_fields := Some (DropField f no_changes)\<rparr>"
    by (auto simp: DuckLakeTableEntry_drop_def bind_res_Inr_iff)
  with change_remove_Inr [OF this(1)]
  have e: "te_columns e = remove_nth i (te_columns t)" "te_field_data e = FieldData_of (remove_nth i (roots t))"
    "te_constraints e = List.map_filter (without_column E i nm) (te_constraints t)" "te_partition e = te_partition t" "te_sort e = te_sort t"
    "te_id e = te_id t" "te_next_column_id e = te_next_column_id t"
    by (simp_all add: cols data)
  have ids: "set (forest_ids (roots e)) \<subseteq> set (forest_ids (roots t))" "distinct (forest_ids (roots e))"
    using ok(1) unfolding e FieldData_of_ids forest_remove forest_split [OF root(4)] columns_ok_def by auto
  have "columns_ok (te_columns e) (te_field_data e)"
    using ok(1) ids(2) set_remove_nth [of i "roots t"] unfolding columns_ok_def
    by (auto simp: e remove_nth_map distinct_remove_nth list_all_iff simp del: set_map)
  moreover have "constraints_ok (length (te_columns e)) (te_constraints e)"
    using constraints_ok_without [OF ok(2) facts(1)] facts(1) by (simp add: e length_remove_nth)
  moreover have "partition_ok (roots e) (te_partition e)"
  proof (cases "te_partition t")
    case (Some p)
    have "pf_field_id k \<in> GetFieldIndex ` set (remove_nth i (roots t))" if "k \<in> set (p_fields p)" for k
    proof -
      have "pf_field_id k \<in> set (map GetFieldIndex (roots t))" using ok(3) Some that by (simp add: partition_ok_def list_all_iff)
      moreover have "pf_field_id k \<noteq> map GetFieldIndex (roots t) ! i"
        using part Some that root(4) by (auto simp: check_not_partitioned_def for_each_Inr i(3) split: if_splits)
      ultimately have "pf_field_id k \<in> set (remove_nth i (map GetFieldIndex (roots t)))" by (rule set_remove_nth_other)
      then show ?thesis by (metis remove_nth_map set_map)
    qed
    then show ?thesis by (simp add: e Some partition_ok_def list_all_iff)
  qed (simp add: e partition_ok_def)
  moreover have "sort_ok E (te_columns e) (te_sort e)" using sort_ok_without [OF _ ok(4) facts(1)] sorted by (simp add: e i(2))
  ultimately have "table_ok E e" by (rule table_ok_fewer [OF assms(1) e(6,7) ids(1)])
  then show ?thesis using i(1) e by (auto simp: r)
qed

end

end
