(* ===== verification/DL_AlterTable.thy ===== *)
theory DL_AlterTable
  imports DL_AlterColumns "HOL-Library.Countable"
begin

text \<open>
  The properties of \<^verbatim>\<open>ALTER TABLE\<close> over all its forms. \<open>column_view\<close> is the table as a client sees it: the columns in order, each with
  its identifier, name, type and NOT NULL flag. \<open>alter_view\<close> is the abstract specification of a statement on such a list, and the
  operations on catalog entries refine it; \<open>table_ok\<close> is kept along every sequence of statements.
\<close>

section \<open>The columns a client sees\<close>

type_synonym column_description = "FieldIndex \<times> string \<times> LogicalType \<times> bool"

definition column_view :: "DuckLakeTableEntry \<Rightarrow> column_description list" where
  "column_view t =
     map (\<lambda>i. (GetFieldIndex (roots t ! i), col_name (te_columns t ! i), col_type (te_columns t ! i), NotNullConstraint i \<in> set (te_constraints t)))
       [0..<length (te_columns t)]"

text \<open>The specification; \<open>same\<close> compares names and \<open>next_id\<close> is the counter before the statement.\<close>

fun alter_view :: "(string \<Rightarrow> string \<Rightarrow> bool) \<Rightarrow> idx option \<Rightarrow> AlterTableInfo \<Rightarrow> column_description list \<Rightarrow> column_description list \<Rightarrow> bool" where
  "alter_view same next_id (RenameColumnInfo old_name new_name) V V' \<longleftrightarrow>
     V' = map (\<lambda>(i, n, ty, b). (i, if same n old_name then new_name else n, ty, b)) V"
| "alter_view same next_id (AddColumnInfo c if_not_exists) V V' \<longleftrightarrow>
     (if if_not_exists \<and> list_ex (\<lambda>(i, n, ty, b). same n (col_name c)) V then V' = V
      else \<exists>n. next_id = Some n \<and> V' = V @ [(FieldIndex n, col_name c, col_type c, False)])"
| "alter_view same next_id (RemoveColumnInfo nm if_exists) V V' \<longleftrightarrow> V' = filter (\<lambda>(i, n, ty, b). \<not> same n nm) V"
| "alter_view same next_id (SetNotNullInfo nm) V V' \<longleftrightarrow> V' = map (\<lambda>(i, n, ty, b). (i, n, ty, b \<or> same n nm)) V"
| "alter_view same next_id (DropNotNullInfo nm) V V' \<longleftrightarrow> V' = map (\<lambda>(i, n, ty, b). (i, n, ty, b \<and> \<not> same n nm)) V"
| "alter_view same next_id (ChangeColumnTypeInfo nm new_type e) V V' \<longleftrightarrow>
     V' = map (\<lambda>(i, n, ty, b). (i, n, if same n nm then new_type else ty, b)) V"
| "alter_view same next_id (AddFieldInfo path c if_not_exists) V V' \<longleftrightarrow>
     V' = V \<or> (\<exists>new_type. V' = map (\<lambda>(i, n, ty, b). (i, n, if same n (hd path) then new_type else ty, b)) V)"
| "alter_view same next_id (RemoveFieldInfo path if_exists) V V' \<longleftrightarrow>
     V' = V \<or> (\<exists>new_type. V' = map (\<lambda>(i, n, ty, b). (i, n, if same n (hd path) then new_type else ty, b)) V)"
| "alter_view same next_id (RenameFieldInfo path nm) V V' \<longleftrightarrow>
     (\<exists>new_type. V' = map (\<lambda>(i, n, ty, b). (i, n, if same n (hd path) then new_type else ty, b)) V)"
| "alter_view same next_id _ V V' \<longleftrightarrow> V' = V"

definition refines :: "'m alter_env \<Rightarrow> DuckLakeTableEntry \<Rightarrow> AlterTableInfo \<Rightarrow> DuckLakeTableEntry option \<times> DuckLakeTableEntry \<times> 'm alter_txn \<Rightarrow> bool" where
  "refines E t info r \<longleftrightarrow> table_ok E (resulting r) \<and> alter_view (same_name E) (counter E t) info (column_view t) (column_view (resulting r))"

named_theorems alter_refines \<open>what the forms of \<^verbatim>\<open>ALTER TABLE\<close> do to the columns a client sees\<close>

lemma length_column_view [simp]: "length (column_view t) = length (te_columns t)"
  by (simp add: column_view_def)

lemma column_view_nth:
  "j < length (te_columns t) \<Longrightarrow> column_view t ! j =
     (GetFieldIndex (roots t ! j), col_name (te_columns t ! j), col_type (te_columns t ! j), NotNullConstraint j \<in> set (te_constraints t))"
  by (simp add: column_view_def)

lemma column_view_names: "map (\<lambda>(i, n, ty, b). n) (column_view t) = map col_name (te_columns t)"
  by (rule nth_equalityI) (simp_all add: column_view_nth)

lemma column_view_map:
  assumes "length (te_columns e) = length (te_columns t)" and "\<And>j. j < length (te_columns t) \<Longrightarrow> column_view e ! j = g (column_view t ! j)"
  shows "column_view e = map g (column_view t)"
  by (rule nth_equalityI) (simp_all add: assms)

lemma kept_columns_view:
  assumes "kept_columns E t e cs"
  shows "table_ok E e" and "length (te_columns e) = length (te_columns t)"
    and "j < length (te_columns t) \<Longrightarrow> column_view e ! j =
      (GetFieldIndex (roots t ! j), col_name (te_columns t ! j), col_type (te_columns t ! j), NotNullConstraint j \<in> set cs)"
  using assms by (simp_all add: kept_columns_def column_view_nth)

lemma kept_columns_same: "kept_columns E t e (te_constraints t) \<Longrightarrow> column_view e = column_view t"
  using kept_columns_view [of E t e "te_constraints t"] by (intro nth_equalityI) (simp_all add: column_view_nth)

lemma nth_remove_nth: "j < length xs - 1 \<Longrightarrow> remove_nth i xs ! j = xs ! (if j < i then j else Suc j)"
  by (cases "i \<le> length xs") (auto simp: remove_nth_def nth_append)

lemma replaced_table_ok: "replaced E t e i new_type \<Longrightarrow> table_ok E e"
  by (simp add: replaced_def)

context alter_laws
begin

lemma replaced_view:
  assumes "table_ok E t" and "column_index E (te_columns t) nm = Some i" and "replaced E t e i new_type"
  shows "column_view e = map (\<lambda>(k, n, ty, b). (k, n, if same_name E n nm then new_type else ty, b)) (column_view t)"
proof -
  note facts = column_facts [OF table_okD(1) [OF assms(1)] assms(2)]
  from assms(3) obtain c f where "te_columns e = (te_columns t)[i := c]" "roots e = (roots t)[i := f]"
    "col_name c = col_name (te_columns t ! i)" "col_type c = new_type" "GetFieldIndex f = GetFieldIndex (roots t ! i)"
    "te_constraints e = te_constraints t" by (auto simp: replaced_def)
  then show ?thesis
    using facts by (intro column_view_map) (simp_all add: column_view_nth nth_list_update)
qed

lemma replaced_some_view:
  assumes "table_ok E t" and "column_index E (te_columns t) nm = Some i" and "replaced E t e i new_type"
  shows "table_ok E e \<and> (\<exists>new_type. column_view e = map (\<lambda>(k, n, ty, b). (k, n, if same_name E n nm then new_type else ty, b)) (column_view t))"
  using assms(3) replaced_view [OF assms] unfolding replaced_def by blast

lemma replaced_same_view:
  assumes "table_ok E t" and "column_index E (te_columns t) nm = Some i" and "replaced E t e i (col_type (te_columns t ! i))"
  shows "column_view e = column_view t"
proof -
  note facts = column_facts [OF table_okD(1) [OF assms(1)] assms(2)]
  have len: "length (te_columns e) = length (te_columns t)" using assms(3) by (auto simp: replaced_def)
  show ?thesis
    unfolding replaced_view [OF assms] using facts by (intro nth_equalityI) (auto simp: column_view_nth)
qed

lemma rename_view:
  assumes "table_ok E t" and "AlterTable_RenameColumn E old_name new_name t x = Inr r"
  shows "column_view (resulting r) = map (\<lambda>(i, n, ty, b). (i, if same_name E n old_name then new_name else n, ty, b)) (column_view t)"
proof -
  from RenameColumn_result [OF assms] obtain i where i: "column_index E (te_columns t) old_name = Some i"
    and e: "te_columns (resulting r) = (te_columns t)[i := (te_columns t ! i)\<lparr>col_name := new_name\<rparr>]"
      "roots (resulting r) = (roots t)[i := Rename (roots t ! i) new_name]"
      "te_constraints (resulting r) = map (rename_key E old_name new_name) (te_constraints t)" by blast
  note facts = column_facts [OF table_okD(1) [OF assms(1)] i]
  note nn = constraints_ok_map(2) [OF table_okD(2) [OF assms(1)], of _ old_name new_name]
  show ?thesis using facts by (intro column_view_map) (simp_all add: column_view_nth e nth_list_update nn del: set_map)
qed

lemma add_view:
  assumes "table_ok E t" and "AlterTable_AddColumn E c b t x = Inr r" and "room E t (resulting r)"
  shows "alter_view (same_name E) (counter E t) (AddColumnInfo c b) (column_view t) (column_view (resulting r))"
proof -
  have ex: "list_ex (\<lambda>(i, n, ty, b). same_name E n (col_name c)) (column_view t) \<longleftrightarrow> ColumnExists E (te_columns t) (col_name c)"
  proof -
    have "list_ex (\<lambda>(i, n, ty, b). same_name E n (col_name c)) (column_view t) \<longleftrightarrow>
        (\<exists>n \<in> set (map (\<lambda>(i, n, ty, b). n) (column_view t)). same_name E n (col_name c))"
      by (auto simp: list_ex_iff case_prod_unfold)
    then show ?thesis unfolding column_view_names column_exists by (auto simp: same_name image_iff eq_commute)
  qed
  show ?thesis
  proof (cases "b \<and> ColumnExists E (te_columns t) (col_name c)")
    case True
    then have "resulting r = t" using assms(2) by (auto simp: AlterTable_AddColumn_def bind_res_Inr_iff)
    then show ?thesis using True by (simp add: ex)
  next
    case False
    with AddColumn_result [OF assms] obtain n f where n: "counter E t = Some n" "GetFieldIndex f = FieldIndex n"
      and e: "te_columns (resulting r) = te_columns t @ [c]" "roots (resulting r) = roots t @ [f]" "te_constraints (resulting r) = te_constraints t" by blast
    have len: "length (roots t) = length (te_columns t)" using table_okD(1) [OF assms(1)] unfolding columns_ok_def by (metis length_map)
    have "NotNullConstraint (length (te_columns t)) \<notin> set (te_constraints t)"
      using table_okD(2) [OF assms(1)] by (auto simp: constraints_ok_def list_all_iff)
    then have "column_view (resulting r) = column_view t @ [(FieldIndex n, col_name c, col_type c, False)]"
      using len by (simp add: column_view_def e n(2) nth_append)
    then show ?thesis using n False by (simp add: ex)
  qed
qed

lemma remove_view:
  assumes "table_ok E t" and "AlterTable_RemoveColumn E nm b t x = Inr r"
  shows "column_view (resulting r) = filter (\<lambda>(i, n, ty, b). \<not> same_name E n nm) (column_view t)"
proof (cases "\<not> ColumnExists E (te_columns t) nm \<and> b")
  case True
  then have r: "resulting r = t" using assms(2) by (auto simp: AlterTable_RemoveColumn_def)
  from True have "\<forall>d \<in> set (column_view t). case d of (i, n, ty, b) \<Rightarrow> \<not> same_name E n nm"
    by (auto simp: column_exists column_view_def same_name image_iff) (metis nth_mem)
  then show ?thesis unfolding r by (metis (no_types, lifting) filter_True)
next
  case False
  with RemoveColumn_result [OF assms] obtain i where i: "column_index E (te_columns t) nm = Some i"
    and e: "te_columns (resulting r) = remove_nth i (te_columns t)" "roots (resulting r) = remove_nth i (roots t)"
      "te_constraints (resulting r) = List.map_filter (without_column E i nm) (te_constraints t)" by blast
  note facts = column_facts [OF table_okD(1) [OF assms(1)] i]
  have nn: "NotNullConstraint j \<in> set (te_constraints (resulting r)) \<longleftrightarrow> NotNullConstraint (if j < i then j else Suc j) \<in> set (te_constraints t)" for j
  proof -
    have "k \<noteq> i \<Longrightarrow> j = shifted i k \<longleftrightarrow> k = (if j < i then j else Suc j)" for k by (auto simp: shifted_def)
    then show ?thesis unfolding e(3) not_null_indexes_iff [symmetric] not_null_without by (auto simp: image_iff)
  qed
  have "column_view (resulting r) = remove_nth i (column_view t)"
    using facts(1,2) by (intro nth_equalityI) (simp_all add: column_view_nth nn [unfolded e] e length_remove_nth nth_remove_nth)
  also have "\<dots> = filter (\<lambda>d. \<not> (case d of (i, n, ty, b) \<Rightarrow> same_name E n nm)) (column_view t)"
    using facts by (intro filter_unique [symmetric]) (simp_all add: column_view_nth)
  finally show ?thesis by (simp add: case_prod_unfold)
qed

lemma set_not_null_view:
  assumes "table_ok E t" and "AlterTable_SetNotNull E nm t x = Inr r"
  shows "column_view (resulting r) = map (\<lambda>(i, n, ty, b). (i, n, ty, b \<or> same_name E n nm)) (column_view t)"
proof -
  from SetNotNull_keeps [OF assms] obtain i where i: "column_index E (te_columns t) nm = Some i"
    and k: "kept_columns E t (resulting r) (te_constraints t @ [NotNullConstraint i])" by blast
  note facts = column_facts [OF table_okD(1) [OF assms(1)] i]
  show ?thesis using facts kept_columns_view [OF k] by (intro column_view_map) (auto simp: column_view_nth)
qed

lemma drop_not_null_view:
  assumes "table_ok E t" and "AlterTable_DropNotNull E nm t x = Inr r"
  shows "column_view (resulting r) = map (\<lambda>(i, n, ty, b). (i, n, ty, b \<and> \<not> same_name E n nm)) (column_view t)"
proof -
  from DropNotNull_keeps [OF assms] obtain i k where i: "column_index E (te_columns t) nm = Some i"
    and c: "FindNotNullConstraint (te_constraints t) i = Some k" and k: "kept_columns E t (resulting r) (remove_nth k (te_constraints t))" by blast
  note facts = column_facts [OF table_okD(1) [OF assms(1)] i]
  show ?thesis
    using facts kept_columns_view [OF k] not_null_removed [OF table_okD(2) [OF assms(1)] c] by (intro column_view_map) (auto simp: column_view_nth)
qed

text \<open>Every form, with the specification of the columns and the invariant.\<close>

lemma kept_refines:
  assumes "kept_columns E t (resulting r) (te_constraints t)" and "alter_view (same_name E) (counter E t) info (column_view t) (column_view t)"
  shows "refines E t info r"
  using assms kept_columns_same [OF assms(1)] kept_columns_view(1) [OF assms(1)] by (simp add: refines_def)

lemma whole_table_refines [alter_refines]:
  "table_ok E t \<Longrightarrow> AlterTable_RenameTable E nm t x = Inr r \<Longrightarrow> refines E t (RenameTableInfo nm) r"
  "table_ok E t \<Longrightarrow> AlterTable_SetPartitionedBy E keys t x = Inr r \<Longrightarrow> refines E t (SetPartitionedByInfo keys) r"
  "table_ok E t \<Longrightarrow> AlterTable_SetSortedBy E orders t x = Inr r \<Longrightarrow> refines E t (SetSortedByInfo orders) r"
  "table_ok E t \<Longrightarrow> AlterTable_SetTableOptions E options t x = Inr r \<Longrightarrow> refines E t (SetTableOptionsInfo options) r"
  "table_ok E t \<Longrightarrow> AlterTable_ResetTableOptions E names t x = Inr r \<Longrightarrow> refines E t (ResetTableOptionsInfo names) r"
  by (rule kept_refines, erule (1) RenameTable_keeps SetPartitionedBy_keeps SetSortedBy_keeps SetTableOptions_keeps ResetTableOptions_keeps, simp)+

lemma AddConstraint_refines [alter_refines]:
  assumes "table_ok E t" and "AlterTable_AddConstraint E c t x = Inr r"
  shows "refines E t (AddConstraintInfo c) r"
proof -
  from AddConstraint_keeps [OF assms] obtain names b where k: "kept_columns E t (resulting r) (te_constraints t @ [UniqueNamesConstraint names b])"
    by blast
  have "column_view (resulting r) = column_view t" using kept_columns_view [OF k] by (intro nth_equalityI) (simp_all add: column_view_nth)
  then show ?thesis using kept_columns_view(1) [OF k] by (simp add: refines_def)
qed

lemma not_null_refines [alter_refines]:
  "table_ok E t \<Longrightarrow> AlterTable_SetNotNull E nm t x = Inr r \<Longrightarrow> refines E t (SetNotNullInfo nm) r"
  "table_ok E t \<Longrightarrow> AlterTable_DropNotNull E nm t x = Inr r \<Longrightarrow> refines E t (DropNotNullInfo nm) r"
  unfolding refines_def alter_view.simps
  using set_not_null_view [of t nm x r] SetNotNull_keeps [of t nm x r] drop_not_null_view [of t nm x r] DropNotNull_keeps [of t nm x r]
    kept_columns_view(1) by blast+

lemma column_refines [alter_refines]:
  "table_ok E t \<Longrightarrow> AlterTable_RenameColumn E old_name new_name t x = Inr r \<Longrightarrow> refines E t (RenameColumnInfo old_name new_name) r"
  "table_ok E t \<Longrightarrow> AlterTable_AddColumn E c b t x = Inr r \<Longrightarrow> room E t (resulting r) \<Longrightarrow> refines E t (AddColumnInfo c b) r"
  "table_ok E t \<Longrightarrow> AlterTable_RemoveColumn E nm b t x = Inr r \<Longrightarrow> refines E t (RemoveColumnInfo nm b) r"
proof -
  show "refines E t (RenameColumnInfo old_name new_name) r" if "table_ok E t" "AlterTable_RenameColumn E old_name new_name t x = Inr r"
    unfolding refines_def alter_view.simps using rename_view [OF that] RenameColumn_result [OF that] by blast
  show "refines E t (AddColumnInfo c b) r" if "table_ok E t" "AlterTable_AddColumn E c b t x = Inr r" "room E t (resulting r)"
    unfolding refines_def using add_view [OF that] AddColumn_result [OF that] that(1) by fastforce
  show "refines E t (RemoveColumnInfo nm b) r" if "table_ok E t" "AlterTable_RemoveColumn E nm b t x = Inr r"
    unfolding refines_def alter_view.simps using remove_view [OF that] RemoveColumn_result [OF that] that(1) by fastforce
qed

lemma column_type_refines [alter_refines]:
  "table_ok E t \<Longrightarrow> AlterTable_ChangeColumnType E nm ty e t x = Inr r \<Longrightarrow> room E t (resulting r) \<Longrightarrow> refines E t (ChangeColumnTypeInfo nm ty e) r"
  "table_ok E t \<Longrightarrow> AlterTable_SetDefault E nm d t x = Inr r \<Longrightarrow> refines E t (SetDefaultInfo nm d) r"
proof -
  show "refines E t (ChangeColumnTypeInfo nm ty e) r" if "table_ok E t" "AlterTable_ChangeColumnType E nm ty e t x = Inr r" "room E t (resulting r)"
    unfolding refines_def alter_view.simps using ChangeColumnType_result [OF that] replaced_view [OF that(1)] replaced_table_ok by blast
  show "refines E t (SetDefaultInfo nm d) r" if "table_ok E t" "AlterTable_SetDefault E nm d t x = Inr r"
    unfolding refines_def alter_view.simps using SetDefault_result [OF that] replaced_same_view [OF that(1)] replaced_table_ok by blast
qed

lemma field_refines [alter_refines]:
  "table_ok E t \<Longrightarrow> AlterTable_AddField E path c b t x = Inr r \<Longrightarrow> room E t (resulting r) \<Longrightarrow> refines E t (AddFieldInfo path c b) r"
  "table_ok E t \<Longrightarrow> AlterTable_RemoveField E path b t x = Inr r \<Longrightarrow> refines E t (RemoveFieldInfo path b) r"
  "table_ok E t \<Longrightarrow> AlterTable_RenameField E path nm t x = Inr r \<Longrightarrow> refines E t (RenameFieldInfo path nm) r"
proof -
  show "refines E t (RenameFieldInfo path nm) r" if "table_ok E t" "AlterTable_RenameField E path nm t x = Inr r"
    unfolding refines_def alter_view.simps using RenameField_result [OF that] replaced_some_view [OF that(1)] by blast
  show "refines E t (RemoveFieldInfo path b) r" if "table_ok E t" "AlterTable_RemoveField E path b t x = Inr r"
    unfolding refines_def alter_view.simps using RemoveField_result [OF that] replaced_some_view [OF that(1)] that(1) by fastforce
  show "refines E t (AddFieldInfo path c b) r" if that: "table_ok E t" "AlterTable_AddField E path c b t x = Inr r" "room E t (resulting r)"
    using AddField_result [OF that]
  proof
    assume "\<exists>n. resulting r = t\<lparr>te_next_column_id := Some n\<rparr> \<and> counter E t = Some n"
    then show ?thesis using AddColumn_counter [OF that(1)] by (auto simp: refines_def column_view_def)
  qed (use replaced_some_view [OF that(1)] in \<open>unfold refines_def alter_view.simps, blast\<close>)
qed

lemma Alter_result:
  assumes "table_ok E t" and "Alter E info t x = Inr r" and "room E t (resulting r)"
  shows "refines E t info r"
proof -
  have "Alter_dispatch E info t x = Inr r" using assms(2) by (auto simp: Alter_def split: if_splits)
  then show ?thesis using assms(1,3) by (cases info) (auto intro: alter_refines)
qed

lemma table_step_ok:
  assumes "table_step E (t, x) (t', x')" and "table_ok E t" and "room E t t'"
  shows "table_ok E t'"
  using assms(1)
proof (cases rule: table_step.cases)
  case (step_alter info r)
  then show ?thesis using Alter_result [OF assms(2)] assms(3) by (simp add: refines_def)
next
  case (step_comment c r)
  then show ?thesis using SetComment_keeps [OF assms(2)] kept_columns_view(1) by blast
next
  case (step_column_comment nm c r)
  then show ?thesis using SetColumnComment_result [OF assms(2)] by (fastforce simp: replaced_def)
qed

text \<open>Several changes in a row, none of which runs out of identifiers.\<close>

end

definition table_steps :: "'m alter_env \<Rightarrow> DuckLakeTableEntry \<times> 'm alter_txn \<Rightarrow> DuckLakeTableEntry \<times> 'm alter_txn \<Rightarrow> bool" where
  "table_steps E = (\<lambda>s s'. table_step E s s' \<and> room E (fst s) (fst s'))\<^sup>*\<^sup>*"

lemma table_steps_ok:
  assumes "alter_laws E" and "table_steps E s s'" and "table_ok E (fst s)"
  shows "table_ok E (fst s')"
  using assms(2) unfolding table_steps_def
proof (induction rule: rtranclp_induct)
  case (step s1 s2)
  then show ?case using alter_laws.table_step_ok [OF assms(1), of "fst s1" "snd s1" "fst s2" "snd s2"] by simp
qed (rule assms(3))

section \<open>An instance\<close>

text \<open>Expressions are printed as the number a countable type gives them.\<close>

instance LogicalTypeId :: countable
  by countable_datatype

instance LogicalType :: countable
  by countable_datatype

instance Value :: countable
  by countable_datatype

instance ParsedExpression :: countable
  by countable_datatype

definition print_number :: "ParsedExpression \<Rightarrow> string" where
  "print_number e = replicate (to_nat e) CHR ''x''"

definition values_ref :: "Value duckdb_value" where
  "values_ref = \<lparr>Value_DefaultCastAs = (\<lambda>s t. Inr (Value t (Some s))), Value_less = (\<lambda>a b. False), Value_equal = (=), Value_IsNull = IsNull,
     Value_ToString = (\<lambda>v. case value_text v of Some s \<Rightarrow> s | None \<Rightarrow> ''NULL''), NumericLimits_double_Maximum = 0, NumericLimits_double_Minimum = 0,
     MinValue_double = min, MaxValue_double = max\<rparr>"

definition alter_ref :: "unit alter_env" where
  "alter_ref = \<lparr>ae_evolution = evolution_ref\<lparr>ev_expr_string := print_number\<rparr>, ae_options = option_ref, ae_version = V1_0, ae_schema_id = SchemaIndex 1,
     ae_values = values_ref,
     ae_add_column = (\<lambda>cs c. if ascii_lower (col_name c) \<in> lower_name ` set cs then Inl (CatalogException ''Column already exists'') else Inr (cs @ [c])),
     ae_parse = (\<lambda>s. Inr [from_nat (length s)]), ae_get_int64 = (\<lambda>v. 0), ae_list_children = (\<lambda>v. []), ae_try_cast_idx = (\<lambda>s. None),
     ae_evaluate_option = (\<lambda>nm e. Inr null_value), ae_next_column_id = (\<lambda>i. Inr 10), ae_created_with_table = (\<lambda>a b. Inr True),
     ae_table_stats = (\<lambda>i. Inr None), ae_scan_column = (\<lambda>t c. Inr []), ae_metadata = sample_metadata\<rparr>"

interpretation alter_ref: alter_laws alter_ref
proof (rule alter_laws.intro)
  show "evolution (ae_evolution alter_ref)"
    by unfold_locales (auto simp: alter_ref_def evolution_ref_def duckdb_types_ref_def ref.string_laws)
qed (auto simp: alter_ref_def evolution_ref_def exprs_ref_def print_number_def)

text \<open>A table \<open>(a INTEGER, b BIGINT NOT NULL)\<close>.\<close>

definition sample_column :: "string \<Rightarrow> LogicalTypeId \<Rightarrow> ColumnDefinition" where
  "sample_column n i = \<lparr>col_name = n, col_type = plain_type i, col_default = None, col_generated = False, col_compression_auto = True, col_comment = None\<rparr>"

definition sample_root :: "string \<Rightarrow> LogicalTypeId \<Rightarrow> idx \<Rightarrow> DuckLakeFieldId" where
  "sample_root n i k = FieldId \<lparr>cd_id = FieldIndex k, cd_initial_default = null_value, cd_default_value = None\<rparr> n (plain_type i) []"

definition sample_entry :: DuckLakeTableEntry where
  "sample_entry = \<lparr>te_name = ''t'', te_comment = None, te_columns = [sample_column ''a'' INTEGER, sample_column ''b'' BIGINT],
     te_constraints = [NotNullConstraint 1], te_id = 5, te_uuid = ''u'', te_data_path = ''t/'',
     te_field_data = FieldData_of [sample_root ''a'' INTEGER 1, sample_root ''b'' BIGINT 2], te_next_column_id = None, te_inlined_data_tables = [],
     te_partition = None, te_sort = None, te_options = [], te_local_change = change_of LC_NONE, te_changed_fields = None, te_added_constraint = None\<rparr>"

definition sample_txn :: "unit alter_txn" where
  "sample_txn = \<lparr>at_local_changes = [], at_local_catalog_id = 0, at_session = sample_session\<rparr>"

lemma sample_entry_ok: "table_ok alter_ref sample_entry"
  by code_simp

lemma sample_drop: "case Alter alter_ref (RemoveColumnInfo ''A'' False) sample_entry sample_txn of
     Inr r \<Rightarrow> forest_ids (roots (resulting r)) = [FieldIndex 2] \<and> column_view (resulting r) = [(FieldIndex 2, ''b'', plain_type BIGINT, True)]
   | Inl _ \<Rightarrow> False"
  by code_simp

lemma sample_add: "case Alter alter_ref (AddColumnInfo (sample_column ''c'' VARCHAR) False) sample_entry sample_txn of
     Inr r \<Rightarrow> forest_ids (roots (resulting r)) = [FieldIndex 1, FieldIndex 2, FieldIndex 10]
   | Inl _ \<Rightarrow> False"
  by code_simp

lemma sample_two: "case Alter alter_ref (AddColumnInfo (sample_column ''c'' VARCHAR) False) sample_entry sample_txn of
     Inr r \<Rightarrow>
       (case Alter alter_ref (RemoveColumnInfo ''A'' False) (resulting r) (snd (snd r)) of
          Inr q \<Rightarrow> te_next_column_id (resulting r) = Some 11 \<and> length (forest_ids (roots (resulting q))) = 2 \<and>
            map col_name (te_columns (resulting q)) = [''b'', ''c'']
        | Inl _ \<Rightarrow> False)
   | Inl _ \<Rightarrow> False"
  by code_simp

section \<open>Properties\<close>



text \<open>
  C11. \<^verbatim>\<open>ALTER TABLE\<close> refines its effect on the columns a client sees, listed in order with identifier, name, type and NOT NULL flag. A rename changes the name
  of one column only. Adding a column appends one under the next identifier without the flag, or nothing with \<^verbatim>\<open>IF NOT EXISTS\<close>.
  Dropping one removes it, and the flags stay with their columns although the positions behind it shift. Setting and dropping NOT NULL change one flag,
  changing a type one type, edits of nested fields at most the type of the column they are in. Every other form changes none of this. In
  particular no statement changes the identifier of a column.
\<close>

theorem alter_refines_view:
  assumes "alter_laws E" and "table_ok E t" and "Alter E info t x = Inr r" and "room E t (resulting r)"
  shows "alter_view (same_name E) (counter E t) info (column_view t) (column_view (resulting r))"
  using alter_laws.Alter_result [OF assms] by (simp add: refines_def)

theorem alter_refines_view_witness:
  "\<exists>r. Alter alter_ref (RemoveColumnInfo ''A'' False) sample_entry sample_txn = Inr r \<and>
     column_view (resulting r) = [(FieldIndex 2, ''b'', plain_type BIGINT, True)] \<and>
     alter_view (same_name alter_ref) (Some 10) (RemoveColumnInfo ''A'' False) (column_view sample_entry) (column_view (resulting r))"
proof -
  obtain r where r: "Alter alter_ref (RemoveColumnInfo ''A'' False) sample_entry sample_txn = Inr r" and ids: "forest_ids (roots (resulting r)) = [FieldIndex 2]"
    and view: "column_view (resulting r) = [(FieldIndex 2, ''b'', plain_type BIGINT, True)]"
    using sample_drop by (auto simp del: concat_map_singleton split: sum.splits)
  have cnt: "counter alter_ref sample_entry = Some 10" by (simp add: counter_def sample_entry_def alter_ref_def)
  have "room alter_ref sample_entry (resulting r)" by (simp only: room_def cnt option.case ids) simp
  from alter_refines_view [OF alter_ref.alter_laws_axioms sample_entry_ok r this] r view cnt show ?thesis by auto
qed

end
