(* ===== verification/Spec2Isabelle.thy ===== *)
theory Spec2Isabelle
  imports DL_Concurrency DL_Stats DL_Rbac DL_DeleteFilter DL_AlterTable
begin

text \<open>
  \<^bold>\<open>DuckLake.\<close> A lakehouse format for DuckDB: tables are sets of Parquet files, and everything about
  them (snapshots, schemas, columns, files, statistics) is kept in the tables of a SQL database, the
  metadata database. A transaction collects its changes in memory, writes its data files, and
  commits by inserting one row into the table of snapshots together with a text that summarises what
  it changed; a transaction that finds another one was faster reads the summaries written in the
  meantime, checks them for conflicts and tries again.

  \<^bold>\<open>The parts of the program and the theories that model them\<close> (paths are under \<^verbatim>\<open>src/src/\<close>).

  \<^item> \<^verbatim>\<open>DL_Prelude\<close>: the shared vocabulary. \<open>idx\<close> is \<^verbatim>\<open>idx_t\<close> at its 64 bits, a C++ exception is the
    left side of a sum (\<open>'a res\<close>), DuckDB's string functions are the fields of a record with
    their documented laws in the locale \<open>duckdb_strings\<close>, interpreted on \<open>duckdb_ref\<close>; the locale
    \<open>codec\<close> is the contract of every encoder and decoder.
  \<^item> \<^verbatim>\<open>DL_Index\<close>, \<^verbatim>\<open>DL_Quoting\<close>, \<^verbatim>\<open>DL_Changes\<close>: \<^verbatim>\<open>common/index.hpp\<close>, the quoted names of
    \<^verbatim>\<open>common/ducklake_util.cpp\<close>, and the summaries of \<^verbatim>\<open>storage/ducklake_transaction_changes.cpp\<close> with
    their parser. Names that contain quotes, commas and dots come back unchanged.
  \<^item> \<^verbatim>\<open>DL_Types\<close>, \<^verbatim>\<open>DL_FieldData\<close>, \<^verbatim>\<open>DL_Stats\<close>, \<^verbatim>\<open>DL_DataFile\<close>: the stored spelling of types, the
    identifier trees of columns, column statistics and their merge, data files and inlined rows
    (\<^verbatim>\<open>common/ducklake_types.cpp\<close>, \<^verbatim>\<open>storage/ducklake_field_data.cpp\<close>, \<^verbatim>\<open>storage/ducklake_stats.cpp\<close>,
    \<^verbatim>\<open>common/ducklake_data_file.cpp\<close>, \<^verbatim>\<open>storage/ducklake_inlined_data.cpp\<close>).
  \<^item> \<^verbatim>\<open>DL_LocalChanges\<close>, \<^verbatim>\<open>DL_TransactionState\<close>, \<^verbatim>\<open>DL_WriteChanges\<close>: what a transaction has accumulated
    (\<^verbatim>\<open>LocalTableChanges\<close> of \<^verbatim>\<open>storage/ducklake_transaction.cpp\<close>), the summary \<^verbatim>\<open>GetTransactionChanges\<close>
    computes of it and the text \<^verbatim>\<open>WriteSnapshotChanges\<close> stores
    (\<^verbatim>\<open>storage/ducklake_transaction_state.cpp\<close>).
  \<^item> \<^verbatim>\<open>DL_Conflicts\<close>, \<^verbatim>\<open>DL_Commit\<close>, \<^verbatim>\<open>DL_Concurrency\<close>: \<^verbatim>\<open>CheckForConflicts\<close>, the loop of \<^verbatim>\<open>Commit\<close>, and
    any number of transactions that run against one metadata database, as an inductive step
    relation. The properties of the reachable states are the isolation guarantees of the program.
  \<^item> \<^verbatim>\<open>DL_Rbac\<close>: roles, grants and access checks (\<^verbatim>\<open>storage/ducklake_rbac.cpp\<close>,
    \<^verbatim>\<open>storage/ducklake_authorization.cpp\<close>, \<^verbatim>\<open>functions/ducklake_rbac_functions.cpp\<close>); the grant store
    refines a map from scopes to privilege sets.
  \<^item> \<^verbatim>\<open>DL_DeletionVector\<close>, \<^verbatim>\<open>DL_Puffin\<close>: the binary formats of deleted positions
    (\<^verbatim>\<open>storage/ducklake_deletion_vector.cpp\<close>, \<^verbatim>\<open>storage/ducklake_puffin.cpp\<close>), byte by byte.
  \<^item> \<^verbatim>\<open>DL_Partition\<close>: the bucket hash, partition transforms and Hive paths
    (\<^verbatim>\<open>functions/ducklake_murmur3.cpp\<close>, \<^verbatim>\<open>storage/ducklake_partition_data.cpp\<close>).
  \<^item> \<^verbatim>\<open>DL_DeleteFilter\<close>: which rows of a data file a scan skips or, in a scan of deletions, returns
    (\<^verbatim>\<open>storage/ducklake_delete_filter.cpp\<close> and its uses in \<^verbatim>\<open>storage/ducklake_multi_file_reader.cpp\<close>). With the two formats above,
    what a delete wrote is what a read hides.
  \<^item> \<^verbatim>\<open>DL_Options\<close>: options with their parsers, scopes and defaults, and what a rollback restores (\<^verbatim>\<open>common/ducklake_util.cpp\<close>,
    \<^verbatim>\<open>storage/ducklake_catalog.cpp\<close>, \<^verbatim>\<open>storage/ducklake_transaction.cpp\<close>).
  \<^item> \<^verbatim>\<open>DL_TypeEvolution\<close>, \<^verbatim>\<open>DL_TableEntry\<close>, \<^verbatim>\<open>DL_TableAlter\<close>: the entry of a table and every form of \<^verbatim>\<open>ALTER TABLE\<close>, the change of a nested
    type included (\<^verbatim>\<open>storage/ducklake_table_entry.cpp\<close>). \<^verbatim>\<open>DL_TableInvariant\<close> has the invariant \<open>table_ok\<close> that ties columns, field trees,
    constraints, partition and sort order together, \<^verbatim>\<open>DL_AlterColumns\<close> what each form makes of them, and \<^verbatim>\<open>DL_AlterTable\<close> the
    properties: the invariant holds along every sequence of statements, and the statements refine \<open>alter_view\<close>, a
    specification on the list of columns a client sees.

  \<^bold>\<open>Conventions.\<close> A struct is a record, an enumeration a datatype, a container that the program iterates
  in key order a sorted association list or a finite set read in order, a hash container a set or a map with its
  iteration order as a parameter. Every operation returns the new state or the exception. DuckDB, the
  roaring bitmaps, yyjson, the file system and the metadata database are not part of the repository:
  they are records of functions the definitions take as arguments, and what the program relies on
  are the laws of a locale; every locale is interpreted on concrete functions.

  \<^bold>\<open>Loops and bounds.\<close> The loops of parsers and searches are functions with a termination proof; the retry loop
  is a recursion over the number of attempts at 64 bits, wrap-around included. No definition uses fuel
  whose exhaustion could be mistaken for a result.

  \<^bold>\<open>Not modelled.\<close> The SQL text the metadata manager builds and the answers of the databases behind it; the
  physical operators, binder hooks and table functions that only connect to DuckDB's engine; attaching, secrets and
  autoloading; materialized views and replication, which are mostly generated SQL. The manifest lists each of
  these parts with the reason.
\<close>

end
